(* ===== verification/Prelude.thy ===== *)
theory Prelude
  imports Main "HOL-Library.Word" "HOL-Library.Multiset"
begin

text \<open>
  Shared ground of the development: names for the machine integers, the collections of
  rewrite rules the component theories fill, a generic reachability predicate with the
  invariant interface every stateful component is checked against, and lemmas on lists and
  words that several components use.
\<close>

section \<open>Machine integers\<close>

type_synonym byte = "8 word"
type_synonym u16 = "16 word"
type_synonym u32 = "32 word"
type_synonym u64 = "64 word"

text \<open>
  Unsigned C integers are words: their arithmetic wraps, in C and here. Signed C integers are
  \<open>int\<close>: overflow is undefined in C, and the header of the root theory says which magnitudes
  the code meets. Conversions to a signed type of a given width are written with
  \<open>as_i32\<close>; \<open>INT64_MIN\<close> is the sentinel the delay buffer stores.
\<close>

definition as_i32 :: "int \<Rightarrow> int" where
  "as_i32 n = (n + 2 ^ 31) mod 2 ^ 32 - 2 ^ 31"

definition INT64_MIN :: int where
  "INT64_MIN = - (2 ^ 63)"

definition c_div :: "int \<Rightarrow> int \<Rightarrow> int" where
  "c_div a b = sgn a * sgn b * (\<bar>a\<bar> div \<bar>b\<bar>)"

lemma as_i32_id: "- (2 ^ 31) \<le> n \<Longrightarrow> n < 2 ^ 31 \<Longrightarrow> as_i32 n = n"
  by (simp add: as_i32_def mod_pos_pos_trivial)

lemma as_i32_range: "- (2 ^ 31) \<le> as_i32 n \<and> as_i32 n < 2 ^ 31"
  using pos_mod_bound [of "2 ^ 32" "n + 2 ^ 31"] pos_mod_sign [of "2 ^ 32" "n + 2 ^ 31"]
  by (simp add: as_i32_def)

lemma c_div_nonneg: "0 \<le> a \<Longrightarrow> 0 < b \<Longrightarrow> c_div a b = a div b"
  by (cases "a = 0") (auto simp: c_div_def)

section \<open>Rule collections\<close>

named_theorems grammar_intros \<open>that a list of bits has the syntax of an element\<close>
named_theorems record_bits_simps \<open>the bits of the bytes a record is written with\<close>

section \<open>Reachable states and invariants\<close>

inductive reach :: "('s \<Rightarrow> bool) \<Rightarrow> ('s \<Rightarrow> 's \<Rightarrow> bool) \<Rightarrow> 's \<Rightarrow> bool"
  for init :: "'s \<Rightarrow> bool" and step :: "'s \<Rightarrow> 's \<Rightarrow> bool" where
  reach_init: "init s \<Longrightarrow> reach init step s"
| reach_step: "reach init step s \<Longrightarrow> step s t \<Longrightarrow> reach init step t"

text \<open>
  The contract of a stateful component: its initial states satisfy the invariant and its
  steps keep it. The client's theorem is that the invariant holds wherever the component can
  get. Each component interprets the locale on its own step relation.
\<close>

locale guarded_system =
  fixes init :: "'s \<Rightarrow> bool"
    and step :: "'s \<Rightarrow> 's \<Rightarrow> bool"
    and inv :: "'s \<Rightarrow> bool"
  assumes init_inv: "init s \<Longrightarrow> inv s"
    and step_inv: "inv s \<Longrightarrow> step s t \<Longrightarrow> inv t"
begin

lemma always: "reach init step s \<Longrightarrow> inv s"
  by (induction rule: reach.induct) (auto intro: init_inv step_inv)

lemma keeps_from:
  assumes "inv s" and "step\<^sup>*\<^sup>* s t"
  shows "inv t"
  using assms(2,1) by (induction rule: rtranclp_induct) (auto intro: step_inv)

lemma reach_ext:
  assumes "reach init step s" and "step\<^sup>*\<^sup>* s t"
  shows "reach init step t"
  using assms(2,1) by (induction rule: rtranclp_induct) (auto intro: reach_step)

end

section \<open>Lists\<close>

lemma sorted_wrt_snoc:
  "sorted_wrt P (xs @ [x]) \<longleftrightarrow> sorted_wrt P xs \<and> (\<forall>y \<in> set xs. P y x)"
  by (simp add: sorted_wrt_append)

lemma drop_pos_append:
  "n \<le> length xs \<Longrightarrow> drop n (xs @ ys) = drop n xs @ ys"
  by simp

lemma nth_drop_hd: "n < length xs \<Longrightarrow> drop n xs = xs ! n # drop (Suc n) xs"
  by (rule Cons_nth_drop_Suc [symmetric])

lemma sorted_wrt_drop_le:
  "sorted_wrt P xs \<Longrightarrow> i < j \<Longrightarrow> j < length xs \<Longrightarrow> P (xs ! i) (xs ! j)"
  by (simp add: sorted_wrt_iff_nth_less)

text \<open>The first index at which a condition holds, scanning upwards as a \<open>for\<close> loop does.\<close>

fun scan_up :: "('a \<Rightarrow> bool) \<Rightarrow> 'a list \<Rightarrow> nat \<Rightarrow> nat option" where
  "scan_up P [] i = None"
| "scan_up P (x # xs) i = (if P x then Some i else scan_up P xs (Suc i))"

lemma scan_up_None: "scan_up P xs i = None \<longleftrightarrow> (\<forall>x \<in> set xs. \<not> P x)"
  by (induction xs arbitrary: i) auto

lemma scan_up_Some:
  "scan_up P xs i = Some k \<longleftrightarrow>
     i \<le> k \<and> k - i < length xs \<and> P (xs ! (k - i)) \<and> (\<forall>j < k - i. \<not> P (xs ! j))"
proof (induction xs arbitrary: i)
  case Nil
  then show ?case by simp
next
  case (Cons x xs)
  show ?case
  proof (cases "P x")
    case True
    then show ?thesis by (cases "k - i") auto
  next
    case False
    show ?thesis
    proof (cases "Suc i \<le> k")
      case True
      then obtain d where d: "k = Suc i + d" by (metis le_iff_add)
      show ?thesis
        using False Cons.IH [of "Suc i"] by (auto simp: d less_Suc_eq_0_disj)
    next
      case neg: False
      then show ?thesis
        using False Cons.IH [of "Suc i"] by (cases "i = k") auto
    qed
  qed
qed

lemma all_shift: "(\<forall>j < m. Q (c + j)) \<longleftrightarrow> (\<forall>j. c \<le> j \<and> j < c + m \<longrightarrow> Q j)" for c m :: nat
  by (auto dest: spec [of _ "_ - c"]) (metis le_add_diff_inverse nat_add_left_cancel_less)

lemma scan_up_drop_Some:
  "scan_up P (drop c xs) c = Some k \<longleftrightarrow>
     c \<le> k \<and> k < length xs \<and> P (xs ! k) \<and> (\<forall>j. c \<le> j \<and> j < k \<longrightarrow> \<not> P (xs ! j))"
proof (cases "c \<le> k \<and> k < length xs")
  case True
  then obtain m where k: "k = c + m" by (auto simp: le_iff_add)
  have "(\<forall>j < m. \<not> P (drop c xs ! j)) \<longleftrightarrow> (\<forall>j < m. \<not> P (xs ! (c + j)))"
    using True k by auto
  then show ?thesis
    using True all_shift [of m "\<lambda>j. \<not> P (xs ! j)" c] by (auto simp: scan_up_Some k)
next
  case False
  then show ?thesis by (auto simp: scan_up_Some)
qed

lemma scan_up_drop_None:
  "scan_up P (drop c xs) c = None \<longleftrightarrow> (\<forall>j. c \<le> j \<and> j < length xs \<longrightarrow> \<not> P (xs ! j))"
proof (cases "c \<le> length xs")
  case True
  then have "(\<forall>x \<in> set (drop c xs). \<not> P x) \<longleftrightarrow> (\<forall>j < length xs - c. \<not> P (xs ! (c + j)))"
    by (auto simp: all_set_conv_all_nth)
  then show ?thesis
    using True all_shift [of "length xs - c" "\<lambda>j. \<not> P (xs ! j)" c] by (simp add: scan_up_None)
next
  case False
  then show ?thesis by (auto simp: scan_up_None)
qed

section \<open>Words\<close>

lemma u64_of_u32: "unat (ucast (w :: u32) :: u64) = unat w"
proof -
  have "unat w < 2 ^ 64" by (rule less_le_trans [OF unsigned_less]) simp
  then show ?thesis by (simp add: unsigned_ucast_eq take_bit_nat_eq_self)
qed

lemma u32_of_u64: "unat (ucast (w :: u64) :: u32) = unat w mod 2 ^ 32"
  by (simp add: unsigned_ucast_eq take_bit_eq_mod)

lemma word_age_mono:
  fixes a b now :: "'w::len word"
  assumes "a \<le> b" and "b \<le> now"
  shows "now - b \<le> now - a"
proof -
  have "unat (now - b) = unat now - unat b" and "unat (now - a) = unat now - unat a"
    using assms by (auto simp: unat_sub intro: order_trans)
  moreover have "unat a \<le> unat b" using assms(1) by (simp add: word_le_nat_alt)
  ultimately show ?thesis by (simp add: word_le_nat_alt)
qed

end
