(* ===== verification/Packets.thy ===== *)
theory Packets
  imports Prelude
begin

text \<open>
  The encoder packet that travels through the plugin: the fields of \<open>struct encoder_packet\<close>
  (libobs) that the source reads or writes, the codec identifiers and the millisecond clock of
  \<open>src/rtmp/flv-mux.h\<close>, and the small unsigned helpers of \<open>src/rtmp/utils.h\<close>.
\<close>

datatype obs_encoder_type = OBS_ENCODER_AUDIO | OBS_ENCODER_VIDEO

text \<open>
  \<open>pkt_data\<close> stands for the pair \<open>data\<close>/\<open>size\<close>: an empty list is a packet with
  no data. All integer fields are signed in C.
\<close>

record encoder_packet =
  pkt_data :: "byte list"
  pts :: int
  dts :: int
  timebase_num :: int
  timebase_den :: int
  enc_type :: obs_encoder_type
  keyframe :: bool
  dts_usec :: int
  sys_dts_usec :: int
  priority :: int
  drop_priority :: int
  track_idx :: nat

datatype audio_id_t = AUDIO_CODEC_NONE | AUDIO_CODEC_AAC

datatype video_id_t = CODEC_NONE | CODEC_H264 | CODEC_AV1 | CODEC_HEVC

definition to_audio_type :: "string \<Rightarrow> audio_id_t" where
  "to_audio_type codec = (if codec = ''aac'' then AUDIO_CODEC_AAC else AUDIO_CODEC_NONE)"

definition to_video_type :: "string \<Rightarrow> video_id_t" where
  "to_video_type codec =
     (if codec = ''h264'' then CODEC_H264
      else if codec = ''av1'' then CODEC_AV1
      else if codec = ''hevc'' then CODEC_HEVC
      else CODEC_NONE)"

text \<open>\<open>get_ms_time\<close>: the FLV clock of a packet. It divides by the denominator only.\<close>

definition MILLISECOND_DEN :: int where
  "MILLISECOND_DEN = 1000"

definition get_ms_time :: "encoder_packet \<Rightarrow> int \<Rightarrow> int" where
  "get_ms_time p val = as_i32 (c_div (val * MILLISECOND_DEN) (timebase_den p))"

definition min_u32 :: "u32 \<Rightarrow> u32 \<Rightarrow> u32" where
  "min_u32 a b = (if a < b then a else b)"

definition min_u16 :: "u16 \<Rightarrow> u16 \<Rightarrow> u16" where
  "min_u16 a b = (if a < b then a else b)"

definition min_i32 :: "int \<Rightarrow> int \<Rightarrow> int" where
  "min_i32 a b = (if a < b then a else b)"

definition max_u8 :: "byte \<Rightarrow> byte \<Rightarrow> byte" where
  "max_u8 a b = (if a > b then a else b)"

lemma get_ms_time_mono:
  assumes "0 \<le> u" and "u \<le> v" and "0 < timebase_den p" and "v * 1000 div timebase_den p < 2 ^ 31"
  shows "get_ms_time p u \<le> get_ms_time p v"
proof -
  have le: "u * 1000 div timebase_den p \<le> v * 1000 div timebase_den p"
    using assms(2,3) by (intro zdiv_mono1) auto
  have nonneg: "0 \<le> u * 1000 div timebase_den p"
    using assms(1,3) by (simp add: pos_imp_zdiv_nonneg_iff)
  show ?thesis
    using assms le nonneg
    by (simp add: get_ms_time_def MILLISECOND_DEN_def c_div_nonneg as_i32_id)
qed

end
