(* ===== verification/C_Double.thy ===== *)
theory C_Double
  imports Complex_Main Prelude "HOL-Library.Log_Nat"
begin

text \<open>
  The \<open>double\<close> arithmetic the source relies on: values are rationals, and every operation
  rounds its exact result to the nearest number with a 53-bit significand, ties to even
  (IEEE 754 binary64, without overflow and underflow, which the magnitudes met here exclude).
  \<open>llround\<close> rounds to the nearest integer, halves away from zero.
\<close>

definition round_half_even :: "rat \<Rightarrow> int" where
  "round_half_even x =
     (let f = \<lfloor>x\<rfloor>; r = x - of_int f
      in if r < 1 / 2 then f
         else if r > 1 / 2 then f + 1
         else if even f then f else f + 1)"

text \<open>\<open>pow2 e\<close> is 2 to the power of an integer exponent.\<close>

definition pow2 :: "int \<Rightarrow> rat" where
  "pow2 e = (if 0 \<le> e then 2 ^ nat e else 1 / 2 ^ nat (- e))"

text \<open>The exponent of a positive rational p/q: the e with 2^e at most p/q and p/q below 2^(e+1).\<close>

definition rat_exponent :: "rat \<Rightarrow> int" where
  "rat_exponent x =
     (let (p, q) = quotient_of x; e = bitlen p - bitlen q
      in if pow2 e \<le> x then e else e - 1)"

definition fl :: "rat \<Rightarrow> rat" where
  "fl x =
     (if x = 0 then 0
      else let e = rat_exponent \<bar>x\<bar> - 52
           in of_int (round_half_even (x / pow2 e)) * pow2 e)"

text \<open>The same for \<open>float\<close>, with 24 bits.\<close>

definition fl32 :: "rat \<Rightarrow> rat" where
  "fl32 x =
     (if x = 0 then 0
      else let e = rat_exponent \<bar>x\<bar> - 23
           in of_int (round_half_even (x / pow2 e)) * pow2 e)"

definition llround :: "rat \<Rightarrow> int" where
  "llround x = (if 0 \<le> x then \<lfloor>x + 1 / 2\<rfloor> else - \<lfloor>- x + 1 / 2\<rfloor>)"

text \<open>The 64 bits of a double: sign, biased exponent, significand without its leading bit.\<close>

definition double_bits :: "rat \<Rightarrow> 64 word" where
  "double_bits x =
     (if x = 0 then 0
      else let e = rat_exponent \<bar>x\<bar>
           in (if x < 0 then 2 ^ 63 else 0) +
              word_of_int ((e + 1022) * 2 ^ 52 + round_half_even (\<bar>x\<bar> / pow2 (e - 52))))"

section \<open>Error bounds\<close>

text \<open>
  The conversion of a double, given by its bits, to a signed integer: towards zero. An infinity, a
  NaN or a value out of range makes the conversion in C undefined.
\<close>

definition double_to_int :: "64 word \<Rightarrow> int" where
  "double_to_int w =
     (let e = uint (take_bit 11 (drop_bit 52 w));
          m = 2 ^ 52 + uint (take_bit 52 w);
          a = (if e = 0 then 0 else if 1075 \<le> e then m * 2 ^ nat (e - 1075) else m div 2 ^ nat (1075 - e))
      in if bit w 63 then - a else a)"

lemma round_half_even_err: "\<bar>of_int (round_half_even x) - x\<bar> \<le> 1 / 2"
proof -
  have "0 \<le> x - of_int \<lfloor>x\<rfloor>" and "x - of_int \<lfloor>x\<rfloor> < 1"
    by linarith+
  then show ?thesis by (auto simp: round_half_even_def Let_def abs_if; linarith)
qed

lemma round_half_even_int [simp]: "round_half_even (of_int n) = n"
  by (simp add: round_half_even_def)

lemma llround_err: "\<bar>of_int (llround x) - x\<bar> \<le> 1 / 2"
  unfolding llround_def by (auto simp: abs_if) linarith+

lemma llround_int [simp]: "llround (of_int n) = n"
proof -
  have "\<lfloor>(of_int n :: rat) + 1 / 2\<rfloor> = n" for n :: int
    by (rule floor_unique) auto
  from this [of n] this [of "- n"] show ?thesis by (simp add: llround_def)
qed

lemma pow2_pos [simp]: "0 < pow2 e"
  by (simp add: pow2_def)

lemma pow2_nonzero [simp]: "pow2 e \<noteq> 0"
  using pow2_pos [of e] by linarith

lemma pow2_powi: "pow2 e = 2 powi e"
  by (simp add: pow2_def power_int_def field_simps)

lemma pow2_add: "pow2 (a + b) = pow2 a * pow2 b"
  by (simp add: pow2_powi power_int_add)

lemma pow2_diff: "pow2 (a - b) = pow2 a / pow2 b"
  by (simp add: pow2_powi power_int_diff)

lemma pow2_nat: "pow2 (int n) = 2 ^ n"
  by (simp add: pow2_def)

lemma bitlen_rat_bounds:
  assumes "0 < p"
  shows "pow2 (bitlen p - 1) \<le> of_int p" and "of_int p < pow2 (bitlen p)"
proof -
  have b: "2 ^ nat (bitlen p - 1) \<le> p" "p < 2 ^ nat (bitlen p)"
    using bitlen_bounds [OF assms] by auto
  have one: "1 \<le> bitlen p"
    using assms bitlen_le_iff_power [of p 0] bitlen_nonneg [of p] by force
  have "of_int (2 ^ nat (bitlen p - 1)) \<le> (of_int p :: rat)"
    using b(1) by (rule of_int_le_iff [THEN iffD2])
  then show "pow2 (bitlen p - 1) \<le> of_int p"
    using one by (simp add: pow2_def)
  have "(of_int p :: rat) < of_int (2 ^ nat (bitlen p))"
    using b(2) by (rule of_int_less_iff [THEN iffD2])
  then show "of_int p < pow2 (bitlen p)"
    using one by (simp add: pow2_def)
qed

lemma rat_exponent_bounds:
  assumes "0 < x"
  shows "pow2 (rat_exponent x) \<le> x" and "x < pow2 (rat_exponent x + 1)"
proof -
  obtain p q where pq: "quotient_of x = (p, q)" by force
  have q: "0 < q" using quotient_of_denom_pos [OF pq] .
  have x: "x = of_int p / of_int q" using quotient_of_div [OF pq] .
  have p: "0 < p" using assms q x by (simp add: zero_less_divide_iff)
  let ?e = "bitlen p - bitlen q"
  have qr: "(0::rat) < of_int q" using q by simp
  have "x < pow2 (bitlen p) / pow2 (bitlen q - 1)"
    unfolding x using bitlen_rat_bounds [OF p] bitlen_rat_bounds [OF q] qr p
    by (intro frac_less) auto
  then have up: "x < pow2 (?e + 1)"
    by (simp add: pow2_diff [symmetric] algebra_simps)
  have "pow2 (bitlen p - 1) / pow2 (bitlen q) \<le> x"
    unfolding x using bitlen_rat_bounds [OF p] bitlen_rat_bounds [OF q] qr p
    by (intro frac_le) auto
  then have low: "pow2 (?e - 1) \<le> x"
    by (simp add: pow2_diff [symmetric] algebra_simps)
  show "pow2 (rat_exponent x) \<le> x" and "x < pow2 (rat_exponent x + 1)"
    using up low by (auto simp: rat_exponent_def pq Let_def)
qed

text \<open>A rounded result is off by at most one part in 2^53.\<close>

lemma fl_err: "\<bar>fl x - x\<bar> \<le> \<bar>x\<bar> / 2 ^ 53"
proof (cases "x = 0")
  case True
  then show ?thesis by (simp add: fl_def)
next
  case False
  define u where "u = pow2 (rat_exponent \<bar>x\<bar> - 52)"
  have u: "0 < u" by (simp add: u_def)
  have "pow2 (rat_exponent \<bar>x\<bar>) \<le> \<bar>x\<bar>"
    using rat_exponent_bounds(1) [of "\<bar>x\<bar>"] False by simp
  then have small: "u \<le> \<bar>x\<bar> / 2 ^ 52"
    using pow2_nat [of 52] by (simp add: u_def pow2_diff divide_right_mono)
  have "fl x - x = (of_int (round_half_even (x / u)) - x / u) * u"
    using False u by (simp add: fl_def Let_def u_def field_simps)
  then have "\<bar>fl x - x\<bar> = \<bar>of_int (round_half_even (x / u)) - x / u\<bar> * u"
    using u by (simp add: abs_mult)
  also have "\<dots> \<le> 1 / 2 * u"
    using u by (intro mult_right_mono round_half_even_err) auto
  also have "\<dots> \<le> \<bar>x\<bar> / 2 ^ 53"
    using small by simp
  finally show ?thesis .
qed

text \<open>Integers below 2^53 are exact.\<close>

lemma fl_of_int:
  assumes "\<bar>n\<bar> < 2 ^ 53"
  shows "fl (of_int n) = of_int n"
proof (cases "n = 0")
  case True
  then show ?thesis by (simp add: fl_def)
next
  case False
  define e where "e = rat_exponent \<bar>of_int n :: rat\<bar>"
  have n: "(0::rat) < \<bar>of_int n\<bar>" using False by simp
  have "pow2 e \<le> of_int \<bar>n\<bar>"
    using rat_exponent_bounds(1) [OF n] by (simp add: e_def)
  also have "(of_int \<bar>n\<bar> :: rat) < of_int (2 ^ 53)"
    using assms by (rule of_int_less_iff [THEN iffD2])
  also have "(of_int (2 ^ 53) :: rat) = pow2 53"
    using pow2_nat [of 53] by simp
  finally have "e < 53"
    unfolding pow2_powi using power_int_increasing [of 53 e "2::rat"] by fastforce
  then obtain k where k: "52 - e = int k"
    using zero_le_imp_eq_int [of "52 - e"] by auto
  have "pow2 (e - 52) = 1 / 2 ^ k"
    using pow2_diff [of 0 "int k"] pow2_nat [of k] pow2_nat [of 0] by (simp flip: k)
  moreover have "round_half_even ((of_int n :: rat) * 2 ^ k) = n * 2 ^ k"
    using round_half_even_int [of "n * 2 ^ k"] by simp
  ultimately show ?thesis
    using False by (simp add: fl_def e_def [symmetric])
qed

end
