(* ===== verification/Delay_Buffer.thy ===== *)
theory Delay_Buffer
  imports Packets C_Double
begin

text \<open>
  The variable delay of \<open>src/delay-buffer.c\<close>: the timeline of encoded packets, the pacer,
  the jumps a change of delay makes and the rewriting of timestamps. Each operation is one
  definition over \<open>struct swd_delay\<close>; the code under \<open>d->mutex\<close> is one atomic step. The clock
  (\<open>os_gettime_ns\<close>) is an argument \<open>now\<close>. \<open>obs_encoder_packet_release\<close> is an effect: an
  operation that gives references back returns the list of the packets it released. The DARRAY
  of entries is a list and SIZE_MAX, the "not found" index, is \<open>None\<close>.
\<close>

section \<open>State\<close>

definition SWD_MAX_DELAY_SEC :: u32 where "SWD_MAX_DELAY_SEC = 120"
definition NS_PER_SEC :: u64 where "NS_PER_SEC = 1000000000"
definition NS_PER_MS :: u64 where "NS_PER_MS = 1000000"
definition HISTORY_NS :: u64 where
  "HISTORY_NS = ucast (SWD_MAX_DELAY_SEC + 5) * NS_PER_SEC"
definition PRUNE_EVERY_NS :: u64 where "PRUNE_EVERY_NS = NS_PER_SEC"

lemmas delay_consts = SWD_MAX_DELAY_SEC_def NS_PER_SEC_def NS_PER_MS_def HISTORY_NS_def
  PRUNE_EVERY_NS_def

record swd_entry =
  packet :: encoder_packet
  arrival_ns :: u64

record swd_delay =
  entries :: "swd_entry list"
  cursor :: nat
  delay_ns :: u64
  hold_delay_ns :: u64
  pending_skip :: bool
  pending_target_ns :: u64
  offset_usec :: int
  resync :: bool
  last_video_out_usec :: int
  last_audio_out_usec :: int
  frame_usec :: int
  last_sent_arrival_ns :: u64
  last_prune_ns :: u64
  thread_created :: bool
  running :: bool

record swd_state =
  active :: bool
  requested_sec :: u32
  effective_ms :: u32
  buffered_ms :: u32
  pending :: bool

section \<open>Operations\<close>

definition is_keyframe :: "swd_entry \<Rightarrow> bool" where
  "is_keyframe e \<longleftrightarrow> enc_type (packet e) = OBS_ENCODER_VIDEO \<and> keyframe (packet e)"

text \<open>\<open>usec_to_tb\<close>, with every \<open>double\<close> operation rounded.\<close>

definition usec_to_tb :: "int \<Rightarrow> encoder_packet \<Rightarrow> int" where
  "usec_to_tb usec p =
     llround (fl (fl (fl (of_int usec) * fl (of_int (timebase_den p)))
                  / fl (fl 1000000 * fl (of_int (timebase_num p)))))"

definition release_all :: "swd_delay \<Rightarrow> swd_delay \<times> encoder_packet list" where
  "release_all d = (d\<lparr>entries := [], cursor := 0\<rparr>, map packet (entries d))"

definition reset_locked :: "swd_delay \<Rightarrow> u32 \<Rightarrow> swd_delay \<times> encoder_packet list" where
  "reset_locked d delay_sec =
     (let (d', released) = release_all d;
          ns = ucast delay_sec * NS_PER_SEC
      in (d'\<lparr>delay_ns := ns, hold_delay_ns := ns, pending_skip := False, offset_usec := 0,
            resync := False, last_video_out_usec := INT64_MIN,
            last_audio_out_usec := INT64_MIN, frame_usec := 16667,
            last_sent_arrival_ns := 0, last_prune_ns := 0\<rparr>, released))"

text \<open>How many leading entries the loop of \<open>prune_locked\<close> passes over.\<close>

fun prune_count :: "u64 \<Rightarrow> swd_entry list \<Rightarrow> nat" where
  "prune_count now [] = 0"
| "prune_count now (e # es) =
     (if now - arrival_ns e > HISTORY_NS then Suc (prune_count now es) else 0)"

definition prune_locked :: "swd_delay \<Rightarrow> u64 \<Rightarrow> swd_delay \<times> encoder_packet list" where
  "prune_locked d now =
     (if now - last_prune_ns d < PRUNE_EVERY_NS then (d, [])
      else
        let d1 = d\<lparr>last_prune_ns := now\<rparr>;
            n = prune_count now (take (cursor d1) (entries d1))
        in if n = 0 then (d1, [])
           else (d1\<lparr>entries := drop n (entries d1), cursor := cursor d1 - n\<rparr>,
                 map packet (take n (entries d1))))"

definition jump_to_locked :: "swd_delay \<Rightarrow> nat \<Rightarrow> swd_delay" where
  "jump_to_locked d index = d\<lparr>cursor := index, resync := True\<rparr>"

text \<open>A downward scan: \<open>for (i = n; i > 0; i--) if (Q (i - 1)) return i - 1;\<close>\<close>

fun scan_down :: "(nat \<Rightarrow> bool) \<Rightarrow> nat \<Rightarrow> nat option" where
  "scan_down Q 0 = None"
| "scan_down Q (Suc i) = (if Q i then Some i else scan_down Q i)"

definition find_keyframe_before :: "swd_delay \<Rightarrow> u64 \<Rightarrow> nat option" where
  "find_keyframe_before d target =
     (case scan_down (\<lambda>i. is_keyframe (entries d ! i) \<and> arrival_ns (entries d ! i) \<le> target)
             (length (entries d)) of
        Some k \<Rightarrow> Some k
      | None \<Rightarrow> scan_up is_keyframe (entries d) 0)"

definition find_keyframe_after :: "swd_delay \<Rightarrow> u64 \<Rightarrow> nat option" where
  "find_keyframe_after d target =
     scan_up (\<lambda>e. is_keyframe e \<and> target \<le> arrival_ns e) (drop (cursor d) (entries d)) (cursor d)"

definition apply_delay_locked :: "swd_delay \<Rightarrow> u64 \<Rightarrow> u64 \<Rightarrow> swd_delay" where
  "apply_delay_locked d new_ns now =
     (let target = (if now > new_ns then now - new_ns else 0)
      in if new_ns > delay_ns d then
           let d1 = (case find_keyframe_before d target of
                       Some k \<Rightarrow> if k < cursor d then jump_to_locked d k else d
                     | None \<Rightarrow> d)
           in d1\<lparr>pending_skip := False, delay_ns := new_ns, hold_delay_ns := new_ns\<rparr>
         else if new_ns < delay_ns d then
           (case find_keyframe_after d target of
              Some k \<Rightarrow>
                let d1 = (if k > cursor d then jump_to_locked d k else d)
                in d1\<lparr>pending_skip := False, hold_delay_ns := new_ns, delay_ns := new_ns\<rparr>
            | None \<Rightarrow>
                d\<lparr>pending_skip := True, pending_target_ns := target,
                  hold_delay_ns := delay_ns d, delay_ns := new_ns\<rparr>)
         else d)"

definition clamp_delay :: "u32 \<Rightarrow> u32" where
  "clamp_delay seconds = (if seconds > SWD_MAX_DELAY_SEC then SWD_MAX_DELAY_SEC else seconds)"

definition swd_set_delay :: "swd_delay \<Rightarrow> u32 \<Rightarrow> u64 \<Rightarrow> swd_delay" where
  "swd_set_delay d seconds now =
     apply_delay_locked d (ucast (clamp_delay seconds) * NS_PER_SEC) now"

definition swd_get_state :: "swd_delay \<Rightarrow> u64 \<Rightarrow> swd_state" where
  "swd_get_state d now =
     \<lparr>active = running d,
      requested_sec = ucast (delay_ns d div NS_PER_SEC),
      effective_ms = (if last_sent_arrival_ns d \<noteq> 0
                      then ucast ((now - last_sent_arrival_ns d) div NS_PER_MS) else 0),
      buffered_ms = (case entries d of [] \<Rightarrow> 0
                     | e # _ \<Rightarrow> ucast ((now - arrival_ns e) div NS_PER_MS)),
      pending = pending_skip d\<rparr>"

definition swd_push :: "swd_delay \<Rightarrow> encoder_packet \<Rightarrow> u64 \<Rightarrow> swd_delay" where
  "swd_push d p now =
     (let d1 = d\<lparr>entries := entries d @ [\<lparr>packet = p, arrival_ns = now\<rparr>]\<rparr>
      in if enc_type p = OBS_ENCODER_VIDEO \<and> timebase_den p > 0
         then d1\<lparr>frame_usec := c_div (1000000 * timebase_num p) (timebase_den p)\<rparr>
         else d1)"

text \<open>
  \<open>prepare_out_locked\<close>: the packet as it goes out, or \<open>None\<close> where the code returns false
  and the packet is dropped. The resynchronisation happens in both cases.
\<close>

definition resync_locked :: "swd_delay \<Rightarrow> swd_entry \<Rightarrow> swd_delay" where
  "resync_locked d e =
     (if resync d then
        let base = (if last_video_out_usec d = INT64_MIN
                    then dts_usec (packet e) + offset_usec d
                    else last_video_out_usec d + frame_usec d)
        in d\<lparr>offset_usec := base - dts_usec (packet e), resync := False\<rparr>
      else d)"

definition last_out :: "swd_delay \<Rightarrow> obs_encoder_type \<Rightarrow> int" where
  "last_out d t = (case t of OBS_ENCODER_VIDEO \<Rightarrow> last_video_out_usec d
                   | OBS_ENCODER_AUDIO \<Rightarrow> last_audio_out_usec d)"

definition set_last_out :: "swd_delay \<Rightarrow> obs_encoder_type \<Rightarrow> int \<Rightarrow> swd_delay" where
  "set_last_out d t v = (case t of OBS_ENCODER_VIDEO \<Rightarrow> d\<lparr>last_video_out_usec := v\<rparr>
                         | OBS_ENCODER_AUDIO \<Rightarrow> d\<lparr>last_audio_out_usec := v\<rparr>)"

definition shift_packet :: "int \<Rightarrow> encoder_packet \<Rightarrow> encoder_packet" where
  "shift_packet offset p =
     (if offset \<noteq> 0 then
        let off = usec_to_tb offset p
        in p\<lparr>dts := dts p + off, pts := pts p + off,
             dts_usec := dts_usec p + offset, sys_dts_usec := sys_dts_usec p + offset\<rparr>
      else p)"

definition prepare_out_locked :: "swd_delay \<Rightarrow> swd_entry \<Rightarrow> swd_delay \<times> encoder_packet option" where
  "prepare_out_locked d e =
     (let d1 = resync_locked d e;
          t = enc_type (packet e);
          out_usec = dts_usec (packet e) + offset_usec d1
      in if last_out d1 t \<noteq> INT64_MIN \<and> out_usec \<le> last_out d1 t then (d1, None)
         else (set_last_out d1 t out_usec, Some (shift_packet (offset_usec d1) (packet e))))"

text \<open>
  One iteration of \<open>pacer_thread\<close>. An item of the batch keeps, beside the packet that is sent,
  the entry whose reference it shares.
\<close>

record batch_item =
  shares :: swd_entry
  out :: encoder_packet

definition pacer_skip :: "swd_delay \<Rightarrow> swd_delay" where
  "pacer_skip d =
     (if pending_skip d then
        (case find_keyframe_after d (pending_target_ns d) of
           Some k \<Rightarrow>
             let d1 = (if k > cursor d then jump_to_locked d k else d)
             in d1\<lparr>pending_skip := False, hold_delay_ns := delay_ns d\<rparr>
         | None \<Rightarrow> d)
      else d)"

definition pacer_pace :: "swd_delay \<Rightarrow> u64" where
  "pacer_pace d = (if pending_skip d then hold_delay_ns d else delay_ns d)"

lemma entries_resync_locked [simp]: "entries (resync_locked d e) = entries d"
  and cursor_resync_locked [simp]: "cursor (resync_locked d e) = cursor d"
  by (simp_all add: resync_locked_def Let_def)

lemma entries_set_last_out [simp]: "entries (set_last_out d t v) = entries d"
  and cursor_set_last_out [simp]: "cursor (set_last_out d t v) = cursor d"
  by (cases t; simp add: set_last_out_def)+

lemma entries_prepare_out [simp]: "entries (fst (prepare_out_locked d e)) = entries d"
  and cursor_prepare_out [simp]: "cursor (fst (prepare_out_locked d e)) = cursor d"
  by (simp_all add: prepare_out_locked_def Let_def)

definition pacer_one :: "swd_delay \<Rightarrow> swd_entry \<Rightarrow> swd_delay \<times> batch_item list" where
  "pacer_one d e =
     (case prepare_out_locked d e of
        (d1, Some p) \<Rightarrow>
          (d1\<lparr>last_sent_arrival_ns := arrival_ns e, cursor := Suc (cursor d1)\<rparr>,
           [\<lparr>shares = e, out = p\<rparr>])
      | (d1, None) \<Rightarrow> (d1\<lparr>cursor := Suc (cursor d1)\<rparr>, []))"

lemma entries_pacer_one [simp]: "entries (fst (pacer_one d e)) = entries d"
  and cursor_pacer_one [simp]: "cursor (fst (pacer_one d e)) = Suc (cursor d)"
  using entries_prepare_out [of d e] cursor_prepare_out [of d e]
  by (auto simp: pacer_one_def simp del: entries_prepare_out cursor_prepare_out
      split: prod.splits option.splits)

function pacer_loop :: "u64 \<Rightarrow> u64 \<Rightarrow> swd_delay \<Rightarrow> swd_delay \<times> batch_item list" where
  "pacer_loop now pace d =
     (if cursor d < length (entries d) then
        let e = entries d ! cursor d
        in if now - arrival_ns e < pace then (d, [])
           else let (d1, b) = pacer_one d e;
                    (d2, bs) = pacer_loop now pace d1
                in (d2, b @ bs)
      else (d, []))"
  by pat_completeness auto
termination
proof (relation "measure (\<lambda>(now, pace, d). length (entries d) - cursor d)", goal_cases)
  case 1
  then show ?case by simp
next
  case (2 now pace d e x d1 b)
  then have "d1 = fst (pacer_one d e)" by (metis fst_conv)
  with 2 show ?case by simp
qed

declare pacer_loop.simps [simp del]

definition pacer_iter ::
  "swd_delay \<Rightarrow> u64 \<Rightarrow> swd_delay \<times> batch_item list \<times> encoder_packet list" where
  "pacer_iter d now =
     (let d1 = pacer_skip d;
          (d2, batch) = pacer_loop now (pacer_pace d1) d1;
          (d3, released) = prune_locked d2 now
      in (d3, batch, released))"

text \<open>Life cycle. \<open>swd_stop\<close> joins the pacer, so no iteration runs after it.\<close>

definition zero_delay :: swd_delay where
  "zero_delay =
     \<lparr>entries = [], cursor = 0, delay_ns = 0, hold_delay_ns = 0, pending_skip = False,
      pending_target_ns = 0, offset_usec = 0, resync = False, last_video_out_usec = 0,
      last_audio_out_usec = 0, frame_usec = 0, last_sent_arrival_ns = 0, last_prune_ns = 0,
      thread_created = False, running = False\<rparr>"

definition swd_create :: swd_delay where
  "swd_create = fst (reset_locked zero_delay 0)"

definition swd_stop :: "swd_delay \<Rightarrow> swd_delay \<times> encoder_packet list" where
  "swd_stop d =
     release_all (if thread_created d then d\<lparr>running := False, thread_created := False\<rparr> else d)"

definition swd_start :: "swd_delay \<Rightarrow> u32 \<Rightarrow> bool \<Rightarrow> swd_delay \<times> encoder_packet list" where
  "swd_start d initial_delay_sec thread_ok =
     (let (d1, r1) = swd_stop d;
          (d2, r2) = reset_locked d1 initial_delay_sec;
          d3 = d2\<lparr>running := True, thread_created := thread_ok\<rparr>
      in (if \<not> thread_ok then d3\<lparr>running := False\<rparr> else d3, r1 @ r2))"

end
