(* ===== verification/Delay_Timeline.thy ===== *)
theory Delay_Timeline
  imports Delay_Buffer
begin

text \<open>
  The timeline of the delay buffer: the invariant every operation keeps (arrival order, a
  cursor in range, a pending resynchronisation only in front of a keyframe, ages that do not
  wrap), what the two keyframe searches find, and what one pacer iteration sends and releases.
\<close>

section \<open>The invariant\<close>

definition timeline_ok :: "swd_delay \<Rightarrow> u64 \<Rightarrow> bool" where
  "timeline_ok d now \<longleftrightarrow>
     sorted (map arrival_ns (entries d)) \<and>
     (\<forall>e \<in> set (entries d). arrival_ns e \<le> now) \<and>
     cursor d \<le> length (entries d) \<and>
     (running d \<and> resync d \<longrightarrow>
        cursor d < length (entries d) \<and> is_keyframe (entries d ! cursor d)) \<and>
     last_sent_arrival_ns d \<le> now \<and> last_prune_ns d \<le> now \<and>
     (pending_skip d \<longrightarrow> delay_ns d \<le> hold_delay_ns d)"

lemma timeline_okD:
  assumes "timeline_ok d now"
  shows "sorted (map arrival_ns (entries d))"
    and "e \<in> set (entries d) \<Longrightarrow> arrival_ns e \<le> now"
    and "cursor d \<le> length (entries d)"
    and "running d \<Longrightarrow> resync d \<Longrightarrow> cursor d < length (entries d)"
    and "running d \<Longrightarrow> resync d \<Longrightarrow> is_keyframe (entries d ! cursor d)"
    and "pending_skip d \<Longrightarrow> delay_ns d \<le> hold_delay_ns d"
  using assms by (auto simp: timeline_ok_def)

lemma timeline_ok_nth:
  "timeline_ok d now \<Longrightarrow> i < length (entries d) \<Longrightarrow> arrival_ns (entries d ! i) \<le> now"
  by (auto simp: timeline_ok_def)

lemma timeline_ok_later: "timeline_ok d now \<Longrightarrow> now \<le> t \<Longrightarrow> timeline_ok d t"
  by (auto simp: timeline_ok_def intro: order_trans)

section \<open>Searching for keyframes\<close>

lemma scan_down_Some:
  "scan_down Q n = Some k \<longleftrightarrow> k < n \<and> Q k \<and> (\<forall>j. k < j \<and> j < n \<longrightarrow> \<not> Q j)"
  by (induction n) (auto simp: less_Suc_eq)

lemma scan_down_None: "scan_down Q n = None \<longleftrightarrow> (\<forall>j < n. \<not> Q j)"
  by (induction n) (auto simp: less_Suc_eq)

lemma find_keyframe_before_keyframe:
  assumes "find_keyframe_before d target = Some k"
  shows "k < length (entries d)" and "is_keyframe (entries d ! k)"
  using assms by (auto simp: find_keyframe_before_def scan_down_Some scan_up_Some split: option.splits)

lemma find_keyframe_after_Some:
  "find_keyframe_after d target = Some k \<longleftrightarrow>
     cursor d \<le> k \<and> k < length (entries d) \<and> is_keyframe (entries d ! k) \<and>
     target \<le> arrival_ns (entries d ! k) \<and>
     (\<forall>j. cursor d \<le> j \<and> j < k \<longrightarrow>
        \<not> (is_keyframe (entries d ! j) \<and> target \<le> arrival_ns (entries d ! j)))"
  by (auto simp: find_keyframe_after_def scan_up_drop_Some)

lemma find_keyframe_after_None:
  "find_keyframe_after d target = None \<longleftrightarrow>
     (\<forall>j. cursor d \<le> j \<and> j < length (entries d) \<longrightarrow>
        \<not> (is_keyframe (entries d ! j) \<and> target \<le> arrival_ns (entries d ! j)))"
  by (auto simp: find_keyframe_after_def scan_up_drop_None)

section \<open>Every operation keeps the invariant\<close>

lemma swd_push_ok:
  assumes "timeline_ok d now" and "now \<le> t"
  shows "timeline_ok (swd_push d p t) t"
  using timeline_ok_later [OF assms]
  by (auto simp: timeline_ok_def swd_push_def Let_def sorted_append nth_append)

lemma jump_ok:
  "timeline_ok d now \<Longrightarrow> k < length (entries d) \<Longrightarrow> is_keyframe (entries d ! k) \<Longrightarrow>
   timeline_ok (jump_to_locked d k) now"
  by (auto simp: timeline_ok_def jump_to_locked_def)

lemma apply_delay_ok:
  assumes "timeline_ok d now"
  shows "timeline_ok (apply_delay_locked d new_ns now) now"
proof -
  have b: "find_keyframe_before d t = Some k \<Longrightarrow> timeline_ok (jump_to_locked d k) now" for t k
    using assms find_keyframe_before_keyframe by (blast intro: jump_ok)
  have a: "find_keyframe_after d t = Some k \<Longrightarrow> timeline_ok (jump_to_locked d k) now" for t k
    using assms by (auto simp: find_keyframe_after_Some intro: jump_ok)
  show ?thesis
    using assms a b
    by (auto simp: apply_delay_locked_def Let_def timeline_ok_def split: option.splits)
qed

lemma pacer_skip_ok:
  assumes "timeline_ok d now"
  shows "timeline_ok (pacer_skip d) now"
proof -
  have a: "find_keyframe_after d t = Some k \<Longrightarrow> timeline_ok (jump_to_locked d k) now" for t k
    using assms by (auto simp: find_keyframe_after_Some intro: jump_ok)
  show ?thesis
    using assms a by (auto simp: pacer_skip_def Let_def timeline_ok_def split: option.splits)
qed

lemma entries_pacer_skip [simp]: "entries (pacer_skip d) = entries d"
  by (simp add: pacer_skip_def Let_def jump_to_locked_def split: option.split)

lemma cursor_pacer_skip: "cursor d \<le> cursor (pacer_skip d)"
  by (auto simp: pacer_skip_def Let_def jump_to_locked_def split: option.split)

lemma delay_ns_pacer_skip [simp]: "delay_ns (pacer_skip d) = delay_ns d"
  by (simp add: pacer_skip_def Let_def jump_to_locked_def split: option.split)

text \<open>The pace never undercuts the delay asked for.\<close>

lemma pacer_pace_ge: "timeline_ok d now \<Longrightarrow> delay_ns d \<le> pacer_pace (pacer_skip d)"
  using timeline_okD(6) [OF pacer_skip_ok] by (fastforce simp: pacer_pace_def)

lemma pacer_one_frame [simp]:
  "delay_ns (fst (pacer_one d e)) = delay_ns d"
  "hold_delay_ns (fst (pacer_one d e)) = hold_delay_ns d"
  "pending_skip (fst (pacer_one d e)) = pending_skip d"
  "last_prune_ns (fst (pacer_one d e)) = last_prune_ns d"
  "resync (fst (pacer_one d e)) = False"
  by (auto simp: pacer_one_def prepare_out_locked_def resync_locked_def set_last_out_def Let_def
      split: prod.splits option.splits obs_encoder_type.splits if_splits)

lemma pacer_one_last_sent:
  "last_sent_arrival_ns (fst (pacer_one d e)) = arrival_ns e \<or>
   last_sent_arrival_ns (fst (pacer_one d e)) = last_sent_arrival_ns d"
  by (auto simp: pacer_one_def prepare_out_locked_def resync_locked_def set_last_out_def Let_def
      split: prod.splits option.splits obs_encoder_type.splits if_splits)

lemma pacer_one_ok:
  assumes "timeline_ok d now" and "cursor d < length (entries d)"
  shows "timeline_ok (fst (pacer_one d (entries d ! cursor d))) now"
  using assms pacer_one_last_sent [of d "entries d ! cursor d"]
  by (auto simp: timeline_ok_def)

text \<open>One unfolding of the pacer's loop, as an introduction of its three outcomes.\<close>

lemma pacer_loop_end:
  "\<not> (cursor d < length (entries d)) \<Longrightarrow> pacer_loop now pace d = (d, [])"
  "cursor d < length (entries d) \<Longrightarrow> now - arrival_ns (entries d ! cursor d) < pace \<Longrightarrow>
   pacer_loop now pace d = (d, [])"
  by (simp_all add: pacer_loop.simps)

lemma pacer_loop_next:
  assumes "cursor d < length (entries d)" and "\<not> now - arrival_ns (entries d ! cursor d) < pace"
  shows "pacer_loop now pace d =
    (let (d1, b) = pacer_one d (entries d ! cursor d);
         (d2, bs) = pacer_loop now pace d1 in (d2, b @ bs))"
  using assms by (subst pacer_loop.simps) (simp add: Let_def)

lemma pacer_loop_induct [case_names stop more]:
  assumes stop: "\<And>d. (cursor d < length (entries d) \<Longrightarrow>
      now - arrival_ns (entries d ! cursor d) < pace) \<Longrightarrow> P d d []"
    and more: "\<And>d d1 b d2 bs. cursor d < length (entries d) \<Longrightarrow>
      \<not> now - arrival_ns (entries d ! cursor d) < pace \<Longrightarrow>
      pacer_one d (entries d ! cursor d) = (d1, b) \<Longrightarrow> pacer_loop now pace d1 = (d2, bs) \<Longrightarrow>
      P d1 d2 bs \<Longrightarrow> P d d2 (b @ bs)"
    and run: "pacer_loop now pace d = (d2, batch)"
  shows "P d d2 batch"
  using run
proof (induction "length (entries d) - cursor d" arbitrary: d d2 batch rule: less_induct)
  case less
  show ?case
  proof (cases "cursor d < length (entries d) \<and> \<not> now - arrival_ns (entries d ! cursor d) < pace")
    case True
    obtain d1 b where one: "pacer_one d (entries d ! cursor d) = (d1, b)" by force
    obtain d2' bs where rest: "pacer_loop now pace d1 = (d2', bs)" by force
    have res: "d2 = d2'" "batch = b @ bs"
      using less.prems True one rest by (simp_all add: pacer_loop_next)
    have "entries d1 = entries d" "cursor d1 = Suc (cursor d)"
      using entries_pacer_one [of d "entries d ! cursor d"]
        cursor_pacer_one [of d "entries d ! cursor d"] one by simp_all
    then have "length (entries d1) - cursor d1 < length (entries d) - cursor d"
      using True by (simp add: diff_less_mono2)
    from less.hyps [OF this rest] True one rest show ?thesis
      unfolding res by (intro more) auto
  next
    case False
    then have "pacer_loop now pace d = (d, [])"
      by (cases "cursor d < length (entries d)") (simp_all add: pacer_loop_end)
    with less.prems False show ?thesis by (auto intro: stop)
  qed
qed

end
