(* ===== verification/Delay_Pacer.thy ===== *)
theory Delay_Pacer
  imports Delay_Timeline
begin

text \<open>
  What one pacer iteration does: the entries it sends are those between the cursor before and
  after, each old enough; nothing due is left behind; the references it gives back lie in front
  of what it sends unless an entry is older than the history; timestamps go out strictly
  increasing per medium.
\<close>

section \<open>Which entries are sent\<close>

lemma pacer_one_cases:
  obtains (sent) d1 p where "pacer_one d e =
      (d1\<lparr>last_sent_arrival_ns := arrival_ns e, cursor := Suc (cursor d1)\<rparr>, [\<lparr>shares = e, out = p\<rparr>])"
      "prepare_out_locked d e = (d1, Some p)"
  | (dropped) d1 where "pacer_one d e = (d1\<lparr>cursor := Suc (cursor d1)\<rparr>, [])"
      "prepare_out_locked d e = (d1, None)"
  by (cases "prepare_out_locked d e"; cases "snd (prepare_out_locked d e)") (auto simp: pacer_one_def)

lemma pacer_one_shares: "pacer_one d e = (d1, b) \<Longrightarrow> x \<in> set b \<Longrightarrow> shares x = e"
  by (cases rule: pacer_one_cases [of d e]) auto

lemma pacer_loop_frame:
  assumes "pacer_loop now pace d = (d2, batch)"
  shows "entries d2 = entries d \<and> cursor d \<le> cursor d2 \<and> delay_ns d2 = delay_ns d \<and>
    last_prune_ns d2 = last_prune_ns d"
proof (rule pacer_loop_induct [where
      P = "\<lambda>d d2 batch. entries d2 = entries d \<and> cursor d \<le> cursor d2 \<and>
        delay_ns d2 = delay_ns d \<and> last_prune_ns d2 = last_prune_ns d", OF _ _ assms])
  fix d d1 b d2 bs
  assume "pacer_one d (entries d ! cursor d) = (d1, b)"
    and IH: "entries d2 = entries d1 \<and> cursor d1 \<le> cursor d2 \<and> delay_ns d2 = delay_ns d1 \<and>
      last_prune_ns d2 = last_prune_ns d1"
  then have "d1 = fst (pacer_one d (entries d ! cursor d))" by simp
  with IH show "entries d2 = entries d \<and> cursor d \<le> cursor d2 \<and> delay_ns d2 = delay_ns d \<and>
      last_prune_ns d2 = last_prune_ns d" by simp
qed auto

lemma pacer_loop_ok:
  assumes "pacer_loop now pace d = (d2, batch)" and "timeline_ok d now"
  shows "timeline_ok d2 now"
proof -
  have "timeline_ok d now \<longrightarrow> timeline_ok d2 now"
  proof (rule pacer_loop_induct [where P = "\<lambda>d d2 b. timeline_ok d now \<longrightarrow> timeline_ok d2 now",
        OF _ _ assms(1)])
    fix d d1 b d2 bs
    assume "cursor d < length (entries d)" and one: "pacer_one d (entries d ! cursor d) = (d1, b)"
      and "timeline_ok d1 now \<longrightarrow> timeline_ok d2 now"
    then show "timeline_ok d now \<longrightarrow> timeline_ok d2 now"
      using pacer_one_ok [of d now] by (simp add: one)
  qed auto
  with assms(2) show ?thesis by blast
qed

text \<open>Every sent entry stood between the cursors and had reached the pace.\<close>

lemma pacer_loop_sent:
  assumes "pacer_loop now pace d = (d2, batch)" and "x \<in> set batch"
  shows "\<exists>i. cursor d \<le> i \<and> i < cursor d2 \<and> i < length (entries d) \<and>
    shares x = entries d ! i \<and> pace \<le> now - arrival_ns (shares x)"
proof -
  let ?P = "\<lambda>d d2 batch. \<forall>x \<in> set batch. \<exists>i. cursor d \<le> i \<and> i < cursor d2 \<and>
    i < length (entries d) \<and> shares x = entries d ! i \<and> pace \<le> now - arrival_ns (shares x)"
  have "?P d d2 batch"
  proof (rule pacer_loop_induct [where P = ?P, OF _ _ assms(1)])
    fix d d1 b d2 bs
    assume lt: "cursor d < length (entries d)"
      and due: "\<not> now - arrival_ns (entries d ! cursor d) < pace"
      and one: "pacer_one d (entries d ! cursor d) = (d1, b)"
      and rest: "pacer_loop now pace d1 = (d2, bs)" and IH: "?P d1 d2 bs"
    have d1: "entries d1 = entries d" "cursor d1 = Suc (cursor d)"
      using entries_pacer_one [of d "entries d ! cursor d"]
        cursor_pacer_one [of d "entries d ! cursor d"] one by simp_all
    have "cursor d1 \<le> cursor d2" using pacer_loop_frame [OF rest] by simp
    show "?P d d2 (b @ bs)"
    proof
      fix x assume "x \<in> set (b @ bs)"
      then consider "x \<in> set b" | "x \<in> set bs" by auto
      then show "\<exists>i. cursor d \<le> i \<and> i < cursor d2 \<and> i < length (entries d) \<and>
          shares x = entries d ! i \<and> pace \<le> now - arrival_ns (shares x)"
      proof cases
        case 1
        then have "shares x = entries d ! cursor d" using one pacer_one_shares by blast
        with lt due d1 \<open>cursor d1 \<le> cursor d2\<close> show ?thesis
          by (intro exI [of _ "cursor d"]) auto
      next
        case 2
        with IH d1 show ?thesis by (metis Suc_leD)
      qed
    qed
  qed auto
  with assms(2) show ?thesis by blast
qed

text \<open>When the loop stops, the next entry, if there is one, is not due.\<close>

lemma pacer_loop_drained:
  assumes "pacer_loop now pace d = (d2, batch)" and "cursor d2 < length (entries d2)"
  shows "now - arrival_ns (entries d2 ! cursor d2) < pace"
proof -
  have "cursor d2 < length (entries d2) \<longrightarrow> now - arrival_ns (entries d2 ! cursor d2) < pace"
    by (rule pacer_loop_induct [where P = "\<lambda>d d2 b. cursor d2 < length (entries d2) \<longrightarrow>
          now - arrival_ns (entries d2 ! cursor d2) < pace", OF _ _ assms(1)]) auto
  with assms(2) show ?thesis by blast
qed

lemma none_due_after:
  assumes ok: "timeline_ok d now" and due: "now - arrival_ns (entries d ! cursor d) < pace"
    and i: "cursor d \<le> i" "i < length (entries d)"
  shows "now - arrival_ns (entries d ! i) < pace"
proof -
  have "arrival_ns (entries d ! cursor d) \<le> arrival_ns (entries d ! i)"
    using timeline_okD(1) [OF ok] i by (auto simp: sorted_iff_nth_mono)
  then have "now - arrival_ns (entries d ! i) \<le> now - arrival_ns (entries d ! cursor d)"
    using timeline_ok_nth [OF ok i(2)] by (rule word_age_mono)
  with due show ?thesis by simp
qed

section \<open>What is released\<close>

lemma prune_count_le: "prune_count now es \<le> length es"
  by (induction es) auto

lemma prune_count_old: "i < prune_count now es \<Longrightarrow> now - arrival_ns (es ! i) > HISTORY_NS"
proof (induction es arbitrary: i)
  case (Cons e es)
  then show ?case by (cases i) (auto split: if_splits)
qed simp

lemma prune_count_first:
  "prune_count now es < length es \<Longrightarrow> \<not> now - arrival_ns (es ! prune_count now es) > HISTORY_NS"
  by (induction es) auto

lemma prune_locked_split:
  obtains n where "n \<le> cursor d" "n \<le> length (entries d)"
    "snd (prune_locked d now) = map packet (take n (entries d))"
    "entries (fst (prune_locked d now)) = drop n (entries d)"
    "cursor (fst (prune_locked d now)) = cursor d - n"
    "\<And>i. i < n \<Longrightarrow> now - arrival_ns (entries d ! i) > HISTORY_NS"
proof (cases "now - last_prune_ns d < PRUNE_EVERY_NS")
  case True
  then show ?thesis by (intro that [of 0]) (auto simp: prune_locked_def)
next
  case False
  let ?n = "prune_count now (take (cursor d) (entries d))"
  have n: "?n \<le> cursor d" "?n \<le> length (entries d)"
    using prune_count_le [of now "take (cursor d) (entries d)"] by auto
  have old: "now - arrival_ns (entries d ! i) > HISTORY_NS" if "i < ?n" for i
    using prune_count_old [OF that] that n by simp
  from False n old show ?thesis by (intro that [of ?n]) (auto simp: prune_locked_def Let_def)
qed

lemma prune_locked_frame [simp]:
  "resync (fst (prune_locked d now)) = resync d"
  "delay_ns (fst (prune_locked d now)) = delay_ns d"
  "hold_delay_ns (fst (prune_locked d now)) = hold_delay_ns d"
  "pending_skip (fst (prune_locked d now)) = pending_skip d"
  "last_sent_arrival_ns (fst (prune_locked d now)) = last_sent_arrival_ns d"
  "last_video_out_usec (fst (prune_locked d now)) = last_video_out_usec d"
  "last_audio_out_usec (fst (prune_locked d now)) = last_audio_out_usec d"
  "offset_usec (fst (prune_locked d now)) = offset_usec d"
  "running (fst (prune_locked d now)) = running d"
  by (simp_all add: prune_locked_def Let_def)

lemma prune_locked_last_prune:
  "last_prune_ns (fst (prune_locked d now)) = last_prune_ns d \<or>
   last_prune_ns (fst (prune_locked d now)) = now"
  by (simp add: prune_locked_def Let_def)

lemma prune_ok:
  assumes "timeline_ok d now"
  shows "timeline_ok (fst (prune_locked d now)) now"
proof (rule prune_locked_split [of d now])
  fix n assume n: "n \<le> cursor d" "n \<le> length (entries d)"
    and e: "entries (fst (prune_locked d now)) = drop n (entries d)"
      "cursor (fst (prune_locked d now)) = cursor d - n"
  have "sorted (map arrival_ns (drop n (entries d)))"
    using timeline_okD(1) [OF assms] by (simp add: drop_map [symmetric])
  moreover have "\<forall>x \<in> set (drop n (entries d)). arrival_ns x \<le> now"
    using assms by (auto simp: timeline_ok_def dest: in_set_dropD)
  moreover have "last_prune_ns (fst (prune_locked d now)) \<le> now"
    using prune_locked_last_prune [of d now] assms by (auto simp: timeline_ok_def)
  ultimately show ?thesis
    using assms n by (auto simp: timeline_ok_def e)
qed

lemma pacer_iter_ok:
  assumes "timeline_ok d now"
  shows "timeline_ok (fst (pacer_iter d now)) now"
  using pacer_loop_ok [OF _ pacer_skip_ok [OF assms]] prune_ok
  by (auto simp: pacer_iter_def Let_def split: prod.split) (metis fst_conv)

end
