(* ===== verification/Delay_System.thy ===== *)
theory Delay_System
  imports Delay_Pacer
begin

text \<open>
  The delay buffer as a concurrent component: encoder threads push, the UI, the hotkeys and the
  poll thread change the delay, the pacer iterates, the output starts and stops the stream.
  Every critical section is one event, events interleave freely and the clock never goes back.
  The state keeps, beside the buffer, what the outside sees: the log of the packets sent in the
  current stream, the references taken and the references given back.
\<close>

section \<open>Events\<close>

record sent_rec =
  sent_at :: u64
  sent_target :: u64
  sent_item :: batch_item

record delay_sys =
  buf :: swd_delay
  clock :: u64
  sent :: "sent_rec list"
  taken :: "encoder_packet list"
  given :: "encoder_packet list"

datatype delay_event =
    EvPush encoder_packet u64
  | EvSet u32 u64
  | EvPace u64
  | EvStart u32 bool
  | EvStop

fun event_enabled :: "delay_event \<Rightarrow> delay_sys \<Rightarrow> bool" where
  "event_enabled (EvPush p t) s = (clock s \<le> t)"
| "event_enabled (EvSet secs t) s = (clock s \<le> t)"
| "event_enabled (EvPace t) s = (clock s \<le> t \<and> running (buf s))"
| "event_enabled (EvStart secs ok) s = True"
| "event_enabled EvStop s = True"

fun event_exec :: "delay_event \<Rightarrow> delay_sys \<Rightarrow> delay_sys" where
  "event_exec (EvPush p t) s =
     s\<lparr>buf := swd_push (buf s) p t, clock := t, taken := taken s @ [p]\<rparr>"
| "event_exec (EvSet secs t) s = s\<lparr>buf := swd_set_delay (buf s) secs t, clock := t\<rparr>"
| "event_exec (EvPace t) s =
     (let (d, batch, released) = pacer_iter (buf s) t
      in s\<lparr>buf := d, clock := t, given := given s @ released,
           sent := sent s @ map (\<lambda>b. \<lparr>sent_at = t, sent_target = delay_ns (buf s), sent_item = b\<rparr>) batch\<rparr>)"
| "event_exec (EvStart secs ok) s =
     (let (d, released) = swd_start (buf s) secs ok
      in s\<lparr>buf := d, given := given s @ released, sent := []\<rparr>)"
| "event_exec EvStop s =
     (let (d, released) = swd_stop (buf s)
      in s\<lparr>buf := d, given := given s @ released\<rparr>)"

inductive delay_step :: "delay_sys \<Rightarrow> delay_sys \<Rightarrow> bool" where
  "event_enabled ev s \<Longrightarrow> delay_step s (event_exec ev s)"

inductive_cases delay_stepE: "delay_step s t"

definition delay_init :: "delay_sys \<Rightarrow> bool" where
  "delay_init s \<longleftrightarrow> buf s = swd_create \<and> sent s = [] \<and> taken s = [] \<and> given s = []"

text \<open>Running a list of events; \<open>None\<close> when one of them is not enabled.\<close>

fun delay_run :: "delay_event list \<Rightarrow> delay_sys \<Rightarrow> delay_sys option" where
  "delay_run [] s = Some s"
| "delay_run (ev # evs) s =
     (if event_enabled ev s then delay_run evs (event_exec ev s) else None)"

lemma delay_run_reach:
  "reach delay_init delay_step s \<Longrightarrow> delay_run evs s = Some t \<Longrightarrow> reach delay_init delay_step t"
  by (induction evs arbitrary: s)
    (auto split: if_splits intro: reach_step delay_step.intros)

definition sys0 :: delay_sys where
  "sys0 = \<lparr>buf = swd_create, clock = 0, sent = [], taken = [], given = []\<rparr>"

lemma reach_sys0: "reach delay_init delay_step sys0"
  by (rule reach_init) (simp add: delay_init_def sys0_def)

section \<open>The timeline invariant holds in every reachable state\<close>

definition sys_ok :: "delay_sys \<Rightarrow> bool" where
  "sys_ok s \<longleftrightarrow> timeline_ok (buf s) (clock s) \<and> (running (buf s) \<longrightarrow> thread_created (buf s))"

lemma reset_locked_ok: "timeline_ok (fst (reset_locked d secs)) now"
  by (simp add: reset_locked_def release_all_def Let_def timeline_ok_def)

lemma timeline_ok_thread [simp]:
  "timeline_ok (d\<lparr>thread_created := b\<rparr>) now = timeline_ok d now"
  by (simp add: timeline_ok_def)

lemma swd_start_ok: "timeline_ok (fst (swd_start d secs ok)) now"
  by (simp add: swd_start_def swd_stop_def reset_locked_def release_all_def Let_def timeline_ok_def)

lemma swd_stop_ok:
  "timeline_ok d now \<Longrightarrow> (running d \<longrightarrow> thread_created d) \<Longrightarrow> timeline_ok (fst (swd_stop d)) now"
  by (auto simp: swd_stop_def release_all_def timeline_ok_def)

text \<open>The flags of the pacer thread are written by start and stop only.\<close>

lemma thread_frame [simp]:
  "running (swd_push d p t) = running d" "thread_created (swd_push d p t) = thread_created d"
  "running (swd_set_delay d secs t) = running d"
  "thread_created (swd_set_delay d secs t) = thread_created d"
  "running (pacer_skip d) = running d" "thread_created (pacer_skip d) = thread_created d"
  "running (fst (pacer_one d e)) = running d"
  "thread_created (fst (pacer_one d e)) = thread_created d"
  "thread_created (fst (prune_locked d t)) = thread_created d"
  by (auto simp: swd_push_def swd_set_delay_def apply_delay_locked_def pacer_skip_def
      jump_to_locked_def prune_locked_def pacer_one_def prepare_out_locked_def resync_locked_def
      set_last_out_def Let_def split: option.splits prod.splits obs_encoder_type.splits)

lemma thread_frame_loop:
  assumes "pacer_loop now pace d = (d2, batch)"
  shows "running d2 = running d \<and> thread_created d2 = thread_created d"
proof (rule pacer_loop_induct [where P = "\<lambda>d d2 b. running d2 = running d \<and>
      thread_created d2 = thread_created d", OF _ _ assms])
  fix d d1 b d2 bs
  assume "pacer_one d (entries d ! cursor d) = (d1, b)"
    and "running d2 = running d1 \<and> thread_created d2 = thread_created d1"
  then show "running d2 = running d \<and> thread_created d2 = thread_created d"
    using thread_frame(7,8) [of d "entries d ! cursor d"] by simp
qed auto

lemma thread_frame_iter [simp]:
  "running (fst (pacer_iter d t)) = running d"
  "thread_created (fst (pacer_iter d t)) = thread_created d"
  using thread_frame_loop [of t "pacer_pace (pacer_skip d)" "pacer_skip d"]
  by (auto simp: pacer_iter_def Let_def split: prod.splits)
    (metis fst_conv prune_locked_frame(9) thread_frame(9))+

lemma sys_ok_step: "sys_ok s \<Longrightarrow> delay_step s t \<Longrightarrow> sys_ok t"
proof (elim delay_stepE)
  fix ev
  assume ok: "sys_ok s" and en: "event_enabled ev s" and t: "t = event_exec ev s"
  show "sys_ok t"
  proof (cases ev)
    case (EvPush p x)
    with ok en show ?thesis by (auto simp: t sys_ok_def intro: swd_push_ok)
  next
    case (EvSet secs x)
    have "timeline_ok (buf s) x" using ok en EvSet timeline_ok_later by (auto simp: sys_ok_def)
    then have "timeline_ok (swd_set_delay (buf s) secs x) x"
      by (simp add: swd_set_delay_def apply_delay_ok)
    with ok EvSet show ?thesis by (simp add: t sys_ok_def)
  next
    case (EvPace x)
    with ok en timeline_ok_later have "timeline_ok (buf s) x" by (auto simp: sys_ok_def)
    from pacer_iter_ok [OF this] have "timeline_ok (fst (pacer_iter (buf s) x)) x" .
    moreover have "buf t = fst (pacer_iter (buf s) x)" and "clock t = x"
      by (simp_all add: t EvPace split: prod.split)
    ultimately show ?thesis using ok by (simp add: sys_ok_def)
  next
    case (EvStart secs b)
    then show ?thesis
      using swd_start_ok [of "buf s" secs b "clock s"]
      by (auto simp: t sys_ok_def split: prod.splits)
        (auto simp: swd_start_def Let_def split: prod.splits if_splits)
  next
    case EvStop
    with ok show ?thesis
      using swd_stop_ok [of "buf s" "clock s"]
      by (auto simp: t sys_ok_def split: prod.splits)
        (auto simp: swd_stop_def release_all_def split: if_splits)
  qed
qed

lemma sys_ok_init: "delay_init s \<Longrightarrow> sys_ok s"
  using reset_locked_ok by (auto simp: delay_init_def sys_ok_def swd_create_def)
    (auto simp: zero_delay_def reset_locked_def release_all_def Let_def)

interpretation timeline: guarded_system delay_init delay_step sys_ok
  by unfold_locales (auto intro: sys_ok_init sys_ok_step)

end
