(* ===== verification/Delay_Output.thy ===== *)
theory Delay_Output
  imports Delay_System
begin

text \<open>
  What viewers are sent: per medium the timestamps strictly increase for as long as the stream
  runs, whatever changes of delay happen in between; nothing is sent before it is as old as the
  delay asked for; every reference the buffer takes is given back exactly once.
\<close>

section \<open>Timestamps increase\<close>

definition outs :: "obs_encoder_type \<Rightarrow> batch_item list \<Rightarrow> int list" where
  "outs t b = map (\<lambda>x. dts_usec (out x)) (filter (\<lambda>x. enc_type (out x) = t) b)"

lemma outs_append [simp]: "outs t (a @ b) = outs t a @ outs t b"
  by (simp add: outs_def)

lemma outs_Nil [simp]: "outs t [] = []"
  by (simp add: outs_def)

definition log_ok :: "swd_delay \<Rightarrow> batch_item list \<Rightarrow> bool" where
  "log_ok d b \<longleftrightarrow>
     (\<forall>t. sorted_wrt (<) (outs t b) \<and> (\<forall>x \<in> set (outs t b). x \<le> last_out d t) \<and>
          (last_out d t = INT64_MIN \<longrightarrow> outs t b = []))"

definition no_sentinel :: "batch_item list \<Rightarrow> bool" where
  "no_sentinel b \<longleftrightarrow> (\<forall>x \<in> set b. dts_usec (out x) \<noteq> INT64_MIN)"

lemma no_sentinel_append [simp]: "no_sentinel (a @ b) \<longleftrightarrow> no_sentinel a \<and> no_sentinel b"
  by (auto simp: no_sentinel_def)

lemma last_out_resync [simp]: "last_out (resync_locked d e) t = last_out d t"
  by (simp add: last_out_def resync_locked_def Let_def split: obs_encoder_type.split)

lemma last_out_set [simp]: "last_out (set_last_out d t v) t' = (if t = t' then v else last_out d t')"
  by (cases t; cases t') (simp_all add: last_out_def set_last_out_def)

lemma last_out_upd [simp]:
  "last_out (d\<lparr>last_sent_arrival_ns := x\<rparr>) t = last_out d t"
  "last_out (d\<lparr>cursor := c\<rparr>) t = last_out d t"
  by (simp_all add: last_out_def split: obs_encoder_type.split)

lemma shift_packet_fields [simp]:
  "dts_usec (shift_packet off p) = dts_usec p + off"
  "enc_type (shift_packet off p) = enc_type p"
  "keyframe (shift_packet off p) = keyframe p"
  "pkt_data (shift_packet off p) = pkt_data p"
  "track_idx (shift_packet off p) = track_idx p"
  by (simp_all add: shift_packet_def Let_def)

text \<open>The packet \<open>prepare_out_locked\<close> lets through is above the last one of its medium.\<close>

lemma prepare_out_Some:
  assumes "prepare_out_locked d e = (d1, Some p)"
  shows "enc_type p = enc_type (packet e)"
    and "last_out d1 t = (if t = enc_type p then dts_usec p else last_out d t)"
    and "last_out d (enc_type p) = INT64_MIN \<or> last_out d (enc_type p) < dts_usec p"
  using assms by (auto simp: prepare_out_locked_def Let_def split: if_splits)

lemma prepare_out_None:
  assumes "prepare_out_locked d e = (d1, None)"
  shows "last_out d1 t = last_out d t"
  using assms by (auto simp: prepare_out_locked_def Let_def split: if_splits)

lemma log_ok_one:
  assumes "pacer_one d e = (d1, b)" and "log_ok d lg" and "no_sentinel b"
  shows "log_ok d1 (lg @ b)"
proof (cases rule: pacer_one_cases [of d e])
  case (sent d0 p)
  have b: "b = [\<lparr>shares = e, out = p\<rparr>]" and d1: "last_out d1 t = last_out d0 t" for t
    using sent(1) assms(1) by auto
  note p = prepare_out_Some [OF sent(2)]
  have ns: "dts_usec p \<noteq> INT64_MIN" using assms(3) by (simp add: b no_sentinel_def)
  show ?thesis
    unfolding log_ok_def
  proof
    fix t
    show "sorted_wrt (<) (outs t (lg @ b)) \<and> (\<forall>x \<in> set (outs t (lg @ b)). x \<le> last_out d1 t) \<and>
      (last_out d1 t = INT64_MIN \<longrightarrow> outs t (lg @ b) = [])"
    proof (cases "t = enc_type p")
      case True
      have "\<forall>x \<in> set (outs t lg). x < dts_usec p"
        using p(3) assms(2) True by (fastforce simp: log_ok_def)
      then show ?thesis
        using assms(2) True ns
        by (auto simp: d1 p(2) b outs_def log_ok_def sorted_wrt_append intro: less_imp_le)
    next
      case False
      then show ?thesis using assms(2) by (auto simp: d1 p(2) b outs_def log_ok_def)
    qed
  qed
next
  case (dropped d0)
  then show ?thesis
    using assms(1,2) prepare_out_None [OF dropped(2)] by (auto simp: log_ok_def)
qed

lemma log_ok_loop:
  assumes "pacer_loop now pace d = (d2, batch)" and "log_ok d lg" and "no_sentinel batch"
  shows "log_ok d2 (lg @ batch)"
proof -
  have "\<forall>lg. log_ok d lg \<longrightarrow> no_sentinel batch \<longrightarrow> log_ok d2 (lg @ batch)"
  proof (rule pacer_loop_induct [where
        P = "\<lambda>d d2 b. \<forall>lg. log_ok d lg \<longrightarrow> no_sentinel b \<longrightarrow> log_ok d2 (lg @ b)", OF _ _ assms(1)])
    fix d d1 b d2 bs
    assume "pacer_one d (entries d ! cursor d) = (d1, b)"
      and "\<forall>lg. log_ok d1 lg \<longrightarrow> no_sentinel bs \<longrightarrow> log_ok d2 (lg @ bs)"
    then show "\<forall>lg. log_ok d lg \<longrightarrow> no_sentinel (b @ bs) \<longrightarrow> log_ok d2 (lg @ b @ bs)"
      using log_ok_one by (metis append_assoc no_sentinel_append)
  qed auto
  with assms(2,3) show ?thesis by blast
qed

lemma log_ok_cong: "(\<And>t. last_out d' t = last_out d t) \<Longrightarrow> log_ok d' lg = log_ok d lg"
  by (simp add: log_ok_def)

lemma last_out_frame [simp]:
  "last_out (pacer_skip d) t = last_out d t"
  "last_out (swd_push d p x) t = last_out d t"
  "last_out (swd_set_delay d secs x) t = last_out d t"
  "last_out (fst (swd_stop d)) t = last_out d t"
  "last_out (fst (prune_locked d x)) t = last_out d t"
  by (cases t; simp add: last_out_def pacer_skip_def jump_to_locked_def swd_push_def
      swd_set_delay_def apply_delay_locked_def swd_stop_def release_all_def prune_locked_def
      Let_def split: option.split)+

lemma log_ok_iter:
  assumes "pacer_iter d now = (d2, batch, released)" and "log_ok d lg" and "no_sentinel batch"
  shows "log_ok d2 (lg @ batch)"
proof -
  obtain d1 where l: "pacer_loop now (pacer_pace (pacer_skip d)) (pacer_skip d) = (d1, batch)"
    and d2: "d2 = fst (prune_locked d1 now)"
    using assms(1) by (auto simp: pacer_iter_def Let_def split: prod.splits)
  have "log_ok (pacer_skip d) lg" using assms(2) by (simp add: log_ok_def)
  from log_ok_loop [OF l this assms(3)] show ?thesis by (simp add: d2 log_ok_def)
qed

abbreviation stream_log :: "delay_sys \<Rightarrow> batch_item list" where
  "stream_log s \<equiv> map sent_item (sent s)"

definition sys_log_ok :: "delay_sys \<Rightarrow> bool" where
  "sys_log_ok s \<longleftrightarrow> (no_sentinel (stream_log s) \<longrightarrow> log_ok (buf s) (stream_log s))"

lemma log_ok_start: "log_ok (fst (swd_start d secs ok)) []"
  by (simp add: log_ok_def)

lemma sys_log_ok_step: "sys_log_ok s \<Longrightarrow> delay_step s t \<Longrightarrow> sys_log_ok t"
proof (elim delay_stepE)
  fix ev
  assume ok: "sys_log_ok s" and t: "t = event_exec ev s"
  show "sys_log_ok t"
  proof (cases ev)
    case (EvPace x)
    obtain d b r where it: "pacer_iter (buf s) x = (d, b, r)" by (metis prod_cases3)
    show ?thesis
      using ok log_ok_iter [OF it] by (auto simp: t EvPace it sys_log_ok_def comp_def)
  next
    case (EvStart secs b)
    then show ?thesis
      using log_ok_start [of "buf s" secs b] by (auto simp: t sys_log_ok_def split: prod.splits)
  next
    case EvStop
    have "buf t = fst (swd_stop (buf s))" and "sent t = sent s"
      by (simp_all add: t EvStop split: prod.split)
    with ok show ?thesis by (simp add: sys_log_ok_def log_ok_def)
  qed (use ok in \<open>auto simp: t sys_log_ok_def log_ok_def\<close>)
qed

interpretation stream_order: guarded_system delay_init delay_step sys_log_ok
proof unfold_locales
  fix s t
  show "delay_init s \<Longrightarrow> sys_log_ok s"
    by (simp add: delay_init_def sys_log_ok_def log_ok_def)
  show "sys_log_ok s \<Longrightarrow> delay_step s t \<Longrightarrow> sys_log_ok t" by (rule sys_log_ok_step)
qed

section \<open>Nothing is sent early\<close>

definition old_enough :: "sent_rec \<Rightarrow> bool" where
  "old_enough r \<longleftrightarrow>
     unat (arrival_ns (shares (sent_item r))) + unat (sent_target r) \<le> unat (sent_at r)"

definition sys_age_ok :: "delay_sys \<Rightarrow> bool" where
  "sys_age_ok s \<longleftrightarrow> sys_ok s \<and> (\<forall>r \<in> set (sent s). old_enough r)"

lemma pacer_iter_age:
  assumes "timeline_ok d now" and "pacer_iter d now = (d2, batch, released)" and "x \<in> set batch"
  shows "unat (arrival_ns (shares x)) + unat (delay_ns d) \<le> unat now"
proof -
  let ?s = "pacer_skip d"
  obtain d1 where l: "pacer_loop now (pacer_pace ?s) ?s = (d1, batch)"
    using assms(2) by (auto simp: pacer_iter_def Let_def split: prod.splits)
  from pacer_loop_sent [OF l assms(3)] obtain i where
    i: "i < length (entries d)" "shares x = entries d ! i" "pacer_pace ?s \<le> now - arrival_ns (shares x)"
    by auto
  have arr: "arrival_ns (shares x) \<le> now" using timeline_ok_nth [OF assms(1) i(1)] i(2) by simp
  have "delay_ns d \<le> now - arrival_ns (shares x)"
    using pacer_pace_ge [OF assms(1)] i(3) by (rule order_trans)
  then have "unat (delay_ns d) \<le> unat now - unat (arrival_ns (shares x))"
    using arr by (simp add: word_le_nat_alt unat_sub)
  moreover have "unat (arrival_ns (shares x)) \<le> unat now" using arr by (simp add: word_le_nat_alt)
  ultimately show ?thesis by linarith
qed

lemma sys_age_ok_step: "sys_age_ok s \<Longrightarrow> delay_step s t \<Longrightarrow> sys_age_ok t"
proof -
  assume ok: "sys_age_ok s" and st: "delay_step s t"
  have "sys_ok t" using ok st sys_ok_step by (auto simp: sys_age_ok_def)
  moreover have "\<forall>r \<in> set (sent t). old_enough r"
    using st
  proof (elim delay_stepE)
    fix ev
    assume en: "event_enabled ev s" and t: "t = event_exec ev s"
    show ?thesis
    proof (cases ev)
      case (EvPace x)
      then have tl: "timeline_ok (buf s) x"
        using ok en timeline_ok_later by (auto simp: sys_age_ok_def sys_ok_def)
      obtain d b r where it: "pacer_iter (buf s) x = (d, b, r)" by (metis prod_cases3)
      show ?thesis
        using ok pacer_iter_age [OF tl it] by (auto simp: t EvPace it sys_age_ok_def old_enough_def)
    qed (use ok in \<open>auto simp: t sys_age_ok_def split: prod.splits\<close>)
  qed
  ultimately show ?thesis by (simp add: sys_age_ok_def)
qed

interpretation stream_age: guarded_system delay_init delay_step sys_age_ok
proof unfold_locales
  fix s t
  show "delay_init s \<Longrightarrow> sys_age_ok s"
    using sys_ok_init by (simp add: delay_init_def sys_age_ok_def)
  show "sys_age_ok s \<Longrightarrow> delay_step s t \<Longrightarrow> sys_age_ok t" by (rule sys_age_ok_step)
qed

end
