(* ===== verification/Delay_Refs.thy ===== *)
theory Delay_Refs
  imports Delay_Output
begin

text \<open>
  The references the buffer holds on encoder packets: each one taken by a push is given back
  once, by a prune, a stop or a restart; and a pacer iteration gives back nothing it still has
  to send, as long as no entry it sends is older than the history. The last section is the run
  in which that condition fails.
\<close>

definition held :: "swd_delay \<Rightarrow> encoder_packet multiset" where
  "held d = mset (map packet (entries d))"

definition sys_conserves :: "delay_sys \<Rightarrow> bool" where
  "sys_conserves s \<longleftrightarrow> mset (taken s) = held (buf s) + mset (given s)"

lemma held_push [simp]: "held (swd_push d p t) = add_mset p (held d)"
  by (simp add: held_def swd_push_def Let_def)

lemma held_set [simp]: "held (swd_set_delay d secs t) = held d"
  by (simp add: held_def swd_set_delay_def apply_delay_locked_def jump_to_locked_def Let_def
      split: option.split)

lemma held_release_all: "release_all d = (d2, r) \<Longrightarrow> held d = held d2 + mset r"
  by (auto simp: release_all_def held_def)

lemma held_stop: "swd_stop d = (d2, r) \<Longrightarrow> held d = held d2 + mset r"
  by (auto simp: swd_stop_def release_all_def held_def)

lemma held_start: "swd_start d secs ok = (d2, r) \<Longrightarrow> held d = held d2 + mset r"
  by (auto simp: swd_start_def swd_stop_def reset_locked_def release_all_def held_def Let_def)

lemma held_prune: "prune_locked d now = (d2, r) \<Longrightarrow> held d = held d2 + mset r"
proof (rule prune_locked_split [of d now])
  fix n
  assume run: "prune_locked d now = (d2, r)"
    and "snd (prune_locked d now) = map packet (take n (entries d))"
    and "entries (fst (prune_locked d now)) = drop n (entries d)"
  then have "held d2 + mset r = mset (map packet (take n (entries d) @ drop n (entries d)))"
    by (simp only: held_def fst_conv snd_conv map_append mset_append add.commute)
  then show "held d = held d2 + mset r" by (simp add: held_def)
qed

lemma pacer_iter_split:
  assumes "pacer_iter d now = (d2, batch, released)"
  obtains d1 where "pacer_loop now (pacer_pace (pacer_skip d)) (pacer_skip d) = (d1, batch)"
    "prune_locked d1 now = (d2, released)" "entries d1 = entries d"
    "cursor (pacer_skip d) \<le> cursor d1"
proof -
  obtain d1 where "pacer_loop now (pacer_pace (pacer_skip d)) (pacer_skip d) = (d1, batch)"
    "prune_locked d1 now = (d2, released)"
    using assms by (auto simp: pacer_iter_def Let_def split: prod.splits)
  with pacer_loop_frame [OF this(1)] show ?thesis by (intro that [of d1]) auto
qed

lemma held_iter: "pacer_iter d now = (d2, batch, r) \<Longrightarrow> held d = held d2 + mset r"
  by (erule pacer_iter_split) (metis held_def held_prune)

lemma sys_conserves_step: "sys_conserves s \<Longrightarrow> delay_step s t \<Longrightarrow> sys_conserves t"
proof (elim delay_stepE)
  fix ev
  assume ok: "sys_conserves s" and t: "t = event_exec ev s"
  show "sys_conserves t"
    using ok held_iter held_start held_stop
    by (cases ev) (fastforce simp: t sys_conserves_def split: prod.split)+
qed

interpretation references: guarded_system delay_init delay_step sys_conserves
proof unfold_locales
  fix s t
  show "delay_init s \<Longrightarrow> sys_conserves s"
    by (simp add: delay_init_def sys_conserves_def held_def swd_create_def reset_locked_def
        release_all_def zero_delay_def Let_def)
  show "sys_conserves s \<Longrightarrow> delay_step s t \<Longrightarrow> sys_conserves t" by (rule sys_conserves_step)
qed

section \<open>Nothing is released before it is sent\<close>

lemma prune_released_old:
  assumes "prune_locked d now = (d2, released)"
  obtains n where "n \<le> cursor d" "n \<le> length (entries d)"
    "released = map packet (take n (entries d))"
    "\<And>i. i < n \<Longrightarrow> now - arrival_ns (entries d ! i) > HISTORY_NS"
  using assms prune_locked_split [of d now] by (metis snd_conv)

lemma released_in_front:
  assumes run: "pacer_iter d now = (d2, batch, released)"
    and young: "\<And>i. cursor (pacer_skip d) \<le> i \<Longrightarrow> i < length (entries d) \<Longrightarrow>
      now - arrival_ns (entries d ! i) \<le> HISTORY_NS"
  shows "\<exists>n. released = map packet (take n (entries d)) \<and>
    (\<forall>x \<in> set batch. \<exists>i \<ge> n. i < length (entries d) \<and> shares x = entries d ! i)"
proof (rule pacer_iter_split [OF run])
  fix d1
  assume l: "pacer_loop now (pacer_pace (pacer_skip d)) (pacer_skip d) = (d1, batch)"
    and p: "prune_locked d1 now = (d2, released)" and e: "entries d1 = entries d"
  obtain n where n: "n \<le> length (entries d1)" "released = map packet (take n (entries d1))"
    "\<And>i. i < n \<Longrightarrow> now - arrival_ns (entries d1 ! i) > HISTORY_NS"
    using prune_released_old [OF p] by metis
  have bound: "n \<le> cursor (pacer_skip d)"
  proof (rule ccontr)
    assume "\<not> n \<le> cursor (pacer_skip d)"
    then have "cursor (pacer_skip d) < n" by simp
    then have "now - arrival_ns (entries d ! cursor (pacer_skip d)) > HISTORY_NS"
      and "cursor (pacer_skip d) < length (entries d)"
      using n(1,3) e by auto
    with young [OF order_refl] show False by simp
  qed
  have "\<exists>i \<ge> n. i < length (entries d) \<and> shares x = entries d ! i" if "x \<in> set batch" for x
    using pacer_loop_sent [OF l that] bound by (metis entries_pacer_skip le_trans)
  with n(2) e show ?thesis by auto
qed

end
