(* ===== verification/Delay_Jumps.thy ===== *)
theory Delay_Jumps
  imports Delay_Refs "HOL-Library.Sublist"
begin

text \<open>
  The timeline as a store that can be replayed: an interface (what is behind the cursor, what
  is in front of it) with its laws, and the delay buffer as its implementation. Then what a
  change of delay does to the cursor, that the pacer leaves nothing due behind, and that a
  pruning iteration keeps the history bounded.
\<close>

section \<open>The replay store\<close>

locale replay_store =
  fixes past :: "'d \<Rightarrow> 'e list"
    and future :: "'d \<Rightarrow> 'e list"
    and push :: "'e \<Rightarrow> 'd \<Rightarrow> 'd"
    and trim :: "'t \<Rightarrow> 'd \<Rightarrow> 'd"
    and good :: "'d \<Rightarrow> bool"
  assumes push_good: "good d \<Longrightarrow> good (push e d)"
    and push_past: "good d \<Longrightarrow> past (push e d) = past d"
    and push_future: "good d \<Longrightarrow> future (push e d) = future d @ [e]"
    and trim_good: "good d \<Longrightarrow> good (trim t d)"
    and trim_past: "good d \<Longrightarrow> suffix (past (trim t d)) (past d)"
    and trim_future: "good d \<Longrightarrow> future (trim t d) = future d"
begin

definition feed :: "('e + 't) list \<Rightarrow> 'd \<Rightarrow> 'd" where
  "feed ops d = fold (\<lambda>x d. case x of Inl e \<Rightarrow> push e d | Inr t \<Rightarrow> trim t d) ops d"

lemma feed_Nil: "feed [] d = d"
  by (simp add: feed_def)

lemma feed_Cons: "feed (x # ops) d = feed ops (case x of Inl e \<Rightarrow> push e d | Inr t \<Rightarrow> trim t d)"
  by (simp add: feed_def)

text \<open>Between two moves of the cursor nothing in front of it is lost or reordered.\<close>

lemma feed_future:
  "good d \<Longrightarrow> good (feed ops d) \<and>
     future (feed ops d) = future d @ concat (map (\<lambda>x. case x of Inl e \<Rightarrow> [e] | Inr t \<Rightarrow> []) ops)"
proof (induction ops arbitrary: d)
  case (Cons x ops)
  then show ?case
    by (cases x) (auto simp: feed_Cons push_good push_future trim_good trim_future)
qed (simp add: feed_Nil)

lemma feed_past: "good d \<Longrightarrow> suffix (past (feed ops d)) (past d)"
proof (induction ops arbitrary: d)
  case (Cons x ops)
  show ?case
  proof (cases x)
    case (Inl e)
    with Cons push_good push_past show ?thesis by (metis feed_Cons sum.case(1))
  next
    case (Inr t)
    then have "suffix (past (feed (x # ops) d)) (past (trim t d))"
      using Cons trim_good by (simp add: feed_Cons)
    then show ?thesis using trim_past [OF Cons.prems] by (rule suffix_order.trans)
  qed
qed (simp add: feed_Nil)

end

text \<open>A store whose cursor can be moved: moving it neither loses nor reorders anything.\<close>

locale seekable_store = replay_store past future push trim good
  for past :: "'d \<Rightarrow> 'e list"
    and future :: "'d \<Rightarrow> 'e list"
    and push :: "'e \<Rightarrow> 'd \<Rightarrow> 'd"
    and trim :: "'t \<Rightarrow> 'd \<Rightarrow> 'd"
    and good :: "'d \<Rightarrow> bool" +
  fixes seek :: "'k \<Rightarrow> 'd \<Rightarrow> 'd"
  assumes seek_good: "good d \<Longrightarrow> good (seek k d)"
    and seek_all: "good d \<Longrightarrow> past (seek k d) @ future (seek k d) = past d @ future d"
begin

lemma seek_feed:
  assumes "good d"
  shows "future (feed ops (seek k d)) =
    future (seek k d) @ concat (map (\<lambda>x. case x of Inl e \<Rightarrow> [e] | Inr t \<Rightarrow> []) ops)"
  using feed_future [OF seek_good [OF assms]] by blast

lemma seek_seek:
  assumes "good d"
  shows "past (seek k (seek l d)) @ future (seek k (seek l d)) = past d @ future d"
  using seek_all [OF seek_good [OF assms]] seek_all [OF assms] by simp

end

definition tl_past :: "swd_delay \<Rightarrow> swd_entry list" where
  "tl_past d = take (cursor d) (entries d)"

definition tl_future :: "swd_delay \<Rightarrow> swd_entry list" where
  "tl_future d = drop (cursor d) (entries d)"

definition tl_good :: "swd_delay \<Rightarrow> bool" where
  "tl_good d \<longleftrightarrow> cursor d \<le> length (entries d)"

definition tl_push :: "swd_entry \<Rightarrow> swd_delay \<Rightarrow> swd_delay" where
  "tl_push e d = swd_push d (packet e) (arrival_ns e)"

definition tl_trim :: "u64 \<Rightarrow> swd_delay \<Rightarrow> swd_delay" where
  "tl_trim now d = fst (prune_locked d now)"

definition tl_seek :: "u32 \<times> u64 \<Rightarrow> swd_delay \<Rightarrow> swd_delay" where
  "tl_seek k d = swd_set_delay d (fst k) (snd k)"

lemma cursor_push [simp]: "cursor (swd_push d p t) = cursor d"
  by (simp add: swd_push_def Let_def)

lemma entries_push [simp]: "entries (swd_push d p t) = entries d @ [\<lparr>packet = p, arrival_ns = t\<rparr>]"
  by (simp add: swd_push_def Let_def)

lemma entries_apply_delay [simp]: "entries (apply_delay_locked d ns now) = entries d"
  by (simp add: apply_delay_locked_def jump_to_locked_def Let_def split: option.split)

lemma cursor_apply_delay_le:
  "cursor d \<le> length (entries d) \<Longrightarrow> cursor (apply_delay_locked d ns now) \<le> length (entries d)"
  by (auto simp: apply_delay_locked_def jump_to_locked_def Let_def find_keyframe_after_Some
      split: option.split)

interpretation delay_store: seekable_store tl_past tl_future tl_push tl_trim tl_good tl_seek
proof unfold_locales
  fix d e t k
  assume g: "tl_good d"
  show "tl_good (tl_push e d)" and "tl_past (tl_push e d) = tl_past d"
    and "tl_future (tl_push e d) = tl_future d @ [e]"
    using g by (simp_all add: tl_good_def tl_push_def tl_past_def tl_future_def)
  show "tl_good (tl_trim t d)" and "suffix (tl_past (tl_trim t d)) (tl_past d)"
    and "tl_future (tl_trim t d) = tl_future d"
  proof (rule_tac [!] prune_locked_split [of d t])
    fix n
    assume n: "n \<le> cursor d" "n \<le> length (entries d)"
      and e: "entries (fst (prune_locked d t)) = drop n (entries d)"
        "cursor (fst (prune_locked d t)) = cursor d - n"
    show "tl_good (tl_trim t d)" using g n by (simp add: tl_good_def tl_trim_def e)
    have "take (cursor d - n) (drop n (entries d)) = drop n (take (cursor d) (entries d))"
      using n by (simp add: drop_take)
    then show "suffix (tl_past (tl_trim t d)) (tl_past d)"
      by (simp add: tl_past_def tl_trim_def e suffix_drop)
    show "tl_future (tl_trim t d) = tl_future d"
      using n by (simp add: tl_future_def tl_trim_def e)
  qed
  show "tl_good (tl_seek k d)"
    using g cursor_apply_delay_le by (simp add: tl_good_def tl_seek_def swd_set_delay_def)
  show "tl_past (tl_seek k d) @ tl_future (tl_seek k d) = tl_past d @ tl_future d"
    by (simp add: tl_past_def tl_future_def tl_seek_def swd_set_delay_def)
qed

section \<open>Changing the delay\<close>

text \<open>The keyframe a raise rewinds to: the last one at or before the target.\<close>

definition rewind_point :: "swd_delay \<Rightarrow> u64 \<Rightarrow> nat \<Rightarrow> bool" where
  "rewind_point d target k \<longleftrightarrow>
     k < length (entries d) \<and> is_keyframe (entries d ! k) \<and> arrival_ns (entries d ! k) \<le> target \<and>
     (\<forall>j. k < j \<and> j < length (entries d) \<longrightarrow>
        \<not> (is_keyframe (entries d ! j) \<and> arrival_ns (entries d ! j) \<le> target))"

lemma find_keyframe_before_point:
  "rewind_point d target k \<Longrightarrow> find_keyframe_before d target = Some k"
  by (auto simp: rewind_point_def find_keyframe_before_def scan_down_None split: option.split)
    (auto simp: scan_down_Some, metis nat_neq_iff)

lemma apply_delay_raise:
  assumes "delay_ns d < ns" and "ns \<le> now"
  shows "delay_ns (apply_delay_locked d ns now) = ns"
    and "\<not> pending_skip (apply_delay_locked d ns now)"
    and "pacer_pace (apply_delay_locked d ns now) = ns"
    and "cursor (apply_delay_locked d ns now) \<le> cursor d"
    and "cursor (apply_delay_locked d ns now) < cursor d \<Longrightarrow>
      resync (apply_delay_locked d ns now) \<and>
      is_keyframe (entries d ! cursor (apply_delay_locked d ns now))"
    and "rewind_point d (now - ns) k \<Longrightarrow> k < cursor d \<Longrightarrow>
      cursor (apply_delay_locked d ns now) = k"
proof -
  have t: "(if now > ns then now - ns else 0) = now - ns" using assms(2) by auto
  show "delay_ns (apply_delay_locked d ns now) = ns"
    and "\<not> pending_skip (apply_delay_locked d ns now)"
    and "pacer_pace (apply_delay_locked d ns now) = ns"
    and "cursor (apply_delay_locked d ns now) \<le> cursor d"
    using assms(1) by (auto simp: apply_delay_locked_def jump_to_locked_def pacer_pace_def Let_def
        split: option.split)
  show "cursor (apply_delay_locked d ns now) < cursor d \<Longrightarrow>
      resync (apply_delay_locked d ns now) \<and>
      is_keyframe (entries d ! cursor (apply_delay_locked d ns now))"
    using assms(1) find_keyframe_before_keyframe
    by (fastforce simp: apply_delay_locked_def jump_to_locked_def Let_def split: option.splits if_splits)
  show "rewind_point d (now - ns) k \<Longrightarrow> k < cursor d \<Longrightarrow>
      cursor (apply_delay_locked d ns now) = k"
    using assms(1) by (simp add: apply_delay_locked_def t find_keyframe_before_point jump_to_locked_def)
qed

text \<open>The keyframe a reduction skips to: the first unsent one at or after the target.\<close>

definition skip_point :: "swd_delay \<Rightarrow> u64 \<Rightarrow> nat \<Rightarrow> bool" where
  "skip_point d target k \<longleftrightarrow>
     cursor d \<le> k \<and> k < length (entries d) \<and> is_keyframe (entries d ! k) \<and>
     target \<le> arrival_ns (entries d ! k) \<and>
     (\<forall>j. cursor d \<le> j \<and> j < k \<longrightarrow>
        \<not> (is_keyframe (entries d ! j) \<and> target \<le> arrival_ns (entries d ! j)))"

lemma find_keyframe_after_point: "find_keyframe_after d target = Some k \<longleftrightarrow> skip_point d target k"
  by (simp add: find_keyframe_after_Some skip_point_def)

lemma apply_delay_lower_found:
  assumes "ns < delay_ns d" and "ns \<le> now" and "skip_point d (now - ns) k"
  shows "cursor (apply_delay_locked d ns now) = k \<and> delay_ns (apply_delay_locked d ns now) = ns \<and>
    pacer_pace (apply_delay_locked d ns now) = ns \<and>
    (k = cursor d \<or> resync (apply_delay_locked d ns now))"
proof -
  have t: "(if now > ns then now - ns else 0) = now - ns" using assms(2) by auto
  have "\<not> delay_ns d < ns" using assms(1) by simp
  moreover have "cursor d \<le> k" using assms(3) by (simp add: skip_point_def)
  ultimately show ?thesis
    using assms(1,3)
    by (auto simp: apply_delay_locked_def t find_keyframe_after_point [symmetric]
        jump_to_locked_def pacer_pace_def)
qed

lemma apply_delay_lower_pending:
  assumes "ns < delay_ns d" and "ns \<le> now" and "\<And>k. \<not> skip_point d (now - ns) k"
  shows "cursor (apply_delay_locked d ns now) = cursor d \<and>
    pending_skip (apply_delay_locked d ns now) \<and>
    pending_target_ns (apply_delay_locked d ns now) = now - ns \<and>
    delay_ns (apply_delay_locked d ns now) = ns \<and>
    pacer_pace (apply_delay_locked d ns now) = delay_ns d"
proof -
  have t: "(if now > ns then now - ns else 0) = now - ns" using assms(2) by auto
  have "\<not> delay_ns d < ns" using assms(1) by simp
  moreover have "find_keyframe_after d (now - ns) = None"
    using assms(3) by (meson find_keyframe_after_point not_Some_eq)
  ultimately show ?thesis
    using assms(1) by (simp add: apply_delay_locked_def t pacer_pace_def)
qed

text \<open>A pending reduction takes effect at the keyframe that arrives next.\<close>

lemma pending_resolves:
  assumes p: "pending_skip d" and none: "\<And>k. \<not> skip_point d (pending_target_ns d) k"
    and good: "cursor d \<le> length (entries d)"
    and key: "enc_type p = OBS_ENCODER_VIDEO" "keyframe p" and t: "pending_target_ns d \<le> t"
  shows "\<not> pending_skip (pacer_skip (swd_push d p t)) \<and>
    cursor (pacer_skip (swd_push d p t)) = length (entries d) \<and>
    pacer_pace (pacer_skip (swd_push d p t)) = delay_ns d"
proof -
  let ?d = "swd_push d p t"
  have f: "pending_skip ?d" "pending_target_ns ?d = pending_target_ns d" "delay_ns ?d = delay_ns d"
    using p by (simp_all add: swd_push_def Let_def)
  have "skip_point ?d (pending_target_ns d) (length (entries d))"
    unfolding skip_point_def
  proof (intro conjI allI impI)
    fix j assume j: "cursor ?d \<le> j \<and> j < length (entries d)"
    show "\<not> (is_keyframe (entries ?d ! j) \<and> pending_target_ns d \<le> arrival_ns (entries ?d ! j))"
    proof
      assume hit: "is_keyframe (entries ?d ! j) \<and> pending_target_ns d \<le> arrival_ns (entries ?d ! j)"
      have "find_keyframe_after d (pending_target_ns d) \<noteq> None"
        using hit j by (auto simp: find_keyframe_after_None nth_append)
      then show False using none by (auto simp: find_keyframe_after_point)
    qed
  qed (use good key t in \<open>auto simp: is_keyframe_def\<close>)
  then have "find_keyframe_after ?d (pending_target_ns d) = Some (length (entries d))"
    by (simp add: find_keyframe_after_point)
  then show ?thesis
    using f good by (auto simp: pacer_skip_def jump_to_locked_def pacer_pace_def Let_def)
qed

section \<open>Nothing due is left, and the history stays bounded\<close>

lemma pacer_iter_drains:
  assumes "timeline_ok d now" and run: "pacer_iter d now = (d2, batch, released)"
    and i: "cursor d2 \<le> i" "i < length (entries d2)"
  shows "now - arrival_ns (entries d2 ! i) < pacer_pace (pacer_skip d)"
proof (rule pacer_iter_split [OF run])
  fix d1
  assume l: "pacer_loop now (pacer_pace (pacer_skip d)) (pacer_skip d) = (d1, batch)"
    and p: "prune_locked d1 now = (d2, released)"
  have ok: "timeline_ok d1 now" using pacer_loop_ok [OF l pacer_skip_ok [OF assms(1)]] .
  obtain n where n: "n \<le> cursor d1" "entries d2 = drop n (entries d1)" "cursor d2 = cursor d1 - n"
    using prune_locked_split [of d1 now] by (metis p fst_conv)
  have j: "cursor d1 \<le> n + i" "n + i < length (entries d1)" using i n by auto
  have "now - arrival_ns (entries d1 ! (n + i)) < pacer_pace (pacer_skip d)"
    using none_due_after [OF ok pacer_loop_drained [OF l] j] j by simp
  with n j show ?thesis by simp
qed

lemma prune_bounds_history:
  assumes ok: "timeline_ok d now" and due: "PRUNE_EVERY_NS \<le> now - last_prune_ns d"
    and i: "i < cursor (fst (prune_locked d now))"
  shows "now - arrival_ns (entries (fst (prune_locked d now)) ! i) \<le> HISTORY_NS"
proof -
  let ?es = "take (cursor d) (entries d)"
  let ?n = "prune_count now ?es"
  have e: "entries (fst (prune_locked d now)) = drop ?n (entries d)"
    "cursor (fst (prune_locked d now)) = cursor d - ?n"
    using due by (auto simp: prune_locked_def Let_def)
  have c: "cursor d \<le> length (entries d)" by (rule timeline_okD(3) [OF ok])
  have "?n < length ?es" using i e c by simp
  then have first: "now - arrival_ns (entries d ! ?n) \<le> HISTORY_NS"
    using prune_count_first [of now ?es] by simp
  have j: "?n + i < length (entries d)" using i e c by simp
  have "arrival_ns (entries d ! ?n) \<le> arrival_ns (entries d ! (?n + i))"
    using timeline_okD(1) [OF ok] j by (auto simp: sorted_iff_nth_mono)
  then have "now - arrival_ns (entries d ! (?n + i)) \<le> now - arrival_ns (entries d ! ?n)"
    using timeline_ok_nth [OF ok j] by (rule word_age_mono)
  with first e j show ?thesis by simp
qed

end
