(* ===== verification/Delay_Timestamps.thy ===== *)
theory Delay_Timestamps
  imports Delay_Jumps
begin

text \<open>
  The two clocks of a packet stay together: how far \<open>usec_to_tb\<close> is from the exact quotient,
  and that the decoding time in encoder units, and with it the FLV millisecond clock, does not
  go back across a jump when the encoder's timebase has numerator 1.
\<close>

definition exact_tb :: "int \<Rightarrow> encoder_packet \<Rightarrow> rat" where
  "exact_tb usec p = of_int (usec * timebase_den p) / of_int (1000000 * timebase_num p)"

lemma fl_mult_int: "\<bar>a * b\<bar> < 2 ^ 53 \<Longrightarrow> fl (of_int a * of_int b) = of_int (a * b)"
  using fl_of_int [of "a * b"] by simp

lemma usec_to_tb_eq:
  assumes "\<bar>usec * timebase_den p\<bar> < 2 ^ 53" and "0 < timebase_den p"
    and "0 < timebase_num p" and "timebase_num p < 2 ^ 32"
  shows "usec_to_tb usec p = llround (fl (exact_tb usec p))"
proof -
  have den: "timebase_den p < 2 ^ 53 \<or> usec = 0" and us: "\<bar>usec\<bar> < 2 ^ 53"
  proof -
    have "\<bar>usec\<bar> * 1 \<le> \<bar>usec\<bar> * timebase_den p" using assms(2) by (intro mult_left_mono) auto
    then show "\<bar>usec\<bar> < 2 ^ 53" using assms(1,2) by (simp add: abs_mult)
    have "timebase_den p \<le> \<bar>usec * timebase_den p\<bar>" if "usec \<noteq> 0"
      using mult_right_mono [of 1 "\<bar>usec\<bar>" "timebase_den p"] that assms(2)
      by (simp add: abs_mult)
    then show "timebase_den p < 2 ^ 53 \<or> usec = 0" using assms(1) by fastforce
  qed
  have n: "fl (fl 1000000 * fl (of_int (timebase_num p))) = of_int (1000000 * timebase_num p)"
    using fl_of_int [of 1000000] fl_of_int [of "timebase_num p"]
      fl_mult_int [of 1000000 "timebase_num p"] assms(3,4) by simp
  show ?thesis
  proof (cases "usec = 0")
    case True
    then show ?thesis by (simp add: usec_to_tb_def exact_tb_def fl_def)
  next
    case False
    have m: "fl (fl (of_int usec) * fl (of_int (timebase_den p))) = of_int (usec * timebase_den p)"
      using False den us assms(1,2) fl_of_int [of usec] fl_of_int [of "timebase_den p"]
        fl_mult_int [of usec "timebase_den p"] by simp
    show ?thesis unfolding usec_to_tb_def m n exact_tb_def ..
  qed
qed

text \<open>Within half a unit and a millionth of the exact value.\<close>

lemma usec_to_tb_err:
  assumes "\<bar>usec * timebase_den p\<bar> < 2 ^ 53" and "0 < timebase_den p"
    and "0 < timebase_num p" and "timebase_num p < 2 ^ 32"
  shows "\<bar>of_int (usec_to_tb usec p) - exact_tb usec p\<bar> \<le> 1 / 2 + 1 / 1000000"
proof -
  let ?q = "exact_tb usec p"
  have num: "(1000000 :: rat) \<le> of_int (1000000 * timebase_num p)" using assms(3) by simp
  have top: "\<bar>of_int (usec * timebase_den p)\<bar> \<le> (2 ^ 53 :: rat)"
    using assms(1) by (metis less_imp_le of_int_abs of_int_le_numeral_power_cancel_iff)
  have "\<bar>?q\<bar> = \<bar>of_int (usec * timebase_den p)\<bar> / of_int (1000000 * timebase_num p)"
    using assms(3) by (simp add: exact_tb_def abs_mult)
  also have "\<dots> \<le> 2 ^ 53 / 1000000"
    using num top by (intro frac_le) auto
  finally have q: "\<bar>?q\<bar> / 2 ^ 53 \<le> 1 / 1000000" by simp
  have "\<bar>of_int (llround (fl ?q)) - fl ?q\<bar> \<le> 1 / 2" by (rule llround_err)
  moreover have "\<bar>fl ?q - ?q\<bar> \<le> 1 / 1000000" using fl_err [of ?q] q by linarith
  ultimately show ?thesis unfolding usec_to_tb_eq [OF assms] by linarith
qed

text \<open>
  libobs fills \<open>dts_usec\<close> with the decoding time in microseconds; for a timebase with numerator
  1 that is \<open>dts\<close> scaled and truncated.
\<close>

definition usec_of_dts :: "encoder_packet \<Rightarrow> bool" where
  "usec_of_dts p \<longleftrightarrow> dts_usec p = c_div (dts p * 1000000) (timebase_den p)"

lemma c_div_err:
  assumes "0 < b"
  shows "\<bar>of_int (c_div a b) - of_int a / of_int b\<bar> < (1 :: rat)"
proof -
  have pos: "0 \<le> x - of_int (a' div b) \<and> x - of_int (a' div b) < 1"
    if x: "x = of_int a' / of_int b" for a' :: int and x :: rat
    using floor_divide_of_int_eq [of a' b, where ?'a = rat] unfolding x by linarith
  show ?thesis
  proof (cases "0 \<le> a")
    case True
    with pos [OF refl, of a] show ?thesis by (simp add: c_div_nonneg assms)
  next
    case False
    then have "c_div a b = - ((- a) div b)" using assms by (simp add: c_div_def)
    with pos [OF refl, of "- a"] show ?thesis by simp
  qed
qed

lemma shift_packet_dts: "dts (shift_packet off p) = dts p + usec_to_tb off p"
proof -
  have "usec_to_tb 0 p = 0" using llround_int [of 0] by (simp add: usec_to_tb_def fl_def)
  then show ?thesis by (simp add: shift_packet_def Let_def)
qed

lemma shift_packet_den [simp]: "timebase_den (shift_packet off p) = timebase_den p"
  by (simp add: shift_packet_def Let_def)

text \<open>Across a jump: \<open>a\<close> was the last video packet sent, \<open>b\<close> is the keyframe jumped to.\<close>

lemma jump_dts_le:
  assumes a: "usec_of_dts a" "timebase_num a = 1" "timebase_den a = den"
    and b: "usec_of_dts b" "timebase_num b = 1" "timebase_den b = den"
    and den: "0 < den" "den \<le> 300000"
    and ob: "ob = dts_usec a + oa + c_div 1000000 den - dts_usec b"
    and small: "\<bar>oa * den\<bar> < 2 ^ 53" "\<bar>ob * den\<bar> < 2 ^ 53"
  shows "dts (shift_packet oa a) \<le> dts (shift_packet ob b)"
proof -
  define M D :: rat where "M = 1000000" and "D = of_int den"
  have D: "0 < D" "D \<le> 300000" using den by (simp_all add: D_def)
  define ua ub f where "ua = (of_int (dts_usec a) :: rat)" and "ub = (of_int (dts_usec b) :: rat)"
    and "f = (of_int (c_div 1000000 den) :: rat)"
  have ea: "\<bar>ua - of_int (dts a) * M / D\<bar> < 1"
    using c_div_err [OF den(1), of "dts a * 1000000"] a by (simp add: usec_of_dts_def ua_def M_def D_def)
  have eb: "\<bar>ub - of_int (dts b) * M / D\<bar> < 1"
    using c_div_err [OF den(1), of "dts b * 1000000"] b by (simp add: usec_of_dts_def ub_def M_def D_def)
  have ef: "\<bar>f - M / D\<bar> < 1"
    using c_div_err [OF den(1), of 1000000] by (simp add: f_def M_def D_def)
  have ta: "\<bar>of_int (usec_to_tb oa a) - of_int oa * D / M\<bar> \<le> 1 / 2 + 1 / M"
    using usec_to_tb_err [of oa a] a den(1) small(1) by (simp add: exact_tb_def M_def D_def)
  have tb: "\<bar>of_int (usec_to_tb ob b) - of_int ob * D / M\<bar> \<le> 1 / 2 + 1 / M"
    using usec_to_tb_err [of ob b] b den(1) small(2) by (simp add: exact_tb_def M_def D_def)
  have o: "of_int ob = ua + of_int oa + f - ub" by (simp add: ob ua_def ub_def f_def)
  define x where "x = (ua - of_int (dts a) * M / D) - (ub - of_int (dts b) * M / D) + (f - M / D)"
  have "-3 < x" using ea eb ef unfolding x_def by linarith
  then have "-3 * (D / M) < x * (D / M)" using D by (intro mult_strict_right_mono) (auto simp: M_def)
  moreover have "D / M \<le> 3 / 10" using D by (simp add: M_def)
  ultimately have lo: "- 9 / 10 < x * (D / M)" by linarith
  have "x * (D / M) = (of_int ob - of_int oa) * D / M + of_int (dts b) - of_int (dts a) - 1"
    unfolding x_def o using D by (simp add: M_def field_simps)
  with lo ta tb have "-1 < of_int (dts b) + of_int (usec_to_tb ob b)
      - (of_int (dts a) + of_int (usec_to_tb oa a) :: rat)"
    by (simp add: M_def field_simps)
  then have "of_int (-1) < (of_int (dts b + usec_to_tb ob b - (dts a + usec_to_tb oa a)) :: rat)"
    by simp
  then have "- 1 < dts b + usec_to_tb ob b - (dts a + usec_to_tb oa a)"
    by (rule of_int_less_iff [THEN iffD1])
  then show ?thesis by (simp add: shift_packet_dts)
qed

end
