(* ===== verification/Delay_Transparent.thy ===== *)
theory Delay_Transparent
  imports Delay_Timestamps
begin

text \<open>
  Between two jumps the buffer is transparent: the packets that go out are the buffered ones, in
  order and none missing, each moved by the same offset; and a jump itself lands the keyframe one
  frame after the last packet sent.
\<close>

definition slice :: "nat \<Rightarrow> nat \<Rightarrow> 'a list \<Rightarrow> 'a list" where
  "slice i j xs = take (j - i) (drop i xs)"

lemma slice_empty [simp]: "slice i i xs = []"
  by (simp add: slice_def)

lemma slice_Cons:
  "i < length xs \<Longrightarrow> Suc i \<le> j \<Longrightarrow> slice i j xs = xs ! i # slice (Suc i) j xs"
  by (simp add: slice_def Cons_nth_drop_Suc [symmetric] Suc_diff_le take_Cons' flip: Suc_diff_Suc)

text \<open>Per medium the unsent packets come in strictly increasing time, above what was sent.\<close>

definition fresh :: "swd_delay \<Rightarrow> swd_entry list \<Rightarrow> bool" where
  "fresh d es \<longleftrightarrow>
     (\<forall>t. sorted_wrt (<) (map (dts_usec \<circ> packet) (filter (\<lambda>e. enc_type (packet e) = t) es))) \<and>
     (\<forall>e \<in> set es. last_out d (enc_type (packet e)) = INT64_MIN \<or>
        last_out d (enc_type (packet e)) < dts_usec (packet e) + offset_usec d)"

lemma sorted_filter_Cons:
  "sorted_wrt (<) (map f (filter P (x # xs))) \<Longrightarrow> P x \<Longrightarrow> y \<in> set xs \<Longrightarrow> P y \<Longrightarrow> f x < f y"
  by auto

lemma fresh_sorted:
  "fresh d es \<Longrightarrow>
   sorted_wrt (<) (map (dts_usec \<circ> packet) (filter (\<lambda>e. enc_type (packet e) = t) es))"
  by (simp add: fresh_def)

lemma prepare_out_fresh:
  assumes "\<not> resync d" and "fresh d (e # es)"
  shows "\<exists>d1. prepare_out_locked d e = (d1, Some (shift_packet (offset_usec d) (packet e))) \<and>
    \<not> resync d1 \<and> offset_usec d1 = offset_usec d \<and> fresh d1 es"
proof -
  let ?t = "enc_type (packet e)" and ?u = "dts_usec (packet e) + offset_usec d"
  have r: "resync_locked d e = d" using assms(1) by (simp add: resync_locked_def)
  have lo: "\<not> (last_out d ?t \<noteq> INT64_MIN \<and> ?u \<le> last_out d ?t)" using assms(2) by (auto simp: fresh_def)
  let ?d1 = "set_last_out d ?t ?u"
  have f: "offset_usec ?d1 = offset_usec d" "resync ?d1 = resync d"
    by (simp_all add: set_last_out_def split: obs_encoder_type.split)
  have "fresh ?d1 es"
    unfolding fresh_def
  proof (intro conjI allI ballI)
    fix t
    show "sorted_wrt (<) (map (dts_usec \<circ> packet) (filter (\<lambda>e. enc_type (packet e) = t) es))"
      using fresh_sorted [OF assms(2), of t] by (auto split: if_splits)
  next
    fix x assume x: "x \<in> set es"
    show "last_out ?d1 (enc_type (packet x)) = INT64_MIN \<or>
      last_out ?d1 (enc_type (packet x)) < dts_usec (packet x) + offset_usec ?d1"
    proof (cases "enc_type (packet x) = ?t")
      case True
      have "(dts_usec \<circ> packet) e < (dts_usec \<circ> packet) x"
        by (rule sorted_filter_Cons [OF fresh_sorted [OF assms(2), of ?t] _ x True]) simp
      then show ?thesis using True by (simp add: f)
    next
      case False
      then show ?thesis using assms(2) x by (auto simp: f fresh_def)
    qed
  qed
  with lo r f assms(1) show ?thesis by (simp add: prepare_out_locked_def Let_def)
qed

lemma last_out_unchanged_fresh:
  "(\<And>t. last_out d' t = last_out d t) \<Longrightarrow> offset_usec d' = offset_usec d \<Longrightarrow> fresh d' es = fresh d es"
  by (simp add: fresh_def)

lemma pacer_one_fresh:
  assumes "\<not> resync d" and "fresh d (e # es)"
  shows "\<exists>d1. pacer_one d e = (d1, [\<lparr>shares = e, out = shift_packet (offset_usec d) (packet e)\<rparr>]) \<and>
    \<not> resync d1 \<and> offset_usec d1 = offset_usec d \<and> fresh d1 es"
proof -
  obtain d1 where d1: "prepare_out_locked d e = (d1, Some (shift_packet (offset_usec d) (packet e)))"
    "\<not> resync d1" "offset_usec d1 = offset_usec d" "fresh d1 es"
    using prepare_out_fresh [OF assms] by blast
  have "fresh (d1\<lparr>last_sent_arrival_ns := arrival_ns e, cursor := Suc (cursor d1)\<rparr>) es"
    using d1(4) by (simp add: fresh_def)
  with d1 show ?thesis by (simp add: pacer_one_def)
qed

lemma pacer_loop_fresh:
  assumes "pacer_loop now pace d = (d2, batch)" and "\<not> resync d" and "fresh d (drop (cursor d) (entries d))"
  shows "batch = map (\<lambda>e. \<lparr>shares = e, out = shift_packet (offset_usec d) (packet e)\<rparr>)
    (slice (cursor d) (cursor d2) (entries d))"
proof -
  let ?P = "\<lambda>d d2 batch. \<not> resync d \<longrightarrow> fresh d (drop (cursor d) (entries d)) \<longrightarrow>
    batch = map (\<lambda>e. \<lparr>shares = e, out = shift_packet (offset_usec d) (packet e)\<rparr>)
      (slice (cursor d) (cursor d2) (entries d))"
  have "?P d d2 batch"
  proof (rule pacer_loop_induct [where P = ?P, OF _ _ assms(1)])
    fix d d1 b d2 bs
    assume lt: "cursor d < length (entries d)"
      and one: "pacer_one d (entries d ! cursor d) = (d1, b)"
      and rest: "pacer_loop now pace d1 = (d2, bs)" and IH: "?P d1 d2 bs"
    have d1: "entries d1 = entries d" "cursor d1 = Suc (cursor d)"
      using entries_pacer_one [of d "entries d ! cursor d"]
        cursor_pacer_one [of d "entries d ! cursor d"] one by simp_all
    have le: "Suc (cursor d) \<le> cursor d2" using pacer_loop_frame [OF rest] d1 by simp
    show "?P d d2 (b @ bs)"
    proof (intro impI)
      assume "\<not> resync d" and "fresh d (drop (cursor d) (entries d))"
      with pacer_one_fresh one nth_drop_hd [OF lt] d1 IH slice_Cons [OF lt le]
      show "b @ bs = map (\<lambda>e. \<lparr>shares = e, out = shift_packet (offset_usec d) (packet e)\<rparr>)
          (slice (cursor d) (cursor d2) (entries d))"
        by fastforce
    qed
  qed auto
  with assms(2,3) show ?thesis by blast
qed

lemma pacer_skip_idle: "\<not> pending_skip d \<Longrightarrow> pacer_skip d = d"
  by (simp add: pacer_skip_def)

lemma cursor_prune: "fst (prune_locked d now) = d2 \<Longrightarrow> length (entries d) - cursor d = length (entries d2) - cursor d2"
  by (rule prune_locked_split [of d now]) auto

text \<open>The packet a jump resumes with, one frame after the last video packet sent.\<close>

lemma prepare_out_resync:
  assumes "resync d" and "last_video_out_usec d \<noteq> INT64_MIN" and "0 < frame_usec d"
    and "enc_type (packet e) = OBS_ENCODER_VIDEO"
  shows "\<exists>d1 p. prepare_out_locked d e = (d1, Some p) \<and> \<not> resync d1 \<and>
    dts_usec p = last_video_out_usec d + frame_usec d \<and>
    offset_usec d1 = last_video_out_usec d + frame_usec d - dts_usec (packet e)"
  using assms
  by (auto simp: prepare_out_locked_def resync_locked_def last_out_def set_last_out_def Let_def)

end
