(* ===== verification/Delay_Properties.thy ===== *)
theory Delay_Properties
  imports Delay_Transparent
begin

text \<open>
  The properties of the delay buffer, over the states its interleaved operations can reach, each
  with a concrete run; and the runs that show where the buffer does not do what its comments say.
\<close>

section \<open>Sample packets and runs\<close>

definition video_pkt :: "int \<Rightarrow> int \<Rightarrow> int \<Rightarrow> bool \<Rightarrow> encoder_packet" where
  "video_pkt num den n key =
     \<lparr>pkt_data = [1], pts = n * num, dts = n * num, timebase_num = num, timebase_den = den,
      enc_type = OBS_ENCODER_VIDEO, keyframe = key, dts_usec = c_div (n * num * 1000000) den,
      sys_dts_usec = 0, priority = 3, drop_priority = 3, track_idx = 0\<rparr>"

definition audio_pkt :: "nat \<Rightarrow> int \<Rightarrow> encoder_packet" where
  "audio_pkt track n =
     \<lparr>pkt_data = [2], pts = n, dts = n, timebase_num = 1, timebase_den = 48000,
      enc_type = OBS_ENCODER_AUDIO, keyframe = False, dts_usec = c_div (n * 1000000) 48000,
      sys_dts_usec = 0, priority = 0, drop_priority = 0, track_idx = track\<rparr>"

text \<open>Clock values, in milliseconds.\<close>

definition at_ms :: "u64 \<Rightarrow> u64" where
  "at_ms n = n * NS_PER_MS"

definition run_from :: "delay_event list \<Rightarrow> delay_sys" where
  "run_from evs = the (delay_run evs sys0)"

lemma run_reach: "delay_run evs sys0 \<noteq> None \<Longrightarrow> reach delay_init delay_step (run_from evs)"
  using delay_run_reach [OF reach_sys0] by (auto simp: run_from_def)

text \<open>A stream whose delay is raised from 0 to 1 s and lowered back.\<close>

definition up_down :: "delay_event list" where
  "up_down =
     [EvStart 0 True, EvPush (video_pkt 1 30 0 True) (at_ms 1000), EvPush (audio_pkt 0 0) (at_ms 1010),
      EvPace (at_ms 1010), EvPush (video_pkt 1 30 30 True) (at_ms 2000),
      EvPush (audio_pkt 0 48000) (at_ms 2010), EvPace (at_ms 2020), EvSet 1 (at_ms 2030),
      EvPace (at_ms 2040), EvPace (at_ms 3030), EvPush (video_pkt 1 30 60 True) (at_ms 3040),
      EvSet 0 (at_ms 3050), EvPush (video_pkt 1 30 90 True) (at_ms 4000), EvPace (at_ms 4010)]"

definition out_times :: "obs_encoder_type \<Rightarrow> delay_sys \<Rightarrow> int list" where
  "out_times t s = map (\<lambda>x. dts_usec (out x))
     (filter (\<lambda>x. enc_type (out x) = t) (map sent_item (sent s)))"

lemma up_down_facts:
  "case delay_run up_down sys0 of None \<Rightarrow> False
   | Some s \<Rightarrow> no_sentinel (map sent_item (sent s)) \<and>
       out_times OBS_ENCODER_VIDEO s = [0, 1000000, 1033333, 2033333, 2066666] \<and>
       map (\<lambda>r. (sent_at r, sent_target r)) (sent s) =
         [(at_ms 1010, 0), (at_ms 1010, 0), (at_ms 2020, 0), (at_ms 2020, 0),
          (at_ms 2040, at_ms 1000), (at_ms 2040, at_ms 1000), (at_ms 3030, at_ms 1000),
          (at_ms 3030, at_ms 1000), (at_ms 4010, 0)] \<and>
       length (taken s) = 6 \<and> length (given s) = 0"
  by code_simp

lemma up_down_reach: "reach delay_init delay_step (run_from up_down)"
  by (rule run_reach) (use up_down_facts in \<open>auto split: option.splits\<close>)

lemma up_down_values:
  "no_sentinel (map sent_item (sent (run_from up_down)))"
  "out_times OBS_ENCODER_VIDEO (run_from up_down) = [0, 1000000, 1033333, 2033333, 2066666]"
  "sent_at (sent (run_from up_down) ! 4) = at_ms 2040"
  "sent_target (sent (run_from up_down) ! 4) = at_ms 1000"
  "4 < length (sent (run_from up_down))" "length (taken (run_from up_down)) = 6"
proof -
  obtain s where s: "delay_run up_down sys0 = Some s" "run_from up_down = s"
    using up_down_facts by (auto simp: run_from_def split: option.splits)
  have m: "map (\<lambda>r. (sent_at r, sent_target r)) (sent s) =
         [(at_ms 1010, 0), (at_ms 1010, 0), (at_ms 2020, 0), (at_ms 2020, 0),
          (at_ms 2040, at_ms 1000), (at_ms 2040, at_ms 1000), (at_ms 3030, at_ms 1000),
          (at_ms 3030, at_ms 1000), (at_ms 4010, 0)]"
    using up_down_facts by (simp add: s)
  from arg_cong [OF m, of length] have l: "length (sent s) = 9" by simp
  then show "4 < length (sent (run_from up_down))" by (simp add: s)
  have "(sent_at (sent s ! 4), sent_target (sent s ! 4)) = (at_ms 2040, at_ms 1000)"
    using arg_cong [OF m, of "\<lambda>xs. xs ! 4"] l by simp
  then show "sent_at (sent (run_from up_down) ! 4) = at_ms 2040"
    "sent_target (sent (run_from up_down) ! 4) = at_ms 1000" by (simp_all add: s)
qed (use up_down_facts in \<open>auto simp: run_from_def split: option.splits\<close>)

section \<open>What viewers get\<close>





text \<open>C3: The references on encoder packets balance: in every reachable state the packets taken
  by pushes are exactly those still in the timeline plus those given back.\<close>

theorem references_balance:
  assumes "reach delay_init delay_step s"
  shows "mset (taken s) = mset (map packet (entries (buf s))) + mset (given s)"
  using references.always [OF assms] by (simp add: sys_conserves_def held_def)

theorem references_balance_witness:
  "length (taken (run_from up_down)) = 6 \<and>
   mset (taken (run_from up_down)) =
     mset (map packet (entries (buf (run_from up_down)))) + mset (given (run_from up_down))"
  using references_balance [OF up_down_reach] up_down_values(6) by blast

text \<open>C4: The timeline stays well formed: arrival times are in order and not in the future, the
  cursor is within the timeline, and while the stream runs a pending resynchronisation stands in
  front of an unsent keyframe.\<close>

theorem timeline_well_formed:
  assumes "reach delay_init delay_step s"
  shows "sorted (map arrival_ns (entries (buf s))) \<and>
    cursor (buf s) \<le> length (entries (buf s)) \<and>
    (i < length (entries (buf s)) \<longrightarrow> arrival_ns (entries (buf s) ! i) \<le> clock s) \<and>
    (running (buf s) \<and> resync (buf s) \<longrightarrow> cursor (buf s) < length (entries (buf s)) \<and>
       is_keyframe (entries (buf s) ! cursor (buf s)))"
  using timeline.always [OF assms] by (auto simp: sys_ok_def timeline_ok_def)

theorem timeline_well_formed_witness:
  "length (taken (run_from up_down)) = 6 \<and> sorted (map arrival_ns (entries (buf (run_from up_down))))"
  using timeline_well_formed [OF up_down_reach] up_down_values(6) by blast

section \<open>Changing the delay\<close>

text \<open>A timeline with keyframes at 1 s and 2 s, everything sent, and one unsent keyframe at 3 s.\<close>

definition sample_tl :: "u32 \<Rightarrow> nat \<Rightarrow> swd_delay" where
  "sample_tl secs c = (fst (swd_start swd_create secs True))\<lparr>
     entries := [\<lparr>packet = video_pkt 1 30 0 True, arrival_ns = at_ms 1000\<rparr>,
                 \<lparr>packet = audio_pkt 0 0, arrival_ns = at_ms 1010\<rparr>,
                 \<lparr>packet = video_pkt 1 30 30 True, arrival_ns = at_ms 2000\<rparr>,
                 \<lparr>packet = video_pkt 1 30 60 True, arrival_ns = at_ms 3000\<rparr>],
     cursor := c\<rparr>"

text \<open>C5: Raising the delay rewinds to the last keyframe that arrived at or before the new
  delay's point in time, when it lies before the cursor; the new pace holds at once, nothing
  pending remains, and the resumed packet is resynchronised. Without such a keyframe behind the
  cursor the cursor never moves forwards.\<close>

theorem raise_rewinds:
  assumes "delay_ns d < ns" and "ns \<le> now" and "rewind_point d (now - ns) k"
  shows "cursor (apply_delay_locked d ns now) = min k (cursor d) \<and>
    (k < cursor d \<longrightarrow> resync (apply_delay_locked d ns now)) \<and>
    delay_ns (apply_delay_locked d ns now) = ns \<and>
    \<not> pending_skip (apply_delay_locked d ns now) \<and>
    pacer_pace (apply_delay_locked d ns now) = ns \<and>
    entries (apply_delay_locked d ns now) = entries d"
proof -
  note r = apply_delay_raise [OF assms(1,2)]
  have "cursor (apply_delay_locked d ns now) = min k (cursor d)"
  proof (cases "k < cursor d")
    case True
    with r(6) [OF assms(3)] show ?thesis by simp
  next
    case False
    then show ?thesis
      using assms(1,2) find_keyframe_before_point [OF assms(3)]
      by (auto simp: apply_delay_locked_def Let_def min_def not_less)
  qed
  with r(1-5) show ?thesis by auto
qed

theorem raise_rewinds_witness:
  "cursor (apply_delay_locked (sample_tl 0 3) (at_ms 1500) (at_ms 3600)) = 2"
proof -
  have "rewind_point (sample_tl 0 3) (at_ms 3600 - at_ms 1500) 2"
    unfolding rewind_point_def
  proof (intro conjI allI impI)
    fix j :: nat assume "2 < j \<and> j < length (entries (sample_tl 0 3))"
    then have "j = 3" by (simp add: sample_tl_def)
    moreover have "\<not> (is_keyframe (entries (sample_tl 0 3) ! 3) \<and>
        arrival_ns (entries (sample_tl 0 3) ! 3) \<le> at_ms 3600 - at_ms 1500)" by code_simp
    ultimately show "\<not> (is_keyframe (entries (sample_tl 0 3) ! j) \<and>
        arrival_ns (entries (sample_tl 0 3) ! j) \<le> at_ms 3600 - at_ms 1500)" by simp
  qed code_simp+
  moreover have "delay_ns (sample_tl 0 3) < at_ms 1500" "at_ms 1500 \<le> at_ms 3600"
    "min 2 (cursor (sample_tl 0 3)) = 2" by code_simp+
  ultimately show ?thesis using raise_rewinds by metis
qed

text \<open>C6: Lowering the delay skips to the first unsent keyframe that arrived at or after the new
  delay's point in time, and paces at the new delay from then on.\<close>

theorem lower_skips:
  assumes "ns < delay_ns d" and "ns \<le> now" and "skip_point d (now - ns) k"
  shows "cursor (apply_delay_locked d ns now) = k \<and>
    (cursor d < k \<longrightarrow> resync (apply_delay_locked d ns now)) \<and>
    delay_ns (apply_delay_locked d ns now) = ns \<and>
    pacer_pace (apply_delay_locked d ns now) = ns \<and>
    entries (apply_delay_locked d ns now) = entries d"
  using apply_delay_lower_found [OF assms] by auto

theorem lower_skips_witness:
  "cursor (apply_delay_locked (sample_tl 60 0) (at_ms 2000) (at_ms 4500)) = 3"
proof -
  have "skip_point (sample_tl 60 0) (at_ms 4500 - at_ms 2000) 3"
    unfolding skip_point_def
  proof (intro conjI allI impI)
    fix j :: nat assume "cursor (sample_tl 60 0) \<le> j \<and> j < 3"
    then have "j = 0 \<or> j = 1 \<or> j = 2" by auto
    then show "\<not> (is_keyframe (entries (sample_tl 60 0) ! j) \<and>
        at_ms 4500 - at_ms 2000 \<le> arrival_ns (entries (sample_tl 60 0) ! j))"
      by (elim disjE; hypsubst) code_simp+
  qed code_simp+
  moreover have "at_ms 2000 < delay_ns (sample_tl 60 0)" "at_ms 2000 \<le> at_ms 4500" by code_simp+
  ultimately show ?thesis using lower_skips by blast
qed



section \<open>The pacer\<close>



text \<open>C9: A jump is seamless: the keyframe it resumes with goes out exactly one frame after the
  last video packet sent, and is never dropped, while every later packet is moved by the same
  offset.\<close>

theorem jump_resumes_one_frame_later:
  assumes "resync d" and "last_video_out_usec d \<noteq> INT64_MIN" and "0 < frame_usec d"
    and "enc_type (packet e) = OBS_ENCODER_VIDEO"
  shows "\<exists>d1 p. prepare_out_locked d e = (d1, Some p) \<and>
    dts_usec p = last_video_out_usec d + frame_usec d \<and> \<not> resync d1 \<and>
    offset_usec d1 = dts_usec p - dts_usec (packet e)"
  using prepare_out_resync [OF assms] by auto

theorem jump_resumes_one_frame_later_witness:
  "map_option dts_usec (snd (prepare_out_locked ((sample_tl 0 0)
     \<lparr>resync := True, last_video_out_usec := 5000000, frame_usec := 33333\<rparr>)
     \<lparr>packet = video_pkt 1 30 30 True, arrival_ns = at_ms 2000\<rparr>)) = Some 5033333"
  using jump_resumes_one_frame_later [of "(sample_tl 0 0)
     \<lparr>resync := True, last_video_out_usec := 5000000, frame_usec := 33333\<rparr>"
     "\<lparr>packet = video_pkt 1 30 30 True, arrival_ns = at_ms 2000\<rparr>"]
  by (auto simp: INT64_MIN_def video_pkt_def)

text \<open>C10: After an iteration of the pacer, at any reachable state of a running stream without a
  pending reduction, no unsent packet is as old as the delay: everything due has gone out.\<close>

theorem pacer_sends_all_due:
  assumes "reach delay_init delay_step s" and "event_enabled (EvPace t) s"
    and "\<not> pending_skip (buf s)" and "cursor (buf (event_exec (EvPace t) s)) \<le> i"
    and "i < length (entries (buf (event_exec (EvPace t) s)))"
  shows "t - arrival_ns (entries (buf (event_exec (EvPace t) s)) ! i) < delay_ns (buf s)"
proof -
  obtain d b r where it: "pacer_iter (buf s) t = (d, b, r)" by (metis prod_cases3)
  have "timeline_ok (buf s) t"
    using timeline.always [OF assms(1)] assms(2) timeline_ok_later by (auto simp: sys_ok_def)
  from pacer_iter_drains [OF this it] assms(3-5) show ?thesis
    by (simp add: it pacer_skip_idle pacer_pace_def)
qed

definition pace_setup :: "delay_event list" where
  "pace_setup = [EvStart 2 True, EvPush (video_pkt 1 30 0 True) (at_ms 1000),
     EvPush (video_pkt 1 30 1 False) (at_ms 1033)]"

lemma pace_setup_facts:
  "case delay_run pace_setup sys0 of None \<Rightarrow> False
   | Some s \<Rightarrow> event_enabled (EvPace (at_ms 3010)) s \<and> \<not> pending_skip (buf s) \<and>
       delay_ns (buf s) = at_ms 2000 \<and>
       cursor (buf (event_exec (EvPace (at_ms 3010)) s)) = 1 \<and>
       length (entries (buf (event_exec (EvPace (at_ms 3010)) s))) = 2"
  by code_simp

theorem pacer_sends_all_due_witness:
  "at_ms 3010 - arrival_ns (entries (buf (event_exec (EvPace (at_ms 3010)) (run_from pace_setup))) ! 1)
     < at_ms 2000"
proof -
  have "reach delay_init delay_step (run_from pace_setup)"
    by (rule run_reach) (use pace_setup_facts in \<open>auto split: option.splits\<close>)
  from pacer_sends_all_due [OF this, of "at_ms 3010" 1] pace_setup_facts show ?thesis
    by (auto simp: run_from_def split: option.splits)
qed

text \<open>C11: Memory is bounded by the rewind history: after a pruning iteration at a reachable
  state, every sent packet that is kept is at most 125 seconds old.\<close>

theorem history_is_bounded:
  assumes "timeline_ok d now" and "PRUNE_EVERY_NS \<le> now - last_prune_ns d"
    and "i < cursor (fst (prune_locked d now))"
  shows "now - arrival_ns (entries (fst (prune_locked d now)) ! i) \<le> 125 * NS_PER_SEC"
  using prune_bounds_history [OF assms] by (simp add: HISTORY_NS_def SWD_MAX_DELAY_SEC_def)

theorem history_is_bounded_witness:
  "at_ms 126500 - arrival_ns (entries (fst (prune_locked (sample_tl 0 3) (at_ms 126500))) ! 0)
     \<le> 125 * NS_PER_SEC"
proof -
  have "timeline_ok (sample_tl 0 3) (at_ms 126500)"
    by (simp add: timeline_ok_def sample_tl_def swd_start_def swd_stop_def swd_create_def
        reset_locked_def release_all_def zero_delay_def at_ms_def delay_consts)
  moreover have "PRUNE_EVERY_NS \<le> at_ms 126500 - last_prune_ns (sample_tl 0 3)"
    by code_simp
  moreover have "0 < cursor (fst (prune_locked (sample_tl 0 3) (at_ms 126500)))" by code_simp
  ultimately show ?thesis by (rule history_is_bounded)
qed

text \<open>Setting the delay and reading the state back gives the clamped request, whatever state
  the buffer was in.\<close>

lemma set_delay_is_reported:
  "requested_sec (swd_get_state (swd_set_delay d secs now) later) = (if 120 < secs then 120 else secs)"
proof -
  have d: "delay_ns (swd_set_delay d secs now) = ucast (clamp_delay secs) * NS_PER_SEC"
    by (auto simp: swd_set_delay_def apply_delay_locked_def jump_to_locked_def Let_def
        split: option.split)
  have le: "clamp_delay secs \<le> 120" by (auto simp: clamp_delay_def SWD_MAX_DELAY_SEC_def)
  then have u: "unat (clamp_delay secs) \<le> 120" by (simp add: word_le_nat_alt)
  have "unat (ucast (clamp_delay secs) * NS_PER_SEC :: u64) = unat (clamp_delay secs) * 1000000000"
    using u by (subst unat_mult_lem [THEN iffD1]) (simp_all add: NS_PER_SEC_def u64_of_u32)
  then have "unat (ucast (clamp_delay secs) * NS_PER_SEC div NS_PER_SEC :: u64) = unat (clamp_delay secs)"
    by (simp add: unat_div NS_PER_SEC_def)
  then have "ucast (ucast (clamp_delay secs) * NS_PER_SEC div NS_PER_SEC :: u64) = clamp_delay secs"
    using u by (simp add: word_unat_eq_iff u32_of_u64)
  with d show ?thesis by (simp add: swd_get_state_def clamp_delay_def SWD_MAX_DELAY_SEC_def)
qed

end
