(* ===== verification/Delay_Anomalies.thy ===== *)
theory Delay_Anomalies
  imports Delay_Properties
begin

text \<open>
  Where a guarantee of the delay buffer needs a condition: the theorem under the condition, and a
  run of the whole buffer in which the condition fails and the guarantee with it.
\<close>

section \<open>References of packets about to be sent\<close>

text \<open>C12: A pacer iteration gives back only references of entries in front of everything it
  sends, as long as no unsent entry is older than the rewind history: no packet of the batch has
  been released when the batch is sent.\<close>

theorem batch_outlives_release:
  assumes "pacer_iter d now = (d2, batch, released)"
    and "\<And>i. cursor (pacer_skip d) \<le> i \<Longrightarrow> i < length (entries d) \<Longrightarrow>
      now - arrival_ns (entries d ! i) \<le> HISTORY_NS"
  shows "\<exists>n. released = map packet (take n (entries d)) \<and>
    (\<forall>x \<in> set batch. \<exists>i \<ge> n. i < length (entries d) \<and> shares x = entries d ! i)"
  by (rule released_in_front [OF assms])

theorem batch_outlives_release_witness:
  "\<exists>d2 batch released n. pacer_iter (sample_tl 0 3) (at_ms 128000) = (d2, batch, released) \<and>
     released = map packet (take n (entries (sample_tl 0 3))) \<and>
     (\<forall>x \<in> set batch. \<exists>i \<ge> n. i < 4 \<and> shares x = entries (sample_tl 0 3) ! i)"
proof -
  have len: "length (entries (sample_tl 0 3)) = 4" and c: "cursor (pacer_skip (sample_tl 0 3)) = 3"
    and young: "at_ms 128000 - arrival_ns (entries (sample_tl 0 3) ! 3) \<le> HISTORY_NS"
    by code_simp+
  have "at_ms 128000 - arrival_ns (entries (sample_tl 0 3) ! i) \<le> HISTORY_NS"
    if "cursor (pacer_skip (sample_tl 0 3)) \<le> i" "i < length (entries (sample_tl 0 3))" for i
  proof -
    have "i = 3" using that len c by simp
    with young show ?thesis by simp
  qed
  moreover obtain d2 batch released
    where "pacer_iter (sample_tl 0 3) (at_ms 128000) = (d2, batch, released)" by (metis prod_cases3)
  ultimately show ?thesis using batch_outlives_release len by metis
qed

text \<open>A keyframe of a stream with long groups of pictures, replayed when it is nearly as old as
  the history: raising the delay to 120 s rewinds to it at 125.9 s of age.\<close>

definition old_rewind :: "delay_event list" where
  "old_rewind =
     [EvStart 0 True, EvPush (video_pkt 1 30 0 True) (at_ms 1000), EvPace (at_ms 1010),
      EvPush (video_pkt 1 30 180 True) (at_ms 7000), EvPace (at_ms 7010),
      EvPace (at_ms 125900), EvSet 120 (at_ms 126890)]"

text \<open>Without that condition the guarantee fails: there is a reachable state in which one
  pacer iteration puts a packet in its batch and releases the reference it shares before the
  batch is sent.\<close>

lemma batch_released_before_sent:
  "(case delay_run old_rewind sys0 of None \<Rightarrow> False
    | Some s \<Rightarrow> event_enabled (EvPace (at_ms 126900)) s \<and> given s = [] \<and>
        (case pacer_iter (buf s) (at_ms 126900) of (d, batch, released) \<Rightarrow>
           map (packet \<circ> shares) batch = [video_pkt 1 30 0 True] \<and>
           released = [video_pkt 1 30 0 True]))"
  by code_simp

section \<open>A raise that comes while a reduction is pending\<close>

text \<open>The delay goes from 60 s to 0 with no keyframe to skip to, and then to 30 s.\<close>

definition raise_while_pending :: "delay_event list" where
  "raise_while_pending =
     [EvStart 60 True, EvPush (video_pkt 1 30 0 True) (at_ms 1000),
      EvPush (video_pkt 1 30 270 False) (at_ms 10000), EvPush (video_pkt 1 30 570 False) (at_ms 20000),
      EvPush (video_pkt 1 30 720 False) (at_ms 25000), EvPace (at_ms 61100),
      EvSet 0 (at_ms 61200), EvPace (at_ms 61210), EvSet 30 (at_ms 61300)]"

text \<open>The pace of a pending reduction is lost when the delay is raised again below the pace in
  force: the reduction from 60 s waits for a keyframe and sends nothing, but the raise to 30 s,
  which for the viewer is still a reduction, rewinds to a keyframe already sent and one iteration
  then sends it again with everything that arrived in the 24 seconds after it.\<close>

theorem raise_drops_pending_pace:
  "(case delay_run raise_while_pending sys0 of None \<Rightarrow> False
    | Some s \<Rightarrow> map (\<lambda>r. arrival_ns (shares (sent_item r))) (sent s) = [at_ms 1000] \<and>
        \<not> pending_skip (buf s) \<and> resync (buf s) \<and> cursor (buf s) = 0 \<and>
        event_enabled (EvPace (at_ms 61310)) s \<and>
        map (\<lambda>b. arrival_ns (shares b)) (fst (snd (pacer_iter (buf s) (at_ms 61310)))) =
          [at_ms 1000, at_ms 10000, at_ms 20000, at_ms 25000])"
  by code_simp

section \<open>Several audio tracks\<close>

text \<open>Two audio tracks whose packets carry the same timestamps.\<close>

definition two_tracks :: "delay_event list" where
  "two_tracks =
     [EvStart 0 True, EvPush (audio_pkt 0 0) (at_ms 1000), EvPush (audio_pkt 1 0) (at_ms 1001),
      EvPace (at_ms 1010), EvPush (audio_pkt 0 1024) (at_ms 1021),
      EvPush (audio_pkt 1 1024) (at_ms 1022), EvPace (at_ms 1030)]"

text \<open>The buffer keeps one last timestamp for all audio: of two tracks whose packets have the
  same timestamps only the first is ever sent.\<close>

theorem second_audio_track_dropped:
  "(case delay_run two_tracks sys0 of None \<Rightarrow> False
    | Some s \<Rightarrow> length (taken s) = 4 \<and>
        map (\<lambda>r. track_idx (out (sent_item r))) (sent s) = [0, 0] \<and>
        cursor (buf s) = length (entries (buf s)))"
  by code_simp

section \<open>The FLV clock across a jump\<close>

text \<open>C13: Where the encoder's timebase has numerator 1, neither the decoding time in encoder
  units nor the FLV millisecond clock goes back across a jump: the keyframe \<open>b\<close> the stream
  resumes with is at or after the last video packet \<open>a\<close> sent.\<close>

theorem flv_time_across_jump:
  assumes a: "usec_of_dts a" "timebase_num a = 1" "timebase_den a = den"
    and b: "usec_of_dts (packet e)" "timebase_num (packet e) = 1" "timebase_den (packet e) = den"
      "enc_type (packet e) = OBS_ENCODER_VIDEO"
    and d: "resync d" "last_video_out_usec d = dts_usec a + oa"
      "last_video_out_usec d \<noteq> INT64_MIN" "frame_usec d = c_div 1000000 den"
    and den: "0 < den" "den \<le> 300000"
    and small: "\<bar>oa * den\<bar> < 2 ^ 53"
      "\<bar>(last_video_out_usec d + frame_usec d - dts_usec (packet e)) * den\<bar> < 2 ^ 53"
    and range: "0 \<le> dts (shift_packet oa a)" "prepare_out_locked d e = (d1, Some p)"
      "dts p * 1000 div den < 2 ^ 31"
  shows "dts (shift_packet oa a) \<le> dts p \<and>
    get_ms_time a (dts (shift_packet oa a)) \<le> get_ms_time p (dts p)"
proof -
  let ?ob = "last_video_out_usec d + frame_usec d - dts_usec (packet e)"
  have fr: "0 < frame_usec d"
    using d(4) den by (simp add: c_div_nonneg pos_imp_zdiv_pos_iff)
  have p: "p = shift_packet ?ob (packet e)"
    using prepare_out_resync [OF d(1,3) fr b(4)] range(2) d(1,3) fr
    by (auto simp: prepare_out_locked_def resync_locked_def Let_def split: if_splits)
  have le: "dts (shift_packet oa a) \<le> dts p"
    unfolding p using small d(2,4) by (intro jump_dts_le [OF a b(1-3) den]) simp_all
  have "get_ms_time p (dts (shift_packet oa a)) \<le> get_ms_time p (dts p)"
    using le range den b by (intro get_ms_time_mono) (simp_all add: p)
  with le a b show ?thesis by (simp add: get_ms_time_def p)
qed

definition jump_state :: swd_delay where
  "jump_state = (sample_tl 0 0)\<lparr>resync := True, last_video_out_usec := 2000000, frame_usec := 33333\<rparr>"

theorem flv_time_across_jump_witness:
  "dts (video_pkt 1 30 60 True) \<le> dts (shift_packet 1033333 (video_pkt 1 30 30 True))"
proof -
  let ?e = "\<lparr>packet = video_pkt 1 30 30 True, arrival_ns = at_ms 2000\<rparr>"
  have u: "usec_of_dts (video_pkt 1 30 60 True)" "usec_of_dts (packet ?e)"
    by (simp_all add: usec_of_dts_def video_pkt_def)
  have f: "last_video_out_usec jump_state = 2000000" "frame_usec jump_state = 33333" "resync jump_state"
    by (simp_all add: jump_state_def)
  have o: "dts_usec (video_pkt 1 30 60 True) = 2000000" "c_div 1000000 30 = 33333"
    "dts_usec (packet ?e) = 1000000" "shift_packet 0 (video_pkt 1 30 60 True) = video_pkt 1 30 60 True"
    "0 \<le> dts (video_pkt 1 30 60 True)"
    by (simp_all add: video_pkt_def c_div_def shift_packet_def)
  have pr: "prepare_out_locked jump_state ?e =
      (set_last_out (jump_state\<lparr>offset_usec := 1033333, resync := False\<rparr>) OBS_ENCODER_VIDEO 2033333,
       Some (shift_packet 1033333 (video_pkt 1 30 30 True)))"
    using o(3) f
    by (simp add: prepare_out_locked_def resync_locked_def Let_def INT64_MIN_def last_out_def video_pkt_def)
  have r: "dts (shift_packet 1033333 (video_pkt 1 30 30 True)) * 1000 div 30 < 2 ^ 31" by code_simp
  show ?thesis
    using flv_time_across_jump [where oa = 0 and den = 30 and d = jump_state and e = ?e,
        OF u(1) _ _ u(2) _ _ _ f(3) _ _ _ _ _ _ _ _ pr r] o f
    by (simp add: INT64_MIN_def video_pkt_def)
qed

text \<open>A video encoder at 29.97 frames per second, rewound by one second.\<close>

definition ntsc_rewind :: "delay_event list" where
  "ntsc_rewind =
     [EvStart 0 True, EvPush (video_pkt 1001 30000 0 True) (at_ms 1000), EvPace (at_ms 1010),
      EvPush (video_pkt 1001 30000 30 True) (at_ms 2001), EvPace (at_ms 2010),
      EvSet 1 (at_ms 2020), EvPace (at_ms 2030)]"

text \<open>With a numerator other than 1 the FLV clock goes back: \<open>usec_to_tb\<close> divides by the
  numerator, which neither libobs's units nor \<open>get_ms_time\<close> do, so after a rewind at 29.97
  frames per second the microsecond clock continues but the FLV clock falls from 1001 to 1.\<close>

theorem flv_time_goes_back_at_ntsc_rates:
  "(case delay_run ntsc_rewind sys0 of None \<Rightarrow> False
    | Some s \<Rightarrow> map (\<lambda>r. dts_usec (out (sent_item r))) (sent s) = [0, 1001000, 1034366] \<and>
        map (\<lambda>r. get_ms_time (out (sent_item r)) (dts (out (sent_item r)))) (sent s) = [0, 1001, 1])"
  by code_simp

section \<open>The replay store\<close>

text \<open>C14: The buffer refines the replay store: from any reachable state, any interleaving of
  arrivals and prunings after a change of delay leaves in front of the cursor what was there,
  followed by the arrivals in order; the change itself moves the cursor over an unchanged
  timeline.\<close>

theorem buffer_refines_replay_store:
  assumes "reach delay_init delay_step s"
  shows "tl_future (fold (\<lambda>x d. case x of Inl e \<Rightarrow> tl_push e d | Inr t \<Rightarrow> tl_trim t d) ops
      (tl_seek k (buf s))) =
    tl_future (tl_seek k (buf s)) @ concat (map (\<lambda>x. case x of Inl e \<Rightarrow> [e] | Inr t \<Rightarrow> []) ops) \<and>
    tl_past (tl_seek k (buf s)) @ tl_future (tl_seek k (buf s)) = entries (buf s)"
proof -
  have good: "tl_good (buf s)"
    using timeline.always [OF assms] by (simp add: tl_good_def sys_ok_def timeline_ok_def)
  have "tl_past (buf s) @ tl_future (buf s) = entries (buf s)"
    by (simp add: tl_past_def tl_future_def)
  with delay_store.seek_feed [OF good, of ops k] delay_store.seek_all [OF good, of k]
  show ?thesis by (simp only: delay_store.feed_def)
qed

theorem buffer_refines_replay_store_witness:
  "length (taken (run_from up_down)) = 6 \<and>
   tl_past (tl_seek (1, at_ms 5000) (buf (run_from up_down))) @
     tl_future (tl_seek (1, at_ms 5000) (buf (run_from up_down))) = entries (buf (run_from up_down))"
  using buffer_refines_replay_store [OF up_down_reach] up_down_values(6) by blast

end
