(* ===== verification/Control.thy ===== *)
theory Control
  imports Delay_System
begin

text \<open>
  The global control state of \<open>src/delay-buffer.c\<close>: the one running delay and the delay asked
  for, shared by the hotkeys, obs-websocket, the poll thread and the outputs. Several delays may
  exist; they are named by numbers and an absent one has been freed. Each operation holds
  \<open>g_mutex\<close> and is atomic. An operation on a freed delay is \<open>None\<close>.
\<close>

section \<open>State and operations\<close>

record control =
  g_running :: "nat option"
  g_requested_sec :: u32
  delays :: "nat \<Rightarrow> swd_delay option"

definition swd_set_running :: "nat \<Rightarrow> control \<Rightarrow> control" where
  "swd_set_running k c = c\<lparr>g_running := Some k\<rparr>"

definition swd_clear_running :: "nat \<Rightarrow> control \<Rightarrow> control" where
  "swd_clear_running k c = (if g_running c = Some k then c\<lparr>g_running := None\<rparr> else c)"

definition swd_request_delay :: "u32 \<Rightarrow> u64 \<Rightarrow> control \<Rightarrow> control option" where
  "swd_request_delay seconds now c =
     (let s = clamp_delay seconds;
          c1 = c\<lparr>g_requested_sec := s\<rparr>
      in case g_running c1 of
           None \<Rightarrow> Some c1
         | Some k \<Rightarrow>
             (case delays c1 k of
                None \<Rightarrow> None
              | Some d \<Rightarrow> Some (c1\<lparr>delays := (delays c1)(k \<mapsto> swd_set_delay d s now)\<rparr>)))"

definition swd_requested_delay :: "control \<Rightarrow> u32" where
  "swd_requested_delay c = g_requested_sec c"

definition zero_state :: swd_state where
  "zero_state = \<lparr>active = False, requested_sec = 0, effective_ms = 0, buffered_ms = 0, pending = False\<rparr>"

definition swd_get_global_state :: "u64 \<Rightarrow> control \<Rightarrow> swd_state option" where
  "swd_get_global_state now c =
     (case g_running c of
        Some k \<Rightarrow> map_option (\<lambda>d. swd_get_state d now) (delays c k)
      | None \<Rightarrow> Some (zero_state\<lparr>requested_sec := g_requested_sec c\<rparr>))"

definition swd_destroy :: "nat \<Rightarrow> control \<Rightarrow> control" where
  "swd_destroy k c =
     (case delays c k of
        None \<Rightarrow> c
      | Some d \<Rightarrow>
          let c1 = swd_clear_running k c
          in c1\<lparr>delays := (delays c1)(k := None)\<rparr>)"

text \<open>The parts of \<open>rtmp_stream_start\<close> and \<open>rtmp_stream_stop\<close> that touch the delay.\<close>

definition start_delay :: "nat \<Rightarrow> u32 \<Rightarrow> bool \<Rightarrow> control \<Rightarrow> control" where
  "start_delay k secs ok c =
     (case delays c k of
        None \<Rightarrow> c
      | Some d \<Rightarrow> c\<lparr>delays := (delays c)(k \<mapsto> fst (swd_start d secs ok))\<rparr>)"

definition stop_delay :: "nat \<Rightarrow> control \<Rightarrow> control" where
  "stop_delay k c =
     (case delays c k of
        None \<Rightarrow> c
      | Some d \<Rightarrow> c\<lparr>delays := (delays c)(k \<mapsto> fst (swd_stop d))\<rparr>)"

section \<open>The outputs and the requesters, interleaved\<close>

text \<open>
  Where an output is between two of its accesses: \<open>rtmp_stream_start\<close> reads the requested delay,
  starts the delay with it and then publishes it as the running one; \<open>rtmp_stream_stop\<close> clears
  it and then stops it. A request can come between any two of these.
\<close>

datatype output_pc = PcIdle | PcRead u32 | PcStarted | PcCleared

record plugin_sys =
  ctl :: control
  pc :: "nat \<Rightarrow> output_pc"
  faulted :: bool

datatype control_event =
    CtlCreate nat
  | CtlRead nat
  | CtlStart nat bool
  | CtlPublish nat
  | CtlClear nat
  | CtlStop nat
  | CtlDestroy nat
  | CtlRequest u32 u64

fun control_enabled :: "control_event \<Rightarrow> plugin_sys \<Rightarrow> bool" where
  "control_enabled (CtlCreate k) s = (delays (ctl s) k = None)"
| "control_enabled (CtlRead k) s = (delays (ctl s) k \<noteq> None \<and> pc s k = PcIdle)"
| "control_enabled (CtlStart k ok) s = (case pc s k of PcRead r \<Rightarrow> True | _ \<Rightarrow> False)"
| "control_enabled (CtlPublish k) s = (pc s k = PcStarted)"
| "control_enabled (CtlClear k) s = (delays (ctl s) k \<noteq> None \<and> pc s k = PcIdle)"
| "control_enabled (CtlStop k) s = (pc s k = PcCleared)"
| "control_enabled (CtlDestroy k) s = (delays (ctl s) k \<noteq> None \<and> pc s k = PcIdle)"
| "control_enabled (CtlRequest secs now) s = True"

fun control_exec :: "control_event \<Rightarrow> plugin_sys \<Rightarrow> plugin_sys" where
  "control_exec (CtlCreate k) s =
     s\<lparr>ctl := (ctl s)\<lparr>delays := (delays (ctl s))(k \<mapsto> swd_create)\<rparr>, pc := (pc s)(k := PcIdle)\<rparr>"
| "control_exec (CtlRead k) s = s\<lparr>pc := (pc s)(k := PcRead (swd_requested_delay (ctl s)))\<rparr>"
| "control_exec (CtlStart k ok) s =
     (case pc s k of
        PcRead r \<Rightarrow> s\<lparr>ctl := start_delay k r ok (ctl s), pc := (pc s)(k := PcStarted)\<rparr>
      | _ \<Rightarrow> s)"
| "control_exec (CtlPublish k) s = s\<lparr>ctl := swd_set_running k (ctl s), pc := (pc s)(k := PcIdle)\<rparr>"
| "control_exec (CtlClear k) s = s\<lparr>ctl := swd_clear_running k (ctl s), pc := (pc s)(k := PcCleared)\<rparr>"
| "control_exec (CtlStop k) s = s\<lparr>ctl := stop_delay k (ctl s), pc := (pc s)(k := PcIdle)\<rparr>"
| "control_exec (CtlDestroy k) s = s\<lparr>ctl := swd_destroy k (ctl s)\<rparr>"
| "control_exec (CtlRequest secs now) s =
     (case swd_request_delay secs now (ctl s) of
        None \<Rightarrow> s\<lparr>faulted := True\<rparr>
      | Some c \<Rightarrow> s\<lparr>ctl := c\<rparr>)"

inductive control_step :: "plugin_sys \<Rightarrow> plugin_sys \<Rightarrow> bool" where
  "control_enabled ev s \<Longrightarrow> control_step s (control_exec ev s)"

inductive_cases control_stepE: "control_step s t"

definition control0 :: plugin_sys where
  "control0 = \<lparr>ctl = \<lparr>g_running = None, g_requested_sec = 0, delays = Map.empty\<rparr>,
               pc = (\<lambda>_. PcIdle), faulted = False\<rparr>"

definition control_init :: "plugin_sys \<Rightarrow> bool" where
  "control_init s \<longleftrightarrow> s = control0"

fun control_run :: "control_event list \<Rightarrow> plugin_sys \<Rightarrow> plugin_sys option" where
  "control_run [] s = Some s"
| "control_run (ev # evs) s = (if control_enabled ev s then control_run evs (control_exec ev s) else None)"

lemma control_run_reach:
  "reach control_init control_step s \<Longrightarrow> control_run evs s = Some t \<Longrightarrow>
   reach control_init control_step t"
  by (induction evs arbitrary: s)
    (auto split: if_splits intro: reach_step control_step.intros)

section \<open>The running delay is alive and the request bounded\<close>

definition control_ok :: "plugin_sys \<Rightarrow> bool" where
  "control_ok s \<longleftrightarrow>
     \<not> faulted s \<and> g_requested_sec (ctl s) \<le> SWD_MAX_DELAY_SEC \<and>
     (\<forall>k. g_running (ctl s) = Some k \<longrightarrow> delays (ctl s) k \<noteq> None) \<and>
     (\<forall>k. pc s k \<noteq> PcIdle \<longrightarrow> delays (ctl s) k \<noteq> None) \<and>
     (\<forall>k. pc s k = PcCleared \<longrightarrow> g_running (ctl s) \<noteq> Some k)"

lemma clamp_delay_le: "clamp_delay s \<le> SWD_MAX_DELAY_SEC"
  by (auto simp: clamp_delay_def)

lemma control_ok_exec: "control_ok s \<Longrightarrow> control_enabled ev s \<Longrightarrow> control_ok (control_exec ev s)"
proof (cases ev)
  case (CtlRequest secs now)
  assume "control_ok s"
  with CtlRequest show ?thesis
    by (auto simp: control_ok_def swd_request_delay_def Let_def clamp_delay_le split: option.split)
next
  case (CtlStart k b)
  assume ok: "control_ok s" and en: "control_enabled ev s"
  then obtain r d where r: "pc s k = PcRead r" "delays (ctl s) k = Some d"
    by (fastforce simp: CtlStart control_ok_def split: output_pc.splits)
  with ok show ?thesis by (auto simp: CtlStart control_ok_def start_delay_def)
qed (auto simp: control_ok_def swd_set_running_def swd_clear_running_def swd_destroy_def
    start_delay_def stop_delay_def swd_requested_delay_def Let_def split: option.splits if_splits)

interpretation control: guarded_system control_init control_step control_ok
proof unfold_locales
  fix s t
  show "control_init s \<Longrightarrow> control_ok s"
    by (simp add: control_init_def control0_def control_ok_def SWD_MAX_DELAY_SEC_def)
  show "control_ok s \<Longrightarrow> control_step s t \<Longrightarrow> control_ok t"
    by (elim control_stepE) (auto intro: control_ok_exec)
qed

section \<open>The running delay follows the request\<close>

definition in_sync :: "control \<Rightarrow> bool" where
  "in_sync c \<longleftrightarrow>
     (case g_running c of
        None \<Rightarrow> True
      | Some k \<Rightarrow> (case delays c k of
                    None \<Rightarrow> False
                  | Some d \<Rightarrow> delay_ns d = ucast (g_requested_sec c) * NS_PER_SEC))"

lemma delay_ns_apply [simp]: "delay_ns (apply_delay_locked d ns now) = ns"
  by (auto simp: apply_delay_locked_def jump_to_locked_def Let_def split: option.split)

lemma delay_ns_start [simp]: "delay_ns (fst (swd_start d secs ok)) = ucast secs * NS_PER_SEC"
  by (simp add: swd_start_def swd_stop_def reset_locked_def release_all_def Let_def)

lemma clamp_idem [simp]: "clamp_delay (clamp_delay s) = clamp_delay s"
  by (auto simp: clamp_delay_def)

lemma request_in_sync: "swd_request_delay secs now c = Some c' \<Longrightarrow> in_sync c'"
  by (auto simp: swd_request_delay_def in_sync_def swd_set_delay_def Let_def split: option.splits)

text \<open>A start no request interrupts.\<close>

definition start_output :: "nat \<Rightarrow> bool \<Rightarrow> control \<Rightarrow> control" where
  "start_output k ok c = swd_set_running k (start_delay k (swd_requested_delay c) ok c)"

lemma start_output_in_sync: "delays c k \<noteq> None \<Longrightarrow> in_sync (start_output k ok c)"
  by (auto simp: start_output_def in_sync_def swd_set_running_def start_delay_def
      swd_requested_delay_def split: option.splits)

end
