(* ===== verification/Remote.thy ===== *)
theory Remote
  imports Control
begin

text \<open>
  The link with the SnipeWatch server, \<open>src/remote.c\<close>: the configuration file, the flags the
  frontend sets, and one poll of the server. The HTTP exchange, the JSON reader, the time and the
  version string are parameters: a poll gets the status, body and transport error of its request,
  and the fields the reader found in the body. The poll holds the mutex twice, so the state it
  read first (\<open>r1\<close>) and the one it updates (\<open>r2\<close>) are two arguments; the requested delay is read
  twice as well.
\<close>

section \<open>State\<close>

definition POLL_LIVE_MS :: int where "POLL_LIVE_MS = 3000"
definition POLL_IDLE_MS :: int where "POLL_IDLE_MS = 30000"
definition POLL_ERROR_MS :: int where "POLL_ERROR_MS = 10000"

definition SWD_DEFAULT_SERVER :: string where "SWD_DEFAULT_SERVER = ''https://www.getbettercs.com''"
definition SWD_LEGACY_SERVER :: string where "SWD_LEGACY_SERVER = ''https://app.cs2rouen.fr''"

datatype remote_error = ErrNone | ErrTokenRefused | ErrHttp int | ErrTransport string

record remote =
  token :: string
  server :: string
  streaming :: bool
  delay_mode :: bool
  last_ok :: int
  last_http :: int
  last_error :: remote_error
  last_desired :: int
  last_reason :: string
  last_control :: bool
  poll_created :: bool
  poll_running :: bool

definition remote0 :: remote where
  "remote0 = \<lparr>token = [], server = [], streaming = False, delay_mode = False, last_ok = 0,
     last_http = 0, last_error = ErrNone, last_desired = - 1, last_reason = [],
     last_control = False, poll_created = False, poll_running = False\<rparr>"

section \<open>Configuration\<close>

text \<open>A configuration file that was read: the token and the server it holds, empty when absent.\<close>

record config_file =
  cfg_token :: string
  cfg_server :: string

definition load_config :: "config_file option \<Rightarrow> remote \<Rightarrow> remote" where
  "load_config file r =
     (let r1 = r\<lparr>server := SWD_DEFAULT_SERVER\<rparr>
      in case file of
           None \<Rightarrow> r1
         | Some d \<Rightarrow>
             let r2 = r1\<lparr>token := cfg_token d\<rparr>; s = cfg_server d
             in if s \<noteq> [] \<and> take (length SWD_LEGACY_SERVER) s \<noteq> SWD_LEGACY_SERVER
                then r2\<lparr>server := s\<rparr> else r2)"

definition save_config :: "remote \<Rightarrow> config_file" where
  "save_config r =
     \<lparr>cfg_token = token r, cfg_server = (if server r = [] then SWD_DEFAULT_SERVER else server r)\<rparr>"

definition swd_remote_set_token :: "string option \<Rightarrow> remote \<Rightarrow> remote \<times> config_file" where
  "swd_remote_set_token t r =
     (let r1 = r\<lparr>token := (case t of None \<Rightarrow> [] | Some s \<Rightarrow> s), last_error := ErrNone, last_ok := 0\<rparr>
      in (r1, save_config r1))"

definition swd_remote_has_token :: "remote \<Rightarrow> bool" where
  "swd_remote_has_token r \<longleftrightarrow> token r \<noteq> []"

definition swd_remote_set_streaming :: "bool \<Rightarrow> remote \<Rightarrow> remote" where
  "swd_remote_set_streaming b r = r\<lparr>streaming := b\<rparr>"

definition swd_remote_set_delay_mode :: "bool \<Rightarrow> remote \<Rightarrow> remote" where
  "swd_remote_set_delay_mode b r = r\<lparr>delay_mode := b\<rparr>"

definition swd_remote_start :: "config_file option \<Rightarrow> bool \<Rightarrow> remote \<Rightarrow> remote" where
  "swd_remote_start file thread_ok r =
     (load_config file r)\<lparr>poll_running := True, poll_created := thread_ok\<rparr>"

definition swd_remote_stop :: "remote \<Rightarrow> remote" where
  "swd_remote_stop r =
     (if poll_created r then r\<lparr>poll_running := False, poll_created := False\<rparr> else r)
     \<lparr>token := [], server := [], last_error := ErrNone, last_reason := []\<rparr>"

section \<open>One poll\<close>

text \<open>What the JSON reader finds in the body of an answer.\<close>

record poll_reply =
  reply_control :: bool
  reply_desired :: "int option"
  reply_reason :: string
  reply_poll_ms :: int

text \<open>The decimal digits \<open>printf\<close> writes for an unsigned value.\<close>

fun show_nat :: "nat \<Rightarrow> string" where
  "show_nat n =
     (if n < 10 then [char_of (48 + n)] else show_nat (n div 10) @ [char_of (48 + n mod 10)])"

declare show_nat.simps [simp del]

definition poll_url :: "string \<Rightarrow> string \<Rightarrow> u32 \<Rightarrow> remote \<Rightarrow> string" where
  "poll_url version srv applied r =
     srv @ ''/api/plugin/state?applied='' @ show_nat (unat applied) @
     ''&streaming='' @ (if streaming r then ''1'' else ''0'') @
     ''&mode='' @ (if delay_mode r then ''1'' else ''0'') @ ''&v='' @ version"

definition poll_accept :: "poll_reply \<Rightarrow> int \<Rightarrow> remote \<Rightarrow> remote" where
  "poll_accept d time r =
     r\<lparr>last_ok := time, last_error := ErrNone, last_control := reply_control d,
       last_desired := (case reply_desired d of Some s \<Rightarrow> s | None \<Rightarrow> - 1),
       last_reason := reply_reason d\<rparr>"

definition poll_once ::
  "(string \<Rightarrow> string \<Rightarrow> int \<times> string \<times> string) \<Rightarrow> (string \<Rightarrow> poll_reply option) \<Rightarrow> string \<Rightarrow> int \<Rightarrow>
   u32 \<Rightarrow> u32 \<Rightarrow> remote \<Rightarrow> remote \<Rightarrow> remote \<times> int \<times> u32 option" where
  "poll_once http_get parse version time req1 req2 r1 r2 =
     (if token r1 = [] then (r2, POLL_IDLE_MS, None)
      else
        let live = streaming r1;
            (status, body, err) = http_get (poll_url version (server r1) req1 r1) (token r1);
            next0 = (if live then POLL_LIVE_MS else POLL_IDLE_MS);
            r3 = r2\<lparr>last_http := status\<rparr>;
            (r4, next1) =
              (if status = 200 then
                 (case parse (if body = [] then ''{}'' else body) of
                    Some d \<Rightarrow>
                      (poll_accept d time r3,
                       if 1000 \<le> reply_poll_ms d \<and> reply_poll_ms d \<le> 120000
                       then reply_poll_ms d else next0)
                  | None \<Rightarrow> (r3, next0))
               else if status = 401 then (r3\<lparr>last_error := ErrTokenRefused\<rparr>, POLL_IDLE_MS)
               else (r3\<lparr>last_error := (if err = [] then ErrHttp status else ErrTransport err)\<rparr>,
                     POLL_ERROR_MS));
            control = (last_control r4 \<and> status = 200);
            desired = last_desired r4
        in (r4, next1,
            if control \<and> live \<and> 0 \<le> desired \<and> word_of_int desired \<noteq> req2
            then Some (word_of_int desired) else None))"

text \<open>One turn of \<open>poll_thread\<close>: wait, then poll unless the plugin is unloading.\<close>

definition poll_turn ::
  "(string \<Rightarrow> string \<Rightarrow> int \<times> string \<times> string) \<Rightarrow> (string \<Rightarrow> poll_reply option) \<Rightarrow> string \<Rightarrow> int \<Rightarrow>
   u32 \<Rightarrow> u32 \<Rightarrow> remote \<Rightarrow> remote \<Rightarrow> (remote \<times> int \<times> u32 option) option" where
  "poll_turn http_get parse version time req1 req2 r1 r2 =
     (if poll_running r1 then Some (poll_once http_get parse version time req1 req2 r1 r2) else None)"

section \<open>What a poll does\<close>

lemma load_save:
  assumes "server r \<noteq> []" and "take (length SWD_LEGACY_SERVER) (server r) \<noteq> SWD_LEGACY_SERVER"
  shows "token (load_config (Some (save_config r)) r0) = token r \<and>
    server (load_config (Some (save_config r)) r0) = server r"
  using assms by (simp add: load_config_def save_config_def Let_def)

lemma load_not_legacy:
  "take (length SWD_LEGACY_SERVER) (server (load_config file r)) \<noteq> SWD_LEGACY_SERVER \<and>
   server (load_config file r) \<noteq> []"
  by (simp add: load_config_def SWD_DEFAULT_SERVER_def SWD_LEGACY_SERVER_def Let_def split: option.split)

lemma poll_next_bounds:
  "1000 \<le> fst (snd (poll_once h p v t a b r1 r2)) \<and> fst (snd (poll_once h p v t a b r1 r2)) \<le> 120000"
  by (auto simp: poll_once_def POLL_LIVE_MS_def POLL_IDLE_MS_def POLL_ERROR_MS_def Let_def
      split: prod.split option.split)

text \<open>A change is asked for only when the server controls, the stream is live and it differs.\<close>

lemma poll_asks:
  assumes "poll_once h p v t a b r1 r2 = (r', next_ms, Some s)"
  shows "token r1 \<noteq> [] \<and> streaming r1 \<and> last_http r' = 200 \<and> last_control r' \<and>
    0 \<le> last_desired r' \<and> s = word_of_int (last_desired r') \<and> s \<noteq> b"
  using assms
  by (auto simp: poll_once_def poll_accept_def Let_def split: if_splits prod.splits option.splits)

end
