(* ===== verification/Delay_Service.thy ===== *)
theory Delay_Service
  imports Prelude
begin

text \<open>
  The streaming service of \<open>src/delay-service.c\<close>: two strings taken from its settings, handed to
  the output as server address and stream key. A \<open>dstr\<close> is a string; the \<open>array\<close> pointer of an
  empty one is NULL. Settings are what \<open>obs_data_get_string\<close> answers for each name.
\<close>

type_synonym obs_settings = "string \<Rightarrow> string"

datatype connect_info = INFO_SERVER_URL | INFO_STREAM_KEY | INFO_USERNAME | INFO_PASSWORD | INFO_OTHER nat

record delay_service =
  svc_server :: string
  svc_key_str :: string

definition SERVICE_ID :: string where "SERVICE_ID = ''snipewatch_delay_service''"

definition dstr_array :: "string \<Rightarrow> string option" where
  "dstr_array s = (if s = [] then None else Some s)"

definition svc_update :: "obs_settings \<Rightarrow> delay_service \<Rightarrow> delay_service" where
  "svc_update st s = s\<lparr>svc_server := st ''server'', svc_key_str := st ''key''\<rparr>"

definition svc_create :: "obs_settings \<Rightarrow> delay_service" where
  "svc_create st = svc_update st \<lparr>svc_server = [], svc_key_str = []\<rparr>"

definition svc_output_type :: string where "svc_output_type = ''snipewatch_delay_output''"

definition svc_protocol :: string where "svc_protocol = ''RTMP''"

definition svc_connect_info :: "delay_service \<Rightarrow> connect_info \<Rightarrow> string option" where
  "svc_connect_info s t =
     (case t of
        INFO_SERVER_URL \<Rightarrow> dstr_array (svc_server s)
      | INFO_STREAM_KEY \<Rightarrow> dstr_array (svc_key_str s)
      | _ \<Rightarrow> None)"

definition svc_url :: "delay_service \<Rightarrow> string option" where
  "svc_url s = svc_connect_info s INFO_SERVER_URL"

definition svc_key :: "delay_service \<Rightarrow> string option" where
  "svc_key s = svc_connect_info s INFO_STREAM_KEY"

definition svc_can_connect :: "delay_service \<Rightarrow> bool" where
  "svc_can_connect s \<longleftrightarrow> svc_server s \<noteq> [] \<and> svc_key_str s \<noteq> []"

definition svc_video_codecs :: "string list" where "svc_video_codecs = [''h264'']"

definition svc_audio_codecs :: "string list" where "svc_audio_codecs = [''aac'']"

lemma svc_can_connect_info:
  "svc_can_connect s \<longleftrightarrow> svc_url s \<noteq> None \<and> svc_key s \<noteq> None"
  by (simp add: svc_can_connect_def svc_url_def svc_key_def svc_connect_info_def dstr_array_def)

end
