(* ===== verification/Plugin_Main.thy ===== *)
theory Plugin_Main
  imports Remote Delay_Service
begin

text \<open>
  The plugin's front end, \<open>src/plugin-main.c\<close>: hotkeys, obs-websocket requests, frontend events
  and the exchange of the streaming service. What OBS answers is a parameter: how it creates a
  service from a type and settings (\<open>create\<close>) and what the connect info of a service of another
  type is (\<open>other_info\<close>). The values a handler writes into an obs-websocket response are the list
  of its setter calls.
\<close>

section \<open>State\<close>

record obs_service =
  svc_type :: string
  svc_settings :: obs_settings

record frontend =
  streaming_service :: "obs_service option"
  streaming_active :: bool
  original_file :: "obs_service option"

record plugin =
  control :: control
  remote :: remote
  front :: frontend
  vendor :: bool
  emitted :: "(bool \<times> u32 \<times> u32) list"

datatype response =
    RespBool string bool
  | RespStr string string
  | RespInt string u32

section \<open>Changes of delay\<close>

definition emit_state :: "u64 \<Rightarrow> plugin \<Rightarrow> plugin option" where
  "emit_state now p =
     (if vendor p then
        map_option (\<lambda>st. p\<lparr>emitted := emitted p @ [(active st, requested_sec st, effective_ms st)]\<rparr>)
          (swd_get_global_state now (control p))
      else Some p)"

definition change_delay :: "u32 \<Rightarrow> u64 \<Rightarrow> plugin \<Rightarrow> plugin option" where
  "change_delay seconds now p =
     Option.bind (swd_request_delay seconds now (control p)) (\<lambda>c. emit_state now (p\<lparr>control := c\<rparr>))"

datatype hotkey_id = HK_30 | HK_60 | HK_OFF | HK_OTHER

definition hotkey_cb :: "hotkey_id \<Rightarrow> bool \<Rightarrow> u64 \<Rightarrow> plugin \<Rightarrow> plugin option" where
  "hotkey_cb hk pressed now p =
     (if \<not> pressed then Some p
      else case hk of
        HK_30 \<Rightarrow> change_delay 30 now p
      | HK_60 \<Rightarrow> change_delay 60 now p
      | HK_OFF \<Rightarrow> change_delay 0 now p
      | HK_OTHER \<Rightarrow> Some p)"

definition ws_set_delay :: "int \<Rightarrow> u64 \<Rightarrow> plugin \<Rightarrow> (plugin \<times> response list) option" where
  "ws_set_delay seconds now p =
     (if seconds < 0 \<or> uint SWD_MAX_DELAY_SEC < seconds
      then Some (p, [RespBool ''ok'' False, RespStr ''error'' ''seconds must be between 0 and 120''])
      else map_option (\<lambda>p'. (p', [RespBool ''ok'' True])) (change_delay (word_of_int seconds) now p))"

definition delay_service_active :: "frontend \<Rightarrow> bool" where
  "delay_service_active f =
     (case streaming_service f of None \<Rightarrow> False | Some s \<Rightarrow> svc_type s = SERVICE_ID)"

definition ws_get_state :: "u64 \<Rightarrow> plugin \<Rightarrow> response list option" where
  "ws_get_state now p =
     map_option (\<lambda>st. [RespBool ''active'' (active st), RespInt ''requestedSec'' (requested_sec st),
         RespInt ''effectiveMs'' (effective_ms st), RespInt ''bufferedMs'' (buffered_ms st),
         RespBool ''pending'' (pending st),
         RespBool ''delayModeEnabled'' (delay_service_active (front p))])
       (swd_get_global_state now (control p))"

text \<open>The poll thread applies what the server asked for through \<open>change_delay\<close>.\<close>

definition apply_poll :: "remote \<Rightarrow> u32 option \<Rightarrow> u64 \<Rightarrow> plugin \<Rightarrow> plugin option" where
  "apply_poll r wish now p =
     (case wish of
        None \<Rightarrow> Some (p\<lparr>remote := r\<rparr>)
      | Some s \<Rightarrow> change_delay s now (p\<lparr>remote := r\<rparr>))"

section \<open>The streaming service\<close>

definition refresh_delay_mode :: "plugin \<Rightarrow> plugin" where
  "refresh_delay_mode p =
     p\<lparr>remote := swd_remote_set_delay_mode (delay_service_active (front p)) (remote p)\<rparr>"

definition get_connect_info ::
  "(obs_service \<Rightarrow> connect_info \<Rightarrow> string option) \<Rightarrow> obs_service \<Rightarrow> connect_info \<Rightarrow> string option" where
  "get_connect_info other_info s t =
     (if svc_type s = SERVICE_ID then svc_connect_info (svc_create (svc_settings s)) t
      else other_info s t)"

definition delay_settings :: "string \<Rightarrow> string \<Rightarrow> obs_settings" where
  "delay_settings url key = (\<lambda>_. [])(''server'' := url, ''key'' := key)"

definition set_service :: "obs_service \<Rightarrow> plugin \<Rightarrow> plugin" where
  "set_service s p = refresh_delay_mode (p\<lparr>front := (front p)\<lparr>streaming_service := Some s\<rparr>\<rparr>)"

definition enable_delay_mode ::
  "(string \<Rightarrow> obs_settings \<Rightarrow> obs_service option) \<Rightarrow>
   (obs_service \<Rightarrow> connect_info \<Rightarrow> string option) \<Rightarrow> plugin \<Rightarrow> plugin" where
  "enable_delay_mode create other_info p =
     (if streaming_active (front p) then p
      else case streaming_service (front p) of
        None \<Rightarrow> p
      | Some cur \<Rightarrow>
          if svc_type cur = SERVICE_ID then p
          else case (get_connect_info other_info cur INFO_SERVER_URL,
                     get_connect_info other_info cur INFO_STREAM_KEY) of
            (Some url, Some key) \<Rightarrow>
              if url = [] \<or> key = [] then p
              else if take 7 url \<noteq> ''rtmp://'' then p
              else
                let p1 = p\<lparr>front := (front p)\<lparr>original_file := Some cur\<rparr>\<rparr>
                in (case create SERVICE_ID (delay_settings url key) of
                      None \<Rightarrow> p1
                    | Some s \<Rightarrow> set_service s p1)
          | _ \<Rightarrow> p)"

definition disable_delay_mode ::
  "(string \<Rightarrow> obs_settings \<Rightarrow> obs_service option) \<Rightarrow> plugin \<Rightarrow> plugin" where
  "disable_delay_mode create p =
     (if streaming_active (front p) then p
      else case original_file (front p) of
        None \<Rightarrow> p
      | Some orig \<Rightarrow>
          (case create (svc_type orig) (svc_settings orig) of
             None \<Rightarrow> p
           | Some s \<Rightarrow> set_service s p))"

section \<open>Frontend events, loading and unloading\<close>

datatype frontend_event =
    FINISHED_LOADING | PROFILE_CHANGED | STREAMING_STARTING | STREAMING_STARTED
  | STREAMING_STOPPED | OTHER_EVENT

definition on_frontend_event :: "frontend_event \<Rightarrow> u64 \<Rightarrow> plugin \<Rightarrow> plugin option" where
  "on_frontend_event ev now p =
     (case ev of
        FINISHED_LOADING \<Rightarrow> Some (refresh_delay_mode p)
      | PROFILE_CHANGED \<Rightarrow> Some (refresh_delay_mode p)
      | STREAMING_STARTING \<Rightarrow> Some (refresh_delay_mode p)
      | STREAMING_STARTED \<Rightarrow> Some (p\<lparr>remote := swd_remote_set_streaming True (remote p)\<rparr>)
      | STREAMING_STOPPED \<Rightarrow>
          (let p1 = p\<lparr>remote := swd_remote_set_streaming False (remote p)\<rparr>
           in map_option (\<lambda>c. p1\<lparr>control := c\<rparr>) (swd_request_delay 0 now (control p1)))
      | OTHER_EVENT \<Rightarrow> Some p)"

definition menu_status :: "plugin \<Rightarrow> plugin" where
  "menu_status p = refresh_delay_mode p"

definition obs_module_load :: "config_file option \<Rightarrow> bool \<Rightarrow> plugin \<Rightarrow> plugin" where
  "obs_module_load file thread_ok p = p\<lparr>remote := swd_remote_start file thread_ok (remote p)\<rparr>"

definition obs_module_post_load :: "bool \<Rightarrow> plugin \<Rightarrow> plugin" where
  "obs_module_post_load registered p = p\<lparr>vendor := registered\<rparr>"

definition obs_module_unload :: "plugin \<Rightarrow> plugin" where
  "obs_module_unload p = p\<lparr>remote := swd_remote_stop (remote p)\<rparr>"

section \<open>Facts\<close>

lemma change_delay_requested:
  "change_delay secs now p = Some p' \<Longrightarrow> swd_requested_delay (control p') = clamp_delay secs"
  by (auto simp: change_delay_def emit_state_def swd_request_delay_def swd_requested_delay_def
      Let_def bind_eq_Some_conv split: if_splits option.splits)

lemma change_delay_in_sync: "change_delay secs now p = Some p' \<Longrightarrow> in_sync (control p')"
  by (auto simp: change_delay_def emit_state_def bind_eq_Some_conv split: if_splits
      dest: request_in_sync)

lemma change_delay_total:
  "(\<And>k. g_running (control p) = Some k \<Longrightarrow> delays (control p) k \<noteq> None) \<Longrightarrow>
   \<exists>p'. change_delay secs now p = Some p'"
  by (auto simp: change_delay_def emit_state_def swd_request_delay_def swd_get_global_state_def
      Let_def split: option.splits)

text \<open>The two directions of the exchange of the service.\<close>

lemma enable_sets:
  assumes "\<not> streaming_active (front p)" and "streaming_service (front p) = Some cur"
    and "svc_type cur \<noteq> SERVICE_ID"
    and "other_info cur INFO_SERVER_URL = Some url" and "other_info cur INFO_STREAM_KEY = Some key"
    and "url \<noteq> []" and "key \<noteq> []" and "take 7 url = ''rtmp://''"
    and "create SERVICE_ID (delay_settings url key) =
      Some \<lparr>svc_type = SERVICE_ID, svc_settings = delay_settings url key\<rparr>"
  shows "enable_delay_mode create other_info p =
    set_service \<lparr>svc_type = SERVICE_ID, svc_settings = delay_settings url key\<rparr>
      (p\<lparr>front := (front p)\<lparr>original_file := Some cur\<rparr>\<rparr>)"
  using assms by (simp add: enable_delay_mode_def get_connect_info_def Let_def)

lemma delay_service_info:
  "url \<noteq> [] \<Longrightarrow> key \<noteq> [] \<Longrightarrow>
   get_connect_info other_info \<lparr>svc_type = SERVICE_ID, svc_settings = delay_settings url key\<rparr>
     INFO_SERVER_URL = Some url \<and>
   get_connect_info other_info \<lparr>svc_type = SERVICE_ID, svc_settings = delay_settings url key\<rparr>
     INFO_STREAM_KEY = Some key"
  by (simp add: get_connect_info_def svc_connect_info_def svc_create_def svc_update_def
      delay_settings_def dstr_array_def)

end
