(* ===== verification/Control_Properties.thy ===== *)
theory Control_Properties
  imports Plugin_Main
begin

text \<open>
  Properties of the control plane: what hotkeys, obs-websocket, the poll thread and the frontend
  do to the delay of the running output.
\<close>

text \<open>C15: Whatever outputs are created, started, stopped and destroyed while delays are requested
  from any thread, no request ever touches a freed delay, the published delay is alive, and the
  requested delay stays within 120 seconds.\<close>

theorem requests_are_safe:
  assumes "reach control_init control_step s"
  shows "\<not> faulted s \<and> g_requested_sec (ctl s) \<le> 120 \<and>
    (g_running (ctl s) = Some k \<longrightarrow> delays (ctl s) k \<noteq> None) \<and>
    swd_request_delay secs now (ctl s) \<noteq> None"
  using control.always [OF assms]
  by (auto simp: control_ok_def SWD_MAX_DELAY_SEC_def swd_request_delay_def Let_def split: option.splits)

definition sample_control :: "control_event list" where
  "sample_control = [CtlCreate 0, CtlRead 0, CtlStart 0 True, CtlPublish 0, CtlRequest 500 9, CtlCreate 1,
     CtlClear 0, CtlRequest 60 10, CtlStop 0, CtlDestroy 0, CtlRequest 30 11]"

lemma sample_control_facts:
  "case control_run sample_control control0 of None \<Rightarrow> False
   | Some s \<Rightarrow> g_requested_sec (ctl s) = 30 \<and> g_running (ctl s) = None"
  by code_simp

theorem requests_are_safe_witness:
  "\<exists>s. control_run sample_control control0 = Some s \<and> g_requested_sec (ctl s) = 30 \<and> \<not> faulted s"
proof -
  obtain s where s: "control_run sample_control control0 = Some s" "g_requested_sec (ctl s) = 30"
    using sample_control_facts by (auto split: option.splits)
  have "reach control_init control_step s"
    by (rule control_run_reach [OF reach_init s(1)]) (simp add: control_init_def)
  with s requests_are_safe show ?thesis by blast
qed

text \<open>A request that comes while an output is starting, after the output has read the requested
  delay and before it is published as the running one, is lost: the stream runs with the old
  delay although the new one is recorded as requested.\<close>

theorem request_lost_during_start:
  "(case control_run [CtlCreate 0, CtlRead 0, CtlRequest 30 1000, CtlStart 0 True, CtlPublish 0] control0 of
      None \<Rightarrow> False
    | Some s \<Rightarrow> swd_requested_delay (ctl s) = 30 \<and> \<not> in_sync (ctl s) \<and>
        map_option requested_sec (swd_get_global_state 1001 (ctl s)) = Some 0)"
  by code_simp



text \<open>C17: \<open>SetDelay\<close> of obs-websocket: a number of seconds from 0 to 120 becomes the requested
  delay, the running output follows and the answer is ok; any other number changes nothing and is
  answered with an error.\<close>

theorem ws_set_delay_spec:
  assumes "ws_set_delay seconds now p = Some (p', resp)"
  shows "if 0 \<le> seconds \<and> seconds \<le> 120
    then uint (swd_requested_delay (control p')) = seconds \<and> in_sync (control p') \<and>
      resp = [RespBool ''ok'' True]
    else p' = p \<and>
      resp = [RespBool ''ok'' False, RespStr ''error'' ''seconds must be between 0 and 120'']"
proof (cases "0 \<le> seconds \<and> seconds \<le> 120")
  case True
  then have run: "change_delay (word_of_int seconds) now p = Some p'" "resp = [RespBool ''ok'' True]"
    using assms by (auto simp: ws_set_delay_def SWD_MAX_DELAY_SEC_def split: if_splits)
  have u: "uint (word_of_int seconds :: u32) = seconds"
    using True by (simp add: uint_word_of_int)
  then have "clamp_delay (word_of_int seconds) = word_of_int seconds"
    using True by (auto simp: clamp_delay_def SWD_MAX_DELAY_SEC_def word_less_def)
  then show ?thesis
    using True u run change_delay_requested [OF run(1)] change_delay_in_sync [OF run(1)] by simp
next
  case False
  then show ?thesis using assms by (auto simp: ws_set_delay_def SWD_MAX_DELAY_SEC_def split: if_splits)
qed

definition sample_plugin :: plugin where
  "sample_plugin =
     \<lparr>control = start_output 0 True \<lparr>g_running = None, g_requested_sec = 0, delays = [0 \<mapsto> swd_create]\<rparr>,
      remote = remote0,
      front = \<lparr>streaming_service = Some \<lparr>svc_type = ''rtmp_custom'', svc_settings = (\<lambda>_. ''x'')\<rparr>,
               streaming_active = False, original_file = None\<rparr>,
      vendor = True, emitted = []\<rparr>"

lemma sample_plugin_alive: "\<exists>p'. change_delay secs now sample_plugin = Some p'"
  by (rule change_delay_total)
    (simp add: sample_plugin_def start_output_def swd_set_running_def start_delay_def)

theorem ws_set_delay_spec_witness:
  "\<exists>p' resp. ws_set_delay 45 7 sample_plugin = Some (p', resp) \<and>
     uint (swd_requested_delay (control p')) = 45 \<and> resp = [RespBool ''ok'' True]"
proof -
  obtain p' resp where "ws_set_delay 45 7 sample_plugin = Some (p', resp)"
    using sample_plugin_alive by (auto simp: ws_set_delay_def SWD_MAX_DELAY_SEC_def)
  with ws_set_delay_spec [OF this] show ?thesis by simp
qed

text \<open>Turning the delay mode on and off again gives the original streaming service back, with
  its settings, and in between the delayed service reports the same server and key, whatever OBS's
  services are, as long as it creates a service with the type and settings it is given.\<close>

lemma delay_mode_round_trip:
  assumes "\<And>t st. create t st = Some \<lparr>svc_type = t, svc_settings = st\<rparr>"
    and "\<not> streaming_active (front p)" and "streaming_service (front p) = Some cur"
    and "svc_type cur \<noteq> SERVICE_ID"
    and "other_info cur INFO_SERVER_URL = Some url" and "other_info cur INFO_STREAM_KEY = Some key"
    and "key \<noteq> []" and "take 7 url = ''rtmp://''"
  shows "(\<exists>s. streaming_service (front (enable_delay_mode create other_info p)) = Some s \<and>
      get_connect_info other_info s INFO_SERVER_URL = Some url \<and>
      get_connect_info other_info s INFO_STREAM_KEY = Some key \<and>
      delay_mode (remote (enable_delay_mode create other_info p))) \<and>
    streaming_service (front (disable_delay_mode create (enable_delay_mode create other_info p))) = Some cur \<and>
    \<not> delay_mode (remote (disable_delay_mode create (enable_delay_mode create other_info p)))"
proof -
  have url: "url \<noteq> []" using assms(8) by auto
  let ?s = "\<lparr>svc_type = SERVICE_ID, svc_settings = delay_settings url key\<rparr>"
  have en: "enable_delay_mode create other_info p =
      set_service ?s (p\<lparr>front := (front p)\<lparr>original_file := Some cur\<rparr>\<rparr>)"
    by (rule enable_sets [where url = url and key = key and cur = cur]) (use assms url in simp_all)
  show ?thesis
    using delay_service_info [OF url assms(7)] assms(2,4)
    by (simp add: en set_service_def refresh_delay_mode_def disable_delay_mode_def assms(1)
        delay_service_active_def swd_remote_set_delay_mode_def)
qed

theorem delay_mode_round_trip_witness:
  "streaming_service (front (disable_delay_mode (\<lambda>t st. Some \<lparr>svc_type = t, svc_settings = st\<rparr>)
     (enable_delay_mode (\<lambda>t st. Some \<lparr>svc_type = t, svc_settings = st\<rparr>)
       (\<lambda>s t. Some ''rtmp://a/live'') sample_plugin))) =
   Some \<lparr>svc_type = ''rtmp_custom'', svc_settings = (\<lambda>_. ''x'')\<rparr>"
proof -
  have "\<not> streaming_active (front sample_plugin)" "streaming_service (front sample_plugin) =
      Some \<lparr>svc_type = ''rtmp_custom'', svc_settings = (\<lambda>_. ''x'')\<rparr>" "''rtmp_custom'' \<noteq> SERVICE_ID"
    by (simp_all add: sample_plugin_def SERVICE_ID_def)
  with delay_mode_round_trip [of "\<lambda>t st. Some \<lparr>svc_type = t, svc_settings = st\<rparr>" sample_plugin
      "\<lparr>svc_type = ''rtmp_custom'', svc_settings = (\<lambda>_. ''x'')\<rparr>" "\<lambda>s t. Some ''rtmp://a/live''"
      "''rtmp://a/live''" "''rtmp://a/live''"]
  show ?thesis by simp
qed

text \<open>Turning the delay mode off is not guarded by the delay mode being on: any other service
  configured since is replaced by the one that was saved.\<close>

theorem disable_replaces_other_service:
  "map_option svc_type (streaming_service (front (disable_delay_mode
     (\<lambda>t st. Some \<lparr>svc_type = t, svc_settings = st\<rparr>)
     (sample_plugin\<lparr>front :=
        \<lparr>streaming_service = Some \<lparr>svc_type = ''whip_custom'', svc_settings = (\<lambda>_. [])\<rparr>,
         streaming_active = False,
         original_file = Some \<lparr>svc_type = ''rtmp_custom'', svc_settings = (\<lambda>_. [])\<rparr>\<rparr>\<rparr>)))) =
   Some ''rtmp_custom''"
  by (simp add: disable_delay_mode_def set_service_def refresh_delay_mode_def)

text \<open>A poll asks for a change of delay only with a token, while live, after an accepted
  answer, when the server has remote control and wants a delay other than the requested one; and
  whatever the server answers, the next poll comes after one second to two minutes.\<close>

lemma poll_decides:
  assumes "poll_once http_get parse version time req1 req2 r1 r2 = (r', next_ms, wish)"
  shows "1000 \<le> next_ms \<and> next_ms \<le> 120000 \<and>
    (wish \<noteq> None \<longrightarrow> token r1 \<noteq> [] \<and> streaming r1 \<and> last_http r' = 200 \<and> last_control r' \<and>
       0 \<le> last_desired r' \<and> wish = Some (word_of_int (last_desired r')) \<and> wish \<noteq> Some req2) \<and>
    token r' = token r2 \<and> server r' = server r2 \<and> streaming r' = streaming r2"
proof -
  have "1000 \<le> next_ms \<and> next_ms \<le> 120000"
    using poll_next_bounds [of http_get parse version time req1 req2 r1 r2] assms by simp
  moreover have "wish = Some s \<longrightarrow> token r1 \<noteq> [] \<and> streaming r1 \<and> last_http r' = 200 \<and> last_control r' \<and>
      0 \<le> last_desired r' \<and> s = word_of_int (last_desired r') \<and> s \<noteq> req2" for s
    using poll_asks assms by blast
  moreover have "token r' = token r2 \<and> server r' = server r2 \<and> streaming r' = streaming r2"
    using assms
    by (auto simp: poll_once_def poll_accept_def Let_def split: if_splits prod.splits option.splits)
  ultimately show ?thesis by (cases wish) auto
qed

definition live_remote :: remote where
  "live_remote = remote0\<lparr>token := ''swd_1'', server := SWD_DEFAULT_SERVER, streaming := True\<rparr>"

theorem poll_decides_witness:
  "\<exists>r'. poll_once (\<lambda>u t. (200, ''b'', [])) (\<lambda>b. Some \<lparr>reply_control = True, reply_desired = Some 45,
       reply_reason = [], reply_poll_ms = 5000\<rparr>) ''1.0'' 99 0 0 live_remote live_remote = (r', 5000, Some 45) \<and>
     last_desired r' = 45"
proof -
  let ?r = "poll_once (\<lambda>u t. (200, ''b'', [])) (\<lambda>b. Some \<lparr>reply_control = True, reply_desired = Some 45,
       reply_reason = [], reply_poll_ms = 5000\<rparr>) ''1.0'' 99 0 0 live_remote live_remote"
  have r: "?r = (fst ?r, 5000, Some 45)" and d: "last_desired (fst ?r) = 45"
    by (simp_all add: poll_once_def live_remote_def remote0_def poll_accept_def)
  from poll_decides [OF r] d r show ?thesis by metis
qed

text \<open>An accepted answer that cannot be read makes the poll apply the wish of an earlier answer
  once more: the delay the streamer has turned off in the meantime comes back.\<close>

theorem unreadable_answer_repeats_last_wish:
  "snd (snd (poll_once (\<lambda>u t. (200, ''<html>'', [])) (\<lambda>b. None) ''1.0'' 99 0 0
     (live_remote\<lparr>last_control := True, last_desired := 60\<rparr>)
     (live_remote\<lparr>last_control := True, last_desired := 60\<rparr>))) = Some 60"
  by (simp add: poll_once_def live_remote_def remote0_def)

text \<open>The configuration survives a save and a load, except that a server at the legacy address,
  or none, becomes the default one; the legacy address is never used.\<close>

lemma config_round_trip:
  "token (load_config (Some (save_config r)) r0) = token r \<and>
   server (load_config (Some (save_config r)) r0) =
     (if server r = [] \<or> take (length SWD_LEGACY_SERVER) (server r) = SWD_LEGACY_SERVER
      then SWD_DEFAULT_SERVER else server r) \<and>
   take (length SWD_LEGACY_SERVER) (server (load_config file r0)) \<noteq> SWD_LEGACY_SERVER"
proof -
  have "SWD_DEFAULT_SERVER \<noteq> []" and
    "take (length SWD_LEGACY_SERVER) SWD_DEFAULT_SERVER \<noteq> SWD_LEGACY_SERVER"
    by (simp_all add: SWD_DEFAULT_SERVER_def SWD_LEGACY_SERVER_def)
  then show ?thesis
    using load_not_legacy [THEN conjunct1] by (simp add: load_config_def save_config_def Let_def)
qed

end
