(* ===== verification/Bytes.thy ===== *)
theory Bytes
  imports Prelude
begin

text \<open>
  Big-endian bytes of machine words, as the AMF coder, the FLV muxer and the RTMP chunk layer
  write and read them.
\<close>

definition be16 :: "u16 \<Rightarrow> byte list" where
  "be16 w = [ucast (drop_bit 8 w), ucast w]"

definition be24 :: "u32 \<Rightarrow> byte list" where
  "be24 w = [ucast (drop_bit 16 w), ucast (drop_bit 8 w), ucast w]"

definition be32 :: "u32 \<Rightarrow> byte list" where
  "be32 w = [ucast (drop_bit 24 w), ucast (drop_bit 16 w), ucast (drop_bit 8 w), ucast w]"

definition be64 :: "u64 \<Rightarrow> byte list" where
  "be64 w = be32 (ucast (drop_bit 32 w)) @ be32 (ucast w)"

definition le32 :: "u32 \<Rightarrow> byte list" where
  "le32 w = rev (be32 w)"

text \<open>The readers shift and combine the bytes.\<close>

definition get16 :: "byte \<Rightarrow> byte \<Rightarrow> u16" where
  "get16 a b = or (push_bit 8 (ucast a)) (ucast b)"

definition get24 :: "byte \<Rightarrow> byte \<Rightarrow> byte \<Rightarrow> u32" where
  "get24 a b c = or (or (push_bit 16 (ucast a)) (push_bit 8 (ucast b))) (ucast c)"

definition get32 :: "byte \<Rightarrow> byte \<Rightarrow> byte \<Rightarrow> byte \<Rightarrow> u32" where
  "get32 a b c d = or (or (or (push_bit 24 (ucast a)) (push_bit 16 (ucast b))) (push_bit 8 (ucast c))) (ucast d)"

definition get64 :: "byte list \<Rightarrow> u64" where
  "get64 bs = or (push_bit 32 (ucast (get32 (bs ! 0) (bs ! 1) (bs ! 2) (bs ! 3))))
     (ucast (get32 (bs ! 4) (bs ! 5) (bs ! 6) (bs ! 7)))"

lemma be_length [simp]:
  "length (be16 v) = 2" "length (be24 w) = 3" "length (be32 w) = 4" "length (be64 x) = 8"
  "length (le32 w) = 4"
  by (simp_all add: be16_def be24_def be32_def be64_def le32_def)

text \<open>The byte at bit \<open>k\<close> of a word, put back in place.\<close>

lemma bit_byte_shift:
  fixes w :: "'a::len word"
  shows "bit (push_bit k (ucast (ucast (drop_bit k w) :: byte)) :: 'a word) n \<longleftrightarrow>
    k \<le> n \<and> n < k + 8 \<and> bit w n"
  by (auto simp: bit_simps less_diff_conv2 dest: bit_imp_le_length)

lemma bit_byte_low:
  fixes w :: "'a::len word"
  shows "bit (ucast (ucast w :: byte) :: 'a word) n \<longleftrightarrow> n < 8 \<and> bit w n"
  by (auto simp: bit_simps dest: bit_imp_le_length)

lemma get16_be16 [simp]: "get16 (ucast (drop_bit 8 w)) (ucast w) = w"
  by (rule bit_word_eqI) (auto simp: get16_def bit_or_iff bit_byte_shift bit_byte_low)

lemma get24_be24:
  fixes w :: u32
  assumes "w < 2 ^ 24"
  shows "get24 (ucast (drop_bit 16 w)) (ucast (drop_bit 8 w)) (ucast w) = w"
proof (rule bit_word_eqI)
  fix n
  have "uint w < 2 ^ 24" using assms by (simp add: word_less_def)
  then have "take_bit 24 (uint w) = uint w" by (intro take_bit_int_eq_self) auto
  then have "bit w n \<Longrightarrow> n < 24"
    by (metis bit_take_bit_iff bit_uint_iff bit_imp_le_length)
  then show "bit (get24 (ucast (drop_bit 16 w)) (ucast (drop_bit 8 w)) (ucast w)) n = bit w n"
    by (auto simp: get24_def bit_or_iff bit_byte_shift bit_byte_low)
qed

lemma get32_be32 [simp]:
  "get32 (ucast (drop_bit 24 w)) (ucast (drop_bit 16 w)) (ucast (drop_bit 8 w)) (ucast w) = w"
  by (rule bit_word_eqI) (auto simp: get32_def bit_or_iff bit_byte_shift bit_byte_low)

lemma get64_be64 [simp]: "get64 (be64 w @ rest) = w"
proof -
  have "get64 (be64 w @ rest) = or (push_bit 32 (ucast (ucast (drop_bit 32 w) :: u32))) (ucast (ucast w :: u32))"
    by (simp add: get64_def be64_def be32_def)
  also have "\<dots> = w"
    by (rule bit_word_eqI) (auto simp: bit_simps less_diff_conv2)
  finally show ?thesis .
qed

lemma uint16_of_nat [simp]: "k < 65536 \<Longrightarrow> uint (of_nat k :: u16) = int k"
  by (simp add: unsigned_of_nat take_bit_nat_eq_self)

lemma uint32_of_nat [simp]: "k < 4294967296 \<Longrightarrow> uint (of_nat k :: u32) = int k"
  by (simp add: unsigned_of_nat take_bit_nat_eq_self)

end
