(* ===== verification/Amf.thy ===== *)
theory Amf
  imports Bytes C_Double
begin

text \<open>
  The AMF0 coder of \<open>src/rtmp/librtmp/amf.c\<close>: objects and properties, the encoders, and the
  decoders. An encoder gets the room left in the output (\<open>outend - output\<close>) and gives the bytes it
  writes, or \<open>None\<close> where the code returns NULL. A decoder reads the memory \<open>mem\<close>, from the body of
  the packet to the end of its allocation, at a position: the code trusts lengths from the wire, so
  the position can leave the memory (\<open>Oob\<close>) and can even move backwards. A double is its 64-bit
  image. The AMF3 decoder is a parameter; \<open>Amf3\<close> models it.
\<close>

section \<open>Data\<close>

datatype amf_value =
    AmfNumber u64
  | AmfBoolean bool
  | AmfString "byte list"
  | AmfObject "amf_prop list"
  | AmfNull
  | AmfEcmaArray "amf_prop list"
  | AmfStrictArray "amf_prop list"
  | AmfDate u64 u16
  | AmfXmlDoc "byte list"
  | AmfInvalid
and amf_prop = AmfProp (p_name: "byte list") (p_value: amf_value)

type_synonym amf_object = "amf_prop list"

definition AMF_NUMBER :: byte where "AMF_NUMBER = 0"
definition AMF_BOOLEAN :: byte where "AMF_BOOLEAN = 1"
definition AMF_STRING :: byte where "AMF_STRING = 2"
definition AMF_OBJECT :: byte where "AMF_OBJECT = 3"
definition AMF_NULL :: byte where "AMF_NULL = 5"
definition AMF_UNDEFINED :: byte where "AMF_UNDEFINED = 6"
definition AMF_ECMA_ARRAY :: byte where "AMF_ECMA_ARRAY = 8"
definition AMF_OBJECT_END :: byte where "AMF_OBJECT_END = 9"
definition AMF_STRICT_ARRAY :: byte where "AMF_STRICT_ARRAY = 10"
definition AMF_DATE :: byte where "AMF_DATE = 11"
definition AMF_LONG_STRING :: byte where "AMF_LONG_STRING = 12"
definition AMF_UNSUPPORTED :: byte where "AMF_UNSUPPORTED = 13"
definition AMF_XML_DOC :: byte where "AMF_XML_DOC = 15"
definition AMF_AVMPLUS :: byte where "AMF_AVMPLUS = 17"

lemmas amf_types = AMF_NUMBER_def AMF_BOOLEAN_def AMF_STRING_def AMF_OBJECT_def AMF_NULL_def
  AMF_UNDEFINED_def AMF_ECMA_ARRAY_def AMF_OBJECT_END_def AMF_STRICT_ARRAY_def AMF_DATE_def
  AMF_LONG_STRING_def AMF_UNSUPPORTED_def AMF_XML_DOC_def AMF_AVMPLUS_def

section \<open>Encoders\<close>

definition amf_encode_int16 :: "nat \<Rightarrow> u16 \<Rightarrow> byte list option" where
  "amf_encode_int16 room v = (if room < 2 then None else Some (be16 v))"

definition amf_encode_int24 :: "nat \<Rightarrow> u32 \<Rightarrow> byte list option" where
  "amf_encode_int24 room v = (if room < 3 then None else Some (be24 v))"

definition amf_encode_int32 :: "nat \<Rightarrow> u32 \<Rightarrow> byte list option" where
  "amf_encode_int32 room v = (if room < 4 then None else Some (be32 v))"

definition amf_encode_string :: "nat \<Rightarrow> byte list \<Rightarrow> byte list option" where
  "amf_encode_string room s =
     (let len = length s
      in if len < 65536 \<and> room < 1 + 2 + len \<or> room < 1 + 4 + len then None
         else if len < 65536
              then Some (AMF_STRING # the (amf_encode_int16 (room - 1) (of_nat len)) @ s)
              else Some (AMF_LONG_STRING # the (amf_encode_int32 (room - 1) (of_nat len)) @ s))"

definition amf_encode_number :: "nat \<Rightarrow> u64 \<Rightarrow> byte list option" where
  "amf_encode_number room d = (if room < 1 + 8 then None else Some (AMF_NUMBER # be64 d))"

definition amf_encode_boolean :: "nat \<Rightarrow> bool \<Rightarrow> byte list option" where
  "amf_encode_boolean room b =
     (if room < 2 then None else Some [AMF_BOOLEAN, if b then 1 else 0])"

definition amf_encode_named ::
  "(nat \<Rightarrow> 'a \<Rightarrow> byte list option) \<Rightarrow> nat \<Rightarrow> byte list \<Rightarrow> 'a \<Rightarrow> byte list option" where
  "amf_encode_named enc room name v =
     (if room < 2 + length name then None
      else map_option (\<lambda>bs. the (amf_encode_int16 room (of_nat (length name))) @ name @ bs)
             (enc (room - (2 + length name)) v))"

definition amf_encode_named_string :: "nat \<Rightarrow> byte list \<Rightarrow> byte list \<Rightarrow> byte list option" where
  "amf_encode_named_string = amf_encode_named amf_encode_string"

definition amf_encode_named_number :: "nat \<Rightarrow> byte list \<Rightarrow> u64 \<Rightarrow> byte list option" where
  "amf_encode_named_number = amf_encode_named amf_encode_number"

definition amf_encode_named_boolean :: "nat \<Rightarrow> byte list \<Rightarrow> bool \<Rightarrow> byte list option" where
  "amf_encode_named_boolean = amf_encode_named amf_encode_boolean"

text \<open>
  \<open>AMFProp_Encode\<close> with the three object encoders, and the loop over the properties that they
  share: it stops, without an error, at the first property that does not fit.
\<close>

definition amf_name_bytes :: "byte list \<Rightarrow> byte list" where
  "amf_name_bytes name = (if name = [] then [] else be16 (of_nat (length name)) @ name)"

definition amf_end_mark :: "nat \<Rightarrow> byte list \<Rightarrow> byte list option" where
  "amf_end_mark room body =
     (if room - length body \<le> 3 then None
      else map_option (\<lambda>e. body @ e) (amf_encode_int24 (room - length body) (ucast AMF_OBJECT_END)))"

fun amf_prop_encode :: "nat \<Rightarrow> amf_prop \<Rightarrow> byte list option"
and amf_props_encode :: "nat \<Rightarrow> amf_prop list \<Rightarrow> byte list"
and amf_value_encode :: "nat \<Rightarrow> amf_value \<Rightarrow> byte list option" where
  "amf_prop_encode room (AmfProp name v) =
     (if v = AmfInvalid then None
      else if v = AmfNull then (if room \<le> 1 then None else Some [AMF_NULL])
      else if room \<le> length name + 2 + 1 then None
      else
        let head = amf_name_bytes name
        in map_option (\<lambda>bs. head @ bs) (amf_value_encode (room - length head) v))"
| "amf_props_encode room [] = []"
| "amf_props_encode room (p # ps) =
     (case amf_prop_encode room p of
        None \<Rightarrow> []
      | Some bs \<Rightarrow> bs @ amf_props_encode (room - length bs) ps)"
| "amf_value_encode room (AmfNumber d) = amf_encode_number room d"
| "amf_value_encode room (AmfBoolean b) = amf_encode_boolean room b"
| "amf_value_encode room (AmfString s) = amf_encode_string room s"
| "amf_value_encode room (AmfObject ps) =
     (if room \<le> 4 then None
      else amf_end_mark room (AMF_OBJECT # amf_props_encode (room - 1) ps))"
| "amf_value_encode room (AmfEcmaArray ps) =
     (if room \<le> 4 then None
      else amf_end_mark room
             (AMF_ECMA_ARRAY # be32 (of_nat (length ps)) @ amf_props_encode (room - 5) ps))"
| "amf_value_encode room (AmfStrictArray ps) =
     (if room \<le> 4 then None
      else Some (AMF_STRICT_ARRAY # be32 (of_nat (length ps)) @ amf_props_encode (room - 5) ps))"
| "amf_value_encode room AmfNull = None"
| "amf_value_encode room (AmfDate d z) = None"
| "amf_value_encode room (AmfXmlDoc s) = None"
| "amf_value_encode room AmfInvalid = None"

definition amf_encode :: "nat \<Rightarrow> amf_object \<Rightarrow> byte list option" where
  "amf_encode room obj = amf_value_encode room (AmfObject obj)"

section \<open>Readers\<close>

datatype amf_error = Oob | Bad | NoFuel

definition amf_then :: "amf_error + 'a \<Rightarrow> ('a \<Rightarrow> amf_error + 'b) \<Rightarrow> amf_error + 'b" where
  "amf_then r f = (case r of Inl e \<Rightarrow> Inl e | Inr x \<Rightarrow> f x)"

definition read_bytes :: "byte list \<Rightarrow> int \<Rightarrow> nat \<Rightarrow> amf_error + byte list" where
  "read_bytes mem pos k =
     (if 0 \<le> pos \<and> nat pos + k \<le> length mem then Inr (take k (drop (nat pos) mem)) else Inl Oob)"

text \<open>The bytes a string value points to; it is looked at only by whoever uses the value.\<close>

definition mem_slice :: "byte list \<Rightarrow> int \<Rightarrow> int \<Rightarrow> byte list" where
  "mem_slice mem pos len = (if 0 < len then take (nat len) (drop (nat pos) mem) else [])"

definition amf_decode_int16 :: "byte list \<Rightarrow> int \<Rightarrow> amf_error + u16" where
  "amf_decode_int16 mem pos = amf_then (read_bytes mem pos 2) (\<lambda>b. Inr (get16 (b ! 0) (b ! 1)))"

definition amf_decode_int24 :: "byte list \<Rightarrow> int \<Rightarrow> amf_error + u32" where
  "amf_decode_int24 mem pos = amf_then (read_bytes mem pos 3) (\<lambda>b. Inr (get24 (b ! 0) (b ! 1) (b ! 2)))"

definition amf_decode_int32 :: "byte list \<Rightarrow> int \<Rightarrow> amf_error + u32" where
  "amf_decode_int32 mem pos =
     amf_then (read_bytes mem pos 4) (\<lambda>b. Inr (get32 (b ! 0) (b ! 1) (b ! 2) (b ! 3)))"

definition amf_decode_number :: "byte list \<Rightarrow> int \<Rightarrow> amf_error + u64" where
  "amf_decode_number mem pos = amf_then (read_bytes mem pos 8) (\<lambda>b. Inr (get64 b))"

definition amf_decode_boolean :: "byte list \<Rightarrow> int \<Rightarrow> amf_error + bool" where
  "amf_decode_boolean mem pos = amf_then (read_bytes mem pos 1) (\<lambda>b. Inr (b ! 0 \<noteq> 0))"

definition amf_decode_string :: "byte list \<Rightarrow> int \<Rightarrow> amf_error + byte list" where
  "amf_decode_string mem pos =
     amf_then (amf_decode_int16 mem pos) (\<lambda>l. Inr (mem_slice mem (pos + 2) (uint l)))"

definition amf_decode_long_string :: "byte list \<Rightarrow> int \<Rightarrow> amf_error + byte list" where
  "amf_decode_long_string mem pos =
     amf_then (amf_decode_int32 mem pos) (\<lambda>l. Inr (mem_slice mem (pos + 4) (as_i32 (uint l))))"

section \<open>Decoders\<close>

text \<open>
  \<open>(long)nStringSize + 4\<close>: the code builds where \<open>long\<close> has 64 bits (\<open>lp64\<close>) and on Windows, where
  it has 32.
\<close>

definition long_plus4 :: "bool \<Rightarrow> u32 \<Rightarrow> int" where
  "long_plus4 lp64 s = (if lp64 then uint s + 4 else as_i32 (as_i32 (uint s) + 4))"

type_synonym amf3_decoder = "byte list \<Rightarrow> int \<Rightarrow> int \<Rightarrow> amf_error + amf_object \<times> int"

text \<open>
  The results of the decoders are the value and the number of bytes consumed; \<open>Bad\<close> is the code's
  -1. The bodies of the functions come first, over the functions they call; the recursion is tied
  below, with fuel that bounds the calls and iterations on the way to a result. The loops give the
  bytes left over instead of those consumed.
\<close>

type_synonym amf_loop = "int \<Rightarrow> int \<Rightarrow> amf_error + amf_object \<times> int"

definition amf_value_body ::
  "amf3_decoder \<Rightarrow> bool \<Rightarrow> amf_loop \<Rightarrow> (int \<Rightarrow> amf_loop) \<Rightarrow> byte list \<Rightarrow> int \<Rightarrow> int \<Rightarrow> byte \<Rightarrow>
   amf_error + amf_value \<times> int" where
  "amf_value_body amf3 lp64 obj arr mem pos n t =
     (if t = AMF_NUMBER then
        if n < 8 then Inl Bad
        else amf_then (amf_decode_number mem pos) (\<lambda>d. Inr (AmfNumber d, n - 8))
      else if t = AMF_BOOLEAN then
        if n < 1 then Inl Bad
        else amf_then (amf_decode_boolean mem pos) (\<lambda>b. Inr (AmfBoolean b, n - 1))
      else if t = AMF_STRING then
        amf_then (amf_decode_int16 mem pos) (\<lambda>l.
          if n < uint l + 2 then Inl Bad
          else amf_then (amf_decode_string mem pos) (\<lambda>s. Inr (AmfString s, n - (2 + uint l))))
      else if t = AMF_OBJECT then
        amf_then (obj pos n) (\<lambda>(ps, n1). Inr (AmfObject ps, n1))
      else if t = AMF_NULL \<or> t = AMF_UNDEFINED \<or> t = AMF_UNSUPPORTED then Inr (AmfNull, n)
      else if t = AMF_ECMA_ARRAY then
        amf_then (obj (pos + 4) (n - 4)) (\<lambda>(ps, n1). Inr (AmfEcmaArray ps, n1))
      else if t = AMF_STRICT_ARRAY then
        amf_then (amf_decode_int32 mem pos) (\<lambda>l.
          amf_then (arr (as_i32 (uint l)) (pos + 4) (n - 4)) (\<lambda>(ps, n1). Inr (AmfStrictArray ps, n1)))
      else if t = AMF_DATE then
        if n < 10 then Inl Bad
        else amf_then (amf_decode_number mem pos) (\<lambda>d.
               amf_then (amf_decode_int16 mem (pos + 8)) (\<lambda>z. Inr (AmfDate d z, n - 10)))
      else if t = AMF_LONG_STRING \<or> t = AMF_XML_DOC then
        amf_then (amf_decode_int32 mem pos) (\<lambda>l.
          if n < long_plus4 lp64 l then Inl Bad
          else amf_then (amf_decode_long_string mem pos)
                 (\<lambda>s. Inr (if t = AMF_LONG_STRING then AmfString s else AmfXmlDoc s,
                           as_i32 (n - uint (4 + l)))))
      else if t = AMF_AVMPLUS then
        amf_then (amf3 mem pos n) (\<lambda>(ps, used). Inr (AmfObject ps, n - used))
      else Inl Bad)"

definition amf_name_body :: "byte list \<Rightarrow> int \<Rightarrow> int \<Rightarrow> bool \<Rightarrow> amf_error + byte list \<times> int \<times> int" where
  "amf_name_body mem pos n named =
     (if named
      then amf_then (amf_decode_int16 mem pos) (\<lambda>l.
             if uint l > n - 2 then Inl Bad
             else amf_then (amf_decode_string mem pos)
                    (\<lambda>name. Inr (name, pos + (2 + uint l), n - (2 + uint l))))
      else Inr ([], pos, n))"

definition amf_prop_body ::
  "(int \<Rightarrow> int \<Rightarrow> byte \<Rightarrow> amf_error + amf_value \<times> int) \<Rightarrow> byte list \<Rightarrow> int \<Rightarrow> int \<Rightarrow> bool \<Rightarrow>
   amf_error + amf_prop \<times> int" where
  "amf_prop_body val mem pos n named =
     (if n = 0 then Inl Bad
      else if named \<and> n < 4 then Inl Bad
      else amf_then (amf_name_body mem pos n named) (\<lambda>(name, pos1, n1).
             if n1 = 0 then Inl Bad
             else amf_then (read_bytes mem pos1 1) (\<lambda>t.
                    amf_then (val (pos1 + 1) (n1 - 1) (t ! 0))
                      (\<lambda>(v, n2). Inr (AmfProp name v, n - n2)))))"

definition amf_at_end :: "byte list \<Rightarrow> int \<Rightarrow> int \<Rightarrow> amf_error + bool" where
  "amf_at_end mem pos n =
     (if 3 \<le> n then amf_then (amf_decode_int24 mem pos) (\<lambda>e. Inr (e = ucast AMF_OBJECT_END))
      else Inr False)"

function amf_prop_decode ::
  "amf3_decoder \<Rightarrow> bool \<Rightarrow> nat \<Rightarrow> byte list \<Rightarrow> int \<Rightarrow> int \<Rightarrow> bool \<Rightarrow> amf_error + amf_prop \<times> int"
and amf_value_decode ::
  "amf3_decoder \<Rightarrow> bool \<Rightarrow> nat \<Rightarrow> byte list \<Rightarrow> int \<Rightarrow> int \<Rightarrow> byte \<Rightarrow> amf_error + amf_value \<times> int"
and amf_decode_loop ::
  "amf3_decoder \<Rightarrow> bool \<Rightarrow> nat \<Rightarrow> byte list \<Rightarrow> bool \<Rightarrow> amf_object \<Rightarrow> amf_loop"
and amf_array_loop ::
  "amf3_decoder \<Rightarrow> bool \<Rightarrow> nat \<Rightarrow> byte list \<Rightarrow> bool \<Rightarrow> amf_object \<Rightarrow> int \<Rightarrow> amf_loop" where
  "amf_prop_decode amf3 lp64 0 mem pos n named = Inl NoFuel"
| "amf_prop_decode amf3 lp64 (Suc f) mem pos n named =
     amf_prop_body (\<lambda>pos n t. amf_value_decode amf3 lp64 f mem pos n t) mem pos n named"
| "amf_value_decode amf3 lp64 0 mem pos n t = Inl NoFuel"
| "amf_value_decode amf3 lp64 (Suc f) mem pos n t =
     amf_value_body amf3 lp64 (\<lambda>pos n. amf_decode_loop amf3 lp64 f mem True [] pos n)
       (\<lambda>left pos n. amf_array_loop amf3 lp64 f mem False [] left pos n) mem pos n t"
| "amf_decode_loop amf3 lp64 0 mem named acc pos n = Inl NoFuel"
| "amf_decode_loop amf3 lp64 (Suc f) mem named acc pos n =
     (if n \<le> 0 then Inr (acc, n)
      else amf_then (amf_at_end mem pos n) (\<lambda>e.
        if e then Inr (acc, n - 3)
        else amf_then (amf_prop_decode amf3 lp64 f mem pos n named) (\<lambda>(p, used).
          if n - used < 0 then Inl Bad
          else amf_decode_loop amf3 lp64 f mem named (acc @ [p]) (pos + used) (n - used))))"
| "amf_array_loop amf3 lp64 0 mem named acc left pos n = Inl NoFuel"
| "amf_array_loop amf3 lp64 (Suc f) mem named acc left pos n =
     (if left \<le> 0 then Inr (acc, n)
      else if n \<le> 0 then Inl Bad
      else amf_then (amf_prop_decode amf3 lp64 f mem pos n named) (\<lambda>(p, used).
             amf_array_loop amf3 lp64 f mem named (acc @ [p]) (left - 1) (pos + used) (n - used)))"
  by pat_completeness auto
termination
  by (relation "measure (case_sum (case_sum (\<lambda>(_, _, f, _). f) (\<lambda>(_, _, f, _). f))
    (case_sum (\<lambda>(_, _, f, _). f) (\<lambda>(_, _, f, _). f)))") auto

definition amf_decode ::
  "amf3_decoder \<Rightarrow> bool \<Rightarrow> nat \<Rightarrow> byte list \<Rightarrow> int \<Rightarrow> int \<Rightarrow> bool \<Rightarrow> amf_error + amf_object \<times> int" where
  "amf_decode amf3 lp64 f mem pos n named =
     amf_then (amf_decode_loop amf3 lp64 f mem named [] pos n) (\<lambda>(ps, n1). Inr (ps, n - n1))"

definition amf_decode_array ::
  "amf3_decoder \<Rightarrow> bool \<Rightarrow> nat \<Rightarrow> byte list \<Rightarrow> int \<Rightarrow> int \<Rightarrow> int \<Rightarrow> bool \<Rightarrow> amf_error + amf_object \<times> int" where
  "amf_decode_array amf3 lp64 f mem pos n left named =
     amf_then (amf_array_loop amf3 lp64 f mem named [] left pos n) (\<lambda>(ps, n1). Inr (ps, n - n1))"

section \<open>Access to properties\<close>

definition amf_prop_get_string :: "amf_prop \<Rightarrow> byte list" where
  "amf_prop_get_string p = (case p_value p of AmfString s \<Rightarrow> s | _ \<Rightarrow> [])"

definition amf_prop_get_object :: "amf_prop \<Rightarrow> amf_object" where
  "amf_prop_get_object p = (case p_value p of AmfObject ps \<Rightarrow> ps | _ \<Rightarrow> [])"

text \<open>Reading the number of a property of another type reads another member of the union: \<open>None\<close>.\<close>

definition amf_prop_get_number :: "amf_prop \<Rightarrow> u64 option" where
  "amf_prop_get_number p =
     (case p_value p of
        AmfNumber d \<Rightarrow> Some d
      | AmfBoolean b \<Rightarrow> Some (if b then 0x3FF0000000000000 else 0)
      | AmfDate d z \<Rightarrow> Some d
      | _ \<Rightarrow> None)"

definition amf_prop_get_boolean :: "amf_prop \<Rightarrow> bool option" where
  "amf_prop_get_boolean p = map_option (\<lambda>d. d \<noteq> 0 \<and> d \<noteq> 0x8000000000000000) (amf_prop_get_number p)"

definition amf_prop_is_valid :: "amf_prop \<Rightarrow> bool" where
  "amf_prop_is_valid p \<longleftrightarrow> p_value p \<noteq> AmfInvalid"

definition amf_prop_set_name :: "amf_prop \<Rightarrow> byte list \<Rightarrow> amf_prop" where
  "amf_prop_set_name p name = AmfProp name (p_value p)"

definition amf_add_prop :: "amf_object \<Rightarrow> amf_prop \<Rightarrow> amf_object" where
  "amf_add_prop obj p = obj @ [p]"

definition amf_count_prop :: "amf_object \<Rightarrow> nat" where
  "amf_count_prop obj = length obj"

definition amf_prop_invalid :: amf_prop where
  "amf_prop_invalid = AmfProp [] AmfInvalid"

definition amf_get_prop :: "amf_object \<Rightarrow> byte list \<Rightarrow> int \<Rightarrow> amf_prop" where
  "amf_get_prop obj name i =
     (if 0 \<le> i then (if i < int (length obj) then obj ! nat i else amf_prop_invalid)
      else case find (\<lambda>p. p_name p = name) obj of Some p \<Rightarrow> p | None \<Rightarrow> amf_prop_invalid)"

definition amf_prop_reset :: "amf_prop \<Rightarrow> amf_prop" where
  "amf_prop_reset p = AmfProp (p_name p) AmfInvalid"

definition amf_reset :: "amf_object \<Rightarrow> amf_object" where
  "amf_reset obj = []"

end
