(* ===== verification/Flv_Mux.thy ===== *)
theory Flv_Mux
  imports Amf Packets
begin

text \<open>
  The FLV muxer of \<open>src/rtmp/flv-mux.c\<close>: tags of the classic and of the enhanced format, the HDR
  metadata tag and the onMetaData tag. libobs's array serializer is a parameter, a record of the
  functions that give the bytes each writer appends; \<open>be_serializer\<close> states what is documented of
  it. The values OBS reports about encoders and outputs are a record. A double is a rational.
\<close>

section \<open>Serializer\<close>

record serializer =
  s_w8 :: "byte \<Rightarrow> byte list"
  s_wb16 :: "u16 \<Rightarrow> byte list"
  s_wb24 :: "u32 \<Rightarrow> byte list"
  s_wb32 :: "u32 \<Rightarrow> byte list"
  s_wbd :: "rat \<Rightarrow> byte list"

definition be_serializer :: "serializer \<Rightarrow> bool" where
  "be_serializer s \<longleftrightarrow>
     s_w8 s = (\<lambda>b. [b]) \<and> s_wb16 s = be16 \<and> s_wb24 s = be24 \<and> s_wb32 s = be32 \<and>
     s_wbd s = (\<lambda>x. be64 (double_bits x))"

definition array_serializer :: serializer where
  "array_serializer = \<lparr>s_w8 = (\<lambda>b. [b]), s_wb16 = be16, s_wb24 = be24, s_wb32 = be32,
     s_wbd = (\<lambda>x. be64 (double_bits x))\<rparr>"

lemma be_array_serializer: "be_serializer array_serializer"
  by (simp add: be_serializer_def array_serializer_def)

definition bytes_of :: "string \<Rightarrow> byte list" where
  "bytes_of s = map of_char s"

section \<open>Constants\<close>

definition RTMP_PACKET_TYPE_AUDIO :: byte where "RTMP_PACKET_TYPE_AUDIO = 0x08"
definition RTMP_PACKET_TYPE_VIDEO :: byte where "RTMP_PACKET_TYPE_VIDEO = 0x09"
definition RTMP_PACKET_TYPE_INFO :: byte where "RTMP_PACKET_TYPE_INFO = 0x12"

definition FT_KEY :: byte where "FT_KEY = 0x10"
definition FT_INTER :: byte where "FT_INTER = 0x20"
definition AUDIO_HEADER_EX :: byte where "AUDIO_HEADER_EX = 0x90"
definition FRAME_HEADER_EX :: byte where "FRAME_HEADER_EX = 0x80"

definition AUDIO_PACKETTYPE_SEQ_START :: byte where "AUDIO_PACKETTYPE_SEQ_START = 0"
definition AUDIO_PACKETTYPE_FRAMES :: byte where "AUDIO_PACKETTYPE_FRAMES = 1"
definition AUDIO_PACKETTYPE_MULTITRACK :: byte where "AUDIO_PACKETTYPE_MULTITRACK = 5"

definition PACKETTYPE_SEQ_START :: byte where "PACKETTYPE_SEQ_START = 0"
definition PACKETTYPE_FRAMES :: byte where "PACKETTYPE_FRAMES = 1"
definition PACKETTYPE_SEQ_END :: byte where "PACKETTYPE_SEQ_END = 2"
definition PACKETTYPE_FRAMESX :: byte where "PACKETTYPE_FRAMESX = 3"
definition PACKETTYPE_METADATA :: byte where "PACKETTYPE_METADATA = 4"
definition PACKETTYPE_MULTITRACK :: byte where "PACKETTYPE_MULTITRACK = 6"
definition MULTITRACKTYPE_ONE_TRACK :: byte where "MULTITRACKTYPE_ONE_TRACK = 0"

definition DATA_TYPE_NUMBER :: byte where "DATA_TYPE_NUMBER = 0"
definition DATA_TYPE_STRING :: byte where "DATA_TYPE_STRING = 2"
definition DATA_TYPE_OBJECT :: byte where "DATA_TYPE_OBJECT = 3"
definition DATA_TYPE_OBJECT_END :: byte where "DATA_TYPE_OBJECT_END = 9"

lemmas flv_consts = RTMP_PACKET_TYPE_AUDIO_def RTMP_PACKET_TYPE_VIDEO_def RTMP_PACKET_TYPE_INFO_def
  FT_KEY_def FT_INTER_def AUDIO_HEADER_EX_def FRAME_HEADER_EX_def AUDIO_PACKETTYPE_SEQ_START_def
  AUDIO_PACKETTYPE_FRAMES_def AUDIO_PACKETTYPE_MULTITRACK_def PACKETTYPE_SEQ_START_def
  PACKETTYPE_FRAMES_def PACKETTYPE_SEQ_END_def PACKETTYPE_FRAMESX_def PACKETTYPE_METADATA_def
  PACKETTYPE_MULTITRACK_def MULTITRACKTYPE_ONE_TRACK_def

section \<open>Writers\<close>

definition s_wa4cc :: "serializer \<Rightarrow> audio_id_t \<Rightarrow> byte list" where
  "s_wa4cc s codec_id =
     (case codec_id of
        AUDIO_CODEC_NONE \<Rightarrow> []
      | AUDIO_CODEC_AAC \<Rightarrow> concat (map (s_w8 s) (bytes_of ''mp4a'')))"

definition s_w4cc :: "serializer \<Rightarrow> video_id_t \<Rightarrow> byte list" where
  "s_w4cc s codec_id =
     (case codec_id of
        CODEC_NONE \<Rightarrow> []
      | CODEC_AV1 \<Rightarrow> concat (map (s_w8 s) (bytes_of ''av01''))
      | CODEC_HEVC \<Rightarrow> concat (map (s_w8 s) (bytes_of ''hvc1''))
      | CODEC_H264 \<Rightarrow> concat (map (s_w8 s) (bytes_of ''avc1'')))"

definition s_wstring :: "serializer \<Rightarrow> string \<Rightarrow> byte list" where
  "s_wstring s str = s_wb16 s (of_nat (length str)) @ bytes_of str"

definition s_wtimestamp :: "serializer \<Rightarrow> int \<Rightarrow> byte list" where
  "s_wtimestamp s i32 =
     s_wb24 s (and (word_of_int i32) 0xFFFFFF) @
     s_w8 s (and (ucast (drop_bit 24 (word_of_int i32 :: u32))) 0x7F)"

definition write_previous_tag_size_without_header :: "serializer \<Rightarrow> nat \<Rightarrow> byte list \<Rightarrow> byte list" where
  "write_previous_tag_size_without_header s header_size out =
     out @ s_wb32 s (of_nat (length out) - of_nat header_size)"

definition write_previous_tag_size :: "serializer \<Rightarrow> byte list \<Rightarrow> byte list" where
  "write_previous_tag_size s out = write_previous_tag_size_without_header s 0 out"

section \<open>Tags\<close>

definition time_offset :: "encoder_packet \<Rightarrow> int \<Rightarrow> int" where
  "time_offset p dts_offset = get_ms_time p (dts p) - dts_offset"

definition ct_offset :: "encoder_packet \<Rightarrow> int" where
  "ct_offset p = get_ms_time p (pts p) - get_ms_time p (dts p)"

definition flv_video :: "serializer \<Rightarrow> int \<Rightarrow> encoder_packet \<Rightarrow> bool \<Rightarrow> byte list" where
  "flv_video s dts_offset p is_header =
     (if pkt_data p = [] then []
      else
        let time_ms = time_offset p dts_offset
        in write_previous_tag_size s
             (s_w8 s RTMP_PACKET_TYPE_VIDEO @
              s_wb24 s (of_nat (length (pkt_data p)) + 5) @
              s_wb24 s (word_of_int time_ms) @
              s_w8 s (and (ucast (drop_bit 24 (word_of_int time_ms :: u32))) 0x7F) @
              s_wb24 s 0 @
              s_w8 s (if keyframe p then 0x17 else 0x27) @
              s_w8 s (if is_header then 0 else 1) @
              s_wb24 s (word_of_int (ct_offset p)) @
              pkt_data p))"

definition flv_audio :: "serializer \<Rightarrow> int \<Rightarrow> encoder_packet \<Rightarrow> bool \<Rightarrow> byte list" where
  "flv_audio s dts_offset p is_header =
     (if pkt_data p = [] then []
      else
        let time_ms = time_offset p dts_offset
        in write_previous_tag_size s
             (s_w8 s RTMP_PACKET_TYPE_AUDIO @
              s_wb24 s (of_nat (length (pkt_data p)) + 2) @
              s_wb24 s (word_of_int time_ms) @
              s_w8 s (and (ucast (drop_bit 24 (word_of_int time_ms :: u32))) 0x7F) @
              s_wb24 s 0 @
              s_w8 s 0xaf @
              s_w8 s (if is_header then 0 else 1) @
              pkt_data p))"

definition flv_packet_mux :: "serializer \<Rightarrow> encoder_packet \<Rightarrow> int \<Rightarrow> bool \<Rightarrow> byte list" where
  "flv_packet_mux s p dts_offset is_header =
     (if enc_type p = OBS_ENCODER_VIDEO then flv_video s dts_offset p is_header
      else flv_audio s dts_offset p is_header)"

text \<open>\<open>None\<close>: the function returns without setting its outputs.\<close>

definition flv_packet_audio_ex ::
  "serializer \<Rightarrow> encoder_packet \<Rightarrow> audio_id_t \<Rightarrow> int \<Rightarrow> byte \<Rightarrow> nat \<Rightarrow> byte list option" where
  "flv_packet_audio_ex s p codec_id dts_offset ty idx =
     (if pkt_data p = [] then None
      else
        let time_ms = time_offset p dts_offset;
            is_multitrack = (idx > 0);
            header_metadata_size = (if is_multitrack then 7 else 5)
        in Some (write_previous_tag_size s
             (s_w8 s RTMP_PACKET_TYPE_AUDIO @
              s_wb24 s (of_nat (length (pkt_data p)) + header_metadata_size) @
              s_wb24 s (word_of_int time_ms) @
              s_w8 s (and (ucast (drop_bit 24 (word_of_int time_ms :: u32))) 0x7F) @
              s_wb24 s 0 @
              s_w8 s (or AUDIO_HEADER_EX (if is_multitrack then AUDIO_PACKETTYPE_MULTITRACK else ty)) @
              (if is_multitrack
               then s_w8 s (or MULTITRACKTYPE_ONE_TRACK ty) @ s_wa4cc s codec_id @ s_w8 s (of_nat idx)
               else s_wa4cc s codec_id) @
              pkt_data p)))"

definition has_ct_offset :: "video_id_t \<Rightarrow> byte \<Rightarrow> bool" where
  "has_ct_offset codec_id ty \<longleftrightarrow> (codec_id = CODEC_H264 \<or> codec_id = CODEC_HEVC) \<and> ty = PACKETTYPE_FRAMES"

definition flv_packet_ex ::
  "serializer \<Rightarrow> encoder_packet \<Rightarrow> video_id_t \<Rightarrow> int \<Rightarrow> byte \<Rightarrow> nat \<Rightarrow> byte list" where
  "flv_packet_ex s p codec_id dts_offset ty idx =
     (let time_ms = time_offset p dts_offset;
          is_multitrack = (idx > 0);
          header_metadata_size = 5 + (if has_ct_offset codec_id ty then 3 else 0) +
            (if is_multitrack then 2 else 0);
          frame_type = (if keyframe p then FT_KEY else FT_INTER)
      in write_previous_tag_size s
           (s_w8 s RTMP_PACKET_TYPE_VIDEO @
            s_wb24 s (of_nat (length (pkt_data p)) + header_metadata_size) @
            s_wtimestamp s time_ms @
            s_wb24 s 0 @
            (if is_multitrack
             then s_w8 s (or (or FRAME_HEADER_EX PACKETTYPE_MULTITRACK) frame_type) @
                  s_w8 s (or MULTITRACKTYPE_ONE_TRACK ty) @ s_w4cc s codec_id @ s_w8 s (of_nat idx)
             else s_w8 s (or (or FRAME_HEADER_EX ty) frame_type) @ s_w4cc s codec_id) @
            (if has_ct_offset codec_id ty then s_wb24 s (word_of_int (ct_offset p)) else []) @
            pkt_data p))"

definition flv_packet_start :: "serializer \<Rightarrow> encoder_packet \<Rightarrow> video_id_t \<Rightarrow> nat \<Rightarrow> byte list" where
  "flv_packet_start s p codec idx = flv_packet_ex s p codec 0 PACKETTYPE_SEQ_START idx"

definition flv_packet_frames :: "serializer \<Rightarrow> encoder_packet \<Rightarrow> video_id_t \<Rightarrow> int \<Rightarrow> nat \<Rightarrow> byte list" where
  "flv_packet_frames s p codec dts_offset idx =
     flv_packet_ex s p codec dts_offset
       (if (codec = CODEC_H264 \<or> codec = CODEC_HEVC) \<and> dts p = pts p then PACKETTYPE_FRAMESX
        else PACKETTYPE_FRAMES) idx"

definition flv_packet_end :: "serializer \<Rightarrow> encoder_packet \<Rightarrow> video_id_t \<Rightarrow> nat \<Rightarrow> byte list" where
  "flv_packet_end s p codec idx = flv_packet_ex s p codec 0 PACKETTYPE_SEQ_END idx"

definition flv_packet_audio_start ::
  "serializer \<Rightarrow> encoder_packet \<Rightarrow> audio_id_t \<Rightarrow> nat \<Rightarrow> byte list option" where
  "flv_packet_audio_start s p codec idx = flv_packet_audio_ex s p codec 0 AUDIO_PACKETTYPE_SEQ_START idx"

definition flv_packet_audio_frames ::
  "serializer \<Rightarrow> encoder_packet \<Rightarrow> audio_id_t \<Rightarrow> int \<Rightarrow> nat \<Rightarrow> byte list option" where
  "flv_packet_audio_frames s p codec dts_offset idx =
     flv_packet_audio_ex s p codec dts_offset AUDIO_PACKETTYPE_FRAMES idx"

text \<open>The HDR metadata tag.\<close>

definition s_wnumber :: "serializer \<Rightarrow> string \<Rightarrow> int \<Rightarrow> byte list" where
  "s_wnumber s name v = s_wstring s name @ s_w8 s DATA_TYPE_NUMBER @ s_wbd s (of_int v)"

definition s_wobject_end :: "serializer \<Rightarrow> byte list" where
  "s_wobject_end s = s_w8 s 0 @ s_w8 s 0 @ s_w8 s DATA_TYPE_OBJECT_END"

definition flv_color_info :: "serializer \<Rightarrow> int \<Rightarrow> byte \<Rightarrow> int \<Rightarrow> int \<Rightarrow> int \<Rightarrow> int \<Rightarrow> byte list" where
  "flv_color_info s bits_per_raw_sample primaries trc space min_luminance max_luminance =
     s_w8 s DATA_TYPE_STRING @ s_wstring s ''colorInfo'' @ s_w8 s DATA_TYPE_OBJECT @
     s_wstring s ''colorConfig'' @ s_w8 s DATA_TYPE_OBJECT @
     s_wnumber s ''bitDepth'' bits_per_raw_sample @
     s_wnumber s ''colorPrimaries'' (uint primaries) @
     s_wnumber s ''transferCharacteristics'' trc @
     s_wnumber s ''matrixCoefficients'' space @
     s_wobject_end s @
     (if max_luminance \<noteq> 0
      then s_wstring s ''hdrMdcv'' @ s_w8 s DATA_TYPE_OBJECT @
           s_wnumber s ''maxLuminance'' max_luminance @
           s_wnumber s ''minLuminance'' min_luminance @
           s_wobject_end s
      else []) @
     s_wobject_end s"

definition flv_packet_metadata ::
  "serializer \<Rightarrow> video_id_t \<Rightarrow> int \<Rightarrow> byte \<Rightarrow> int \<Rightarrow> int \<Rightarrow> int \<Rightarrow> int \<Rightarrow> nat \<Rightarrow> byte list" where
  "flv_packet_metadata s codec_id bits primaries trc space min_luminance max_luminance idx =
     (let metadata = flv_color_info s bits primaries trc space min_luminance max_luminance;
          is_multitrack = (idx > 0);
          header_metadata_size = (if is_multitrack then 7 else 5)
      in write_previous_tag_size s
           (s_w8 s RTMP_PACKET_TYPE_VIDEO @
            s_wb24 s (of_nat (length metadata) + header_metadata_size) @
            s_wtimestamp s 0 @
            s_wb24 s 0 @
            s_w8 s (or FRAME_HEADER_EX (if is_multitrack then PACKETTYPE_MULTITRACK else PACKETTYPE_METADATA)) @
            (if is_multitrack
             then s_w8 s (or MULTITRACKTYPE_ONE_TRACK PACKETTYPE_METADATA) @ s_w4cc s codec_id @
                  s_w8 s (of_nat idx)
             else s_w4cc s codec_id) @
            metadata))"

section \<open>onMetaData\<close>

record output_info =
  oi_width :: rat
  oi_height :: rat
  oi_codec :: string
  oi_video_bitrate :: rat
  oi_frame_rate :: rat
  oi_audio_bitrate :: rat
  oi_sample_rate :: rat
  oi_channels :: nat
  oi_encoder_name :: string

definition AUDIODATA_AAC :: rat where "AUDIODATA_AAC = 10"
definition VIDEODATA_AVCVIDEOPACKET :: rat where "VIDEODATA_AVCVIDEOPACKET = 7"
definition VIDEODATA_AV1VIDEOPACKET :: rat where "VIDEODATA_AV1VIDEOPACKET = 1635135537"
definition VIDEODATA_HEVCVIDEOPACKET :: rat where "VIDEODATA_HEVCVIDEOPACKET = 1752589105"

definition encoder_video_codec :: "string \<Rightarrow> rat" where
  "encoder_video_codec codec =
     (if codec = ''h264'' then VIDEODATA_AVCVIDEOPACKET
      else if codec = ''av1'' then VIDEODATA_AV1VIDEOPACKET
      else if codec = ''hevc'' then VIDEODATA_HEVCVIDEOPACKET
      else 0)"

text \<open>
  The helpers of \<open>rtmp-helpers.h\<close> append to the bytes written so far; a failed encoder leaves a NULL
  pointer behind, and nothing after it is written: \<open>None\<close>.
\<close>

definition enc_add :: "nat \<Rightarrow> (nat \<Rightarrow> byte list option) \<Rightarrow> byte list option \<Rightarrow> byte list option" where
  "enc_add cap enc out =
     Option.bind out (\<lambda>bs. map_option (\<lambda>b. bs @ b) (enc (cap - length bs)))"

definition enc_num_val :: "nat \<Rightarrow> string \<Rightarrow> rat \<Rightarrow> byte list option \<Rightarrow> byte list option" where
  "enc_num_val cap name v =
     enc_add cap (\<lambda>room. amf_encode_named_number room (bytes_of name) (double_bits v))"

definition enc_bool_val :: "nat \<Rightarrow> string \<Rightarrow> bool \<Rightarrow> byte list option \<Rightarrow> byte list option" where
  "enc_bool_val cap name v = enc_add cap (\<lambda>room. amf_encode_named_boolean room (bytes_of name) v)"

definition enc_str_val :: "nat \<Rightarrow> string \<Rightarrow> string \<Rightarrow> byte list option \<Rightarrow> byte list option" where
  "enc_str_val cap name v =
     enc_add cap (\<lambda>room. amf_encode_named_string room (bytes_of name) (bytes_of v))"

definition enc_str :: "nat \<Rightarrow> string \<Rightarrow> byte list option \<Rightarrow> byte list option" where
  "enc_str cap v = enc_add cap (\<lambda>room. amf_encode_string room (bytes_of v))"

definition build_flv_meta_data :: "output_info \<Rightarrow> byte list option" where
  "build_flv_meta_data oi =
     (let n = 4096;
          o1 = enc_str n ''onMetaData'' (enc_str n ''@setDataFrame'' (Some []));
          o2 = enc_add n (\<lambda>room. amf_encode_int32 room 20) (map_option (\<lambda>bs. bs @ [AMF_ECMA_ARRAY]) o1);
          o3 = fold (\<lambda>(name, v). enc_num_val n name v)
                 [(''duration'', 0), (''fileSize'', 0), (''width'', oi_width oi), (''height'', oi_height oi),
                  (''videocodecid'', encoder_video_codec (oi_codec oi)),
                  (''videodatarate'', oi_video_bitrate oi), (''framerate'', oi_frame_rate oi),
                  (''audiocodecid'', AUDIODATA_AAC), (''audiodatarate'', oi_audio_bitrate oi),
                  (''audiosamplerate'', oi_sample_rate oi), (''audiosamplesize'', 16),
                  (''audiochannels'', of_nat (oi_channels oi))] o2;
          o4 = fold (\<lambda>(name, k). enc_bool_val n name (oi_channels oi = k))
                 [(''stereo'', 2), (''2.1'', 3), (''3.1'', 4), (''4.0'', 4), (''4.1'', 5), (''5.1'', 6),
                  (''7.1'', 8)] o3;
          o5 = enc_str_val n ''encoder'' (oi_encoder_name oi) o4
      in map_option (\<lambda>bs. bs @ [0, 0, AMF_OBJECT_END]) o5)"

definition flv_meta_data :: "serializer \<Rightarrow> output_info \<Rightarrow> bool \<Rightarrow> byte list option" where
  "flv_meta_data s oi write_header =
     map_option (\<lambda>meta.
       let head = (if write_header
                   then bytes_of ''FLV'' @ s_w8 s 1 @ s_w8 s 5 @ s_wb32 s 9 @ s_wb32 s 0 else []);
           out = head @ s_w8 s RTMP_PACKET_TYPE_INFO @ s_wb24 s (of_nat (length meta)) @
                 s_wb32 s 0 @ s_wb24 s 0 @ meta
       in write_previous_tag_size_without_header s (length head) out)
       (build_flv_meta_data oi)"

end
