(* ===== verification/Flv_Properties.thy ===== *)
theory Flv_Properties
  imports Flv_Mux
begin

text \<open>
  Every tag the muxer writes is a well-formed FLV tag: a reader of the format finds the type, the
  timestamp and the body, and the trailing tag size agrees.
\<close>

section \<open>Reading a tag\<close>

record flv_tag =
  tag_type :: byte
  tag_time :: u32
  tag_body :: "byte list"

text \<open>A reader of one tag as the FLV format defines it; \<open>None\<close> where a size does not agree.\<close>

definition parse_tag :: "byte list \<Rightarrow> flv_tag option" where
  "parse_tag bs =
     (if length bs < 15 then None
      else
        let n = unat (get24 (bs ! 1) (bs ! 2) (bs ! 3));
            prev = drop (11 + n) bs
        in if length bs = 15 + n \<and> take 3 (drop 8 bs) = [0, 0, 0] \<and>
              get32 (prev ! 0) (prev ! 1) (prev ! 2) (prev ! 3) = of_nat (11 + n)
           then Some \<lparr>tag_type = bs ! 0,
                      tag_time = get32 (bs ! 7) (bs ! 4) (bs ! 5) (bs ! 6),
                      tag_body = take n (drop 11 bs)\<rparr>
           else None)"

text \<open>The shape all tags of the muxer have.\<close>

definition make_tag :: "byte \<Rightarrow> u32 \<Rightarrow> byte list \<Rightarrow> byte list" where
  "make_tag ty time body =
     (let out = [ty] @ be24 (of_nat (length body)) @ be24 time @
            [and (ucast (drop_bit 24 time)) 0x7F] @ [0, 0, 0] @ body
      in out @ be32 (of_nat (length out)))"

lemma get24_of_nat:
  assumes "n < 2 ^ 24"
  shows "unat (get24 (ucast (drop_bit 16 (of_nat n :: u32))) (ucast (drop_bit 8 (of_nat n :: u32)))
    (ucast (of_nat n :: u32))) = n"
proof -
  have u: "unat (of_nat n :: u32) = n" using assms by (simp add: unat_of_nat)
  then have "(of_nat n :: u32) < 2 ^ 24" using assms by (simp add: word_less_nat_alt)
  then show ?thesis using u by (simp add: get24_be24)
qed

lemma masks:
  "and b 0x7F = take_bit 7 b" "and w 0x7FFFFFFF = take_bit 31 w" "and w 0xFFFFFF = take_bit 24 w"
  for b :: byte and w :: u32
  by (simp_all add: take_bit_eq_mask mask_eq_exp_minus_1)

lemma get32_time: "get32 (and (ucast (drop_bit 24 w)) 0x7F) (ucast (drop_bit 16 w)) (ucast (drop_bit 8 w))
    (ucast w) = and w 0x7FFFFFFF"
proof -
  have top: "bit (push_bit 24 (ucast (take_bit 7 (ucast (drop_bit 24 w)) :: byte)) :: u32) k \<longleftrightarrow>
      24 \<le> k \<and> k < 31 \<and> bit w k" for k
    by (auto simp: bit_simps less_diff_conv2 dest: bit_imp_le_length)
  show ?thesis
    unfolding masks
    by (rule bit_word_eqI)
      (auto simp: get32_def bit_or_iff bit_take_bit_iff bit_byte_shift bit_byte_low top)
qed

lemma parse_make_tag:
  assumes "length body < 2 ^ 24 - 11"
  shows "parse_tag (make_tag ty time body) =
    Some \<lparr>tag_type = ty, tag_time = and time 0x7FFFFFFF, tag_body = body\<rparr>"
proof -
  let ?l = "of_nat (length body) :: u32"
  let ?b = "make_tag ty time body"
  have b: "?b = ty # ucast (drop_bit 16 ?l) # ucast (drop_bit 8 ?l) # ucast ?l #
      ucast (drop_bit 16 time) # ucast (drop_bit 8 time) # ucast time #
      and (ucast (drop_bit 24 time)) 0x7F # 0 # 0 # 0 # body @ be32 (of_nat (11 + length body))"
    by (simp add: make_tag_def be24_def Let_def)
  have n: "unat (get24 (?b ! 1) (?b ! 2) (?b ! 3)) = length body"
    using assms get24_of_nat [of "length body"] by (simp add: b)
  have e: "drop 11 ?b = body @ be32 (of_nat (11 + length body))"
    by (simp add: b)
  have d: "drop (11 + length body) ?b = be32 (of_nat (11 + length body))"
    using arg_cong [OF e, of "drop (length body)"] by (simp add: drop_drop add.commute)
  have t: "take (length body) (drop 11 ?b) = body" by (simp add: e)
  show ?thesis
    unfolding parse_tag_def n Let_def d t
    using get32_time [of time] by (simp add: b) (simp add: be32_def)
qed

section \<open>The muxer writes such tags\<close>

lemma of_nat_int_u32: "(word_of_int (int n) :: u32) = of_nat n"
  by simp

lemma wtimestamp_be:
  "be_serializer s \<Longrightarrow> s_wtimestamp s t =
    be24 (word_of_int t) @ [and (ucast (drop_bit 24 (word_of_int t :: u32))) 0x7F]"
proof -
  assume s: "be_serializer s"
  have "be24 (and w 0xFFFFFF) = be24 w" for w :: u32
    unfolding be24_def masks by (auto intro!: bit_word_eqI simp: bit_simps)
  with s show ?thesis by (simp add: s_wtimestamp_def be_serializer_def)
qed

lemma flv_video_tag:
  assumes "be_serializer s" and "pkt_data p \<noteq> []"
  shows "flv_video s off p hdr = make_tag RTMP_PACKET_TYPE_VIDEO (word_of_int (time_offset p off))
    ([if keyframe p then 0x17 else 0x27, if hdr then 0 else 1] @ be24 (word_of_int (ct_offset p)) @ pkt_data p)"
  using assms
  by (simp add: flv_video_def be_serializer_def make_tag_def write_previous_tag_size_def
      write_previous_tag_size_without_header_def Let_def add.commute)
    (simp add: be24_def)

lemma flv_audio_tag:
  assumes "be_serializer s" and "pkt_data p \<noteq> []"
  shows "flv_audio s off p hdr = make_tag RTMP_PACKET_TYPE_AUDIO (word_of_int (time_offset p off))
    ([0xaf, if hdr then 0 else 1] @ pkt_data p)"
  using assms
  by (simp add: flv_audio_def be_serializer_def make_tag_def write_previous_tag_size_def
      write_previous_tag_size_without_header_def Let_def add.commute)
    (simp add: be24_def)

text \<open>The head of an enhanced body: frame header, codec, and for other tracks than 0 the track.\<close>

definition ex_head :: "byte \<Rightarrow> byte \<Rightarrow> byte \<Rightarrow> byte list \<Rightarrow> nat \<Rightarrow> byte list" where
  "ex_head flags multi ty fourcc idx =
     (if idx > 0 then [or flags multi, ty] @ fourcc @ [of_nat idx] else [or flags ty] @ fourcc)"

definition fourcc :: "video_id_t \<Rightarrow> byte list" where
  "fourcc c = bytes_of (case c of CODEC_AV1 \<Rightarrow> ''av01'' | CODEC_HEVC \<Rightarrow> ''hvc1'' | _ \<Rightarrow> ''avc1'')"

lemma s_w4cc_be: "be_serializer s \<Longrightarrow> c \<noteq> CODEC_NONE \<Longrightarrow> s_w4cc s c = fourcc c"
  by (cases c) (simp_all add: s_w4cc_def be_serializer_def fourcc_def bytes_of_def)

lemma s_wa4cc_be: "be_serializer s \<Longrightarrow> s_wa4cc s AUDIO_CODEC_AAC = bytes_of ''mp4a''"
  by (simp add: s_wa4cc_def be_serializer_def bytes_of_def)

lemma fourcc_length [simp]: "length (fourcc c) = 4"
  by (cases c) (simp_all add: fourcc_def bytes_of_def)

lemma make_tag_eq:
  assumes "be_serializer s" and "tlen = of_nat (length body)"
    and "out = s_w8 s ty @ s_wb24 s tlen @ s_wtimestamp s t @ s_wb24 s 0 @ body"
  shows "write_previous_tag_size s out = make_tag ty (word_of_int t) body"
  using assms wtimestamp_be [OF assms(1), of t]
  by (simp add: be_serializer_def make_tag_def write_previous_tag_size_def
      write_previous_tag_size_without_header_def Let_def add.commute)
    (simp add: be24_def)

lemma wtimestamp_split:
  assumes "be_serializer s"
  shows "s_wb24 s (word_of_int t) @ s_w8 s (and (ucast (drop_bit 24 (word_of_int t :: u32))) 0x7F) @ r =
    s_wtimestamp s t @ r"
  using wtimestamp_be [OF assms] assms by (simp add: be_serializer_def)

lemma flv_packet_ex_tag:
  assumes s: "be_serializer s" and c: "codec \<noteq> CODEC_NONE"
  shows "flv_packet_ex s p codec off ty idx = make_tag RTMP_PACKET_TYPE_VIDEO (word_of_int (time_offset p off))
    (ex_head (or FRAME_HEADER_EX (if keyframe p then FT_KEY else FT_INTER)) PACKETTYPE_MULTITRACK ty
        (fourcc codec) idx @
     (if has_ct_offset codec ty then be24 (word_of_int (ct_offset p)) else []) @ pkt_data p)"
  unfolding flv_packet_ex_def Let_def
  by (rule make_tag_eq [OF s, where tlen = "of_nat (length (pkt_data p)) +
      (5 + (if has_ct_offset codec ty then 3 else 0) + (if 0 < idx then 2 else 0))"])
    (use s in \<open>simp_all add: s_w4cc_be c be_serializer_def ex_head_def MULTITRACKTYPE_ONE_TRACK_def
      or.assoc or.commute or.left_commute add.assoc\<close>)

lemma flv_packet_audio_ex_tag:
  assumes s: "be_serializer s" and "pkt_data p \<noteq> []"
  shows "flv_packet_audio_ex s p AUDIO_CODEC_AAC off ty idx = Some (make_tag RTMP_PACKET_TYPE_AUDIO
    (word_of_int (time_offset p off))
    (ex_head AUDIO_HEADER_EX AUDIO_PACKETTYPE_MULTITRACK ty (bytes_of ''mp4a'') idx @ pkt_data p))"
proof -
  have l: "length (bytes_of ''mp4a'') = 4" by (simp add: bytes_of_def)
  show ?thesis
    unfolding flv_packet_audio_ex_def Let_def wtimestamp_split [OF s] using assms(2)
    by (simp only: if_False, intro arg_cong [where f = Some] make_tag_eq [OF s, where tlen =
        "of_nat (length (pkt_data p)) + (if 0 < idx then 7 else 5)"])
      (use s in \<open>simp_all add: s_wa4cc_be be_serializer_def ex_head_def MULTITRACKTYPE_ONE_TRACK_def l\<close>)
qed

section \<open>Properties\<close>

text \<open>C20: Every packet with data becomes a tag that reads back as its medium, its time relative to the
  start of the stream and its payload, behind the classic header: composition time and keyframe
  flag for video, the AAC byte for audio, and whether it is a sequence header.\<close>

theorem flv_packet_reads_back:
  assumes "be_serializer s" and "pkt_data p \<noteq> []" and "length (pkt_data p) < 2 ^ 24 - 16"
  shows "parse_tag (flv_packet_mux s p off hdr) = Some
    \<lparr>tag_type = (if enc_type p = OBS_ENCODER_VIDEO then RTMP_PACKET_TYPE_VIDEO else RTMP_PACKET_TYPE_AUDIO),
     tag_time = and (word_of_int (get_ms_time p (dts p) - off)) 0x7FFFFFFF,
     tag_body = (if enc_type p = OBS_ENCODER_VIDEO
       then [if keyframe p then 0x17 else 0x27, if hdr then 0 else 1] @
            be24 (word_of_int (get_ms_time p (pts p) - get_ms_time p (dts p))) @ pkt_data p
       else [0xaf, if hdr then 0 else 1] @ pkt_data p)\<rparr>"
  using assms
  by (simp add: flv_packet_mux_def flv_video_tag flv_audio_tag parse_make_tag time_offset_def
      ct_offset_def)

definition sample_video :: encoder_packet where
  "sample_video = \<lparr>pkt_data = [1, 2, 3], pts = 35, dts = 33, timebase_num = 1, timebase_den = 30,
     enc_type = OBS_ENCODER_VIDEO, keyframe = True, dts_usec = 0, sys_dts_usec = 0, priority = 0,
     drop_priority = 0, track_idx = 0\<rparr>"

theorem flv_packet_reads_back_witness:
  "map_option tag_body (parse_tag (flv_packet_mux array_serializer sample_video 0 False)) =
     Some [0x17, 1, 0, 0, 66, 1, 2, 3]"
proof -
  have b: "be24 (word_of_int (get_ms_time sample_video 35 - get_ms_time sample_video 33)) = [0, 0, 66]"
    by code_simp
  show ?thesis
    using flv_packet_reads_back [OF be_array_serializer, of sample_video 0 False] b
    by (simp add: sample_video_def)
qed

text \<open>C21: In the enhanced format every video packet becomes a tag that reads back with the packet
  type, the codec's four letters, the track when it is not 0, the composition time for the codecs
  and types that have one, and the payload; the size fields agree with the header actually written.\<close>

theorem flv_packet_ex_reads_back:
  assumes "be_serializer s" and "codec \<noteq> CODEC_NONE" and "length (pkt_data p) < 2 ^ 24 - 32"
  shows "parse_tag (flv_packet_ex s p codec off ty idx) = Some
    \<lparr>tag_type = RTMP_PACKET_TYPE_VIDEO,
     tag_time = and (word_of_int (get_ms_time p (dts p) - off)) 0x7FFFFFFF,
     tag_body = ex_head (or FRAME_HEADER_EX (if keyframe p then FT_KEY else FT_INTER))
         PACKETTYPE_MULTITRACK ty (fourcc codec) idx @
       (if (codec = CODEC_H264 \<or> codec = CODEC_HEVC) \<and> ty = PACKETTYPE_FRAMES
        then be24 (word_of_int (get_ms_time p (pts p) - get_ms_time p (dts p))) else []) @ pkt_data p\<rparr>"
proof -
  have "length (ex_head a b ty (fourcc codec) idx @
      (if has_ct_offset codec ty then be24 (word_of_int (ct_offset p)) else []) @ pkt_data p) < 2 ^ 24 - 11"
    for a b using assms(3) by (simp add: ex_head_def)
  from parse_make_tag [OF this] show ?thesis
    unfolding flv_packet_ex_tag [OF assms(1,2)]
    by (simp add: time_offset_def ct_offset_def has_ct_offset_def)
qed

theorem flv_packet_ex_reads_back_witness:
  "map_option tag_body (parse_tag (flv_packet_ex array_serializer sample_video CODEC_HEVC 0 PACKETTYPE_FRAMES 2)) =
     Some [0x96, 1, 0x68, 0x76, 0x63, 0x31, 2, 0, 0, 66, 1, 2, 3]"
proof -
  have b: "be24 (word_of_int (get_ms_time sample_video 35 - get_ms_time sample_video 33)) = [0, 0, 66]"
    by code_simp
  have h: "ex_head (or FRAME_HEADER_EX FT_KEY) PACKETTYPE_MULTITRACK PACKETTYPE_FRAMES (fourcc CODEC_HEVC) 2 =
      [0x96, 1, 0x68, 0x76, 0x63, 0x31, 2]" by code_simp
  show ?thesis
    using flv_packet_ex_reads_back [OF be_array_serializer, of CODEC_HEVC sample_video 0 PACKETTYPE_FRAMES 2] b h
    by (simp add: sample_video_def)
qed

text \<open>The enhanced audio muxer leaves its outputs unset for a packet without data, and its caller
  then passes them on; with data its tags read back like the video ones.\<close>

theorem flv_audio_ex_unset:
  "flv_packet_audio_ex s (sample_video\<lparr>pkt_data := []\<rparr>) AUDIO_CODEC_AAC off ty idx = None"
  by (simp add: flv_packet_audio_ex_def)

end
