(* ===== verification/Amf_Roundtrip.thy ===== *)
theory Amf_Roundtrip
  imports Amf
begin

text \<open>
  The wire format of AMF0 as a function without buffers, the encoder as its implementation when
  there is room, and the decoder as its inverse.
\<close>

section \<open>The format\<close>

fun prop_bytes :: "amf_prop \<Rightarrow> byte list"
and props_bytes :: "amf_prop list \<Rightarrow> byte list"
and value_bytes :: "amf_value \<Rightarrow> byte list" where
  "prop_bytes (AmfProp name v) =
     (if v = AmfNull then [AMF_NULL] else amf_name_bytes name @ value_bytes v)"
| "props_bytes [] = []"
| "props_bytes (p # ps) = prop_bytes p @ props_bytes ps"
| "value_bytes (AmfNumber d) = AMF_NUMBER # be64 d"
| "value_bytes (AmfBoolean b) = [AMF_BOOLEAN, if b then 1 else 0]"
| "value_bytes (AmfString s) =
     (if length s < 65536 then AMF_STRING # be16 (of_nat (length s)) @ s
      else AMF_LONG_STRING # be32 (of_nat (length s)) @ s)"
| "value_bytes (AmfObject ps) = AMF_OBJECT # props_bytes ps @ be24 (ucast AMF_OBJECT_END)"
| "value_bytes (AmfEcmaArray ps) =
     AMF_ECMA_ARRAY # be32 (of_nat (length ps)) @ props_bytes ps @ be24 (ucast AMF_OBJECT_END)"
| "value_bytes (AmfStrictArray ps) =
     AMF_STRICT_ARRAY # be32 (of_nat (length ps)) @ props_bytes ps"
| "value_bytes v = [AMF_NULL]"

text \<open>What can be written and read back: a null has no name, an array element neither.\<close>

fun wf_prop :: "bool \<Rightarrow> amf_prop \<Rightarrow> bool" and wf_value :: "amf_value \<Rightarrow> bool" where
  "wf_prop named (AmfProp name v) \<longleftrightarrow>
     (if named then name \<noteq> [] \<and> length name < 65536 \<and> v \<noteq> AmfNull else name = []) \<and> wf_value v"
| "wf_value (AmfNumber d) \<longleftrightarrow> True"
| "wf_value (AmfBoolean b) \<longleftrightarrow> True"
| "wf_value (AmfString s) \<longleftrightarrow> length s < 2 ^ 31"
| "wf_value (AmfObject ps) \<longleftrightarrow> (\<forall>p \<in> set ps. wf_prop True p)"
| "wf_value (AmfEcmaArray ps) \<longleftrightarrow> (\<forall>p \<in> set ps. wf_prop True p)"
| "wf_value (AmfStrictArray ps) \<longleftrightarrow> (\<forall>p \<in> set ps. wf_prop False p) \<and> length ps < 2 ^ 31"
| "wf_value AmfNull \<longleftrightarrow> True"
| "wf_value (AmfDate d z) \<longleftrightarrow> False"
| "wf_value (AmfXmlDoc s) \<longleftrightarrow> False"
| "wf_value AmfInvalid \<longleftrightarrow> False"

section \<open>The encoder\<close>

lemma props_encode_room:
  assumes "\<And>p room. p \<in> set ps \<Longrightarrow> length (prop_bytes p) + 4 \<le> room \<Longrightarrow>
      amf_prop_encode room p = Some (prop_bytes p)"
    and "length (props_bytes ps) + 4 \<le> room"
  shows "amf_props_encode room ps = props_bytes ps"
  using assms by (induction ps arbitrary: room) auto

lemma encode_room:
  "(wf_value v \<longrightarrow> v \<noteq> AmfNull \<longrightarrow> (\<forall>room. length (value_bytes v) + 4 \<le> room \<longrightarrow>
      amf_value_encode room v = Some (value_bytes v))) \<and>
   ((wf_prop True p \<or> wf_prop False p) \<longrightarrow> (\<forall>room. length (prop_bytes p) + 4 \<le> room \<longrightarrow>
      amf_prop_encode room p = Some (prop_bytes p)))"
proof (induction rule: amf_value_amf_prop.induct)
  case (AmfObject ps)
  then show ?case
    by (auto simp: amf_end_mark_def amf_encode_int24_def props_encode_room)
next
  case (AmfEcmaArray ps)
  then show ?case
    by (auto simp: amf_end_mark_def amf_encode_int24_def props_encode_room)
next
  case (AmfStrictArray ps)
  then show ?case by (auto simp: props_encode_room)
next
  case (AmfProp name v)
  then show ?case by (auto simp: amf_name_bytes_def Let_def split: if_splits)
qed (auto simp: amf_encode_number_def amf_encode_boolean_def amf_encode_string_def
    amf_encode_int16_def amf_encode_int32_def Let_def)

section \<open>Bytes in memory\<close>

definition holds_at :: "byte list \<Rightarrow> int \<Rightarrow> byte list \<Rightarrow> bool" where
  "holds_at mem pos bs \<longleftrightarrow> (\<exists>pre post. mem = pre @ bs @ post \<and> pos = int (length pre))"

lemma holds_at_appendD:
  assumes "holds_at mem pos (a @ b)"
  shows "holds_at mem pos a" and "holds_at mem (pos + int (length a)) b"
proof -
  obtain pre post where m: "mem = pre @ (a @ b) @ post" "pos = int (length pre)"
    using assms by (auto simp: holds_at_def)
  then show "holds_at mem pos a" unfolding holds_at_def by (metis append.assoc)
  have "mem = (pre @ a) @ b @ post" "pos + int (length a) = int (length (pre @ a))" using m by auto
  then show "holds_at mem (pos + int (length a)) b" unfolding holds_at_def by blast
qed

lemma holds_at_ConsD:
  assumes "holds_at mem pos (x # b)"
  shows "holds_at mem pos [x]" and "holds_at mem (pos + 1) b"
  using holds_at_appendD [of mem pos "[x]" b] assms by simp_all

lemma read_bytes_at: "holds_at mem pos bs \<Longrightarrow> length bs = k \<Longrightarrow> read_bytes mem pos k = Inr bs"
  by (auto simp: holds_at_def read_bytes_def)

lemma mem_slice_at: "holds_at mem pos bs \<Longrightarrow> int (length bs) = len \<Longrightarrow> mem_slice mem pos len = bs"
  by (auto simp: holds_at_def mem_slice_def)

lemma read_int16 [simp]: "holds_at mem pos (be16 w) \<Longrightarrow> amf_decode_int16 mem pos = Inr w"
  by (simp add: amf_decode_int16_def read_bytes_at [where bs = "be16 w"] amf_then_def)
    (simp add: be16_def)

lemma read_int32 [simp]: "holds_at mem pos (be32 w) \<Longrightarrow> amf_decode_int32 mem pos = Inr w"
  by (simp add: amf_decode_int32_def read_bytes_at [where bs = "be32 w"] amf_then_def)
    (simp add: be32_def)

lemma read_number [simp]: "holds_at mem pos (be64 d) \<Longrightarrow> amf_decode_number mem pos = Inr d"
  using get64_be64 [of d "[]"]
  by (simp add: amf_decode_number_def read_bytes_at [where bs = "be64 d"] amf_then_def)

lemma read_string:
  assumes "holds_at mem pos (be16 (of_nat (length s)) @ s)" and "length s < 65536"
  shows "amf_decode_string mem pos = Inr s" and "amf_decode_int16 mem pos = Inr (of_nat (length s))"
  using holds_at_appendD [OF assms(1)] assms(2) mem_slice_at [of mem "pos + 2" s]
  by (simp_all add: amf_decode_string_def amf_then_def)

lemma read_long_string:
  assumes "holds_at mem pos (be32 (of_nat (length s)) @ s)" and "length s < 2 ^ 31"
  shows "amf_decode_long_string mem pos = Inr s" and "amf_decode_int32 mem pos = Inr (of_nat (length s))"
proof -
  have "as_i32 (uint (of_nat (length s) :: u32)) = int (length s)"
    using assms(2) by (simp add: as_i32_id)
  then show "amf_decode_long_string mem pos = Inr s" "amf_decode_int32 mem pos = Inr (of_nat (length s))"
    using holds_at_appendD [OF assms(1)] mem_slice_at [of mem "pos + 4" s]
    by (simp_all add: amf_decode_long_string_def amf_then_def)
qed

section \<open>The decoder\<close>

text \<open>What it means that a property, a value or a list of properties is read back.\<close>

definition decodes_prop :: "amf3_decoder \<Rightarrow> bool \<Rightarrow> bool \<Rightarrow> amf_prop \<Rightarrow> bool" where
  "decodes_prop amf3 lp64 named p \<longleftrightarrow>
     (\<forall>f mem pos n. 2 * length (prop_bytes p) + 1 \<le> f \<longrightarrow> holds_at mem pos (prop_bytes p) \<longrightarrow>
        int (length (prop_bytes p)) \<le> n \<longrightarrow> n < 2 ^ 31 \<longrightarrow>
        amf_prop_decode amf3 lp64 f mem pos n named = Inr (p, int (length (prop_bytes p))))"

definition decodes_value :: "amf3_decoder \<Rightarrow> bool \<Rightarrow> amf_value \<Rightarrow> bool" where
  "decodes_value amf3 lp64 v \<longleftrightarrow>
     (\<forall>f mem pos n. 2 * length (value_bytes v) \<le> f \<longrightarrow> holds_at mem (pos - 1) (value_bytes v) \<longrightarrow>
        int (length (value_bytes v)) \<le> n + 1 \<longrightarrow> n < 2 ^ 31 \<longrightarrow>
        amf_value_decode amf3 lp64 f mem pos n (hd (value_bytes v)) =
          Inr (v, n + 1 - int (length (value_bytes v))))"

lemma value_bytes_Cons: "value_bytes v = hd (value_bytes v) # tl (value_bytes v)"
  by (cases v) auto

lemma value_bytes_length: "1 \<le> length (value_bytes v)"
  by (subst value_bytes_Cons) simp

lemma Suc_fuel: "1 \<le> f \<Longrightarrow> \<exists>g. f = Suc g"
  by (cases f) auto

lemma decodes_propI:
  assumes v: "decodes_value amf3 lp64 v" and wf: "wf_prop named (AmfProp name v)"
  shows "decodes_prop amf3 lp64 named (AmfProp name v)"
  unfolding decodes_prop_def
proof (intro allI impI)
  fix f mem pos n
  let ?p = "AmfProp name v"
  assume f: "2 * length (prop_bytes ?p) + 1 \<le> f" and at: "holds_at mem pos (prop_bytes ?p)"
    and n: "int (length (prop_bytes ?p)) \<le> n" "n < 2 ^ 31"
  obtain g where g: "f = Suc g" using f by (cases f) auto
  have pb: "prop_bytes ?p = amf_name_bytes name @ value_bytes v"
    using wf by (auto simp: amf_name_bytes_def split: if_splits)
  note at2 = holds_at_appendD [OF at [unfolded pb]]
  let ?k = "int (length (amf_name_bytes name))"
  have name: "amf_name_body mem pos n named = Inr (name, pos + ?k, n - ?k)"
  proof (cases named)
    case True
    then have nm: "name \<noteq> []" "length name < 65536" using wf by auto
    then have b: "amf_name_bytes name = be16 (of_nat (length name)) @ name"
      by (simp add: amf_name_bytes_def)
    have "int (length name) \<le> n - 2"
      using n(1) unfolding pb b by simp
    then show ?thesis
      using read_string [OF at2(1) [unfolded b] nm(2)] True nm
      by (simp add: amf_name_body_def amf_then_def b)
  next
    case False
    then show ?thesis using wf by (simp add: amf_name_body_def amf_name_bytes_def)
  qed
  have four: "\<not> (named \<and> n < 4)"
    using wf n(1) pb value_bytes_length [of v] by (cases name) (auto simp: amf_name_bytes_def)
  have hd: "read_bytes mem (pos + ?k) 1 = Inr [hd (value_bytes v)]"
    using at2(2) holds_at_ConsD(1) value_bytes_Cons read_bytes_at by (metis One_nat_def length_Cons list.size(3))
  have val: "amf_value_decode amf3 lp64 g mem (pos + ?k + 1) (n - ?k - 1) (hd (value_bytes v)) =
      Inr (v, n - ?k - int (length (value_bytes v)))"
  proof -
    have "2 * length (value_bytes v) \<le> g" using f g pb by simp
    moreover have "int (length (value_bytes v)) \<le> (n - ?k - 1) + 1" "n - ?k - 1 < 2 ^ 31"
      using n pb by auto
    ultimately show ?thesis
      using v at2(2) unfolding decodes_value_def by fastforce
  qed
  have "n - ?k \<noteq> 0" "n \<noteq> 0" using n(1) pb value_bytes_length [of v] by auto
  then show "amf_prop_decode amf3 lp64 f mem pos n named = Inr (?p, int (length (prop_bytes ?p)))"
    using name hd val four
    by (simp add: g amf_prop_body_def amf_then_def pb del: prop_bytes.simps)
qed

lemma get24_low: "get24 a b c = ucast AMF_OBJECT_END \<Longrightarrow> get16 a b = 0"
proof (rule bit_word_eqI)
  fix n
  assume e: "get24 a b c = ucast AMF_OBJECT_END"
  have "bit (get16 a b) n \<Longrightarrow> bit (get24 a b c) (n + 8)"
    by (auto simp: get16_def get24_def bit_simps)
  moreover have "\<not> bit (ucast AMF_OBJECT_END :: u32) (n + 8)"
    by (simp add: AMF_OBJECT_END_def bit_simps bit_numeral_rec(2) numeral_eq_Suc)
  ultimately show "bit (get16 a b) n = bit 0 n" by (auto simp: e)
qed

text \<open>Nothing that starts with a name is an end mark.\<close>

lemma not_at_end:
  assumes "wf_prop True p" and "holds_at mem pos (prop_bytes p)"
    and "int (length (prop_bytes p)) \<le> n"
  shows "amf_at_end mem pos n = Inr False"
proof -
  obtain name v where p: "p = AmfProp name v" by (cases p)
  have nm: "name \<noteq> []" "length name < 65536" "v \<noteq> AmfNull" using assms(1) by (auto simp: p)
  obtain c cs where nc: "name = c # cs" using nm(1) by (cases name) auto
  let ?l = "of_nat (length name) :: u16"
  have pb: "prop_bytes p = [ucast (drop_bit 8 ?l), ucast ?l, c] @ cs @ value_bytes v"
    using nm by (simp add: p amf_name_bytes_def be16_def nc)
  have rd: "read_bytes mem pos 3 = Inr [ucast (drop_bit 8 ?l), ucast ?l, c]"
    using holds_at_appendD(1) [OF assms(2) [unfolded pb]] by (rule read_bytes_at) simp
  have "get16 (ucast (drop_bit 8 ?l)) (ucast ?l) \<noteq> 0"
  proof
    assume "get16 (ucast (drop_bit 8 ?l)) (ucast ?l) = 0"
    then have "uint ?l = 0" by simp
    then show False using nm by simp
  qed
  then have "get24 (ucast (drop_bit 8 ?l)) (ucast ?l) c \<noteq> ucast AMF_OBJECT_END"
    using get24_low by blast
  moreover have "3 \<le> n" using assms(3) unfolding pb by simp
  ultimately show ?thesis by (simp add: amf_at_end_def amf_decode_int24_def rd amf_then_def)
qed

lemma at_end_mark:
  assumes "holds_at mem pos (be24 (ucast AMF_OBJECT_END))" and "3 \<le> n"
  shows "amf_at_end mem pos n = Inr True"
  using assms read_bytes_at [OF assms(1), of 3]
  by (simp add: amf_at_end_def amf_decode_int24_def amf_then_def)
    (simp add: be24_def get24_def AMF_OBJECT_END_def)

lemma prop_bytes_length: "1 \<le> length (prop_bytes p)"
  using value_bytes_length [of "p_value p"] by (cases p) (auto simp: amf_name_bytes_def)

lemma decode_loop_props:
  assumes "\<And>p. p \<in> set ps \<Longrightarrow> decodes_prop amf3 lp64 True p \<and> wf_prop True p"
    and "2 * length (props_bytes ps) + 2 \<le> f"
    and "holds_at mem pos (props_bytes ps @ be24 (ucast AMF_OBJECT_END))"
    and "int (length (props_bytes ps)) + 3 \<le> n" and "n < 2 ^ 31"
  shows "amf_decode_loop amf3 lp64 f mem True acc pos n =
    Inr (acc @ ps, n - int (length (props_bytes ps)) - 3)"
  using assms
proof (induction ps arbitrary: f acc pos n)
  case Nil
  then obtain g where "f = Suc g" by (cases f) auto
  with Nil show ?case by (simp add: at_end_mark amf_then_def)
next
  case (Cons p ps)
  obtain g where g: "f = Suc g" using Cons.prems(2) by (cases f) auto
  let ?l = "int (length (prop_bytes p))"
  have at: "holds_at mem pos (prop_bytes p)"
    and at2: "holds_at mem (pos + ?l) (props_bytes ps @ be24 (ucast AMF_OBJECT_END))"
    using holds_at_appendD [of mem pos "prop_bytes p" "props_bytes ps @ be24 (ucast AMF_OBJECT_END)"]
      Cons.prems(3) by simp_all
  have p: "amf_prop_decode amf3 lp64 g mem pos n True = Inr (p, ?l)"
    using Cons.prems at by (simp add: g decodes_prop_def)
  have e: "amf_at_end mem pos n = Inr False"
    using Cons.prems(1,4) at by (intro not_at_end) auto
  have "amf_decode_loop amf3 lp64 g mem True (acc @ [p]) (pos + ?l) (n - ?l) =
      Inr ((acc @ [p]) @ ps, n - ?l - int (length (props_bytes ps)) - 3)"
    using Cons.prems prop_bytes_length [of p] at2 by (intro Cons.IH) (auto simp: g)
  with p e Cons.prems(4) show ?case by (simp add: g amf_then_def)
qed

lemma array_loop_props:
  assumes "\<And>p. p \<in> set ps \<Longrightarrow> decodes_prop amf3 lp64 False p"
    and "2 * length (props_bytes ps) + 2 \<le> f" and "holds_at mem pos (props_bytes ps)"
    and "int (length (props_bytes ps)) \<le> n" and "n < 2 ^ 31"
  shows "amf_array_loop amf3 lp64 f mem False acc (int (length ps)) pos n =
    Inr (acc @ ps, n - int (length (props_bytes ps)))"
  using assms
proof (induction ps arbitrary: f acc pos n)
  case Nil
  then obtain g where "f = Suc g" by (cases f) auto
  then show ?case by simp
next
  case (Cons p ps)
  obtain g where g: "f = Suc g" using Cons.prems(2) by (cases f) auto
  let ?l = "int (length (prop_bytes p))"
  have at: "holds_at mem pos (prop_bytes p)" and at2: "holds_at mem (pos + ?l) (props_bytes ps)"
    using holds_at_appendD [of mem pos "prop_bytes p" "props_bytes ps"] Cons.prems(3) by simp_all
  have p: "amf_prop_decode amf3 lp64 g mem pos n False = Inr (p, ?l)"
    using Cons.prems at by (simp add: g decodes_prop_def)
  have "amf_array_loop amf3 lp64 g mem False (acc @ [p]) (int (length ps)) (pos + ?l) (n - ?l) =
      Inr ((acc @ [p]) @ ps, n - ?l - int (length (props_bytes ps)))"
    using Cons.prems prop_bytes_length [of p] at2 by (intro Cons.IH) (auto simp: g)
  with p Cons.prems(4) prop_bytes_length [of p] show ?case by (simp add: g amf_then_def)
qed

lemma decodes_valueI:
  assumes "\<And>f mem pos n. 2 * length (value_bytes v) \<le> Suc f \<Longrightarrow> holds_at mem (pos - 1) (value_bytes v) \<Longrightarrow>
      int (length (value_bytes v)) \<le> n + 1 \<Longrightarrow> n < 2 ^ 31 \<Longrightarrow>
      amf_value_decode amf3 lp64 (Suc f) mem pos n (hd (value_bytes v)) =
        Inr (v, n + 1 - int (length (value_bytes v)))"
  shows "decodes_value amf3 lp64 v"
  unfolding decodes_value_def
proof (intro allI impI)
  fix f mem pos n
  assume a: "2 * length (value_bytes v) \<le> f" "holds_at mem (pos - 1) (value_bytes v)"
    "int (length (value_bytes v)) \<le> n + 1" "n < 2 ^ 31"
  then obtain g where "f = Suc g" using value_bytes_length [of v] by (cases f) auto
  with assms a show "amf_value_decode amf3 lp64 f mem pos n (hd (value_bytes v)) =
        Inr (v, n + 1 - int (length (value_bytes v)))" by blast
qed

lemma value_at: "holds_at mem (pos - 1) (x # bs) \<Longrightarrow> holds_at mem pos bs"
  using holds_at_ConsD(2) [of mem "pos - 1" x bs] by simp

lemma uint_plus4: "length s < 2 ^ 31 \<Longrightarrow> uint (4 + of_nat (length s) :: u32) = 4 + int (length s)"
  by (simp add: uint_word_ariths)

lemma decodes_string: "length s < 2 ^ 31 \<Longrightarrow> decodes_value amf3 lp64 (AmfString s)"
proof (rule decodes_valueI, cases "length s < 65536")
  fix f mem pos n
  assume s: "length s < 65536" and at: "holds_at mem (pos - 1) (value_bytes (AmfString s))"
    and n: "int (length (value_bytes (AmfString s))) \<le> n + 1"
  have "holds_at mem pos (be16 (of_nat (length s)) @ s)" using at s by (auto dest: value_at)
  from read_string [OF this s] show "amf_value_decode amf3 lp64 (Suc f) mem pos n (hd (value_bytes (AmfString s))) =
      Inr (AmfString s, n + 1 - int (length (value_bytes (AmfString s))))"
    using s n by (simp add: amf_value_body_def amf_types amf_then_def)
next
  fix f mem pos n
  assume l: "length s < 2 ^ 31" and s: "\<not> length s < 65536"
    and at: "holds_at mem (pos - 1) (value_bytes (AmfString s))"
    and n: "int (length (value_bytes (AmfString s))) \<le> n + 1" "n < 2 ^ 31"
  have "holds_at mem pos (be32 (of_nat (length s)) @ s)" using at s by (auto dest: value_at)
  note r = read_long_string [OF this l]
  have n5: "int (length s) + 4 \<le> n" using n(1) s by simp
  then have "long_plus4 lp64 (of_nat (length s)) = int (length s) + 4"
    using l n(2) by (simp add: long_plus4_def as_i32_id)
  moreover have "as_i32 (n - uint (4 + of_nat (length s) :: u32)) = n - (4 + int (length s))"
    using n n5 l by (simp add: uint_plus4 as_i32_id)
  ultimately show "amf_value_decode amf3 lp64 (Suc f) mem pos n (hd (value_bytes (AmfString s))) =
      Inr (AmfString s, n + 1 - int (length (value_bytes (AmfString s))))"
    using s r n5 by (simp add: amf_value_body_def amf_types amf_then_def)
qed

lemma decodes_object:
  assumes "\<And>p. p \<in> set ps \<Longrightarrow> decodes_prop amf3 lp64 True p \<and> wf_prop True p"
  shows "decodes_value amf3 lp64 (AmfObject ps)"
proof (rule decodes_valueI)
  fix f mem pos n
  assume a: "2 * length (value_bytes (AmfObject ps)) \<le> Suc f"
    "holds_at mem (pos - 1) (value_bytes (AmfObject ps))"
    "int (length (value_bytes (AmfObject ps))) \<le> n + 1" "n < 2 ^ 31"
  have "holds_at mem pos (props_bytes ps @ be24 (ucast AMF_OBJECT_END))" using a(2) by (auto dest: value_at)
  then have "amf_decode_loop amf3 lp64 f mem True [] pos n =
      Inr ([] @ ps, n - int (length (props_bytes ps)) - 3)"
    using a by (intro decode_loop_props assms) auto
  then show "amf_value_decode amf3 lp64 (Suc f) mem pos n (hd (value_bytes (AmfObject ps))) =
      Inr (AmfObject ps, n + 1 - int (length (value_bytes (AmfObject ps))))"
    by (simp add: amf_value_body_def amf_types amf_then_def)
qed

lemma decodes_ecma:
  assumes "\<And>p. p \<in> set ps \<Longrightarrow> decodes_prop amf3 lp64 True p \<and> wf_prop True p"
  shows "decodes_value amf3 lp64 (AmfEcmaArray ps)"
proof (rule decodes_valueI)
  fix f mem pos n
  assume a: "2 * length (value_bytes (AmfEcmaArray ps)) \<le> Suc f"
    "holds_at mem (pos - 1) (value_bytes (AmfEcmaArray ps))"
    "int (length (value_bytes (AmfEcmaArray ps))) \<le> n + 1" "n < 2 ^ 31"
  have "holds_at mem pos (be32 (of_nat (length ps)) @ props_bytes ps @ be24 (ucast AMF_OBJECT_END))"
    using a(2) by (auto dest: value_at)
  from holds_at_appendD(2) [OF this]
  have "holds_at mem (pos + 4) (props_bytes ps @ be24 (ucast AMF_OBJECT_END))" by simp
  then have "amf_decode_loop amf3 lp64 f mem True [] (pos + 4) (n - 4) =
      Inr ([] @ ps, (n - 4) - int (length (props_bytes ps)) - 3)"
    using a by (intro decode_loop_props assms) auto
  then show "amf_value_decode amf3 lp64 (Suc f) mem pos n (hd (value_bytes (AmfEcmaArray ps))) =
      Inr (AmfEcmaArray ps, n + 1 - int (length (value_bytes (AmfEcmaArray ps))))"
    by (simp add: amf_value_body_def amf_types amf_then_def)
qed

lemma decodes_strict:
  assumes "\<And>p. p \<in> set ps \<Longrightarrow> decodes_prop amf3 lp64 False p" and "length ps < 2 ^ 31"
  shows "decodes_value amf3 lp64 (AmfStrictArray ps)"
proof (rule decodes_valueI)
  fix f mem pos n
  assume a: "2 * length (value_bytes (AmfStrictArray ps)) \<le> Suc f"
    "holds_at mem (pos - 1) (value_bytes (AmfStrictArray ps))"
    "int (length (value_bytes (AmfStrictArray ps))) \<le> n + 1" "n < 2 ^ 31"
  have at: "holds_at mem pos (be32 (of_nat (length ps)) @ props_bytes ps)"
    using a(2) by (auto dest: value_at)
  note r = read_int32 [OF holds_at_appendD(1) [OF at]]
  have l: "as_i32 (uint (of_nat (length ps) :: u32)) = int (length ps)"
    using assms(2) by (simp add: as_i32_id)
  have "holds_at mem (pos + 4) (props_bytes ps)" using holds_at_appendD(2) [OF at] by simp
  then have "amf_array_loop amf3 lp64 f mem False [] (int (length ps)) (pos + 4) (n - 4) =
      Inr ([] @ ps, (n - 4) - int (length (props_bytes ps)))"
    using a by (intro array_loop_props assms(1)) auto
  then show "amf_value_decode amf3 lp64 (Suc f) mem pos n (hd (value_bytes (AmfStrictArray ps))) =
      Inr (AmfStrictArray ps, n + 1 - int (length (value_bytes (AmfStrictArray ps))))"
    using r l by (simp add: amf_value_body_def amf_types amf_then_def)
qed

lemma decode_bytes:
  "(wf_value v \<longrightarrow> decodes_value amf3 lp64 v) \<and>
   (\<forall>named. wf_prop named p \<longrightarrow> decodes_prop amf3 lp64 named p)"
proof (induction rule: amf_value_amf_prop.induct)
  case (AmfNumber d)
  have "decodes_value amf3 lp64 (AmfNumber d)"
    by (rule decodes_valueI)
      (use value_at read_number in \<open>fastforce simp: amf_value_body_def amf_types amf_then_def\<close>)
  then show ?case by simp
next
  case (AmfBoolean b)
  have "decodes_value amf3 lp64 (AmfBoolean b)"
  proof (rule decodes_valueI)
    fix f mem pos n
    assume a: "holds_at mem (pos - 1) (value_bytes (AmfBoolean b))"
      "int (length (value_bytes (AmfBoolean b))) \<le> n + 1"
    have "read_bytes mem pos 1 = Inr [if b then 1 else 0]"
      using a(1) by (intro read_bytes_at) (auto dest: value_at)
    with a(2) show "amf_value_decode amf3 lp64 (Suc f) mem pos n (hd (value_bytes (AmfBoolean b))) =
        Inr (AmfBoolean b, n + 1 - int (length (value_bytes (AmfBoolean b))))"
      by (simp add: amf_value_body_def amf_types amf_then_def amf_decode_boolean_def)
  qed
  then show ?case by simp
next
  case AmfNull
  have "decodes_value amf3 lp64 AmfNull"
    by (rule decodes_valueI) (simp add: amf_value_body_def amf_types)
  then show ?case by simp
next
  case (AmfProp name v)
  then show ?case using decodes_propI by fastforce
qed (auto intro: decodes_string decodes_object decodes_ecma decodes_strict)

text \<open>A property anywhere in a larger memory.\<close>

lemma amf_decode_at:
  assumes "wf_prop named p" and "2 * length (prop_bytes p) + 1 \<le> fuel"
    and "int (length (prop_bytes p) + length rest) < 2 ^ 31"
  shows "amf_prop_decode amf3 lp64 fuel (before @ prop_bytes p @ rest) (int (length before))
      (int (length (prop_bytes p) + length rest)) named = Inr (p, int (length (prop_bytes p)))"
proof -
  have "holds_at (before @ prop_bytes p @ rest) (int (length before)) (prop_bytes p)"
    by (auto simp: holds_at_def)
  moreover have "decodes_prop amf3 lp64 named p" using decode_bytes assms(1) by blast
  ultimately show ?thesis using assms(2,3) by (auto simp: decodes_prop_def)
qed

end
