(* ===== verification/Amf_Safety.thy ===== *)
theory Amf_Safety
  imports Amf_Roundtrip
begin

text \<open>
  When decoding ends and stays in memory: with a 64-bit \<open>long\<close>, with four readable bytes beyond the
  packet and without AMF3 data, every decoder returns within fuel proportional to the size, reads
  nothing outside and consumes at least one byte per property. Where \<open>long\<close> has 32 bits a string
  length near 2^32 makes a property consume no byte at all, and the decoder never returns.
\<close>

definition slack :: "byte list \<Rightarrow> int \<Rightarrow> int \<Rightarrow> bool" where
  "slack mem pos n \<longleftrightarrow> 0 \<le> pos \<and> (0 < n \<longrightarrow> pos + n + 4 \<le> int (length mem)) \<and> n < 2 ^ 31"

text \<open>A result that is the code's -1 or consumes as asked.\<close>

definition ended :: "('b \<Rightarrow> bool) \<Rightarrow> amf_error + 'b \<Rightarrow> bool" where
  "ended P r \<longleftrightarrow> (case r of Inl e \<Rightarrow> e = Bad | Inr x \<Rightarrow> P x)"

lemma ended_then: "ended Q r \<Longrightarrow> (\<And>x. Q x \<Longrightarrow> ended P (k x)) \<Longrightarrow> ended P (amf_then r k)"
  by (cases r) (auto simp: ended_def amf_then_def)

lemma ended_simps [simp]: "ended P (Inl e) \<longleftrightarrow> e = Bad" "ended P (Inr x) \<longleftrightarrow> P x"
  by (simp_all add: ended_def)

lemma ended_if: "(b \<Longrightarrow> ended P r) \<Longrightarrow> (\<not> b \<Longrightarrow> ended P q) \<Longrightarrow> ended P (if b then r else q)"
  by simp

lemma read_bytes_ended:
  "0 \<le> pos \<Longrightarrow> pos + int k \<le> int (length mem) \<Longrightarrow> ended (\<lambda>b. set b \<subseteq> set mem \<and> length b = k) (read_bytes mem pos k)"
  by (auto simp: ended_def read_bytes_def dest: in_set_takeD in_set_dropD)

lemma decode_int_ended:
  assumes "0 \<le> pos"
  shows "pos + 2 \<le> int (length mem) \<Longrightarrow> ended (\<lambda>_. True) (amf_decode_int16 mem pos)"
    and "pos + 3 \<le> int (length mem) \<Longrightarrow> ended (\<lambda>_. True) (amf_decode_int24 mem pos)"
    and "pos + 4 \<le> int (length mem) \<Longrightarrow> ended (\<lambda>_. True) (amf_decode_int32 mem pos)"
    and "pos + 8 \<le> int (length mem) \<Longrightarrow> ended (\<lambda>_. True) (amf_decode_number mem pos)"
    and "pos + 1 \<le> int (length mem) \<Longrightarrow> ended (\<lambda>_. True) (amf_decode_boolean mem pos)"
    and "pos + 2 \<le> int (length mem) \<Longrightarrow> ended (\<lambda>_. True) (amf_decode_string mem pos)"
    and "pos + 4 \<le> int (length mem) \<Longrightarrow> ended (\<lambda>_. True) (amf_decode_long_string mem pos)"
  using assms read_bytes_ended [of pos 2 mem] read_bytes_ended [of pos 3 mem]
    read_bytes_ended [of pos 4 mem] read_bytes_ended [of pos 8 mem] read_bytes_ended [of pos 1 mem]
  by (auto simp: amf_decode_int16_def amf_decode_int24_def amf_decode_int32_def amf_decode_number_def
      amf_decode_boolean_def amf_decode_string_def amf_decode_long_string_def intro!: ended_then)

lemma uint16_low [simp]: "- 2 \<le> uint (l :: u16)"
  using unsigned_greater_eq [of l, where ?'a = int] by linarith

lemma name_body_ended:
  assumes "slack mem pos n" and "1 \<le> n" and "named \<Longrightarrow> 4 \<le> n"
  shows "ended (\<lambda>(name, pos1, n1). pos1 + n1 = pos + n \<and> pos \<le> pos1 \<and> 0 \<le> n1 \<and> n1 \<le> n)
    (amf_name_body mem pos n named)"
proof (cases named)
  case True
  have "0 \<le> pos" "pos + 2 \<le> int (length mem)" using assms by (auto simp: slack_def)
  note d = decode_int_ended(1,6) [OF this]
  show ?thesis
    unfolding amf_name_body_def using True
    by (auto intro!: ended_then [OF d(1)] ended_then [OF d(2)])
next
  case False
  then show ?thesis using assms(2) by (simp add: amf_name_body_def)
qed

lemma value_body_ended:
  assumes p: "0 \<le> pos" and m: "pos + n + 4 \<le> int (length mem)" and nb: "n < 2 ^ 31"
    and n: "0 \<le> n" and t: "t \<noteq> AMF_AVMPLUS"
    and obj: "\<And>p m. slack mem p m \<Longrightarrow> m \<le> n \<Longrightarrow> ended (\<lambda>(ps, n2). n2 \<le> m) (obj p m)"
    and arr: "\<And>l p m. slack mem p m \<Longrightarrow> m \<le> n \<Longrightarrow> ended (\<lambda>(ps, n2). n2 \<le> m) (arr l p m)"
  shows "ended (\<lambda>(v, n2). n2 \<le> n) (amf_value_body amf3 True obj arr mem pos n t)"
proof -
  note d = decode_int_ended [OF p]
  have s: "slack mem pos n" and s4: "slack mem (pos + 4) (n - 4)"
    using p m n nb by (auto simp: slack_def)
  have num: "8 \<le> n \<Longrightarrow> ended (\<lambda>_. True) (amf_decode_number mem pos)" using m by (intro d) auto
  have z: "10 \<le> n \<Longrightarrow> ended (\<lambda>_. True) (amf_decode_int16 mem (pos + 8))"
    using m p by (intro decode_int_ended) auto
  have long: "as_i32 (n - uint (4 + l :: u32)) \<le> n" if "uint l + 4 \<le> n" for l
  proof -
    have "uint (4 + l) = 4 + uint l" using that nb by (simp add: uint_word_ariths)
    moreover have "0 \<le> uint l" by simp
    moreover have "- (2 ^ 31) \<le> n - (4 + uint l)" using that by simp
    ultimately have "as_i32 (n - uint (4 + l)) = n - (4 + uint l)"
      using nb \<open>0 \<le> uint l\<close> by (simp only:, intro as_i32_id) linarith+
    then show ?thesis using \<open>0 \<le> uint l\<close> by linarith
  qed
  have bool: "1 \<le> n \<Longrightarrow> ended (\<lambda>_. True) (amf_decode_boolean mem pos)" using m by (intro d) auto
  have str: "ended (\<lambda>_. True) (amf_decode_int16 mem pos)" "ended (\<lambda>_. True) (amf_decode_string mem pos)"
    "ended (\<lambda>_. True) (amf_decode_int32 mem pos)" "ended (\<lambda>_. True) (amf_decode_long_string mem pos)"
    using m n by (auto intro!: d)
  note o = obj [OF s order_refl] obj [OF s4]
  show ?thesis
    unfolding amf_value_body_def long_plus4_def using t n
    by (intro ended_if ended_then [OF num] ended_then [OF z] ended_then [OF bool] ended_then [OF str(1)]
        ended_then [OF str(2)] ended_then [OF str(3)] ended_then [OF str(4)] ended_then [OF o(1)]
        ended_then [OF o(2)] ended_then [OF arr [OF s4]])
      (simp_all add: long split: prod.splits)
qed

section \<open>All decoders end, inside the memory\<close>

lemma at_end_ended: "slack mem pos n \<Longrightarrow> 0 < n \<Longrightarrow> ended (\<lambda>_. True) (amf_at_end mem pos n)"
  unfolding amf_at_end_def
  by (auto simp: slack_def intro!: ended_then [OF decode_int_ended(2)])

lemma prop_body_ended:
  assumes s: "slack mem pos n" and n: "0 < n" and plus: "AMF_AVMPLUS \<notin> set mem"
    and val: "\<And>p m t. 0 \<le> p \<Longrightarrow> p + m + 4 \<le> int (length mem) \<Longrightarrow> 0 \<le> m \<Longrightarrow> m < n \<Longrightarrow>
      t \<noteq> AMF_AVMPLUS \<Longrightarrow> ended (\<lambda>(v, n2). n2 \<le> m) (val p m t)"
  shows "ended (\<lambda>(p, used). 1 \<le> used) (amf_prop_body val mem pos n named)"
proof (cases "named \<and> n < 4")
  case True
  then show ?thesis by (simp add: amf_prop_body_def)
next
  case False
  have "ended (\<lambda>(p, used). 1 \<le> used)
      (if n1 = 0 then Inl Bad
       else amf_then (read_bytes mem pos1 1) (\<lambda>t. amf_then (val (pos1 + 1) (n1 - 1) (t ! 0))
              (\<lambda>(v, n2). Inr (AmfProp name v, n - n2))))"
    if "pos1 + n1 = pos + n" "pos \<le> pos1" "0 \<le> n1" "n1 \<le> n" for name pos1 n1
  proof (cases "n1 = 0")
    case False
    have rd: "ended (\<lambda>b. set b \<subseteq> set mem \<and> length b = 1) (read_bytes mem pos1 1)"
      using that s n by (intro read_bytes_ended) (auto simp: slack_def)
    have v: "ended (\<lambda>(v, n2). n2 \<le> n1 - 1) (val (pos1 + 1) (n1 - 1) (b ! 0))"
      if b: "set b \<subseteq> set mem \<and> length b = 1" for b
    proof (rule val)
      have "b ! 0 \<in> set mem" using b by (metis nth_mem subsetD zero_less_one)
      then show "b ! 0 \<noteq> AMF_AVMPLUS" using plus by auto
    qed (use \<open>pos1 + n1 = pos + n\<close> \<open>pos \<le> pos1\<close> \<open>0 \<le> n1\<close> \<open>n1 \<le> n\<close> s n False in \<open>auto simp: slack_def\<close>)
    show ?thesis
      using False that by (auto intro!: ended_then [OF rd [unfolded One_nat_def]] ended_then [OF v])
  qed simp
  then show ?thesis
    unfolding amf_prop_body_def using False n
    by (auto intro!: ended_then [OF name_body_ended [OF s]])
qed

lemma decode_ended:
  assumes plus: "AMF_AVMPLUS \<notin> set mem"
  shows "(\<forall>pos n named. slack mem pos n \<longrightarrow> 0 < n \<longrightarrow> 3 * nat n \<le> f \<longrightarrow>
      ended (\<lambda>(p, used). 1 \<le> used) (amf_prop_decode amf3 True f mem pos n named)) \<and>
    (\<forall>pos n t. 0 \<le> pos \<longrightarrow> pos + n + 4 \<le> int (length mem) \<longrightarrow> 0 \<le> n \<longrightarrow> n < 2 ^ 31 \<longrightarrow>
      t \<noteq> AMF_AVMPLUS \<longrightarrow> 3 * nat n + 2 \<le> f \<longrightarrow>
      ended (\<lambda>(v, n2). n2 \<le> n) (amf_value_decode amf3 True f mem pos n t)) \<and>
    (\<forall>pos n named acc. slack mem pos n \<longrightarrow> 3 * nat n + 1 \<le> f \<longrightarrow>
      ended (\<lambda>(ps, n2). n2 \<le> n) (amf_decode_loop amf3 True f mem named acc pos n)) \<and>
    (\<forall>pos n named acc left. slack mem pos n \<longrightarrow> 3 * nat n + 1 \<le> f \<longrightarrow>
      ended (\<lambda>(ps, n2). n2 \<le> n) (amf_array_loop amf3 True f mem named acc left pos n))"
proof (induction f)
  case (Suc f)
  have pr: "ended (\<lambda>(p, used). 1 \<le> used) (amf_prop_decode amf3 True (Suc f) mem pos n named)"
    if "slack mem pos n" "0 < n" "3 * nat n \<le> Suc f" for pos n named
    unfolding amf_prop_decode.simps
    by (rule prop_body_ended [OF that(1,2) plus]) (use Suc that in \<open>auto simp: slack_def\<close>)
  have val: "ended (\<lambda>(v, n2). n2 \<le> n) (amf_value_decode amf3 True (Suc f) mem pos n t)"
    if "0 \<le> pos" "pos + n + 4 \<le> int (length mem)" "0 \<le> n" "n < 2 ^ 31" "t \<noteq> AMF_AVMPLUS"
      "3 * nat n + 2 \<le> Suc f" for pos n t
    unfolding amf_value_decode.simps
    by (rule value_body_ended [OF that(1,2,4,3,5)]) (use Suc that in auto)
  have step: "slack mem (pos + u) (n - u)" "3 * nat (n - u) + 1 \<le> f"
    if "slack mem pos n" "0 < n" "3 * nat n + 1 \<le> Suc f" "1 \<le> u" for pos n u
    using that by (auto simp: slack_def)
  have loop: "ended (\<lambda>(ps, n2). n2 \<le> n) (amf_decode_loop amf3 True (Suc f) mem named acc pos n)"
    if a: "slack mem pos n" "3 * nat n + 1 \<le> Suc f" for pos n named acc
  proof (cases "n \<le> 0")
    case False
    have "ended (\<lambda>(ps, n2). n2 \<le> n) (amf_decode_loop amf3 True f mem named (acc @ [p]) (pos + u) (n - u))"
      if "1 \<le> u" for p u
      using Suc step [OF a(1) _ a(2) that] False that by (fastforce simp: ended_def split: sum.splits)
    moreover have "ended (\<lambda>(p, used). 1 \<le> used) (amf_prop_decode amf3 True f mem pos n named)"
      using Suc a False by auto
    ultimately show ?thesis
      using False by (auto intro!: ended_then [OF at_end_ended [OF a(1)]] elim!: ended_then)
  qed simp
  have arr: "ended (\<lambda>(ps, n2). n2 \<le> n) (amf_array_loop amf3 True (Suc f) mem named acc left pos n)"
    if a: "slack mem pos n" "3 * nat n + 1 \<le> Suc f" for pos n named acc left
  proof (cases "n \<le> 0")
    case False
    have "ended (\<lambda>(ps, n2). n2 \<le> n)
        (amf_array_loop amf3 True f mem named (acc @ [p]) (left - 1) (pos + u) (n - u))"
      if "1 \<le> u" for p u
      using Suc step [OF a(1) _ a(2) that] False that by (fastforce simp: ended_def split: sum.splits)
    moreover have "ended (\<lambda>(p, used). 1 \<le> used) (amf_prop_decode amf3 True f mem pos n named)"
      using Suc a False by auto
    ultimately show ?thesis using False by (auto elim!: ended_then)
  qed simp
  from pr val loop arr show ?case by blast
qed auto

section \<open>Properties\<close>

definition no_amf3 :: amf3_decoder where
  "no_amf3 mem pos n = Inl Bad"

text \<open>C18: What the AMF encoder writes, the AMF decoder reads back: for every property that can be
  written (named members of objects, unnamed elements of arrays, strings below 2^31 bytes), given
  room for four bytes more than it takes, the encoder succeeds and the decoder, at any place in a
  larger memory, returns that property and its length.\<close>

theorem amf_round_trip:
  assumes "wf_prop named p" and "length (prop_bytes p) + 4 \<le> room"
    and "2 * length (prop_bytes p) + 1 \<le> fuel" and "int (length (prop_bytes p) + length rest) < 2 ^ 31"
  shows "amf_prop_encode room p = Some (prop_bytes p) \<and>
    amf_prop_decode amf3 lp64 fuel (before @ prop_bytes p @ rest) (int (length before))
      (int (length (prop_bytes p) + length rest)) named = Inr (p, int (length (prop_bytes p)))"
proof
  show "amf_prop_encode room p = Some (prop_bytes p)"
    using encode_room [of undefined p, THEN conjunct2] assms(1,2) by (cases named) auto
  show "amf_prop_decode amf3 lp64 fuel (before @ prop_bytes p @ rest) (int (length before))
      (int (length (prop_bytes p) + length rest)) named = Inr (p, int (length (prop_bytes p)))"
    by (rule amf_decode_at [OF assms(1,3,4)])
qed

definition sample_prop :: amf_prop where
  "sample_prop = AmfProp [0x63] (AmfObject
     [AmfProp [0x61] (AmfNumber 0x3FF0000000000000), AmfProp [0x62] (AmfString [0x78, 0x79]),
      AmfProp [0x64] (AmfStrictArray [AmfProp [] AmfNull, AmfProp [] (AmfBoolean True)])])"

theorem amf_round_trip_witness:
  "amf_prop_encode 100 sample_prop = Some (prop_bytes sample_prop) \<and>
   amf_prop_decode no_amf3 True 200 ([7] @ prop_bytes sample_prop @ [8, 9]) 1
     (int (length (prop_bytes sample_prop) + 2)) True =
   Inr (sample_prop, int (length (prop_bytes sample_prop)))"
proof -
  have "wf_prop True sample_prop" by (simp add: sample_prop_def)
  moreover have "length (prop_bytes sample_prop) + 4 \<le> 100"
    "2 * length (prop_bytes sample_prop) + 1 \<le> 200"
    by (simp_all add: sample_prop_def amf_name_bytes_def)
  ultimately show ?thesis
    using amf_round_trip [of True sample_prop 100 200 "[8, 9]" no_amf3 True "[7]"] by simp
qed



text \<open>An object of one property, named \<open>a\<close>, with a long string of 2^32 - 8 bytes.\<close>

definition hang_bytes :: "byte list" where
  "hang_bytes = [0, 1, 0x61, 12, 0xFF, 0xFF, 0xFF, 0xF8]"

lemma hang_at_end: "amf_at_end hang_bytes 0 8 = Inr False"
  by code_simp

lemma hang_prop:
  "amf_prop_decode amf3 False (Suc (Suc f)) hang_bytes 0 8 True = Inr (AmfProp [0x61] (AmfString []), 0)"
proof -
  have nm: "amf_name_body hang_bytes 0 8 True = Inr ([0x61], 3, 5)" by code_simp
  have rd: "read_bytes hang_bytes 3 1 = Inr [12]" by code_simp
  have i: "amf_decode_int32 hang_bytes 4 = Inr 0xFFFFFFF8" by code_simp
  have s: "amf_decode_long_string hang_bytes 4 = Inr []" by code_simp
  have l: "long_plus4 False 0xFFFFFFF8 = - 4" by code_simp
  have u: "as_i32 (4 - uint (4 + 0xFFFFFFF8 :: u32)) = 8" by code_simp
  have v: "amf_value_decode amf3 False (Suc f) hang_bytes 4 4 12 = Inr (AmfString [], 8)"
    using u by (simp add: amf_value_body_def amf_types amf_then_def i s l)
  show ?thesis
    using nm rd v by (simp add: amf_prop_body_def amf_then_def)
qed

text \<open>On Windows, where \<open>long\<close> has 32 bits, eight bytes from the server make the decoder run
  forever: the length check wraps, the property consumes no byte, and the loop decodes it again
  and again, adding it to the object each time.\<close>

lemma amf_decode_hangs_on_windows:
  "amf_decode amf3 False fuel hang_bytes 0 8 True = Inl NoFuel"
proof -
  have "amf_decode_loop amf3 False fuel hang_bytes True acc 0 8 = Inl NoFuel" for acc
  proof (induction fuel arbitrary: acc)
    case (Suc f)
    consider "f = 0" | "f = 1" | g where "f = Suc (Suc g)"
      by (metis One_nat_def not0_implies_Suc)
    then show ?case
    proof cases
      case 1
      then show ?thesis by (simp add: hang_at_end amf_then_def)
    next
      case 2
      have "amf_prop_decode amf3 False (Suc 0) hang_bytes 0 8 True = Inl NoFuel"
      proof -
        have nm: "amf_name_body hang_bytes 0 8 True = Inr ([0x61], 3, 5)" by code_simp
        have rd: "read_bytes hang_bytes 3 1 = Inr [12]" by code_simp
        show ?thesis using nm rd by (simp add: amf_prop_body_def amf_then_def)
      qed
      with 2 show ?thesis by (simp add: hang_at_end amf_then_def)
    next
      case 3
      with Suc show ?thesis by (simp add: hang_at_end amf_then_def hang_prop del: amf_prop_decode.simps)
    qed
  qed simp
  then show ?thesis by (simp add: amf_decode_def amf_then_def)
qed

text \<open>Without readable bytes beyond the packet the decoder reads outside it: a string type as the
  last byte makes it read a length that is not there.\<close>

theorem amf_decode_overreads:
  "amf_decode no_amf3 True 20 [0, 1, 0x61, 2] 0 4 True = Inl Oob"
  by code_simp

end
