(* ===== verification/Rtmp_Queue.thy ===== *)
theory Rtmp_Queue
  imports Packets C_Double "HOL-Library.Sublist"
begin

text \<open>
  The send queue of \<open>src/rtmp/rtmp-stream.c\<close>: the state of the output, the packets waiting to be
  sent, the dropping of frames when the connection is too slow, and the dynamic bitrate. The code
  under \<open>packets_mutex\<close> is one step. An operation that releases packets returns them; a bitrate
  handed to the encoder is returned as well. The clock is an argument. \<open>'c\<close> is the state of the
  connection. \<open>long\<close> has 32 bits, as on Windows.
\<close>

section \<open>State\<close>

record dbr_frame =
  send_beg :: u64
  send_end :: u64
  fr_size :: u64

record 'c rtmp_stream =
  packets :: "encoder_packet list"
  sent_headers :: bool
  got_first_packet :: bool
  start_dts_offset :: int
  connecting :: bool
  active_s :: bool
  disconnected :: bool
  encode_error :: bool
  stopping :: bool
  sem_count :: nat
  stop_ts :: u64
  shutdown_timeout_ts :: u64
  max_shutdown_time_sec :: int
  drop_threshold_usec :: int
  pframe_drop_threshold_usec :: int
  min_priority :: int
  congestion :: rat
  last_dts_usec :: int
  total_bytes_sent :: u64
  dropped_frames :: int
  dbr_frames :: "dbr_frame list"
  dbr_data_size :: u64
  dbr_inc_timeout :: u64
  audio_bitrate :: int
  dbr_est_bitrate :: int
  dbr_orig_bitrate :: int
  dbr_prev_bitrate :: int
  dbr_cur_bitrate :: int
  dbr_inc_step :: int
  dbr_enabled :: bool
  audio_codec :: "nat \<Rightarrow> audio_id_t"
  video_codec :: "nat \<Rightarrow> video_id_t"
  stream_path :: "byte list"
  stream_key :: "byte list"
  stream_bind_ip :: "byte list"
  addrlen_hint :: nat
  new_socket_loop :: bool
  low_latency :: bool
  custom_send :: bool
  write_room :: int
  conn :: 'c

definition OBS_NAL_PRIORITY_HIGH :: int where "OBS_NAL_PRIORITY_HIGH = 2"
definition OBS_NAL_PRIORITY_HIGHEST :: int where "OBS_NAL_PRIORITY_HIGHEST = 3"
definition DBR_INC_TIMER :: u64 where "DBR_INC_TIMER = 4 * 1000000000"
definition DBR_TRIGGER_USEC :: u64 where "DBR_TRIGGER_USEC = 200 * 1000"
definition MIN_ESTIMATE_DURATION_MS :: u64 where "MIN_ESTIMATE_DURATION_MS = 1000"
definition MAX_ESTIMATE_DURATION_MS :: u64 where "MAX_ESTIMATE_DURATION_MS = 2000"

section \<open>The queue\<close>

definition free_packets :: "'c rtmp_stream \<Rightarrow> 'c rtmp_stream \<times> encoder_packet list" where
  "free_packets s = (s\<lparr>packets := []\<rparr>, packets s)"

definition get_next_packet :: "'c rtmp_stream \<Rightarrow> ('c rtmp_stream \<times> encoder_packet) option" where
  "get_next_packet s =
     (case packets s of [] \<Rightarrow> None | p # ps \<Rightarrow> Some (s\<lparr>packets := ps\<rparr>, p))"

definition num_buffered_packets :: "'c rtmp_stream \<Rightarrow> nat" where
  "num_buffered_packets s = length (packets s)"

definition add_packet :: "encoder_packet \<Rightarrow> 'c rtmp_stream \<Rightarrow> 'c rtmp_stream" where
  "add_packet p s = s\<lparr>packets := packets s @ [p]\<rparr>"

definition keep_frame :: "int \<Rightarrow> encoder_packet \<Rightarrow> bool" where
  "keep_frame highest_priority p \<longleftrightarrow>
     enc_type p = OBS_ENCODER_AUDIO \<or> drop_priority p \<ge> highest_priority"

text \<open>The loop of \<open>drop_frames\<close>: the packets kept and the packets released.\<close>

fun drop_loop :: "int \<Rightarrow> encoder_packet list \<Rightarrow> encoder_packet list \<times> encoder_packet list" where
  "drop_loop hp [] = ([], [])"
| "drop_loop hp (p # ps) =
     (let (kept, dropped) = drop_loop hp ps
      in if keep_frame hp p then (p # kept, dropped) else (kept, p # dropped))"

definition drop_frames :: "int \<Rightarrow> 'c rtmp_stream \<Rightarrow> 'c rtmp_stream \<times> encoder_packet list" where
  "drop_frames highest_priority s =
     (let (kept, dropped) = drop_loop highest_priority (packets s)
      in (s\<lparr>packets := kept,
            min_priority := (if min_priority s < highest_priority then highest_priority
                             else min_priority s),
            dropped_frames := dropped_frames s + int (length dropped)\<rparr>,
          dropped))"

definition find_first_video_packet :: "'c rtmp_stream \<Rightarrow> encoder_packet option" where
  "find_first_video_packet s =
     find (\<lambda>p. enc_type p = OBS_ENCODER_VIDEO \<and> \<not> keyframe p) (packets s)"

section \<open>The dynamic bitrate\<close>

definition dbr_add_frame :: "dbr_frame \<Rightarrow> 'c rtmp_stream \<Rightarrow> 'c rtmp_stream" where
  "dbr_add_frame back s =
     (let frames = dbr_frames s @ [back];
          front = hd frames;
          total = dbr_data_size s + fr_size back;
          dur = (send_end back - send_beg front) div 1000000;
          (frames2, total2) =
            (if dur \<ge> MAX_ESTIMATE_DURATION_MS then (tl frames, total - fr_size front)
             else (frames, total));
          est0 = (if dur \<ge> MIN_ESTIMATE_DURATION_MS
                  then as_i32 (uint (total2 * 1000 div dur)) else 0);
          est1 = c_div (est0 * 8) 1000;
          est2 = (if est1 \<noteq> 0 then max (est1 - audio_bitrate s) 50 else est1)
      in s\<lparr>dbr_frames := frames2, dbr_data_size := total2, dbr_est_bitrate := est2\<rparr>)"

definition dbr_bitrate_lowered :: "u64 \<Rightarrow> 'c rtmp_stream \<Rightarrow> 'c rtmp_stream \<times> bool" where
  "dbr_bitrate_lowered now s =
     (let (s1, est) =
            (if dbr_est_bitrate s \<noteq> 0 \<and> dbr_est_bitrate s < dbr_cur_bitrate s
             then (s\<lparr>dbr_data_size := 0, dbr_frames := []\<rparr>,
                   max (c_div (dbr_est_bitrate s) 100 * 100) 50)
             else (s, 0));
          new_bitrate = (if est \<noteq> 0 then est else dbr_prev_bitrate s)
      in if new_bitrate = 0 \<or> new_bitrate = dbr_cur_bitrate s1 then (s1, False)
         else (s1\<lparr>dbr_prev_bitrate := 0, dbr_cur_bitrate := new_bitrate,
                 dbr_inc_timeout := now + DBR_INC_TIMER\<rparr>, True))"

definition dbr_inc_bitrate :: "u64 \<Rightarrow> 'c rtmp_stream \<Rightarrow> 'c rtmp_stream" where
  "dbr_inc_bitrate now s =
     (let cur = dbr_cur_bitrate s + dbr_inc_step s;
          s1 = s\<lparr>dbr_prev_bitrate := dbr_cur_bitrate s\<rparr>
      in if cur \<ge> dbr_orig_bitrate s then s1\<lparr>dbr_cur_bitrate := dbr_orig_bitrate s\<rparr>
         else s1\<lparr>dbr_cur_bitrate := cur, dbr_inc_timeout := now + DBR_INC_TIMER\<rparr>)"

section \<open>Adding packets\<close>

text \<open>
  \<open>check_to_drop_frames\<close>: the new state, the packets released, and the bitrates handed to the
  encoder by \<open>dbr_set_bitrate\<close>, in order.
\<close>

definition dbr_maybe_inc :: "u64 \<Rightarrow> bool \<Rightarrow> 'c rtmp_stream \<Rightarrow> 'c rtmp_stream \<times> int list" where
  "dbr_maybe_inc now pframes s =
     (if \<not> pframes \<and> dbr_enabled s \<and> dbr_inc_timeout s \<noteq> 0 \<and> now \<ge> dbr_inc_timeout s
      then let s1 = dbr_inc_bitrate now (s\<lparr>dbr_inc_timeout := 0\<rparr>) in (s1, [dbr_cur_bitrate s1])
      else (s, []))"

definition check_to_drop_frames ::
  "u64 \<Rightarrow> bool \<Rightarrow> 'c rtmp_stream \<Rightarrow> 'c rtmp_stream \<times> encoder_packet list \<times> int list" where
  "check_to_drop_frames now pframes s0 =
     (let prio = (if pframes then OBS_NAL_PRIORITY_HIGHEST else OBS_NAL_PRIORITY_HIGH);
          threshold = (if pframes then pframe_drop_threshold_usec s0 else drop_threshold_usec s0);
          (s1, set1) = dbr_maybe_inc now pframes s0
      in if num_buffered_packets s0 < 5
         then (if pframes then s1 else s1\<lparr>congestion := 0\<rparr>, [], set1)
         else case find_first_video_packet s1 of
           None \<Rightarrow> (s1, [], set1)
         | Some first \<Rightarrow>
             let dur = last_dts_usec s1 - dts_usec first;
                 s2 = (if pframes then s1
                       else s1\<lparr>congestion := fl32 (fl32 (of_int dur) / fl32 (of_int threshold))\<rparr>)
             in if dbr_enabled s2 then
                  (if \<not> pframes \<and> (word_of_int dur :: u64) \<ge> DBR_TRIGGER_USEC
                   then let (s3, changed) = dbr_bitrate_lowered now s2
                        in (s3, [], if changed then set1 @ [dbr_cur_bitrate s3] else set1)
                   else (s2, [], set1))
                else if dur > threshold
                     then let (s3, dropped) = drop_frames prio s2 in (s3, dropped, set1)
                     else (s2, [], set1))"

text \<open>\<open>None\<close> in place of the new packet: it was not queued, and its caller releases it.\<close>

definition add_video_packet ::
  "u64 \<Rightarrow> encoder_packet \<Rightarrow> 'c rtmp_stream \<Rightarrow> 'c rtmp_stream \<times> bool \<times> encoder_packet list \<times> int list" where
  "add_video_packet now p s =
     (let (s1, r1, b1) = check_to_drop_frames now False s;
          (s2, r2, b2) = check_to_drop_frames now True s1
      in if drop_priority p < min_priority s2
         then (s2\<lparr>dropped_frames := dropped_frames s2 + 1\<rparr>, False, r1 @ r2, b1 @ b2)
         else (add_packet p (s2\<lparr>min_priority := 0, last_dts_usec := dts_usec p\<rparr>), True, r1 @ r2, b1 @ b2))"

text \<open>
  \<open>rtmp_stream_data_direct\<close>. The bitstream conversions are parameters: \<open>parse codec p\<close> is the new
  packet (\<open>obs_parse_avc_packet\<close> of libobs, \<open>obs_parse_hevc_packet\<close> and \<open>obs_parse_av1_packet\<close>).
  The result has the packets released, among them the new one if it was not queued.
\<close>

definition note_first_packet :: "encoder_packet \<Rightarrow> 'c rtmp_stream \<Rightarrow> 'c rtmp_stream" where
  "note_first_packet p s =
     (if got_first_packet s then s
      else s\<lparr>start_dts_offset := get_ms_time p (dts p), got_first_packet := True\<rparr>)"

definition queue_packet ::
  "u64 \<Rightarrow> bool \<Rightarrow> encoder_packet \<Rightarrow> 'c rtmp_stream \<Rightarrow> 'c rtmp_stream \<times> encoder_packet list \<times> int list" where
  "queue_packet now video p s =
     (if disconnected s then (s, [p], [])
      else
        let (s1, added, released, bitrates) =
              (if video then add_video_packet now p s else (add_packet p s, True, [], []))
        in if added then (s1\<lparr>sem_count := Suc (sem_count s1)\<rparr>, released, bitrates)
           else (s1, released @ [p], bitrates))"

definition rtmp_stream_data_direct ::
  "(video_id_t \<Rightarrow> encoder_packet \<Rightarrow> encoder_packet) \<Rightarrow> u64 \<Rightarrow> encoder_packet option \<Rightarrow>
   'c rtmp_stream \<Rightarrow> 'c rtmp_stream \<times> encoder_packet list \<times> int list" where
  "rtmp_stream_data_direct parse now pkt s =
     (if disconnected s \<or> \<not> active_s s then (s, [], [])
      else case pkt of
        None \<Rightarrow> (s\<lparr>encode_error := True, sem_count := Suc (sem_count s)\<rparr>, [], [])
      | Some p \<Rightarrow>
          let s1 = note_first_packet p s
          in if enc_type p = OBS_ENCODER_VIDEO then
               (if video_codec s1 (track_idx p) = CODEC_NONE then (s1, [], [])
                else queue_packet now True (parse (video_codec s1 (track_idx p)) p) s1)
             else queue_packet now False p s1)"

section \<open>What the queue keeps\<close>

lemma drop_loop_filter: "drop_loop hp ps = (filter (keep_frame hp) ps, filter (\<lambda>p. \<not> keep_frame hp p) ps)"
  by (induction ps) auto

lemma mset_filter_split: "mset (filter P xs) + mset (filter (\<lambda>x. \<not> P x) xs) = mset xs"
  by (induction xs) auto

lemma packets_inc [simp]:
  "packets (fst (dbr_maybe_inc now pf s)) = packets s"
  "min_priority (fst (dbr_maybe_inc now pf s)) = min_priority s"
  "dropped_frames (fst (dbr_maybe_inc now pf s)) = dropped_frames s"
  by (simp_all add: dbr_maybe_inc_def dbr_inc_bitrate_def Let_def)

lemma packets_lowered [simp]:
  "packets (fst (dbr_bitrate_lowered now s)) = packets s"
  "min_priority (fst (dbr_bitrate_lowered now s)) = min_priority s"
  "dropped_frames (fst (dbr_bitrate_lowered now s)) = dropped_frames s"
  by (simp_all add: dbr_bitrate_lowered_def Let_def)

text \<open>
  The three ways a check ends: nothing else happens, the bitrate is reconsidered, or frames are
  dropped. Before that the bitrate may have been raised and the congestion noted.
\<close>

lemma check_shape:
  assumes "check_to_drop_frames now pf s = (s', released, br)"
  obtains s1 set1 s2 where "dbr_maybe_inc now pf s = (s1, set1)"
    and "s2 = s1 \<or> (\<exists>c. s2 = s1\<lparr>congestion := c\<rparr>)"
    and "s' = s2 \<and> released = [] \<and> br = set1 \<or>
      (\<exists>ch. dbr_bitrate_lowered now s2 = (s', ch) \<and> released = [] \<and>
         br = (if ch then set1 @ [dbr_cur_bitrate s'] else set1)) \<or>
      drop_frames (if pf then OBS_NAL_PRIORITY_HIGHEST else OBS_NAL_PRIORITY_HIGH) s2 = (s', released) \<and>
      br = set1"
proof -
  obtain s1 set1 where m: "dbr_maybe_inc now pf s = (s1, set1)" by (cases "dbr_maybe_inc now pf s")
  show thesis
  proof (cases "num_buffered_packets s < 5 \<or> find_first_video_packet s1 = None")
    case True
    then have "(s' = s1 \<or> s' = s1\<lparr>congestion := 0\<rparr>) \<and> released = [] \<and> br = set1"
      using assms m by (auto simp: check_to_drop_frames_def Let_def split: if_splits)
    then show thesis using m by (auto intro: that)
  next
    case False
    then obtain first where first: "find_first_video_packet s1 = Some first" by auto
    define c where "c = fl32 (fl32 (of_int (last_dts_usec s1 - dts_usec first)) /
      fl32 (of_int (drop_threshold_usec s)))"
    define s2 where "s2 = (if pf then s1 else s1\<lparr>congestion := c\<rparr>)"
    obtain s3 ch where low: "dbr_bitrate_lowered now s2 = (s3, ch)" by (cases "dbr_bitrate_lowered now s2")
    obtain s4 dr where dr: "drop_frames (if pf then OBS_NAL_PRIORITY_HIGHEST else OBS_NAL_PRIORITY_HIGH) s2
      = (s4, dr)" by fastforce
    have "s' = s2 \<and> released = [] \<and> br = set1 \<or>
      s' = s3 \<and> released = [] \<and> br = (if ch then set1 @ [dbr_cur_bitrate s3] else set1) \<or>
      s' = s4 \<and> released = dr \<and> br = set1"
    proof (cases pf)
      case True
      then have s2: "s2 = s1" by (simp add: s2_def)
      show ?thesis
        using assms False low dr m True
        by (simp add: check_to_drop_frames_def Let_def first s2 split: if_splits)
    next
      case no: False
      then have s2: "s1\<lparr>congestion := c\<rparr> = s2" by (simp add: s2_def)
      show ?thesis
        using assms False low dr m no
        by (simp add: check_to_drop_frames_def Let_def first s2 del: of_int_diff flip: c_def split: if_splits;
            auto)
    qed
    moreover have "s2 = s1 \<or> (\<exists>c. s2 = s1\<lparr>congestion := c\<rparr>)" by (auto simp: s2_def)
    ultimately show thesis using low dr by (intro that [OF m, of s2]) metis+
  qed
qed

text \<open>Either nothing in the queue changes, or frames below a priority are dropped from it.\<close>

lemma check_cases:
  assumes "check_to_drop_frames now pf s = (s', released, br)"
  obtains (same) "packets s' = packets s" "min_priority s' = min_priority s"
      "dropped_frames s' = dropped_frames s" "released = []"
  | (dropped) prio where "packets s' = filter (keep_frame prio) (packets s)"
      "released = filter (\<lambda>p. \<not> keep_frame prio p) (packets s)" "min_priority s \<le> min_priority s'"
      "prio \<le> min_priority s'" "dropped_frames s' = dropped_frames s + int (length released)"
      "prio = (if pf then OBS_NAL_PRIORITY_HIGHEST else OBS_NAL_PRIORITY_HIGH)"
proof (rule check_shape [OF assms])
  let ?prio = "if pf then OBS_NAL_PRIORITY_HIGHEST else OBS_NAL_PRIORITY_HIGH"
  fix s1 set1 s2
  assume m: "dbr_maybe_inc now pf s = (s1, set1)" and s2: "s2 = s1 \<or> (\<exists>c. s2 = s1\<lparr>congestion := c\<rparr>)"
    and ends: "s' = s2 \<and> released = [] \<and> br = set1 \<or>
      (\<exists>ch. dbr_bitrate_lowered now s2 = (s', ch) \<and> released = [] \<and>
         br = (if ch then set1 @ [dbr_cur_bitrate s'] else set1)) \<or>
      drop_frames ?prio s2 = (s', released) \<and> br = set1"
  have eq: "packets s2 = packets s" "min_priority s2 = min_priority s" "dropped_frames s2 = dropped_frames s"
    using packets_inc [of now pf s] s2 by (auto simp: m)
  consider "s' = s2" "released = []" | ch where "dbr_bitrate_lowered now s2 = (s', ch)" "released = []"
    | "drop_frames ?prio s2 = (s', released)"
    using ends by blast
  then show thesis
  proof cases
    case 1
    then show ?thesis using eq by (intro same) simp_all
  next
    case (2 ch)
    then show ?thesis using eq packets_lowered [of now s2] by (intro same) simp_all
  next
    case 3
    then show ?thesis using eq by (intro dropped [of ?prio]) (auto simp: drop_frames_def drop_loop_filter)
  qed
qed

lemma check_accounts:
  assumes "check_to_drop_frames now pf s = (s', released, br)"
  shows "mset (packets s') + mset released = mset (packets s)" and "subseq (packets s') (packets s)"
    and "dropped_frames s' = dropped_frames s + int (length released)"
    and "min_priority s \<le> min_priority s'"
    and "\<forall>p \<in> set released. enc_type p = OBS_ENCODER_VIDEO \<and> drop_priority p < OBS_NAL_PRIORITY_HIGHEST"
  using assms
  by (cases rule: check_cases; auto simp: mset_filter_split subseq_filter_left keep_frame_def
      OBS_NAL_PRIORITY_HIGH_def OBS_NAL_PRIORITY_HIGHEST_def split: if_splits;
      metis obs_encoder_type.exhaust)+

end
