(* ===== verification/Rtmp_Queue_Properties.thy ===== *)
theory Rtmp_Queue_Properties
  imports Rtmp_Queue
begin

text \<open>
  What the send queue guarantees: every packet is accounted for and the order is kept, a hole made
  by dropping is closed by a frame of high enough priority only, and the bitrate asked of the
  encoder stays between 50 and the configured one, as long as the state it starts from is fresh.
\<close>

section \<open>Every packet is accounted for\<close>

lemma add_video_accounts:
  assumes "add_video_packet now p s = (s', added, released, br)"
  shows "mset (packets s') + mset released = mset (packets s) + (if added then {#p#} else {#})"
    and "subseq (packets s') (packets s @ (if added then [p] else []))"
    and "dropped_frames s' = dropped_frames s + int (length released) + (if added then 0 else 1)"
    and "\<forall>q \<in> set released. enc_type q = OBS_ENCODER_VIDEO \<and> drop_priority q < OBS_NAL_PRIORITY_HIGHEST"
proof -
  obtain s1 r1 b1 where c1: "check_to_drop_frames now False s = (s1, r1, b1)"
    by (cases "check_to_drop_frames now False s")
  obtain s2 r2 b2 where c2: "check_to_drop_frames now True s1 = (s2, r2, b2)"
    by (cases "check_to_drop_frames now True s1")
  note acc1 = check_accounts [OF c1] and acc2 = check_accounts [OF c2]
  have rel: "released = r1 @ r2" and add: "added \<longleftrightarrow> \<not> drop_priority p < min_priority s2"
    and s': "s' = (if added then add_packet p (s2\<lparr>min_priority := 0, last_dts_usec := dts_usec p\<rparr>)
                   else s2\<lparr>dropped_frames := dropped_frames s2 + 1\<rparr>)"
    using assms by (auto simp: add_video_packet_def c1 c2 Let_def split: if_splits)
  have ms: "mset (packets s2) + mset released = mset (packets s)"
    using acc1(1) acc2(1) by (simp add: rel ac_simps flip: acc1(1))
  have sub: "subseq (packets s2) (packets s)" using acc1(2) acc2(2) by (blast intro: subseq_order.trans)
  have dr: "dropped_frames s2 = dropped_frames s + int (length released)"
    using acc1(3) acc2(3) by (simp add: rel)
  show "mset (packets s') + mset released = mset (packets s) + (if added then {#p#} else {#})"
    by (simp add: s' add_packet_def flip: ms)
  show "subseq (packets s') (packets s @ (if added then [p] else []))"
    using sub by (simp add: s' add_packet_def)
  show "dropped_frames s' = dropped_frames s + int (length released) + (if added then 0 else 1)"
    using dr by (simp add: s' add_packet_def)
  show "\<forall>q \<in> set released. enc_type q = OBS_ENCODER_VIDEO \<and> drop_priority q < OBS_NAL_PRIORITY_HIGHEST"
    using acc1(5) acc2(5) by (auto simp: rel)
qed


definition queue_pkt :: "obs_encoder_type \<Rightarrow> int \<Rightarrow> int \<Rightarrow> bool \<Rightarrow> encoder_packet" where
  "queue_pkt t usec prio key =
     \<lparr>pkt_data = [0], pts = 0, dts = 0, timebase_num = 1, timebase_den = 30, enc_type = t, keyframe = key,
      dts_usec = usec, sys_dts_usec = 0, priority = prio, drop_priority = prio, track_idx = 0\<rparr>"

definition queue_sample :: "unit rtmp_stream" where
  "queue_sample =
     \<lparr>packets = map (\<lambda>i. queue_pkt OBS_ENCODER_VIDEO (100000 * int i) 1 False) [0..<6],
      sent_headers = True, got_first_packet = True, start_dts_offset = 0, connecting = False,
      active_s = True, disconnected = False, encode_error = False, stopping = False, sem_count = 6,
      stop_ts = 0, shutdown_timeout_ts = 0, max_shutdown_time_sec = 30, drop_threshold_usec = 300000,
      pframe_drop_threshold_usec = 500000, min_priority = 0, congestion = 0, last_dts_usec = 500000,
      total_bytes_sent = 0, dropped_frames = 0, dbr_frames = [], dbr_data_size = 0, dbr_inc_timeout = 0,
      audio_bitrate = 160, dbr_est_bitrate = 0, dbr_orig_bitrate = 2500, dbr_prev_bitrate = 0,
      dbr_cur_bitrate = 2500, dbr_inc_step = 250, dbr_enabled = False,
      audio_codec = (\<lambda>i. AUDIO_CODEC_AAC), video_codec = (\<lambda>i. CODEC_H264),
      stream_path = [], stream_key = [], stream_bind_ip = [], addrlen_hint = 0, new_socket_loop = False, low_latency = False,
      custom_send = False, write_room = 0, conn = ()\<rparr>"

lemma queue_sample_step:
  "\<exists>s' br. queue_packet 0 True (queue_pkt OBS_ENCODER_VIDEO 600000 1 False) queue_sample =
     (s', packets queue_sample @ [queue_pkt OBS_ENCODER_VIDEO 600000 1 False], br)"
  by (simp add: queue_packet_def add_video_packet_def check_to_drop_frames_def dbr_maybe_inc_def
      num_buffered_packets_def find_first_video_packet_def drop_frames_def keep_frame_def Let_def
      queue_sample_def queue_pkt_def OBS_NAL_PRIORITY_HIGH_def OBS_NAL_PRIORITY_HIGHEST_def upt_rec)


section \<open>Holes are closed by frames of high priority\<close>

text \<open>What the encoders and the sender do to the queue after a drop.\<close>

datatype queue_op = Put u64 encoder_packet | Take

definition is_video :: "encoder_packet \<Rightarrow> bool" where
  "is_video p \<longleftrightarrow> enc_type p = OBS_ENCODER_VIDEO"

fun queue_op_step :: "queue_op \<Rightarrow> 'c rtmp_stream \<Rightarrow> 'c rtmp_stream" where
  "queue_op_step (Put now p) s = fst (queue_packet now (is_video p) p s)"
| "queue_op_step Take s = (case get_next_packet s of None \<Rightarrow> s | Some (s', p) \<Rightarrow> s')"

fun queue_ops :: "queue_op list \<Rightarrow> 'c rtmp_stream \<Rightarrow> 'c rtmp_stream" where
  "queue_ops [] s = s"
| "queue_ops (a # as) s = queue_ops as (queue_op_step a s)"

fun low_frame :: "int \<Rightarrow> queue_op \<Rightarrow> bool" where
  "low_frame m (Put now p) = (is_video p \<longrightarrow> drop_priority p < m)"
| "low_frame m Take = True"

lemma queue_op_low:
  assumes "low_frame m a" and "m \<le> min_priority s"
  shows "m \<le> min_priority (queue_op_step a s)"
    and "subseq (filter is_video (packets (queue_op_step a s))) (filter is_video (packets s))"
proof -
  have "m \<le> min_priority (queue_op_step a s) \<and>
    subseq (filter is_video (packets (queue_op_step a s))) (filter is_video (packets s))"
  proof (cases a)
    case (Put now p)
    show ?thesis
    proof (cases "is_video p")
      case True
      obtain s1 r1 b1 where c1: "check_to_drop_frames now False s = (s1, r1, b1)"
        by (cases "check_to_drop_frames now False s")
      obtain s2 r2 b2 where c2: "check_to_drop_frames now True s1 = (s2, r2, b2)"
        by (cases "check_to_drop_frames now True s1")
      note acc1 = check_accounts [OF c1] and acc2 = check_accounts [OF c2]
      have "drop_priority p < min_priority s2"
        using assms Put True acc1(4) acc2(4) by simp
      moreover have "subseq (packets s2) (packets s)"
        using acc1(2) acc2(2) by (blast intro: subseq_order.trans)
      ultimately show ?thesis
        using assms(2) acc1(4) acc2(4)
        by (auto simp: Put True queue_packet_def add_video_packet_def c1 c2 Let_def intro: subseq_filter)
    next
      case False
      then show ?thesis using assms(2) by (simp add: Put queue_packet_def add_packet_def Let_def)
    qed
  next
    case Take
    then show ?thesis using assms(2) by (auto simp: get_next_packet_def split: list.splits)
  qed
  then show "m \<le> min_priority (queue_op_step a s)"
    and "subseq (filter is_video (packets (queue_op_step a s))) (filter is_video (packets s))" by auto
qed

lemma queue_ops_low:
  "list_all (low_frame m) as \<Longrightarrow> m \<le> min_priority s \<Longrightarrow>
     subseq (filter is_video (packets (queue_ops as s))) (filter is_video (packets s))"
proof (induction as arbitrary: s)
  case (Cons a as)
  then show ?case using queue_op_low [of m a s] by (auto intro: subseq_order.trans)
qed simp

text \<open>C25: once a check has dropped frames, no video frame below the priority it dropped to enters the
  queue, whatever the encoders and the sender do, until a frame of that priority arrives: until
  then the video in the queue only shrinks.
\<close>

theorem hole_closed_by_priority:
  assumes "check_to_drop_frames now pframes s = (s1, released, br)" and "released \<noteq> []"
    and "list_all (low_frame (if pframes then OBS_NAL_PRIORITY_HIGHEST else OBS_NAL_PRIORITY_HIGH)) as"
  shows "subseq (filter is_video (packets (queue_ops as s1))) (filter is_video (packets s1))"
  using assms(1)
proof (cases rule: check_cases)
  case same
  then show ?thesis using assms(2) by simp
next
  case (dropped prio)
  then show ?thesis using assms(3) queue_ops_low [of prio "as" s1] by (simp only:)
qed

lemma hole_closed_witness:
  "filter is_video (packets (queue_ops [Put 1 (queue_pkt OBS_ENCODER_VIDEO 700000 1 False), Take]
     (fst (check_to_drop_frames 0 False queue_sample)))) = []"
proof -
  let ?a = "[Put 1 (queue_pkt OBS_ENCODER_VIDEO 700000 1 False), Take]"
  obtain s1 rel br where c: "check_to_drop_frames 0 False queue_sample = (s1, rel, br)"
    by (cases "check_to_drop_frames 0 False queue_sample")
  then have e: "packets s1 = []" and r: "rel \<noteq> []"
    by (auto simp: check_to_drop_frames_def dbr_maybe_inc_def num_buffered_packets_def
        find_first_video_packet_def drop_frames_def keep_frame_def Let_def queue_sample_def queue_pkt_def
        OBS_NAL_PRIORITY_HIGH_def upt_rec)
  have low: "list_all (low_frame (if False then OBS_NAL_PRIORITY_HIGHEST else OBS_NAL_PRIORITY_HIGH)) ?a"
    by (simp add: queue_pkt_def OBS_NAL_PRIORITY_HIGH_def)
  show ?thesis using hole_closed_by_priority [OF c r low] by (simp add: e c)
qed

section \<open>The dynamic bitrate\<close>

text \<open>
  \<open>init_connect\<close> sets the current bitrate to the configured one and the step to a tenth of it. The
  previous bitrate it leaves alone: here it is required to be unset.
\<close>

definition dbr_fresh :: "'c rtmp_stream \<Rightarrow> bool" where
  "dbr_fresh s \<longleftrightarrow> 50 \<le> dbr_orig_bitrate s \<and> dbr_cur_bitrate s = dbr_orig_bitrate s \<and>
     dbr_inc_step s = c_div (dbr_orig_bitrate s) 10 \<and> dbr_prev_bitrate s = 0"

definition dbr_ok :: "'c rtmp_stream \<Rightarrow> bool" where
  "dbr_ok s \<longleftrightarrow> 50 \<le> dbr_cur_bitrate s \<and> dbr_cur_bitrate s \<le> dbr_orig_bitrate s \<and> 0 \<le> dbr_inc_step s \<and>
     (dbr_prev_bitrate s = 0 \<or> 50 \<le> dbr_prev_bitrate s \<and> dbr_prev_bitrate s \<le> dbr_orig_bitrate s)"

text \<open>What touches the queue while the output runs: packets, the sender, and its measurements.\<close>

inductive dbr_step :: "(video_id_t \<Rightarrow> encoder_packet \<Rightarrow> encoder_packet) \<Rightarrow> 'c rtmp_stream \<Rightarrow> 'c rtmp_stream \<Rightarrow> bool"
  for parse where
  step_data: "rtmp_stream_data_direct parse now pkt s = (s', released, br) \<Longrightarrow> dbr_step parse s s'"
| step_take: "get_next_packet s = Some (s', p) \<Longrightarrow> dbr_step parse s s'"
| step_measure: "dbr_step parse s (dbr_add_frame f s)"

inductive_cases dbr_stepE: "dbr_step parse s s'"

definition bitrates_ok :: "'c rtmp_stream \<Rightarrow> 'c rtmp_stream \<Rightarrow> int list \<Rightarrow> bool" where
  "bitrates_ok s s' br \<longleftrightarrow> dbr_ok s' \<and> dbr_orig_bitrate s' = dbr_orig_bitrate s \<and>
     (\<forall>b \<in> set br. 50 \<le> b \<and> b \<le> dbr_orig_bitrate s)"

lemma inc_ok:
  assumes "dbr_ok s" and "dbr_maybe_inc now pf s = (s', br)"
  shows "bitrates_ok s s' br"
  using assms by (auto simp: bitrates_ok_def dbr_ok_def dbr_maybe_inc_def dbr_inc_bitrate_def Let_def
      split: if_splits)

lemma c_div_round: "c_div x 100 * 100 \<le> max x 0"
proof (cases "0 \<le> x")
  case True
  then show ?thesis by (simp add: c_div_nonneg)
next
  case False
  then show ?thesis using pos_imp_zdiv_nonneg_iff [of 100 "- x"] by (simp add: c_div_def sgn_if)
qed

lemma lowered_ok:
  assumes "dbr_ok s" and "dbr_bitrate_lowered now s = (s', changed)"
  shows "dbr_ok s' \<and> dbr_orig_bitrate s' = dbr_orig_bitrate s"
proof -
  let ?est = "max (c_div (dbr_est_bitrate s) 100 * 100) 50"
  show ?thesis
  proof (cases "dbr_est_bitrate s \<noteq> 0 \<and> dbr_est_bitrate s < dbr_cur_bitrate s")
    case True
    have "50 \<le> ?est" and "?est \<le> dbr_orig_bitrate s" and "?est \<noteq> 0"
      using c_div_round [of "dbr_est_bitrate s"] assms(1) True by (auto simp: dbr_ok_def)
    then show ?thesis
      using assms True by (auto simp: dbr_bitrate_lowered_def dbr_ok_def Let_def split: if_splits)
  next
    case False
    then show ?thesis
      using assms by (auto simp: dbr_bitrate_lowered_def dbr_ok_def Let_def split: if_splits)
  qed
qed

text \<open>The fields the bitrate logic reads are not touched by the rest of a check.\<close>

lemma check_bitrates:
  assumes ok: "dbr_ok s" and check: "check_to_drop_frames now pf s = (s', released, br)"
  shows "bitrates_ok s s' br"
proof (rule check_shape [OF check])
  fix s1 set1 s2
  assume m: "dbr_maybe_inc now pf s = (s1, set1)" and s2: "s2 = s1 \<or> (\<exists>c. s2 = s1\<lparr>congestion := c\<rparr>)"
    and ends: "s' = s2 \<and> released = [] \<and> br = set1 \<or>
      (\<exists>ch. dbr_bitrate_lowered now s2 = (s', ch) \<and> released = [] \<and>
         br = (if ch then set1 @ [dbr_cur_bitrate s'] else set1)) \<or>
      drop_frames (if pf then OBS_NAL_PRIORITY_HIGHEST else OBS_NAL_PRIORITY_HIGH) s2 = (s', released) \<and>
      br = set1"
  have b2: "bitrates_ok s s2 set1"
    using inc_ok [OF ok m] s2 by (auto simp: bitrates_ok_def dbr_ok_def)
  consider "s' = s2" "br = set1" | ch where "dbr_bitrate_lowered now s2 = (s', ch)"
      "br = (if ch then set1 @ [dbr_cur_bitrate s'] else set1)"
    | pr where "drop_frames pr s2 = (s', released)" "br = set1"
    using ends by blast
  then show ?thesis
  proof cases
    case 1
    then show ?thesis using b2 by simp
  next
    case (2 ch)
    then show ?thesis using lowered_ok [OF _ 2(1)] b2 by (auto simp: bitrates_ok_def dbr_ok_def)
  next
    case (3 pr)
    then show ?thesis using b2 by (auto simp: bitrates_ok_def dbr_ok_def drop_frames_def split: prod.splits)
  qed
qed

lemma bitrates_trans:
  "bitrates_ok s t b1 \<Longrightarrow> bitrates_ok t u b2 \<Longrightarrow> bitrates_ok s u (b1 @ b2)"
  by (auto simp: bitrates_ok_def)

lemma data_bitrates:
  assumes "dbr_ok s" and "rtmp_stream_data_direct parse now pkt s = (s', released, br)"
  shows "bitrates_ok s s' br"
proof -
  have queue: "bitrates_ok t t' br" if "dbr_ok t" "queue_packet now video p t = (t', released, br)"
    for t t' released br video p
  proof -
    obtain t1 r1 b1 where c1: "check_to_drop_frames now False t = (t1, r1, b1)"
      by (cases "check_to_drop_frames now False t")
    obtain t2 r2 b2 where c2: "check_to_drop_frames now True t1 = (t2, r2, b2)"
      by (cases "check_to_drop_frames now True t1")
    have "bitrates_ok t t2 (b1 @ b2)"
      using check_bitrates [OF that(1) c1] check_bitrates [OF _ c2]
      by (auto intro: bitrates_trans simp: bitrates_ok_def)
    then show ?thesis
      using that by (auto simp: queue_packet_def add_video_packet_def add_packet_def c1 c2 Let_def
          bitrates_ok_def dbr_ok_def split: if_splits)
  qed
  have note_ok: "dbr_ok (note_first_packet p s)" "dbr_orig_bitrate (note_first_packet p s) = dbr_orig_bitrate s"
    for p using assms(1) by (simp_all add: note_first_packet_def dbr_ok_def)
  show ?thesis
  proof (cases pkt)
    case None
    then show ?thesis
      using assms by (auto simp: rtmp_stream_data_direct_def bitrates_ok_def dbr_ok_def split: if_splits)
  next
    case (Some p)
    then show ?thesis
      using assms queue [OF note_ok(1)] note_ok
      by (auto simp: rtmp_stream_data_direct_def Let_def bitrates_ok_def split: if_splits) 
  qed
qed

interpretation dbr: guarded_system dbr_fresh "dbr_step parse" dbr_ok for parse
proof
  show "dbr_fresh s \<Longrightarrow> dbr_ok s" for s :: "'a rtmp_stream"
    by (simp add: dbr_fresh_def dbr_ok_def c_div_nonneg pos_imp_zdiv_nonneg_iff)
  show "dbr_ok t" if "dbr_ok s" "dbr_step parse s t" for s t :: "'a rtmp_stream"
    using that(2)
  proof cases
    case (step_data now pkt released br)
    then show ?thesis using data_bitrates [OF that(1)] by (auto simp: bitrates_ok_def)
  next
    case (step_take p)
    then show ?thesis
      using that(1) by (auto simp: get_next_packet_def dbr_ok_def split: list.splits)
  next
    case (step_measure f)
    then show ?thesis
      using that(1) by (simp add: dbr_add_frame_def dbr_ok_def Let_def split: prod.splits)
  qed
qed


text \<open>An overloaded connection: the measured rate is below the current one.\<close>

definition slow_sample :: "unit rtmp_stream" where
  "slow_sample = queue_sample\<lparr>dbr_enabled := True\<rparr>"

lemma slow_sample_step:
  "\<exists>s' released. rtmp_stream_data_direct (\<lambda>c p. p) 7 (Some (queue_pkt OBS_ENCODER_VIDEO 600000 1 False))
     (dbr_add_frame \<lparr>send_beg = 0, send_end = 1000000000, fr_size = 125000\<rparr> slow_sample) =
     (s', released, [800])"
  by (simp add: rtmp_stream_data_direct_def note_first_packet_def queue_packet_def add_video_packet_def
      check_to_drop_frames_def dbr_maybe_inc_def dbr_bitrate_lowered_def dbr_add_frame_def
      num_buffered_packets_def find_first_video_packet_def Let_def DBR_TRIGGER_USEC_def
      MAX_ESTIMATE_DURATION_MS_def MIN_ESTIMATE_DURATION_MS_def as_i32_def c_div_def
      slow_sample_def queue_sample_def queue_pkt_def upt_rec add_packet_def)


text \<open>
  \<open>init_connect\<close> leaves \<open>dbr_prev_bitrate\<close> as the last session left it. With a lower bitrate
  configured for the new session, the first reaction to a slow connection can raise the bitrate
  above it: here from 2500 to the 6000 of the session before.
\<close>

lemma stale_bitrate_exceeds_configured:
  "\<exists>s :: unit rtmp_stream. dbr_cur_bitrate s = dbr_orig_bitrate s \<and> dbr_orig_bitrate s = 2500 \<and>
     (\<exists>s'. check_to_drop_frames 0 False s = (s', [], [6000]))"
  by (rule exI [of _ "slow_sample\<lparr>dbr_prev_bitrate := 6000\<rparr>"])
    (simp add: check_to_drop_frames_def dbr_maybe_inc_def dbr_bitrate_lowered_def num_buffered_packets_def
      find_first_video_packet_def Let_def DBR_TRIGGER_USEC_def slow_sample_def queue_sample_def
      queue_pkt_def upt_rec)

end
