(* ===== verification/Rtmp_Chunk.thy ===== *)
theory Rtmp_Chunk
  imports Bytes Amf C_Double
begin

text \<open>
  The sending half of the RTMP chunk layer of \<open>src/rtmp/librtmp/rtmp.c\<close>: the connection and packet
  structures, \<open>WriteN\<close>, \<open>RTMP_SendPacket\<close>, the messages the client sends, and \<open>RTMP_Close\<close>. The
  socket is a parameter, a record of operations on the state \<open>'c\<close> of the network. \<open>None\<close> is a call
  that never returns. The transport is plain RTMP: tunnelling over HTTP is not modelled.
\<close>

section \<open>The socket\<close>

datatype send_result = Sent nat | SendInterrupted | SendFailed int

datatype recv_result = Received "byte list" | RecvClosed | RecvTimedOut | RecvInterrupted | RecvFailed

record 'c net_ops =
  net_send :: "'c \<Rightarrow> byte list \<Rightarrow> 'c \<times> send_result"
  net_recv :: "'c \<Rightarrow> nat \<Rightarrow> 'c \<times> recv_result"
  net_close :: "'c \<Rightarrow> 'c"

section \<open>Packets and connections\<close>

text \<open>
  The body is the allocation from \<open>m_body\<close> on, \<open>None\<close> for NULL; the 18 bytes of room in front of it
  belong to the header. The arrays indexed by channel are maps, NULL and 0 outside the allocated
  range. \<open>m_outChunkSize\<close> is only ever 128 or 4096. A double is its 64-bit image, \<open>lnk_write\<close> the flag
  \<open>RTMP_FEATURE_WRITE\<close> of the protocol and \<open>lnk_protocol\<close> the rest of it, \<open>rd_dataType\<close> and
  \<open>rd_seeking\<close> are the media found in the metadata and a flag of \<open>m_read\<close>, \<open>lnk_bufx\<close> and \<open>lnk_authFlag\<close> are bits of \<open>lFlags\<close>.
\<close>

record rtmp_packet =
  m_headerType :: nat
  m_packetType :: byte
  m_hasAbsTimestamp :: bool
  m_nChannel :: nat
  m_nTimeStamp :: u32
  m_nLastWireTimeStamp :: u32
  m_nInfoField2 :: u32
  m_nBodySize :: u32
  m_nBytesRead :: u32
  m_body :: "byte list option"

record rtmp_stream_link =
  st_id :: int
  st_playpath :: "byte list"

record 'c rtmp =
  m_inChunkSize :: int
  m_outChunkSize :: nat
  m_nBWCheckCounter :: int
  m_nBytesIn :: int
  m_nBytesInSent :: int
  m_nBufferMS :: int
  m_stream_id :: int
  m_mediaChannel :: nat
  m_mediaStamp :: u32
  m_pauseStamp :: u32
  m_pausing :: nat
  m_nServerBW :: int
  m_nClientBW :: int
  m_nClientBW2 :: byte
  m_bPlaying :: bool
  m_bSendCounter :: bool
  m_numInvokes :: int
  m_methodCalls :: "(byte list \<times> int) list"
  m_channelsAllocatedIn :: nat
  m_channelsAllocatedOut :: nat
  m_vecChannelsIn :: "nat \<Rightarrow> rtmp_packet option"
  m_vecChannelsOut :: "nat \<Rightarrow> rtmp_packet option"
  m_channelTimestamp :: "nat \<Rightarrow> u32"
  m_write :: rtmp_packet
  sb_buf :: "byte list"
  sb_timedout :: bool
  sb_connected :: bool
  m_bSendChunkSizeInfo :: bool
  m_bSendEncoding :: bool
  m_fEncoding :: u64
  m_fAudioCodecs :: u64
  m_fVideoCodecs :: u64
  m_fDuration :: u64
  rd_dataType :: byte
  rd_seeking :: bool
  lnk_protocol :: nat
  lnk_hostname :: "byte list option"
  lnk_port :: nat
  lnk_app :: "byte list"
  lnk_tcUrl :: "byte list"
  lnk_swfUrl :: "byte list"
  lnk_pageUrl :: "byte list"
  lnk_flashVer :: "byte list"
  lnk_auth :: "byte list"
  lnk_authFlag :: bool
  lnk_extras :: amf_object
  lnk_write :: bool
  lnk_bufx :: bool
  lnk_streams :: "rtmp_stream_link list"
  lnk_curStreamIdx :: nat
  lnk_playingStreams :: int
  rtmp_error :: int
  net :: 'c

definition RTMP_MAX_HEADER_SIZE :: nat where "RTMP_MAX_HEADER_SIZE = 18"
definition RTMP_DEFAULT_CHUNKSIZE :: nat where "RTMP_DEFAULT_CHUNKSIZE = 128"
definition RTMP_PACKET_SIZE_LARGE :: nat where "RTMP_PACKET_SIZE_LARGE = 0"
definition RTMP_PACKET_SIZE_MEDIUM :: nat where "RTMP_PACKET_SIZE_MEDIUM = 1"
definition RTMP_PACKET_SIZE_SMALL :: nat where "RTMP_PACKET_SIZE_SMALL = 2"
definition RTMP_PACKET_SIZE_MINIMUM :: nat where "RTMP_PACKET_SIZE_MINIMUM = 3"
definition RTMP_TYPE_CHUNK_SIZE :: byte where "RTMP_TYPE_CHUNK_SIZE = 0x01"
definition RTMP_TYPE_BYTES_READ_REPORT :: byte where "RTMP_TYPE_BYTES_READ_REPORT = 0x03"
definition RTMP_TYPE_CONTROL :: byte where "RTMP_TYPE_CONTROL = 0x04"
definition RTMP_TYPE_SERVER_BW :: byte where "RTMP_TYPE_SERVER_BW = 0x05"
definition RTMP_TYPE_CLIENT_BW :: byte where "RTMP_TYPE_CLIENT_BW = 0x06"
definition RTMP_TYPE_AUDIO :: byte where "RTMP_TYPE_AUDIO = 0x08"
definition RTMP_TYPE_VIDEO :: byte where "RTMP_TYPE_VIDEO = 0x09"
definition RTMP_TYPE_INFO :: byte where "RTMP_TYPE_INFO = 0x12"
definition RTMP_TYPE_INVOKE :: byte where "RTMP_TYPE_INVOKE = 0x14"

lemmas header_types = RTMP_PACKET_SIZE_LARGE_def RTMP_PACKET_SIZE_MEDIUM_def
  RTMP_PACKET_SIZE_SMALL_def RTMP_PACKET_SIZE_MINIMUM_def

fun packetSize :: "nat \<Rightarrow> nat" where
  "packetSize t = (if t = 0 then 12 else if t = 1 then 8 else if t = 2 then 4 else 1)"

definition packet_zero :: rtmp_packet where
  "packet_zero =
     \<lparr>m_headerType = 0, m_packetType = 0, m_hasAbsTimestamp = False, m_nChannel = 0, m_nTimeStamp = 0,
      m_nLastWireTimeStamp = 0, m_nInfoField2 = 0, m_nBodySize = 0, m_nBytesRead = 0, m_body = None\<rparr>"

definition RTMPPacket_Reset :: "rtmp_packet \<Rightarrow> rtmp_packet" where
  "RTMPPacket_Reset p =
     p\<lparr>m_headerType := 0, m_packetType := 0, m_nChannel := 0, m_nTimeStamp := 0, m_nInfoField2 := 0,
       m_hasAbsTimestamp := False, m_nBodySize := 0, m_nBytesRead := 0\<rparr>"

definition RTMPPacket_Alloc :: "rtmp_packet \<Rightarrow> u32 \<Rightarrow> rtmp_packet" where
  "RTMPPacket_Alloc p nSize = p\<lparr>m_body := Some (replicate (unat nSize) 0), m_nBytesRead := 0\<rparr>"

definition RTMPPacket_Free :: "rtmp_packet \<Rightarrow> rtmp_packet" where
  "RTMPPacket_Free p = p\<lparr>m_body := None\<rparr>"

definition RTMPPacket_IsReady :: "rtmp_packet \<Rightarrow> bool" where
  "RTMPPacket_IsReady p \<longleftrightarrow> m_nBytesRead p = m_nBodySize p"

definition RTMP_IsConnected :: "'c rtmp \<Rightarrow> bool" where
  "RTMP_IsConnected r \<longleftrightarrow> sb_connected r"

text \<open>A connection as \<open>RTMP_Init\<close> leaves it; the doubles are 3191, 252 and 0.\<close>

definition RTMP_Reset :: "'c rtmp \<Rightarrow> 'c rtmp" where
  "RTMP_Reset r =
     r\<lparr>m_inChunkSize := int RTMP_DEFAULT_CHUNKSIZE, m_outChunkSize := RTMP_DEFAULT_CHUNKSIZE,
       m_bSendChunkSizeInfo := True, m_nBufferMS := 30000, m_nClientBW := 2500000, m_nClientBW2 := 2,
       m_nServerBW := 2500000, m_fAudioCodecs := 0x40A8EE0000000000, m_fVideoCodecs := 0x406F800000000000,
       lnk_curStreamIdx := 0, lnk_streams := []\<rparr>"

definition RTMP_Init :: "'c \<Rightarrow> 'c rtmp" where
  "RTMP_Init c =
     RTMP_Reset
       \<lparr>m_inChunkSize = 0, m_outChunkSize = 0, m_nBWCheckCounter = 0, m_nBytesIn = 0, m_nBytesInSent = 0,
        m_nBufferMS = 0, m_stream_id = 0, m_mediaChannel = 0, m_mediaStamp = 0, m_pauseStamp = 0,
        m_pausing = 0, m_nServerBW = 0, m_nClientBW = 0, m_nClientBW2 = 0, m_bPlaying = False,
        m_bSendCounter = False, m_numInvokes = 0, m_methodCalls = [], m_channelsAllocatedIn = 0,
        m_channelsAllocatedOut = 0, m_vecChannelsIn = (\<lambda>_. None), m_vecChannelsOut = (\<lambda>_. None),
        m_channelTimestamp = (\<lambda>_. 0), m_write = packet_zero, sb_buf = [], sb_timedout = False,
        sb_connected = False, m_bSendChunkSizeInfo = False, m_bSendEncoding = False, m_fEncoding = 0,
        m_fAudioCodecs = 0, m_fVideoCodecs = 0, m_fDuration = 0, rd_dataType = 0, rd_seeking = False,
        lnk_protocol = 0, lnk_hostname = None, lnk_port = 0, lnk_app = [], lnk_tcUrl = [], lnk_swfUrl = [],
        lnk_pageUrl = [], lnk_flashVer = [], lnk_auth = [], lnk_authFlag = False, lnk_extras = [],
        lnk_write = False, lnk_bufx = False, lnk_streams = [], lnk_curStreamIdx = 0,
        lnk_playingStreams = 0, rtmp_error = 0, net = c\<rparr>"

section \<open>\<open>WriteN\<close>\<close>

definition RTMPSockBuf_Close :: "'c net_ops \<Rightarrow> 'c rtmp \<Rightarrow> 'c rtmp" where
  "RTMPSockBuf_Close ops r = (if RTMP_IsConnected r then r\<lparr>net := net_close ops (net r)\<rparr> else r)"

text \<open>
  \<open>close\<close> is \<open>RTMP_Close\<close>, which is defined below and writes in its turn. A failed send closes the
  socket first.
\<close>

type_synonym 'c closer = "'c rtmp \<Rightarrow> 'c rtmp option"

partial_function (option) WriteN ::
  "'c closer \<Rightarrow> 'c net_ops \<Rightarrow> 'c rtmp \<Rightarrow> byte list \<Rightarrow> ('c rtmp \<times> bool) option" where
  "WriteN close ops r bs =
     (if bs = [] then Some (r, True)
      else case net_send ops (net r) bs of (c, res) \<Rightarrow>
        (case res of
           SendFailed e \<Rightarrow>
             Option.bind (close (RTMPSockBuf_Close ops (r\<lparr>net := c, rtmp_error := e\<rparr>))) (\<lambda>r1. Some (r1, False))
         | SendInterrupted \<Rightarrow> WriteN close ops (r\<lparr>net := c\<rparr>) bs
         | Sent k \<Rightarrow> if k = 0 then Some (r\<lparr>net := c\<rparr>, False)
                     else WriteN close ops (r\<lparr>net := c\<rparr>) (drop k bs)))"

section \<open>\<open>RTMP_SendPacket\<close>\<close>

text \<open>
  The choice of the header, from the packet sent before on the channel: the packet with its header
  type, and the time its timestamp is taken relative to.
\<close>

definition compress_header :: "rtmp_packet option \<Rightarrow> rtmp_packet \<Rightarrow> rtmp_packet \<times> u32" where
  "compress_header prev p =
     (case prev of
        None \<Rightarrow> (p, 0)
      | Some q \<Rightarrow>
          if m_headerType p = RTMP_PACKET_SIZE_LARGE then (p, 0)
          else
            let p1 = (if m_nBodySize q = m_nBodySize p \<and> m_packetType q = m_packetType p \<and>
                         m_headerType p = RTMP_PACKET_SIZE_MEDIUM
                      then p\<lparr>m_headerType := RTMP_PACKET_SIZE_SMALL\<rparr> else p);
                p2 = (if m_nTimeStamp p - m_nTimeStamp q = m_nLastWireTimeStamp q \<and>
                         m_headerType p1 = RTMP_PACKET_SIZE_SMALL
                      then p1\<lparr>m_headerType := RTMP_PACKET_SIZE_MINIMUM\<rparr> else p1)
            in (p2, m_nTimeStamp q))"

definition channel_extra :: "nat \<Rightarrow> nat" where
  "channel_extra ch = (if ch > 319 then 2 else if ch > 63 then 1 else 0)"

definition header_byte :: "nat \<Rightarrow> nat \<Rightarrow> byte" where
  "header_byte ht ch =
     (let c = of_nat (ht * 64)
      in if channel_extra ch = 0 then or c (of_nat ch) else if channel_extra ch = 1 then c else or c 1)"

definition channel_bytes :: "nat \<Rightarrow> byte list" where
  "channel_bytes ch =
     (if channel_extra ch = 0 then []
      else if channel_extra ch = 1 then [of_nat (ch - 64)]
      else [of_nat (ch - 64), of_nat ((ch - 64) div 256)])"

definition EncodeInt32LE :: "u32 \<Rightarrow> byte list" where
  "EncodeInt32LE v = [ucast v, ucast (drop_bit 8 v), ucast (drop_bit 16 v), ucast (drop_bit 24 v)]"

definition message_header :: "rtmp_packet \<Rightarrow> u32 \<Rightarrow> byte list" where
  "message_header p t =
     (let nSize = packetSize (m_headerType p)
      in header_byte (m_headerType p) (m_nChannel p) # channel_bytes (m_nChannel p) @
         (if nSize > 1 then be24 (if t > 0xffffff then 0xffffff else t) else []) @
         (if nSize > 4 then be24 (m_nBodySize p) @ [m_packetType p] else []) @
         (if nSize > 8 then EncodeInt32LE (m_nInfoField2 p) else []) @
         (if nSize > 1 \<and> t \<ge> 0xffffff then be32 t else []))"

definition continuation_header :: "rtmp_packet \<Rightarrow> u32 \<Rightarrow> byte list" where
  "continuation_header p t =
     or 0xc0 (header_byte (m_headerType p) (m_nChannel p)) # channel_bytes (m_nChannel p) @
     (if t \<ge> 0xffffff then be32 t else [])"

text \<open>
  The chunks. The header of each chunk is put right in front of its part of the body: the first in
  the room before the body, the others over body bytes already sent. \<open>mem\<close> is the room and the
  body, \<open>buf\<close> the position of the next part and \<open>hSize\<close> the bytes of header before it.
\<close>

definition put_bytes :: "nat \<Rightarrow> 'a list \<Rightarrow> 'a list \<Rightarrow> 'a list" where
  "put_bytes pos xs mem = take pos mem @ xs @ drop (pos + length xs) mem"

partial_function (option) send_chunks ::
  "'c closer \<Rightarrow> 'c net_ops \<Rightarrow> byte list \<Rightarrow> 'c rtmp \<Rightarrow> byte list \<Rightarrow> nat \<Rightarrow> nat \<Rightarrow> nat \<Rightarrow> nat \<Rightarrow>
   ('c rtmp \<times> byte list \<times> bool) option" where
  "send_chunks close ops cont r mem buf hSize nSize nChunkSize =
     (if nSize + hSize = 0 then Some (r, mem, True)
      else
        let n = (if nSize < nChunkSize then nSize else nChunkSize)
        in Option.bind (WriteN close ops r (take (n + hSize) (drop (buf - hSize) mem))) (\<lambda>(r1, wrote).
             if \<not> wrote then Some (r1, mem, False)
             else if nSize - n > 0
             then send_chunks close ops cont r1 (put_bytes (buf + n - length cont) cont mem)
                    (buf + n) (length cont) (nSize - n) n
             else send_chunks close ops cont r1 mem (buf + n) 0 (nSize - n) n))"

text \<open>
  The call queue. The bodies the code sends as calls all start with an encoded name and number;
  reading anything else is not modelled, and leaves the queue as it is.
\<close>

definition AV_queue :: "byte list \<Rightarrow> int \<Rightarrow> 'c rtmp \<Rightarrow> 'c rtmp" where
  "AV_queue name txn r = r\<lparr>m_methodCalls := m_methodCalls r @ [(name, txn)]\<rparr>"

definition queue_call :: "byte list \<Rightarrow> 'c rtmp \<Rightarrow> 'c rtmp" where
  "queue_call mem r =
     (case amf_decode_string mem 1 of
        Inl e \<Rightarrow> r
      | Inr name \<Rightarrow>
          (case amf_decode_number mem (4 + int (length name)) of
             Inl e \<Rightarrow> r
           | Inr d \<Rightarrow> AV_queue name (double_to_int d) r))"

text \<open>Sending a packet whose header type and time on the wire are chosen.\<close>

definition packet_mem :: "rtmp_packet \<Rightarrow> byte list" where
  "packet_mem p =
     (let hdr = message_header p (m_nLastWireTimeStamp p)
      in put_bytes (RTMP_MAX_HEADER_SIZE - length hdr) hdr
           (replicate RTMP_MAX_HEADER_SIZE 0 @ (case m_body p of None \<Rightarrow> [] | Some b \<Rightarrow> b)))"

definition send_prepared ::
  "'c closer \<Rightarrow> 'c net_ops \<Rightarrow> 'c rtmp \<Rightarrow> rtmp_packet \<Rightarrow> bool \<Rightarrow> ('c rtmp \<times> rtmp_packet \<times> bool) option" where
  "send_prepared close ops r p queue =
     (let t = m_nLastWireTimeStamp p
      in Option.bind
           (send_chunks close ops (continuation_header p t) r (packet_mem p) RTMP_MAX_HEADER_SIZE
              (length (message_header p t)) (unat (m_nBodySize p)) (m_outChunkSize r)) (\<lambda>(r1, mem1, ok).
           if \<not> ok then Some (r1, p, False)
           else
             let r2 = (if m_packetType p = RTMP_TYPE_INVOKE \<and> queue
                       then queue_call (drop RTMP_MAX_HEADER_SIZE mem1) r1 else r1)
             in Some (r2\<lparr>m_vecChannelsOut := (m_vecChannelsOut r2)(m_nChannel p \<mapsto> p)\<rparr>, p, True)))"

definition RTMP_SendPacket ::
  "'c closer \<Rightarrow> 'c net_ops \<Rightarrow> 'c rtmp \<Rightarrow> rtmp_packet \<Rightarrow> bool \<Rightarrow> ('c rtmp \<times> rtmp_packet \<times> bool) option" where
  "RTMP_SendPacket close ops r0 p0 queue =
     (let ch = m_nChannel p0;
          r = (if ch \<ge> m_channelsAllocatedOut r0 then r0\<lparr>m_channelsAllocatedOut := ch + 10\<rparr> else r0);
          (p, last_ts) = compress_header (m_vecChannelsOut r ch) p0
      in if m_headerType p > 3 then Some (r, p, False)
         else send_prepared close ops r (p\<lparr>m_nLastWireTimeStamp := m_nTimeStamp p - last_ts\<rparr>) queue)"

end
