(* ===== verification/Rtmp_Wire.thy ===== *)
theory Rtmp_Wire
  imports Rtmp_Chunk
begin

text \<open>
  What \<open>RTMP_SendPacket\<close> puts on the wire: the bytes of a message as a function of the packet and
  of the packet sent before on its channel, and the proof that the code, which writes each header
  over the body it has already sent, sends exactly these bytes.
\<close>

section \<open>A network that loses nothing\<close>

text \<open>
  \<open>send\<close> takes a part of what it is offered, \<open>recv\<close> gives a part of what has arrived: the documented
  behaviour of a stream socket while the connection is up. \<open>sent\<close> is what has been taken so far,
  \<open>arriving\<close> what is still to be read.
\<close>

definition reliable_net :: "'c net_ops \<Rightarrow> ('c \<Rightarrow> byte list) \<Rightarrow> ('c \<Rightarrow> byte list) \<Rightarrow> bool" where
  "reliable_net ops sent arriving \<longleftrightarrow>
     (\<forall>c bs. bs \<noteq> [] \<longrightarrow>
        (\<exists>c' k. net_send ops c bs = (c', Sent k) \<and> 0 < k \<and> k \<le> length bs \<and>
           sent c' = sent c @ take k bs \<and> arriving c' = arriving c)) \<and>
     (\<forall>c n. 0 < n \<and> arriving c \<noteq> [] \<longrightarrow>
        (\<exists>c' bs. net_recv ops c n = (c', Received bs) \<and> bs \<noteq> [] \<and> length bs \<le> n \<and>
           arriving c = bs @ arriving c' \<and> sent c' = sent c))"

lemma reliable_send:
  assumes "reliable_net ops sent arriving" and "bs \<noteq> []"
  obtains c k where "net_send ops c0 bs = (c, Sent k)" and "0 < k" and "k \<le> length bs"
    and "sent c = sent c0 @ take k bs" and "arriving c = arriving c0"
  using assms unfolding reliable_net_def by blast

lemma reliable_recv:
  assumes "reliable_net ops sent arriving" and "0 < n" and "arriving c0 \<noteq> []"
  obtains c bs where "net_recv ops c0 n = (c, Received bs)" and "bs \<noteq> []" and "length bs \<le> n"
    and "arriving c0 = bs @ arriving c" and "sent c = sent c0"
  using assms unfolding reliable_net_def by blast

lemma WriteN_reliable:
  assumes net: "reliable_net ops sent arriving"
  shows "\<exists>c. WriteN close ops r bs = Some (r\<lparr>net := c\<rparr>, True) \<and> sent c = sent (net r) @ bs \<and>
    arriving c = arriving (net r)"
proof (induction bs arbitrary: r rule: length_induct)
  case (1 bs)
  show ?case
  proof (cases "bs = []")
    case True
    then show ?thesis by (auto simp: WriteN.simps intro!: exI [of _ "net r"])
  next
    case False
    obtain c k where step: "net_send ops (net r) bs = (c, Sent k)" "0 < k" "k \<le> length bs"
      and c: "sent c = sent (net r) @ take k bs" "arriving c = arriving (net r)"
      using reliable_send [OF net False] .
    have "length (drop k bs) < length bs" using step(2) False by simp
    from 1 [rule_format, OF this, of "r\<lparr>net := c\<rparr>"]
    obtain c' where rec: "WriteN close ops (r\<lparr>net := c\<rparr>) (drop k bs) = Some (r\<lparr>net := c'\<rparr>, True)"
      and c': "sent c' = sent c @ drop k bs" "arriving c' = arriving c" by auto
    show ?thesis
      using False step rec c c' by (subst WriteN.simps) (auto intro: exI [of _ c'])
  qed
qed

section \<open>The bytes of a message\<close>

function chunk_parts :: "byte list \<Rightarrow> nat \<Rightarrow> byte list \<Rightarrow> byte list" where
  "chunk_parts cont k body =
     (if k = 0 \<or> length body \<le> k then body
      else take k body @ cont @ chunk_parts cont k (drop k body))"
  by pat_completeness auto
termination by (relation "measure (\<lambda>(cont, k, body). length body)") auto

declare chunk_parts.simps [simp del]

definition message_bytes :: "nat \<Rightarrow> rtmp_packet \<Rightarrow> byte list" where
  "message_bytes k p =
     message_header p (m_nLastWireTimeStamp p) @
     chunk_parts (continuation_header p (m_nLastWireTimeStamp p)) k
       (case m_body p of None \<Rightarrow> [] | Some b \<Rightarrow> b)"

lemma drop_put_bytes:
  assumes "pos + length xs \<le> n" and "n \<le> length mem"
  shows "drop n (put_bytes pos xs mem) = drop n mem"
  using assms by (simp add: put_bytes_def)

lemma take_put_bytes:
  assumes "pos + length xs \<le> length mem"
  shows "take (length xs) (drop pos (put_bytes pos xs mem)) = xs"
  using assms by (simp add: put_bytes_def)

lemma length_put_bytes [simp]:
  "pos + length xs \<le> length mem \<Longrightarrow> length (put_bytes pos xs mem) = length mem"
  by (simp add: put_bytes_def)

lemma take_drop_back:
  "h \<le> b \<Longrightarrow> take (n + h) (drop (b - h) mem) = take h (drop (b - h) mem) @ take n (drop b mem)"
  by (simp add: take_add add.commute [of n h])

lemma send_chunks_reliable:
  assumes net: "reliable_net ops sent arriving"
    and "0 < k" and "hSize \<le> buf" and "length cont \<le> buf" and "buf + nSize = length mem" and "0 < nSize + hSize"
  shows "\<exists>c mem'. send_chunks close ops cont r mem buf hSize nSize k = Some (r\<lparr>net := c\<rparr>, mem', True) \<and>
    sent c = sent (net r) @ take hSize (drop (buf - hSize) mem) @ chunk_parts cont k (drop buf mem) \<and>
    arriving c = arriving (net r) \<and> length mem' = length mem"
  using assms(2-)
proof (induction nSize arbitrary: r mem buf hSize rule: less_induct)
  case (less nSize)
  define n where "n = (if nSize < k then nSize else k)"
  obtain c where w: "WriteN close ops r (take (n + hSize) (drop (buf - hSize) mem)) = Some (r\<lparr>net := c\<rparr>, True)"
    and c: "sent c = sent (net r) @ take (n + hSize) (drop (buf - hSize) mem)" "arriving c = arriving (net r)"
    using WriteN_reliable [OF net] by blast
  have step: "send_chunks close ops cont r mem buf hSize nSize k =
    (if nSize - n > 0
     then send_chunks close ops cont (r\<lparr>net := c\<rparr>) (put_bytes (buf + n - length cont) cont mem)
            (buf + n) (length cont) (nSize - n) n
     else send_chunks close ops cont (r\<lparr>net := c\<rparr>) mem (buf + n) 0 (nSize - n) n)"
    using less.prems(5) by (subst send_chunks.simps) (auto simp: w Let_def simp flip: n_def)
  have out: "sent c = sent (net r) @ take hSize (drop (buf - hSize) mem) @ take n (drop buf mem)"
    using c(1) take_drop_back [OF less.prems(2)] by simp
  show ?case
  proof (cases "nSize \<le> k")
    case True
    then have n: "n = nSize" by (simp add: n_def)
    have "send_chunks close ops cont (r\<lparr>net := c\<rparr>) mem (buf + n) 0 0 n = Some (r\<lparr>net := c\<rparr>, mem, True)"
      by (subst send_chunks.simps) simp
    moreover have "chunk_parts cont k (drop buf mem) = take n (drop buf mem)"
      using True less.prems(4) n by (subst chunk_parts.simps) auto
    ultimately show ?thesis
      using step out c(2) n by auto
  next
    case False
    then have n: "n = k" by (simp add: n_def)
    let ?mem = "put_bytes (buf + k - length cont) cont mem"
    have len: "buf + k \<le> length mem" and eq: "length ?mem = length mem"
      using False less.prems by auto
    have hdr: "take (length cont) (drop (buf + k - length cont) ?mem) = cont"
      using less.prems len by (intro take_put_bytes) simp
    have rest: "drop (buf + k) ?mem = drop (buf + k) mem"
      using less.prems len by (intro drop_put_bytes) simp_all
    obtain c' mem' where rec: "send_chunks close ops cont (r\<lparr>net := c\<rparr>) ?mem (buf + k) (length cont) (nSize - k) k =
        Some (r\<lparr>net := c'\<rparr>, mem', True)"
      and c': "sent c' = sent c @ cont @ chunk_parts cont k (drop (buf + k) mem)" "arriving c' = arriving c"
      and len': "length mem' = length mem"
      using less.IH [of "nSize - k" "length cont" "buf + k" ?mem "r\<lparr>net := c\<rparr>"] False less.prems len eq
      by (auto simp: hdr rest)
    have "chunk_parts cont k (drop buf mem) =
        take k (drop buf mem) @ cont @ chunk_parts cont k (drop (buf + k) mem)"
      using False less.prems by (subst chunk_parts.simps) (auto simp: add.commute)
    then show ?thesis
      using step out c(2) rec c' len' False n by auto
  qed
qed

lemma header_lengths:
  "length (message_header p t) =
     packetSize (m_headerType p) + channel_extra (m_nChannel p) +
     (if packetSize (m_headerType p) > 1 \<and> t \<ge> 0xffffff then 4 else 0)"
  "length (continuation_header p t) = 1 + channel_extra (m_nChannel p) + (if t \<ge> 0xffffff then 4 else 0)"
  by (simp_all add: message_header_def continuation_header_def channel_bytes_def channel_extra_def
      EncodeInt32LE_def)

lemma header_room:
  "length (message_header p t) \<le> RTMP_MAX_HEADER_SIZE" "length (continuation_header p t) \<le> RTMP_MAX_HEADER_SIZE"
  "0 < length (message_header p t)"
  by (simp_all add: header_lengths channel_extra_def RTMP_MAX_HEADER_SIZE_def)

text \<open>The packet as it is sent on a channel whose last_ts packet is \<open>prev\<close>.\<close>

definition sent_packet :: "rtmp_packet option \<Rightarrow> rtmp_packet \<Rightarrow> rtmp_packet" where
  "sent_packet prev p =
     (let (p1, last_ts) = compress_header prev p in p1\<lparr>m_nLastWireTimeStamp := m_nTimeStamp p1 - last_ts\<rparr>)"

definition whole_body :: "rtmp_packet \<Rightarrow> bool" where
  "whole_body p \<longleftrightarrow> (case m_body p of None \<Rightarrow> m_nBodySize p = 0 | Some b \<Rightarrow> length b = unat (m_nBodySize p))"

lemma compress_same:
  assumes "compress_header prev p = (p1, last_ts)"
  shows "m_nChannel p1 = m_nChannel p" "m_packetType p1 = m_packetType p" "m_nTimeStamp p1 = m_nTimeStamp p"
    "m_nInfoField2 p1 = m_nInfoField2 p" "m_nBodySize p1 = m_nBodySize p" "m_body p1 = m_body p"
    "m_headerType p \<le> 3 \<Longrightarrow> m_headerType p1 \<le> 3"
  using assms by (auto simp: compress_header_def header_types Let_def split: option.splits if_splits)

lemma sent_packet_same [simp]:
  "m_nChannel (sent_packet prev p) = m_nChannel p" "m_packetType (sent_packet prev p) = m_packetType p"
  "m_nTimeStamp (sent_packet prev p) = m_nTimeStamp p" "m_nInfoField2 (sent_packet prev p) = m_nInfoField2 p"
  "m_nBodySize (sent_packet prev p) = m_nBodySize p" "m_body (sent_packet prev p) = m_body p"
  by (auto simp: sent_packet_def dest: compress_same split: prod.splits)

lemma send_message_reliable:
  assumes net: "reliable_net ops sent arriving" and k: "0 < k" and p: "whole_body p"
  shows "\<exists>c mem'. send_chunks close ops (continuation_header p (m_nLastWireTimeStamp p)) r (packet_mem p)
      RTMP_MAX_HEADER_SIZE (length (message_header p (m_nLastWireTimeStamp p))) (unat (m_nBodySize p)) k =
      Some (r\<lparr>net := c\<rparr>, mem', True) \<and>
    sent c = sent (net r) @ message_bytes k p \<and> arriving c = arriving (net r)"
proof -
  let ?hdr = "message_header p (m_nLastWireTimeStamp p)"
  let ?body = "case m_body p of None \<Rightarrow> [] | Some b \<Rightarrow> b"
  have len: "RTMP_MAX_HEADER_SIZE + unat (m_nBodySize p) = length (packet_mem p)"
    using p header_room(1) [of p "m_nLastWireTimeStamp p"]
    by (auto simp: whole_body_def packet_mem_def Let_def split: option.splits)
  have hdr: "take (length ?hdr) (drop (RTMP_MAX_HEADER_SIZE - length ?hdr) (packet_mem p)) = ?hdr"
    unfolding packet_mem_def Let_def using header_room(1) [of p "m_nLastWireTimeStamp p"]
    by (intro take_put_bytes) simp
  have body: "drop RTMP_MAX_HEADER_SIZE (packet_mem p) = ?body"
    unfolding packet_mem_def Let_def using header_room(1) [of p "m_nLastWireTimeStamp p"]
    by (subst drop_put_bytes) simp_all
  have "0 < unat (m_nBodySize p) + length ?hdr" using header_room(3) [of p "m_nLastWireTimeStamp p"] by simp
  from send_chunks_reliable [OF net k header_room(1) header_room(2) [of p "m_nLastWireTimeStamp p"] len this,
      where close = close and r = r]
  show ?thesis by (auto simp: hdr body message_bytes_def)
qed

lemma SendPacket_reliable:
  assumes net: "reliable_net ops sent arriving" and k: "0 < m_outChunkSize r"
    and p: "m_headerType p \<le> 3" "whole_body p"
    and q: "q = sent_packet (m_vecChannelsOut r (m_nChannel p)) p"
  shows "\<exists>a m c. RTMP_SendPacket close ops r p queue =
      Some (r\<lparr>m_channelsAllocatedOut := a, m_methodCalls := m, net := c,
        m_vecChannelsOut := (m_vecChannelsOut r)(m_nChannel p \<mapsto> q)\<rparr>, q, True) \<and>
    sent c = sent (net r) @ message_bytes (m_outChunkSize r) q \<and> arriving c = arriving (net r) \<and>
    (\<not> queue \<longrightarrow> m = m_methodCalls r)"
proof -
  let ?ch = "m_nChannel p"
  define r1 where "r1 = (if ?ch \<ge> m_channelsAllocatedOut r then r\<lparr>m_channelsAllocatedOut := ?ch + 10\<rparr> else r)"
  obtain p1 last_ts where comp: "compress_header (m_vecChannelsOut r ?ch) p = (p1, last_ts)"
    by (cases "compress_header (m_vecChannelsOut r ?ch) p")
  note same = compress_same [OF comp]
  have q': "q = p1\<lparr>m_nLastWireTimeStamp := m_nTimeStamp p1 - last_ts\<rparr>" by (simp add: q sent_packet_def comp)
  have ht: "\<not> m_headerType p1 > 3" using same(7) p(1) by simp
  have whole: "whole_body q" using p(2) by (simp add: q whole_body_def split: option.splits)
  have r1: "m_vecChannelsOut r1 = m_vecChannelsOut r" "m_outChunkSize r1 = m_outChunkSize r" "net r1 = net r"
    by (simp_all add: r1_def)
  obtain c mem' where chunks: "send_chunks close ops (continuation_header q (m_nLastWireTimeStamp q)) r1 (packet_mem q)
      RTMP_MAX_HEADER_SIZE (length (message_header q (m_nLastWireTimeStamp q))) (unat (m_nBodySize q))
      (m_outChunkSize r) = Some (r1\<lparr>net := c\<rparr>, mem', True)"
    and c: "sent c = sent (net r) @ message_bytes (m_outChunkSize r) q" "arriving c = arriving (net r)"
    using send_message_reliable [OF net k whole, of close r1] r1(3) by auto
  define r2 where "r2 = (if m_packetType q = RTMP_TYPE_INVOKE \<and> queue
    then queue_call (drop RTMP_MAX_HEADER_SIZE mem') (r1\<lparr>net := c\<rparr>) else r1\<lparr>net := c\<rparr>)"
  have "RTMP_SendPacket close ops r p queue = send_prepared close ops r1 q queue"
    using ht by (simp add: RTMP_SendPacket_def comp r1 q' Let_def flip: r1_def)
  also have "\<dots> = Some (r2\<lparr>m_vecChannelsOut := (m_vecChannelsOut r2)(m_nChannel q \<mapsto> q)\<rparr>, q, True)"
    using chunks by (simp add: send_prepared_def r1 r2_def Let_def)
  finally have "RTMP_SendPacket close ops r p queue =
      Some (r2\<lparr>m_vecChannelsOut := (m_vecChannelsOut r2)(?ch \<mapsto> q)\<rparr>, q, True)" by (simp add: q)
  moreover have "\<exists>a m. r2 = r\<lparr>m_channelsAllocatedOut := a, m_methodCalls := m, net := c\<rparr> \<and>
      (\<not> queue \<longrightarrow> m = m_methodCalls r)"
  proof -
    have "\<exists>a. r1 = r\<lparr>m_channelsAllocatedOut := a\<rparr>"
      by (auto simp: r1_def intro: exI [of _ "m_channelsAllocatedOut r"])
    moreover have "\<exists>m. queue_call mem s = s\<lparr>m_methodCalls := m\<rparr>" for mem and s :: "'a rtmp"
      by (auto simp: queue_call_def AV_queue_def split: sum.splits intro: exI [of _ "m_methodCalls s"])
    ultimately obtain a m' where "r1 = r\<lparr>m_channelsAllocatedOut := a\<rparr>"
      and "queue_call (drop RTMP_MAX_HEADER_SIZE mem') (r1\<lparr>net := c\<rparr>) = r1\<lparr>net := c, m_methodCalls := m'\<rparr>"
      by blast
    then have "r2 = r\<lparr>m_channelsAllocatedOut := a,
        m_methodCalls := (if m_packetType q = RTMP_TYPE_INVOKE \<and> queue then m' else m_methodCalls r), net := c\<rparr>"
      by (intro rtmp.equality) (auto simp: r2_def)
    then show ?thesis
      by (intro exI [of _ a] exI [of _ "if m_packetType q = RTMP_TYPE_INVOKE \<and> queue then m' else m_methodCalls r"])
        simp
  qed
  ultimately obtain a m where "RTMP_SendPacket close ops r p queue =
      Some (r\<lparr>m_channelsAllocatedOut := a, m_methodCalls := m, net := c,
        m_vecChannelsOut := (m_vecChannelsOut r)(?ch \<mapsto> q)\<rparr>, q, True)"
    and "\<not> queue \<longrightarrow> m = m_methodCalls r"
    by force
  then show ?thesis using c by (intro exI [of _ a] exI [of _ m] exI [of _ c]) simp
qed

end
