(* ===== verification/Rtmp_Messages.thy ===== *)
theory Rtmp_Messages
  imports Rtmp_Chunk Flv_Mux
begin

text \<open>
  The messages the client of \<open>src/rtmp/librtmp/rtmp.c\<close> sends: the control messages, the calls it
  invokes on the server, and \<open>RTMP_Close\<close>, which sends two of them. The body is encoded into a
  buffer on the stack: a step of the encoding gets the room left in it, and a step that does not fit
  makes the function return without sending. The result says whether the message went out.
\<close>

section \<open>Encoding a body\<close>

type_synonym amf_step = "nat \<Rightarrow> byte list option"

fun amf_steps :: "nat \<Rightarrow> amf_step list \<Rightarrow> byte list option" where
  "amf_steps room [] = Some []"
| "amf_steps room (st # sts) =
     Option.bind (st room) (\<lambda>bs. Option.bind (amf_steps (room - length bs) sts) (\<lambda>rest. Some (bs @ rest)))"

definition step_string :: "byte list \<Rightarrow> amf_step" where
  "step_string s = (\<lambda>room. amf_encode_string room s)"

definition step_number :: "u64 \<Rightarrow> amf_step" where
  "step_number d = (\<lambda>room. amf_encode_number room d)"

definition step_boolean :: "bool \<Rightarrow> amf_step" where
  "step_boolean b = (\<lambda>room. amf_encode_boolean room b)"

definition step_byte :: "byte \<Rightarrow> amf_step" where
  "step_byte b = (\<lambda>room. Some [b])"

definition double_of_int :: "int \<Rightarrow> u64" where
  "double_of_int n = double_bits (of_int n)"

text \<open>The packet of a message, as the functions fill it in, with the body they have encoded.\<close>

definition message_packet :: "nat \<Rightarrow> nat \<Rightarrow> byte \<Rightarrow> u32 \<Rightarrow> u32 \<Rightarrow> byte list \<Rightarrow> rtmp_packet" where
  "message_packet ch ht ty ts info body =
     packet_zero\<lparr>m_nChannel := ch, m_headerType := ht, m_packetType := ty, m_nTimeStamp := ts,
       m_nInfoField2 := info, m_nBodySize := of_nat (length body), m_body := Some body\<rparr>"

definition send_message ::
  "'c closer \<Rightarrow> 'c net_ops \<Rightarrow> rtmp_packet \<Rightarrow> bool \<Rightarrow> 'c rtmp \<Rightarrow> ('c rtmp \<times> bool) option" where
  "send_message close ops p queue r =
     map_option (\<lambda>(r1, p1, ok). (r1, ok)) (RTMP_SendPacket close ops r p queue)"

text \<open>
  A call: the name, the number of the call, NULL, and the arguments. \<open>bufsz\<close> is the size of the
  buffer. The number is taken before the encoding.
\<close>

definition send_invoke ::
  "'c closer \<Rightarrow> 'c net_ops \<Rightarrow> nat \<Rightarrow> nat \<Rightarrow> nat \<Rightarrow> u32 \<Rightarrow> string \<Rightarrow> amf_step list \<Rightarrow> bool \<Rightarrow> 'c rtmp \<Rightarrow>
   ('c rtmp \<times> bool) option" where
  "send_invoke close ops bufsz ch ht info name args queue r =
     (let r1 = r\<lparr>m_numInvokes := m_numInvokes r + 1\<rparr>
      in case amf_steps (bufsz - RTMP_MAX_HEADER_SIZE)
                ([step_string (bytes_of name), step_number (double_of_int (m_numInvokes r1)),
                  step_byte AMF_NULL] @ args) of
           None \<Rightarrow> Some (r1, False)
         | Some body \<Rightarrow> send_message close ops (message_packet ch ht RTMP_TYPE_INVOKE 0 info body) queue r1)"

section \<open>Calls\<close>

definition stream_link :: "'c rtmp \<Rightarrow> nat \<Rightarrow> rtmp_stream_link" where
  "stream_link r i = lnk_streams r ! i"

definition RTMP_SendCreateStream :: "'c closer \<Rightarrow> 'c net_ops \<Rightarrow> 'c rtmp \<Rightarrow> ('c rtmp \<times> bool) option" where
  "RTMP_SendCreateStream close ops r =
     send_invoke close ops 256 3 RTMP_PACKET_SIZE_MEDIUM 0 ''createStream'' [] True r"

definition SendReleaseStream :: "'c closer \<Rightarrow> 'c net_ops \<Rightarrow> 'c rtmp \<Rightarrow> nat \<Rightarrow> ('c rtmp \<times> bool) option" where
  "SendReleaseStream close ops r i =
     send_invoke close ops 1024 3 RTMP_PACKET_SIZE_MEDIUM 0 ''releaseStream''
       [step_string (st_playpath (stream_link r i))] False r"

definition SendFCPublish :: "'c closer \<Rightarrow> 'c net_ops \<Rightarrow> 'c rtmp \<Rightarrow> nat \<Rightarrow> ('c rtmp \<times> bool) option" where
  "SendFCPublish close ops r i =
     send_invoke close ops 1024 3 RTMP_PACKET_SIZE_MEDIUM 0 ''FCPublish''
       [step_string (st_playpath (stream_link r i))] False r"

definition SendFCUnpublish :: "'c closer \<Rightarrow> 'c net_ops \<Rightarrow> 'c rtmp \<Rightarrow> nat \<Rightarrow> ('c rtmp \<times> bool) option" where
  "SendFCUnpublish close ops r i =
     send_invoke close ops 1024 3 RTMP_PACKET_SIZE_MEDIUM 0 ''FCUnpublish''
       [step_string (st_playpath (stream_link r i))] False r"

definition SendPublish :: "'c closer \<Rightarrow> 'c net_ops \<Rightarrow> 'c rtmp \<Rightarrow> nat \<Rightarrow> ('c rtmp \<times> bool) option" where
  "SendPublish close ops r i =
     send_invoke close ops 1024 4 RTMP_PACKET_SIZE_LARGE (word_of_int (st_id (stream_link r i))) ''publish''
       [step_string (st_playpath (stream_link r i)), step_string (bytes_of ''live'')] True r"

definition SendDeleteStream :: "'c closer \<Rightarrow> 'c net_ops \<Rightarrow> 'c rtmp \<Rightarrow> int \<Rightarrow> ('c rtmp \<times> bool) option" where
  "SendDeleteStream close ops r i =
     send_invoke close ops 256 3 RTMP_PACKET_SIZE_MEDIUM 0 ''deleteStream''
       [step_number (double_of_int i)] False r"

definition RTMP_SendPause :: "'c closer \<Rightarrow> 'c net_ops \<Rightarrow> 'c rtmp \<Rightarrow> bool \<Rightarrow> u32 \<Rightarrow> ('c rtmp \<times> bool) option" where
  "RTMP_SendPause close ops r do_pause time =
     send_invoke close ops 256 8 RTMP_PACKET_SIZE_MEDIUM 0 ''pause''
       [step_boolean do_pause, step_number (double_of_int (sint time))] True r"

definition SendCheckBW :: "'c closer \<Rightarrow> 'c net_ops \<Rightarrow> 'c rtmp \<Rightarrow> ('c rtmp \<times> bool) option" where
  "SendCheckBW close ops r = send_invoke close ops 256 3 RTMP_PACKET_SIZE_LARGE 0 ''_checkbw'' [] False r"

text \<open>Answers carry the number of the call they answer; their time is a counter.\<close>

definition send_answer ::
  "'c closer \<Rightarrow> 'c net_ops \<Rightarrow> string \<Rightarrow> u64 \<Rightarrow> amf_step list \<Rightarrow> u32 \<Rightarrow> 'c rtmp \<Rightarrow> ('c rtmp \<times> bool) option" where
  "send_answer close ops name txn args ts r =
     (case amf_steps (256 - RTMP_MAX_HEADER_SIZE)
             ([step_string (bytes_of name), step_number txn, step_byte AMF_NULL] @ args) of
        None \<Rightarrow> Some (r, False)
      | Some body \<Rightarrow>
          send_message close ops (message_packet 3 RTMP_PACKET_SIZE_MEDIUM RTMP_TYPE_INVOKE ts 0 body) False r)"

definition SendCheckBWResult :: "'c closer \<Rightarrow> 'c net_ops \<Rightarrow> 'c rtmp \<Rightarrow> u64 \<Rightarrow> ('c rtmp \<times> bool) option" where
  "SendCheckBWResult close ops r txn =
     send_answer close ops ''_result'' txn [step_number (double_of_int (m_nBWCheckCounter r))]
       (word_of_int (0x16 * m_nBWCheckCounter r)) (r\<lparr>m_nBWCheckCounter := m_nBWCheckCounter r + 1\<rparr>)"

definition SendPong :: "'c closer \<Rightarrow> 'c net_ops \<Rightarrow> 'c rtmp \<Rightarrow> u64 \<Rightarrow> ('c rtmp \<times> bool) option" where
  "SendPong close ops r txn =
     send_answer close ops ''pong'' txn [] (word_of_int (0x16 * m_nBWCheckCounter r)) r"

section \<open>Control messages\<close>

definition RTMP_SendServerBW :: "'c closer \<Rightarrow> 'c net_ops \<Rightarrow> 'c rtmp \<Rightarrow> ('c rtmp \<times> bool) option" where
  "RTMP_SendServerBW close ops r =
     send_message close ops
       (message_packet 2 RTMP_PACKET_SIZE_LARGE RTMP_TYPE_SERVER_BW 0 0 (be32 (word_of_int (m_nServerBW r)))) False r"

definition RTMP_SendClientBW :: "'c closer \<Rightarrow> 'c net_ops \<Rightarrow> 'c rtmp \<Rightarrow> ('c rtmp \<times> bool) option" where
  "RTMP_SendClientBW close ops r =
     send_message close ops
       (message_packet 2 RTMP_PACKET_SIZE_LARGE RTMP_TYPE_CLIENT_BW 0 0
          (be32 (word_of_int (m_nClientBW r)) @ [m_nClientBW2 r])) False r"

definition SendBytesReceived :: "'c closer \<Rightarrow> 'c net_ops \<Rightarrow> 'c rtmp \<Rightarrow> ('c rtmp \<times> bool) option" where
  "SendBytesReceived close ops r =
     send_message close ops
       (message_packet 2 RTMP_PACKET_SIZE_MEDIUM RTMP_TYPE_BYTES_READ_REPORT 0 0
          (be32 (word_of_int (m_nBytesIn r)))) False (r\<lparr>m_nBytesInSent := m_nBytesIn r\<rparr>)"

text \<open>
  \<open>RTMP_SendCtrl\<close>. Without the crypto support no answer to a verification request is built: type
  \<open>0x1B\<close> would send 42 bytes of an uninitialised buffer, here zeros, and is never asked for.
\<close>

definition RTMP_SendCtrl ::
  "'c closer \<Rightarrow> 'c net_ops \<Rightarrow> 'c rtmp \<Rightarrow> u16 \<Rightarrow> u32 \<Rightarrow> u32 \<Rightarrow> ('c rtmp \<times> bool) option" where
  "RTMP_SendCtrl close ops r nType nObject nTime =
     (let rest =
            (if nType = 0x1B then replicate 42 0
             else if nType = 0x1A then [ucast nObject]
             else be32 nObject @ (if nType = 3 then be32 nTime else []))
      in send_message close ops
           (message_packet 2 RTMP_PACKET_SIZE_MEDIUM RTMP_TYPE_CONTROL 0 0 (be16 nType @ rest)) False r)"

section \<open>The connect call\<close>

definition chunk_size_packet :: "'c rtmp \<Rightarrow> rtmp_packet" where
  "chunk_size_packet r =
     message_packet 2 RTMP_PACKET_SIZE_LARGE RTMP_TYPE_CHUNK_SIZE 0 0 (be32 (of_nat (m_outChunkSize r)))"

definition named_string_if :: "bool \<Rightarrow> string \<Rightarrow> byte list \<Rightarrow> amf_step list" where
  "named_string_if b name s = (if b then [\<lambda>room. amf_encode_named_string room (bytes_of name) s] else [])"

definition named_number :: "string \<Rightarrow> u64 \<Rightarrow> amf_step" where
  "named_number name d = (\<lambda>room. amf_encode_named_number room (bytes_of name) d)"

definition object_end_step :: amf_step where
  "object_end_step = (\<lambda>room. if room \<le> 3 then None else Some [0, 0, AMF_OBJECT_END])"

definition connect_steps :: "'c rtmp \<Rightarrow> amf_step list" where
  "connect_steps r =
     [step_string (bytes_of ''connect''), step_number (double_of_int (m_numInvokes r)), step_byte AMF_OBJECT,
      \<lambda>room. amf_encode_named_string room (bytes_of ''app'') (lnk_app r)] @
     named_string_if (lnk_write r) ''type'' (bytes_of ''nonprivate'') @
     named_string_if (lnk_flashVer r \<noteq> []) ''flashVer'' (lnk_flashVer r) @
     named_string_if (lnk_swfUrl r \<noteq> []) ''swfUrl'' (lnk_swfUrl r) @
     named_string_if (lnk_tcUrl r \<noteq> []) ''tcUrl'' (lnk_tcUrl r) @
     (if lnk_write r then []
      else [\<lambda>room. amf_encode_named_boolean room (bytes_of ''fpad'') False,
            named_number ''capabilities'' (double_of_int 15), named_number ''audioCodecs'' (m_fAudioCodecs r),
            named_number ''videoCodecs'' (m_fVideoCodecs r), named_number ''videoFunction'' (double_of_int 1)] @
           named_string_if (lnk_pageUrl r \<noteq> []) ''pageUrl'' (lnk_pageUrl r)) @
     (if (m_fEncoding r \<noteq> 0 \<and> m_fEncoding r \<noteq> 0x8000000000000000) \<or> m_bSendEncoding r
      then [named_number ''objectEncoding'' (m_fEncoding r)] else []) @
     [object_end_step] @
     (if lnk_auth r \<noteq> [] then [step_boolean (lnk_authFlag r), step_string (lnk_auth r)] else []) @
     map (\<lambda>p room. amf_prop_encode room p) (lnk_extras r)"

text \<open>\<open>SendConnectPacket\<close> without a packet of the caller's, which the plugin never passes.\<close>

definition SendConnectPacket :: "'c closer \<Rightarrow> 'c net_ops \<Rightarrow> 'c rtmp \<Rightarrow> ('c rtmp \<times> bool) option" where
  "SendConnectPacket close ops r =
     Option.bind
       (if lnk_write r \<and> m_bSendChunkSizeInfo r then send_message close ops (chunk_size_packet r) False r
        else Some (r, True)) (\<lambda>(r1, ok).
       if \<not> ok then Some (r1, False)
       else
         let r2 = r1\<lparr>m_numInvokes := m_numInvokes r1 + 1\<rparr>
         in case amf_steps (4096 - RTMP_MAX_HEADER_SIZE) (connect_steps r2) of
              None \<Rightarrow> Some (r2, False)
            | Some body \<Rightarrow>
                send_message close ops (message_packet 3 RTMP_PACKET_SIZE_LARGE RTMP_TYPE_INVOKE 0 0 body) True r2)"

section \<open>\<open>RTMP_Close\<close>\<close>

text \<open>
  Closing sends the last two messages of every stream that has an identifier, and a failed send
  closes in its turn; the identifier is cleared first, so each level of this recursion has one
  stream less to end. The definition counts the levels; \<open>RTMP_Close\<close> starts with as many as there
  are identifiers.
\<close>

definition close_state :: "'c rtmp \<Rightarrow> 'c rtmp" where
  "close_state r =
     r\<lparr>m_stream_id := - 1, sb_connected := False, m_nBWCheckCounter := 0, m_nBytesIn := 0, m_nBytesInSent := 0,
       rd_dataType := 0, rd_seeking := False, m_write := (m_write r)\<lparr>m_nBytesRead := 0, m_body := None\<rparr>,
       m_vecChannelsIn := (\<lambda>_. None), m_channelTimestamp := (\<lambda>_. 0), m_channelsAllocatedIn := 0,
       m_vecChannelsOut := (\<lambda>_. None), m_channelsAllocatedOut := 0,
       m_methodCalls := [], m_numInvokes := 0, m_bPlaying := False, lnk_playingStreams := 0, sb_buf := [],
       lnk_curStreamIdx := 0, lnk_streams := []\<rparr>"

definition has_id :: "rtmp_stream_link \<Rightarrow> bool" where
  "has_id st \<longleftrightarrow> st_id st > 0"

text \<open>\<open>left\<close> counts the streams not yet visited; a close inside leaves none.\<close>

fun close_streams ::
  "'c closer \<Rightarrow> 'c net_ops \<Rightarrow> nat \<Rightarrow> nat \<Rightarrow> 'c rtmp \<Rightarrow> 'c rtmp option" where
  "close_streams close ops idx 0 r = Some r"
| "close_streams close ops idx (Suc left) r =
     (if idx \<ge> length (lnk_streams r) then Some r
      else if has_id (stream_link r idx) then
        let i = st_id (stream_link r idx);
            r1 = r\<lparr>lnk_streams := (lnk_streams r)[idx := (stream_link r idx)\<lparr>st_id := 0\<rparr>]\<rparr>
        in Option.bind (if lnk_write r1 then SendFCUnpublish close ops r1 idx else Some (r1, True)) (\<lambda>(r2, _).
           Option.bind (SendDeleteStream close ops r2 i) (\<lambda>(r3, _).
           close_streams close ops (Suc idx) left r3))
      else close_streams close ops (Suc idx) left r)"

primrec close_levels :: "'c net_ops \<Rightarrow> nat \<Rightarrow> 'c rtmp \<Rightarrow> 'c rtmp option" where
  "close_levels ops 0 r =
     Some (close_state (RTMPSockBuf_Close ops r))"
| "close_levels ops (Suc d) r =
     (if RTMP_IsConnected r
      then Option.bind (close_streams (close_levels ops d) ops 0 (length (lnk_streams r)) r)
             (\<lambda>r1. Some (close_state (RTMPSockBuf_Close ops r1)))
      else Some (close_state r))"

definition RTMP_Close :: "'c net_ops \<Rightarrow> 'c rtmp \<Rightarrow> 'c rtmp option" where
  "RTMP_Close ops r = close_levels ops (length (filter has_id (lnk_streams r))) r"

end
