(* ===== verification/Rtmp_Read.thy ===== *)
theory Rtmp_Read
  imports Rtmp_Messages
begin

text \<open>
  The receiving half of the chunk layer of \<open>src/rtmp/librtmp/rtmp.c\<close>: the socket buffer, \<open>ReadN\<close>
  and \<open>RTMP_ReadPacket\<close>, the handlers of control messages, and \<open>RTMP_Write\<close>, which turns FLV tags
  into packets. \<open>None\<close> is a call that never returns.
\<close>

section \<open>The socket buffer\<close>

definition RTMP_BUFFER_CACHE_SIZE :: nat where "RTMP_BUFFER_CACHE_SIZE = 16 * 1024"

text \<open>It is only called with an empty buffer, which it fills from its start. The result is \<open>nBytes\<close>.\<close>

partial_function (option) RTMPSockBuf_Fill :: "'c net_ops \<Rightarrow> 'c rtmp \<Rightarrow> ('c rtmp \<times> int) option" where
  "RTMPSockBuf_Fill ops r =
     (case net_recv ops (net r) (RTMP_BUFFER_CACHE_SIZE - 1 - length (sb_buf r)) of (c, res) \<Rightarrow>
        (case res of
           Received bs \<Rightarrow> Some (r\<lparr>net := c, sb_buf := sb_buf r @ bs\<rparr>, int (length bs))
         | RecvClosed \<Rightarrow> Some (r\<lparr>net := c\<rparr>, 0)
         | RecvTimedOut \<Rightarrow> Some (r\<lparr>net := c, sb_timedout := True\<rparr>, 0)
         | RecvInterrupted \<Rightarrow> RTMPSockBuf_Fill ops (r\<lparr>net := c\<rparr>)
         | RecvFailed \<Rightarrow> Some (r\<lparr>net := c\<rparr>, - 1)))"

section \<open>\<open>ReadN\<close>\<close>

text \<open>Now and then the client reports how much it has received.\<close>

definition report_received :: "'c net_ops \<Rightarrow> 'c rtmp \<Rightarrow> ('c rtmp \<times> bool) option" where
  "report_received ops r =
     (if m_bSendCounter r \<and> m_nBytesIn r > m_nBytesInSent r + c_div (m_nClientBW r) 10
      then SendBytesReceived (RTMP_Close ops) ops r else Some (r, True))"

text \<open>The bytes read, or \<open>None\<close> where fewer than asked for are reported.\<close>

partial_function (option) read_loop ::
  "'c net_ops \<Rightarrow> nat \<Rightarrow> 'c rtmp \<Rightarrow> byte list \<Rightarrow> ('c rtmp \<times> byte list option) option" where
  "read_loop ops n r acc =
     (if n = 0 then Some (r, Some acc)
      else Option.bind (if sb_buf r = [] then RTMPSockBuf_Fill ops r else Some (r, 1)) (\<lambda>(r1, got).
        if got < 1 then
          (if sb_timedout r1 then Some (r1, None)
           else Option.bind (RTMP_Close ops r1) (\<lambda>r2. Some (r2, None)))
        else
          let k = min n (length (sb_buf r1));
              bs = take k (sb_buf r1);
              r2 = r1\<lparr>sb_buf := drop k (sb_buf r1), m_nBytesIn := m_nBytesIn r1 + int k\<rparr>
          in Option.bind (report_received ops r2) (\<lambda>(r3, ok).
               if \<not> ok then Some (r3, None) else read_loop ops (n - k) r3 (acc @ bs))))"

definition ReadN :: "'c net_ops \<Rightarrow> 'c rtmp \<Rightarrow> int \<Rightarrow> ('c rtmp \<times> byte list option) option" where
  "ReadN ops r n =
     (if n < 0 then Some (r\<lparr>sb_timedout := False\<rparr>, None)
      else read_loop ops (nat n) (r\<lparr>sb_timedout := False\<rparr>) [])"

section \<open>\<open>RTMP_ReadPacket\<close>\<close>

text \<open>\<open>ReadOverflow\<close>: the code would read into memory past the end of the allocated body.\<close>

datatype read_outcome = ReadOk rtmp_packet | ReadFailed | ReadOverflow

definition read_then ::
  "'c net_ops \<Rightarrow> 'c rtmp \<Rightarrow> int \<Rightarrow> ('c rtmp \<Rightarrow> byte list \<Rightarrow> ('c rtmp \<times> read_outcome) option) \<Rightarrow>
   ('c rtmp \<times> read_outcome) option" where
  "read_then ops r n f =
     Option.bind (ReadN ops r n) (\<lambda>(r1, res).
       case res of None \<Rightarrow> Some (r1, ReadFailed) | Some bs \<Rightarrow> f r1 bs)"

definition DecodeInt32LE :: "byte list \<Rightarrow> u32" where
  "DecodeInt32LE c = get32 (c ! 3) (c ! 2) (c ! 1) (c ! 0)"

text \<open>The fields in the first \<open>n\<close> bytes of a message header, after the basic header.\<close>

definition parse_header :: "nat \<Rightarrow> byte list \<Rightarrow> rtmp_packet \<Rightarrow> rtmp_packet" where
  "parse_header n h p =
     (let p1 = (if n \<ge> 3 then p\<lparr>m_nTimeStamp := get24 (h ! 0) (h ! 1) (h ! 2)\<rparr> else p);
          p2 = (if n \<ge> 6 then p1\<lparr>m_nBodySize := get24 (h ! 3) (h ! 4) (h ! 5), m_nBytesRead := 0\<rparr> else p1);
          p3 = (if n > 6 then p2\<lparr>m_packetType := h ! 6\<rparr> else p2)
      in if n = 11 then p3\<lparr>m_nInfoField2 := DecodeInt32LE (drop 7 h)\<rparr> else p3)"

text \<open>What is kept for the channel, and what the caller gets, once a chunk has been read.\<close>

definition keep_packet :: "bool \<Rightarrow> rtmp_packet \<Rightarrow> 'c rtmp \<Rightarrow> 'c rtmp \<times> rtmp_packet" where
  "keep_packet ext p r =
     (let ch = m_nChannel p;
          kept = (if ext then p\<lparr>m_nTimeStamp := 0xffffff\<rparr> else p)
      in if RTMPPacket_IsReady p then
           let ts = (if m_hasAbsTimestamp p then m_nTimeStamp p
                     else m_nTimeStamp p + m_channelTimestamp r ch)
           in (r\<lparr>m_channelTimestamp := (m_channelTimestamp r)(ch := ts),
                 m_vecChannelsIn := (m_vecChannelsIn r)
                   (ch \<mapsto> kept\<lparr>m_body := None, m_nBytesRead := 0, m_hasAbsTimestamp := False\<rparr>)\<rparr>,
               p\<lparr>m_nTimeStamp := ts\<rparr>)
         else (r\<lparr>m_vecChannelsIn := (m_vecChannelsIn r)(ch \<mapsto> kept)\<rparr>, p\<lparr>m_body := None\<rparr>))"

definition body_room :: "rtmp_packet \<Rightarrow> nat" where
  "body_room p = (case m_body p of None \<Rightarrow> 0 | Some b \<Rightarrow> length b)"

definition chunk_read :: "bool \<Rightarrow> rtmp_packet \<Rightarrow> int \<Rightarrow> 'c rtmp \<Rightarrow> byte list \<Rightarrow> ('c rtmp \<times> read_outcome) option" where
  "chunk_read ext p nChunk r bs =
     (let (r1, q) = keep_packet ext
            (p\<lparr>m_body := map_option (put_bytes (unat (m_nBytesRead p)) bs) (m_body p),
               m_nBytesRead := m_nBytesRead p + word_of_int nChunk\<rparr>) r
      in Some (r1, ReadOk q))"

definition read_body ::
  "'c net_ops \<Rightarrow> bool \<Rightarrow> nat \<Rightarrow> 'c rtmp \<Rightarrow> rtmp_packet \<Rightarrow> ('c rtmp \<times> read_outcome) option" where
  "read_body ops ext ht r p0 =
     (let p = (if m_nBodySize p0 > 0 \<and> m_body p0 = None
               then (RTMPPacket_Alloc p0 (m_nBodySize p0))\<lparr>m_headerType := ht\<rparr> else p0);
          nToRead = as_i32 (uint (m_nBodySize p - m_nBytesRead p));
          nChunk = (if nToRead < m_inChunkSize r then nToRead else m_inChunkSize r)
      in if nChunk > 0 \<and> int (body_room p) < uint (m_nBytesRead p) + nChunk then Some (r, ReadOverflow)
         else read_then ops r nChunk (chunk_read ext p nChunk))"

definition header_read ::
  "'c net_ops \<Rightarrow> nat \<Rightarrow> rtmp_packet \<Rightarrow> 'c rtmp \<Rightarrow> byte list \<Rightarrow> ('c rtmp \<times> read_outcome) option" where
  "header_read ops ht p r h =
     (let nSize = packetSize ht - 1;
          p1 = parse_header nSize h p
      in if nSize \<ge> 3 \<and> m_nTimeStamp p1 = 0xffffff
         then read_then ops r 4 (\<lambda>r1 e.
                read_body ops True ht r1 (p1\<lparr>m_nTimeStamp := get32 (e ! 0) (e ! 1) (e ! 2) (e ! 3)\<rparr>))
         else read_body ops False ht r p1)"

definition read_message ::
  "'c net_ops \<Rightarrow> 'c rtmp \<Rightarrow> rtmp_packet \<Rightarrow> nat \<Rightarrow> nat \<Rightarrow> ('c rtmp \<times> read_outcome) option" where
  "read_message ops r0 p0 ht ch =
     (let r = (if ch \<ge> m_channelsAllocatedIn r0 then r0\<lparr>m_channelsAllocatedIn := ch + 10\<rparr> else r0);
          nSize = packetSize ht;
          p1 = p0\<lparr>m_headerType := ht, m_nChannel := ch\<rparr>;
          p2 = (if nSize = 12 then p1\<lparr>m_hasAbsTimestamp := True\<rparr>
                else case m_vecChannelsIn r ch of Some q \<Rightarrow> q | None \<Rightarrow> p1)
      in read_then ops r (int (nSize - 1)) (header_read ops ht p2))"

definition channel_read ::
  "'c net_ops \<Rightarrow> rtmp_packet \<Rightarrow> 'c rtmp \<Rightarrow> byte list \<Rightarrow> ('c rtmp \<times> read_outcome) option" where
  "channel_read ops p0 r b =
     (let ht = unat (drop_bit 6 (b ! 0));
          ch = unat (and (b ! 0) 0x3f)
      in if ch = 0 then read_then ops r 1 (\<lambda>r1 c. read_message ops r1 p0 ht (unat (c ! 0) + 64))
         else if ch = 1
         then read_then ops r 2 (\<lambda>r1 c. read_message ops r1 p0 ht (unat (c ! 1) * 256 + unat (c ! 0) + 64))
         else read_message ops r p0 ht ch)"

definition RTMP_ReadPacket ::
  "'c net_ops \<Rightarrow> 'c rtmp \<Rightarrow> rtmp_packet \<Rightarrow> ('c rtmp \<times> read_outcome) option" where
  "RTMP_ReadPacket ops r p0 = read_then ops r 1 (channel_read ops p0)"

text \<open>
  How the callers use it: they read into the same packet until it is ready. The number of calls
  bounds the loop.
\<close>

fun read_whole ::
  "nat \<Rightarrow> 'c net_ops \<Rightarrow> 'c rtmp \<Rightarrow> rtmp_packet \<Rightarrow> ('c rtmp \<times> read_outcome) option" where
  "read_whole 0 ops r p = None"
| "read_whole (Suc n) ops r p =
     Option.bind (RTMP_ReadPacket ops r p) (\<lambda>(r1, res).
       case res of
         ReadOk q \<Rightarrow> if RTMPPacket_IsReady q then Some (r1, ReadOk q) else read_whole n ops r1 q
       | ReadFailed \<Rightarrow> Some (r1, ReadFailed)
       | ReadOverflow \<Rightarrow> Some (r1, ReadOverflow))"

section \<open>\<open>RTMP_Write\<close>\<close>

text \<open>
  FLV tags into packets. \<open>buf\<close> is what is left of the input; \<open>None\<close> inside the result is a read
  past its end. A packet may be left half full for the next call.
\<close>

definition write_header :: "byte list \<Rightarrow> rtmp_packet \<Rightarrow> rtmp_packet" where
  "write_header b p =
     (let ts = or (get24 (b ! 4) (b ! 5) (b ! 6)) (push_bit 24 (ucast (b ! 7)));
          large = ((b ! 0 = RTMP_TYPE_AUDIO \<or> b ! 0 = RTMP_TYPE_VIDEO) \<and> ts = 0) \<or> b ! 0 = RTMP_TYPE_INFO
      in RTMPPacket_Alloc
           (p\<lparr>m_packetType := b ! 0, m_nBodySize := get24 (b ! 1) (b ! 2) (b ! 3), m_nTimeStamp := ts,
              m_headerType := (if large then RTMP_PACKET_SIZE_LARGE else RTMP_PACKET_SIZE_MEDIUM)\<rparr>)
           (get24 (b ! 1) (b ! 2) (b ! 3)))"

definition write_fill :: "byte list \<Rightarrow> rtmp_packet \<Rightarrow> rtmp_packet \<times> byte list" where
  "write_fill buf p =
     (let num = min (unat (m_nBodySize p - m_nBytesRead p)) (length buf)
      in (p\<lparr>m_body := map_option (put_bytes (unat (m_nBytesRead p)) (take num buf)) (m_body p),
            m_nBytesRead := m_nBytesRead p + of_nat num\<rparr>, drop num buf))"

definition skip_flv_header :: "byte list \<Rightarrow> byte list option" where
  "skip_flv_header buf =
     (if length buf < 3 then None
      else if take 3 buf = [0x46, 0x4C, 0x56] then (if length buf < 13 then None else Some (drop 13 buf))
      else Some buf)"

partial_function (option) write_loop ::
  "'c net_ops \<Rightarrow> nat \<Rightarrow> byte list \<Rightarrow> 'c rtmp \<Rightarrow> ('c rtmp \<times> int option) option" where
  "write_loop ops size0 buf r =
     (if buf = [] then Some (r, Some (int size0))
      else if m_nBytesRead (m_write r) = 0 \<and> size0 < 11 then Some (r, Some 0)
      else case (if m_nBytesRead (m_write r) = 0
                 then Option.bind (skip_flv_header buf) (\<lambda>b.
                        if length b < 11 then None else Some (write_header b (m_write r), drop 11 b))
                 else Some (m_write r, buf)) of
             None \<Rightarrow> Some (r, None)
           | Some (p, b) \<Rightarrow>
               (case write_fill b p of (p1, rest) \<Rightarrow>
                  if m_nBytesRead p1 = m_nBodySize p1 then
                    Option.bind (RTMP_SendPacket (RTMP_Close ops) ops (r\<lparr>m_write := p1\<rparr>) p1 False) (\<lambda>(r1, p2, ok).
                      let r2 = r1\<lparr>m_write := (RTMPPacket_Free p2)\<lparr>m_nBytesRead := 0\<rparr>\<rparr>
                      in if \<not> ok then Some (r2, Some (- 1))
                         else if length rest < 4 then Some (r2, Some (int size0 + int (length rest) - 4))
                         else write_loop ops size0 (drop 4 rest) r2)
                  else write_loop ops size0 rest (r\<lparr>m_write := p1\<rparr>)))"

definition RTMP_Write :: "'c net_ops \<Rightarrow> 'c rtmp \<Rightarrow> byte list \<Rightarrow> nat \<Rightarrow> ('c rtmp \<times> int option) option" where
  "RTMP_Write ops r buf streamIdx =
     write_loop ops (length buf) buf
       (r\<lparr>m_write := (m_write r)\<lparr>m_nChannel := 4,
            m_nInfoField2 := word_of_int (st_id (stream_link r streamIdx))\<rparr>\<rparr>)"

section \<open>Control messages\<close>

definition body_of :: "rtmp_packet \<Rightarrow> byte list" where
  "body_of p = (case m_body p of None \<Rightarrow> [] | Some b \<Rightarrow> b)"

definition body_int32 :: "rtmp_packet \<Rightarrow> nat \<Rightarrow> u32" where
  "body_int32 p i = (let b = body_of p in get32 (b ! i) (b ! (i + 1)) (b ! (i + 2)) (b ! (i + 3)))"

definition HandleChangeChunkSize :: "'c rtmp \<Rightarrow> rtmp_packet \<Rightarrow> 'c rtmp" where
  "HandleChangeChunkSize r p =
     (if m_nBodySize p \<ge> 4 then r\<lparr>m_inChunkSize := as_i32 (uint (body_int32 p 0))\<rparr> else r)"

text \<open>The two bandwidth messages are read without a look at their length.\<close>

definition HandleServerBW :: "'c rtmp \<Rightarrow> rtmp_packet \<Rightarrow> 'c rtmp" where
  "HandleServerBW r p = r\<lparr>m_nServerBW := as_i32 (uint (body_int32 p 0))\<rparr>"

definition HandleClientBW :: "'c rtmp \<Rightarrow> rtmp_packet \<Rightarrow> 'c rtmp" where
  "HandleClientBW r p =
     r\<lparr>m_nClientBW := as_i32 (uint (body_int32 p 0)),
       m_nClientBW2 := (if m_nBodySize p > 4 then body_of p ! 4 else - 1)\<rparr>"

definition pause_stamp :: "'c rtmp \<Rightarrow> u32" where
  "pause_stamp r =
     (if m_mediaChannel r < m_channelsAllocatedIn r then m_channelTimestamp r (m_mediaChannel r) else 0)"

definition HandleCtrl :: "'c net_ops \<Rightarrow> 'c rtmp \<Rightarrow> rtmp_packet \<Rightarrow> 'c rtmp option" where
  "HandleCtrl ops r p =
     (let nType = (if m_body p \<noteq> None \<and> m_nBodySize p \<ge> 2
                   then sint (get16 (body_of p ! 0) (body_of p ! 1)) else - 1)
      in if m_nBodySize p < 6 then Some r
         else if nType = 1 then Some (if m_pausing r = 1 then r\<lparr>m_pausing := 2\<rparr> else r)
         else if nType = 6 then
           map_option fst (RTMP_SendCtrl (RTMP_Close ops) ops r 7 (body_int32 p 2) 0)
         else if nType = 31 \<and> lnk_bufx r then
           (if m_pausing r = 0 then
              let r1 = r\<lparr>m_pauseStamp := pause_stamp r\<rparr>
              in map_option (\<lambda>(r2, ok). r2\<lparr>m_pausing := 1\<rparr>)
                   (RTMP_SendPause (RTMP_Close ops) ops r1 True (m_pauseStamp r1))
            else if m_pausing r = 2 then
              map_option (\<lambda>(r2, ok). r2\<lparr>m_pausing := 3\<rparr>)
                (RTMP_SendPause (RTMP_Close ops) ops r False (m_pauseStamp r))
            else Some r)
         else Some r)"

end
