(* ===== verification/Rtmp_Roundtrip.thy ===== *)
theory Rtmp_Roundtrip
  imports Rtmp_Wire Rtmp_Read
begin

text \<open>
  What one end of the chunk stream sends the other end reads: the reading functions over a reliable
  network, the relation between the memories the two ends keep per channel, and the round trip of a
  message of any number of chunks.
\<close>

section \<open>Reading from a reliable network\<close>

definition avail :: "('c \<Rightarrow> byte list) \<Rightarrow> 'c rtmp \<Rightarrow> byte list" where
  "avail arriving r = sb_buf r @ arriving (net r)"

text \<open>What reading bytes leaves alone: all that a packet is put together from.\<close>

definition reader_same :: "'c rtmp \<Rightarrow> 'c rtmp \<Rightarrow> bool" where
  "reader_same r r' \<longleftrightarrow>
     m_inChunkSize r' = m_inChunkSize r \<and> m_outChunkSize r' = m_outChunkSize r \<and>
     m_vecChannelsIn r' = m_vecChannelsIn r \<and> m_channelTimestamp r' = m_channelTimestamp r"

lemma reader_same_refl [simp]: "reader_same r r"
  by (simp add: reader_same_def)

lemma reader_same_trans: "reader_same r s \<Longrightarrow> reader_same s t \<Longrightarrow> reader_same r t"
  by (simp add: reader_same_def)

lemma SendBytesReceived_reliable:
  assumes net: "reliable_net ops sent arriving" and k: "0 < m_outChunkSize r"
  shows "\<exists>r'. SendBytesReceived close ops r = Some (r', True) \<and> reader_same r r' \<and> sb_buf r' = sb_buf r \<and>
    arriving (net r') = arriving (net r)"
proof -
  let ?r = "r\<lparr>m_nBytesInSent := m_nBytesIn r\<rparr>"
  let ?p = "message_packet 2 RTMP_PACKET_SIZE_MEDIUM RTMP_TYPE_BYTES_READ_REPORT 0 0 (be32 (word_of_int (m_nBytesIn r)))"
  have "m_headerType ?p \<le> 3" "whole_body ?p" "0 < m_outChunkSize ?r"
    using k by (simp_all add: message_packet_def packet_zero_def header_types whole_body_def)
  from SendPacket_reliable [OF net this(3,1,2) refl, of close False]
  show ?thesis
    by (auto simp: SendBytesReceived_def send_message_def reader_same_def)
qed

lemma Fill_reliable:
  assumes net: "reliable_net ops sent arriving" and "sb_buf r = []" and "arriving (net r) \<noteq> []"
  obtains c bs where "RTMPSockBuf_Fill ops r = Some (r\<lparr>net := c, sb_buf := bs\<rparr>, int (length bs))" and "bs \<noteq> []"
    and "arriving (net r) = bs @ arriving c"
proof -
  have room: "0 < RTMP_BUFFER_CACHE_SIZE - 1 - length (sb_buf r)"
    by (simp add: assms(2) RTMP_BUFFER_CACHE_SIZE_def)
  from reliable_recv [OF net room assms(3)] obtain c bs
    where "net_recv ops (net r) (RTMP_BUFFER_CACHE_SIZE - 1 - length (sb_buf r)) = (c, Received bs)"
      and "bs \<noteq> []" and "arriving (net r) = bs @ arriving c" by metis
  then show thesis using assms(2) by (intro that) (subst RTMPSockBuf_Fill.simps, simp_all)
qed

lemma read_loop_reliable:
  assumes net: "reliable_net ops sent arriving"
  shows "0 < m_outChunkSize r \<Longrightarrow> n \<le> length (avail arriving r) \<Longrightarrow>
    \<exists>r'. read_loop ops n r acc = Some (r', Some (acc @ take n (avail arriving r))) \<and> reader_same r r' \<and>
      avail arriving r' = drop n (avail arriving r)"
proof (induction n arbitrary: r acc rule: less_induct)
  case (less n)
  show ?case
  proof (cases "n = 0")
    case True
    then show ?thesis by (subst read_loop.simps) auto
  next
    case False
    obtain r1 got where fill: "(if sb_buf r = [] then RTMPSockBuf_Fill ops r else Some (r, 1)) = Some (r1, got)"
      and got: "1 \<le> got" and r1: "avail arriving r1 = avail arriving r" "sb_buf r1 \<noteq> []" "reader_same r r1"
    proof (cases "sb_buf r = []")
      case True
      then have "arriving (net r) \<noteq> []" using less.prems(2) False by (auto simp: avail_def)
      from Fill_reliable [OF net True this] obtain c bs
        where "RTMPSockBuf_Fill ops r = Some (r\<lparr>net := c, sb_buf := bs\<rparr>, int (length bs))" and "bs \<noteq> []"
          and "arriving (net r) = bs @ arriving c" .
      then show thesis using True
        by (intro that [of "r\<lparr>net := c, sb_buf := bs\<rparr>" "int (length bs)"])
          (simp_all add: avail_def reader_same_def Suc_leI)
    next
      case False
      then show thesis by (intro that [of r 1]) simp_all
    qed
    define k where "k = min n (length (sb_buf r1))"
    define r2 where "r2 = r1\<lparr>sb_buf := drop k (sb_buf r1), m_nBytesIn := m_nBytesIn r1 + int k\<rparr>"
    have k: "0 < k" "k \<le> n" "k \<le> length (sb_buf r1)" using False r1(2) by (auto simp: k_def)
    have "avail arriving r2 = drop k (avail arriving r1)" using k(3) by (simp add: r2_def avail_def)
    then have r2: "reader_same r r2" "avail arriving r2 = drop k (avail arriving r)"
      using r1 by (simp_all add: r2_def reader_same_def)
    obtain r3 where send: "report_received ops r2 = Some (r3, True)"
      and r3: "reader_same r2 r3" "avail arriving r3 = avail arriving r2"
    proof (cases "m_bSendCounter r2 \<and> m_nBytesIn r2 > m_nBytesInSent r2 + c_div (m_nClientBW r2) 10")
      case True
      have "0 < m_outChunkSize r2" using less.prems(1) r2(1) by (simp add: reader_same_def)
      from SendBytesReceived_reliable [OF net this, of "RTMP_Close ops"] True show thesis
        by (auto simp: report_received_def avail_def intro: that)
    next
      case False
      then show thesis by (intro that [of r2]) (auto simp: report_received_def)
    qed
    have r3': "reader_same r r3" "avail arriving r3 = drop k (avail arriving r)"
      using r2 r3 by (auto intro: reader_same_trans)
    have len: "n - k \<le> length (avail arriving r3)" using less.prems(2) r3'(2) by simp
    have out: "0 < m_outChunkSize r3" using less.prems(1) r3'(1) by (simp add: reader_same_def)
    have nk: "n - k < n" using k by simp
    obtain r' where rec: "read_loop ops (n - k) r3 (acc @ take k (sb_buf r1)) =
        Some (r', Some ((acc @ take k (sb_buf r1)) @ take (n - k) (avail arriving r3)))"
      and r': "reader_same r3 r'" "avail arriving r' = drop (n - k) (avail arriving r3)"
      using less.IH [OF nk out len, of "acc @ take k (sb_buf r1)"] by blast
    have "take k (sb_buf r1) = take k (avail arriving r1)" using k(3) by (simp add: avail_def)
    then have "take k (sb_buf r1) @ take (n - k) (avail arriving r3) =
        take k (avail arriving r) @ take (n - k) (drop k (avail arriving r))"
      by (simp only: r1(1) r3'(2))
    also have "\<dots> = take n (avail arriving r)" using k(2) take_add [of k "n - k" "avail arriving r"] by simp
    finally have "take k (sb_buf r1) @ take (n - k) (avail arriving r3) = take n (avail arriving r)" .
    moreover have "drop (n - k) (avail arriving r3) = drop n (avail arriving r)"
      using r3'(2) k(2) by simp
    moreover have "read_loop ops n r acc = read_loop ops (n - k) r3 (acc @ take k (sb_buf r1))"
      using False fill got send
      by (subst read_loop.simps) (simp add: Let_def flip: k_def r2_def)
    ultimately show ?thesis
      using rec r' r3'(1) by (auto intro: reader_same_trans)
  qed
qed

lemma ReadN_reliable:
  assumes net: "reliable_net ops sent arriving" and "0 < m_outChunkSize r" and "n \<le> length (avail arriving r)"
  obtains r' where "ReadN ops r (int n) = Some (r', Some (take n (avail arriving r)))" and "reader_same r r'"
    and "avail arriving r' = drop n (avail arriving r)"
proof -
  let ?r = "r\<lparr>sb_timedout := False\<rparr>"
  have same: "reader_same r ?r" "avail arriving ?r = avail arriving r" by (simp_all add: reader_same_def avail_def)
  obtain r' where "read_loop ops n ?r [] = Some (r', Some (take n (avail arriving r)))" and "reader_same ?r r'"
    and "avail arriving r' = drop n (avail arriving r)"
    using read_loop_reliable [OF net, of ?r n "[]"] assms(2,3) same(2) by auto
  then show thesis using same(1) by (intro that [of r']) (auto simp: ReadN_def intro: reader_same_trans)
qed

text \<open>One step of reading: the continuation gets the next bytes and a state that differs only in them.\<close>

lemma read_then_reliable:
  assumes net: "reliable_net ops sent arriving" and "0 < m_outChunkSize r"
    and "avail arriving r = bs @ rest" and "n = int (length bs)"
  obtains r' where "read_then ops r n f = f r' bs" and "reader_same r r'" and "avail arriving r' = rest"
proof -
  have "length bs \<le> length (avail arriving r)" by (simp add: assms(3))
  from ReadN_reliable [OF net assms(2) this] obtain r'
    where "ReadN ops r (int (length bs)) = Some (r', Some bs)" "reader_same r r'" "avail arriving r' = rest"
    by (metis append_eq_conv_conj assms(3))
  then show thesis by (intro that [of r']) (simp_all add: read_then_def assms(4))
qed

section \<open>The basic header\<close>

text \<open>Two bits for the type of the header, six for the channel: all the bytes there are.\<close>

lemma byte_fields_all:
  "list_all (\<lambda>h. list_all (\<lambda>n. let c = word_of_nat (h * 64) :: byte; w = word_of_nat n :: byte in
     unat (drop_bit 6 (or c w)) = h \<and> unat (and (or c w) 0x3f) = n \<and>
     or 0xc0 (or c w) = or (word_of_nat (3 * 64)) w) [0..<64]) [0..<4]"
  by code_simp

lemma byte_fields:
  assumes "h \<le> 3" and "n < 64"
  shows "unat (drop_bit 6 (or (of_nat (h * 64)) (of_nat n) :: byte)) = h"
    and "unat (and (or (of_nat (h * 64)) (of_nat n)) 0x3f :: byte) = n"
    and "or 0xc0 (or (of_nat (h * 64)) (of_nat n)) = (or (of_nat (3 * 64)) (of_nat n) :: byte)"
  using byte_fields_all assms by (auto simp: list_all_iff Let_def)

definition valid_channel :: "nat \<Rightarrow> bool" where
  "valid_channel ch \<longleftrightarrow> 2 \<le> ch \<and> ch < 65600"

lemma header_byte_fields:
  assumes "h \<le> 3" and "valid_channel ch"
  shows "unat (drop_bit 6 (header_byte h ch)) = h"
    and "unat (and (header_byte h ch) 0x3f) =
      (if channel_extra ch = 0 then ch else if channel_extra ch = 1 then 0 else 1)"
    and "or 0xc0 (header_byte h ch) = header_byte 3 ch"
  using assms byte_fields [of h ch] byte_fields [of h 0] byte_fields [of h 1]
  by (auto simp: header_byte_def channel_extra_def Let_def)

lemma channel_of_bytes:
  assumes "valid_channel ch"
  shows "channel_extra ch = 1 \<Longrightarrow> unat (channel_bytes ch ! 0) + 64 = ch"
    and "channel_extra ch = 2 \<Longrightarrow> unat (channel_bytes ch ! 1) * 256 + unat (channel_bytes ch ! 0) + 64 = ch"
proof -
  have u: "unat (of_nat n :: byte) = n mod 256" for n by (simp add: unat_of_nat)
  show "channel_extra ch = 1 \<Longrightarrow> unat (channel_bytes ch ! 0) + 64 = ch"
    by (auto simp: channel_bytes_def channel_extra_def u split: if_splits)
  show "channel_extra ch = 2 \<Longrightarrow> unat (channel_bytes ch ! 1) * 256 + unat (channel_bytes ch ! 0) + 64 = ch"
    using assms by (auto simp: channel_bytes_def channel_extra_def u valid_channel_def split: if_splits)
qed

lemma read_basic_header:
  assumes net: "reliable_net ops sent arriving" and out: "0 < m_outChunkSize r"
    and ch: "valid_channel ch" and h: "h \<le> 3"
    and av: "avail arriving r = header_byte h ch # channel_bytes ch @ rest"
  obtains r' where "RTMP_ReadPacket ops r p0 = read_message ops r' p0 h ch" and "reader_same r r'"
    and "avail arriving r' = rest"
proof -
  note fields = header_byte_fields [OF h ch]
  have first: "avail arriving r = [header_byte h ch] @ (channel_bytes ch @ rest)" using av by simp
  obtain r1 where r1: "RTMP_ReadPacket ops r p0 = channel_read ops p0 r1 [header_byte h ch]"
    and same: "reader_same r r1" and av1: "avail arriving r1 = channel_bytes ch @ rest"
    unfolding RTMP_ReadPacket_def by (rule read_then_reliable [OF net out first, of 1]) simp_all
  have out1: "0 < m_outChunkSize r1" using out same by (simp add: reader_same_def)
  consider "channel_extra ch = 0" | "channel_extra ch = 1" | "channel_extra ch = 2"
    by (cases "ch > 319"; cases "ch > 63") (auto simp: channel_extra_def)
  then show thesis
  proof cases
    case 1
    then have "ch \<noteq> 0" "ch \<noteq> 1" using ch by (auto simp: valid_channel_def)
    then show thesis using r1 same av1 1 fields by (intro that [of r1]) (simp_all add: channel_bytes_def channel_read_def)
  next
    case 2
    then have len: "(1 :: int) = int (length (channel_bytes ch))" by (simp add: channel_bytes_def)
    obtain r2 where "read_then ops r1 1 (\<lambda>r1 c. read_message ops r1 p0 h (unat (c ! 0) + 64)) =
        read_message ops r2 p0 h (unat (channel_bytes ch ! 0) + 64)"
      and "reader_same r1 r2" and "avail arriving r2 = rest"
      by (rule read_then_reliable [OF net out1 av1 len])
    then show thesis
      using r1 same 2 fields channel_of_bytes(1) [OF ch]
      by (intro that [of r2]) (auto intro: reader_same_trans simp: channel_read_def)
  next
    case 3
    then have len: "(2 :: int) = int (length (channel_bytes ch))" by (simp add: channel_bytes_def)
    obtain r2 where "read_then ops r1 2 (\<lambda>r1 c. read_message ops r1 p0 h
        (unat (c ! 1) * 256 + unat (c ! 0) + 64)) =
        read_message ops r2 p0 h (unat (channel_bytes ch ! 1) * 256 + unat (channel_bytes ch ! 0) + 64)"
      and "reader_same r1 r2" and "avail arriving r2 = rest"
      by (rule read_then_reliable [OF net out1 av1 len])
    then show thesis
      using r1 same 3 fields channel_of_bytes(2) [OF ch]
      by (intro that [of r2]) (auto intro: reader_same_trans simp: channel_read_def)
  qed
qed

section \<open>One chunk of a body\<close>

text \<open>A packet of which \<open>m\<close> bytes of the body \<open>b\<close> have been read.\<close>

definition filled :: "byte list \<Rightarrow> nat \<Rightarrow> rtmp_packet \<Rightarrow> bool" where
  "filled b m s \<longleftrightarrow> length b < 2 ^ 24 \<and> m \<le> length b \<and> unat (m_nBodySize s) = length b \<and>
     unat (m_nBytesRead s) = m \<and>
     (m_body s = (if b = [] then None else Some (take m b @ replicate (length b - m) 0)) \<or>
      m = 0 \<and> m_body s = None)"

lemma unat_less_24: "n < 2 ^ 24 \<Longrightarrow> unat (of_nat n :: u32) = n"
  by (simp add: unat_of_nat)

lemma to_read:
  assumes "filled b m s"
  shows "as_i32 (uint (m_nBodySize s - m_nBytesRead s)) = int (length b - m)"
proof -
  have le: "m_nBytesRead s \<le> m_nBodySize s" using assms by (simp add: filled_def word_le_nat_alt)
  have "unat (m_nBodySize s - m_nBytesRead s) = length b - m"
    using assms unat_sub [OF le] by (simp add: filled_def)
  then have "uint (m_nBodySize s - m_nBytesRead s) = int (length b - m)" by (simp add: uint_nat)
  then show ?thesis using assms by (simp add: as_i32_id filled_def)
qed

text \<open>The packet once the next chunk of \<open>n\<close> bytes is in.\<close>

definition advanced :: "byte list \<Rightarrow> nat \<Rightarrow> rtmp_packet \<Rightarrow> rtmp_packet" where
  "advanced b m s =
     s\<lparr>m_nBytesRead := of_nat m, m_body := (if b = [] then None else Some (take m b @ replicate (length b - m) 0))\<rparr>"

lemma advanced_fields [simp]:
  "m_nTimeStamp (advanced b m s) = m_nTimeStamp s" "m_packetType (advanced b m s) = m_packetType s"
  "m_nChannel (advanced b m s) = m_nChannel s" "m_nBodySize (advanced b m s) = m_nBodySize s"
  "m_nInfoField2 (advanced b m s) = m_nInfoField2 s" "m_hasAbsTimestamp (advanced b m s) = m_hasAbsTimestamp s"
  by (simp_all add: advanced_def)

lemma advanced_filled: "filled b m s \<Longrightarrow> n \<le> length b \<Longrightarrow> filled b n (advanced b n s)"
  by (auto simp: filled_def advanced_def unat_less_24)

lemma put_next:
  assumes "m + n \<le> length b"
  shows "put_bytes m (take n (drop m b)) (take m b @ replicate (length b - m) 0) =
    take (m + n) b @ replicate (length b - (m + n)) 0"
  using assms by (simp add: put_bytes_def take_add min_def)

lemma read_body_chunk:
  assumes net: "reliable_net ops sent arriving" and out: "0 < m_outChunkSize r"
    and s: "filled b m s" and k: "m_inChunkSize r = int k" "0 < k"
    and n: "n = min k (length b - m)" and av: "avail arriving r = take n (drop m b) @ rest"
  obtains r' h where "read_body ops False ht r s =
      (let (r1, q) = keep_packet False ((advanced b (m + n) s)\<lparr>m_headerType := h\<rparr>) r' in Some (r1, ReadOk q))"
    and "reader_same r r'" and "avail arriving r' = rest"
proof -
  define p where "p = (if m_nBodySize s > 0 \<and> m_body s = None
    then (RTMPPacket_Alloc s (m_nBodySize s))\<lparr>m_headerType := ht\<rparr> else s)"
  have le: "m + n \<le> length b" using s n by (auto simp: filled_def)
  have size: "m_nBodySize s > 0 \<longleftrightarrow> b \<noteq> []" using s by (auto simp: filled_def word_gt_0 unat_eq_zero)
  have p: "filled b m p" "m_nBodySize p = m_nBodySize s" "m_nBytesRead p = of_nat m"
    and body: "m_body p = (if b = [] then None else Some (take m b @ replicate (length b - m) 0))"
    using s size by (auto simp: p_def filled_def RTMPPacket_Alloc_def word_unat_eq_iff unat_less_24
        split: if_splits)
  have same: "(p\<lparr>m_body := x, m_nBytesRead := y\<rparr>) = s\<lparr>m_body := x, m_nBytesRead := y, m_headerType := m_headerType p\<rparr>"
    for x y by (simp add: p_def RTMPPacket_Alloc_def)
  have chunk: "(if as_i32 (uint (m_nBodySize p - m_nBytesRead p)) < m_inChunkSize r
      then as_i32 (uint (m_nBodySize p - m_nBytesRead p)) else m_inChunkSize r) = int n"
    using to_read [OF p(1)] k n by auto
  have room: "\<not> (int n > 0 \<and> int (body_room p) < uint (m_nBytesRead p) + int n)"
    using p(1) body le n by (auto simp: body_room_def filled_def uint_nat)
  have len: "int n = int (length (take n (drop m b)))" using le by simp
  obtain r' where r': "read_then ops r (int n) (chunk_read False p (int n)) =
      chunk_read False p (int n) r' (take n (drop m b))"
    and rest: "reader_same r r'" "avail arriving r' = rest"
    by (rule read_then_reliable [OF net out av len])
  have upd: "p\<lparr>m_body := map_option (put_bytes (unat (m_nBytesRead p)) (take n (drop m b))) (m_body p),
      m_nBytesRead := m_nBytesRead p + word_of_int (int n)\<rparr> = (advanced b (m + n) s)\<lparr>m_headerType := m_headerType p\<rparr>"
    unfolding same using p(1,3) body put_next [OF le] by (simp add: advanced_def filled_def)
  have "read_body ops False ht r s = chunk_read False p (int n) r' (take n (drop m b))"
    using r' room chunk by (auto simp: read_body_def Let_def simp flip: p_def)
  also have "\<dots> = (let (r1, q) = keep_packet False ((advanced b (m + n) s)\<lparr>m_headerType := m_headerType p\<rparr>) r'
      in Some (r1, ReadOk q))"
    unfolding chunk_read_def upd by simp
  finally show thesis using rest by (rule that)
qed

section \<open>The message header\<close>

text \<open>
  What the reader has kept of a channel when the sender's last packet on it was \<open>prev\<close>: the header
  fields of that packet, with its time on the wire, and its absolute time.
\<close>

definition synced :: "rtmp_packet option \<Rightarrow> nat \<Rightarrow> 'c rtmp \<Rightarrow> bool" where
  "synced prev ch r \<longleftrightarrow>
     (case prev of
        None \<Rightarrow> m_vecChannelsIn r ch = None \<and> m_channelTimestamp r ch = 0
      | Some q \<Rightarrow> m_channelTimestamp r ch = m_nTimeStamp q \<and>
          (\<exists>s. m_vecChannelsIn r ch = Some s \<and> m_nChannel s = ch \<and> m_packetType s = m_packetType q \<and>
             m_nBodySize s = m_nBodySize q \<and> m_nTimeStamp s = m_nLastWireTimeStamp q \<and> m_nBytesRead s = 0 \<and>
             m_body s = None \<and> \<not> m_hasAbsTimestamp s))"

text \<open>
  The messages the code sends: with a full or a medium header to start from, a valid channel, a
  24-bit size, and a time on the wire that needs no extended timestamp.
\<close>

definition plain_message :: "rtmp_packet option \<Rightarrow> rtmp_packet \<Rightarrow> bool" where
  "plain_message prev p \<longleftrightarrow>
     (m_headerType p = RTMP_PACKET_SIZE_LARGE \<or> m_headerType p = RTMP_PACKET_SIZE_MEDIUM) \<and>
     valid_channel (m_nChannel p) \<and> whole_body p \<and> m_nBodySize p < 2 ^ 24 \<and>
     m_nLastWireTimeStamp (sent_packet prev p) < 0xffffff"

definition header_tail :: "rtmp_packet \<Rightarrow> byte list" where
  "header_tail p =
     (let nSize = packetSize (m_headerType p)
      in (if nSize > 1 then be24 (m_nLastWireTimeStamp p) else []) @
         (if nSize > 4 then be24 (m_nBodySize p) @ [m_packetType p] else []) @
         (if nSize > 8 then EncodeInt32LE (m_nInfoField2 p) else []))"

lemma message_header_tail:
  assumes "m_nLastWireTimeStamp p < 0xffffff"
  shows "message_header p (m_nLastWireTimeStamp p) =
    header_byte (m_headerType p) (m_nChannel p) # channel_bytes (m_nChannel p) @ header_tail p"
proof -
  have "\<not> m_nLastWireTimeStamp p > 0xffffff" "\<not> m_nLastWireTimeStamp p \<ge> 0xffffff" using assms by auto
  then show ?thesis by (simp add: message_header_def header_tail_def Let_def)
qed

lemma decode_le: "DecodeInt32LE (EncodeInt32LE v) = v"
  by (simp add: DecodeInt32LE_def EncodeInt32LE_def)

text \<open>The packet the reader starts from has the fields the header leaves out.\<close>

definition start_packet :: "'c rtmp \<Rightarrow> rtmp_packet \<Rightarrow> nat \<Rightarrow> nat \<Rightarrow> rtmp_packet" where
  "start_packet r p0 ht ch =
     (let p1 = p0\<lparr>m_headerType := ht, m_nChannel := ch\<rparr>
      in if packetSize ht = 12 then p1\<lparr>m_hasAbsTimestamp := True\<rparr>
         else case m_vecChannelsIn r ch of Some q \<Rightarrow> q | None \<Rightarrow> p1)"

definition header_matches :: "rtmp_packet \<Rightarrow> rtmp_packet \<Rightarrow> bool" where
  "header_matches q s \<longleftrightarrow>
     m_nChannel s = m_nChannel q \<and> m_packetType s = m_packetType q \<and> m_nBodySize s = m_nBodySize q \<and>
     m_nTimeStamp s = m_nLastWireTimeStamp q \<and>
     (m_hasAbsTimestamp s \<longleftrightarrow> m_headerType q = RTMP_PACKET_SIZE_LARGE) \<and>
     (m_headerType q = RTMP_PACKET_SIZE_LARGE \<longrightarrow> m_nInfoField2 s = m_nInfoField2 q)"

lemma header_types_sent:
  assumes "plain_message prev p" and "q = sent_packet prev p"
  obtains "m_headerType q = 0" "m_nLastWireTimeStamp q = m_nTimeStamp q"
  | "m_headerType q = 1" "m_nLastWireTimeStamp q = m_nTimeStamp q - (case prev of None \<Rightarrow> 0 | Some old \<Rightarrow> m_nTimeStamp old)"
  | old where "m_headerType q = 2" "prev = Some old" "m_nBodySize old = m_nBodySize q"
      "m_packetType old = m_packetType q" "m_nLastWireTimeStamp q = m_nTimeStamp q - m_nTimeStamp old"
  | old where "m_headerType q = 3" "prev = Some old" "m_nBodySize old = m_nBodySize q"
      "m_packetType old = m_packetType q" "m_nLastWireTimeStamp q = m_nTimeStamp q - m_nTimeStamp old"
      "m_nLastWireTimeStamp q = m_nLastWireTimeStamp old"
proof -
  note defs = sent_packet_def compress_header_def header_types Let_def
  have h: "m_headerType p = 0 \<or> m_headerType p = 1" using assms(1) by (auto simp: plain_message_def header_types)
  show thesis
  proof (cases "prev = None \<or> m_headerType p = 0")
    case True
    then show thesis using h that(1,2) by (auto simp: assms(2) defs split: option.splits)
  next
    case False
    then obtain old where old: "prev = Some old" and h1: "m_headerType p = 1" using h by auto
    show thesis
    proof (cases "m_nBodySize old = m_nBodySize p \<and> m_packetType old = m_packetType p")
      case same: True
      show thesis
      proof (cases "m_nTimeStamp p - m_nTimeStamp old = m_nLastWireTimeStamp old")
        case True
        then show thesis using same h1 old by (intro that(4) [of old]) (simp_all add: assms(2) defs)
      next
        case False
        then show thesis using same h1 old by (intro that(3) [of old]) (simp_all add: assms(2) defs)
      qed
    next
      case False
      then show thesis using h1 old by (intro that(2)) (auto simp: assms(2) defs)
    qed
  qed
qed

lemma parse_matches:
  assumes p: "plain_message prev p" and q: "q = sent_packet prev p"
    and sync: "synced prev (m_nChannel p) r" and p0: "m_body p0 = None" "\<not> m_hasAbsTimestamp p0"
    and s: "s = parse_header (packetSize (m_headerType q) - 1) (header_tail q)
      (start_packet r p0 (m_headerType q) (m_nChannel q))"
  shows "header_matches q s \<and> m_nBytesRead s = 0 \<and> m_body s = None"
proof -
  have t: "m_nLastWireTimeStamp q < 2 ^ 24" and b: "m_nBodySize q < 2 ^ 24"
    using p q by (auto simp: plain_message_def word_less_nat_alt)
  note rd = get24_be24 [OF t] get24_be24 [OF b]
  have ch: "m_nChannel q = m_nChannel p" by (simp add: q)
  show ?thesis
  proof (rule header_types_sent [OF p q])
    assume h: "m_headerType q = 0" "m_nLastWireTimeStamp q = m_nTimeStamp q"
    then show ?thesis using p0 rd(2) rd(1)
      by (simp add: s header_tail_def parse_header_def start_packet_def header_matches_def be24_def header_types
          decode_le Let_def)
  next
    assume h: "m_headerType q = 1"
      "m_nLastWireTimeStamp q = m_nTimeStamp q - (case prev of None \<Rightarrow> 0 | Some old \<Rightarrow> m_nTimeStamp old)"
    show ?thesis
    proof (cases prev)
      case None
      then show ?thesis using h p0 rd sync ch
        by (simp add: s header_tail_def parse_header_def start_packet_def header_matches_def be24_def header_types
            synced_def Let_def)
    next
      case (Some old)
      then show ?thesis using h p0 rd sync ch
        by (auto simp: s header_tail_def parse_header_def start_packet_def header_matches_def be24_def header_types
            synced_def Let_def)
    qed
  next
    fix old
    assume "m_headerType q = 2" "prev = Some old" "m_nBodySize old = m_nBodySize q"
      "m_packetType old = m_packetType q" "m_nLastWireTimeStamp q = m_nTimeStamp q - m_nTimeStamp old"
    then show ?thesis using p0 rd sync ch
      by (auto simp: s header_tail_def parse_header_def start_packet_def header_matches_def be24_def header_types
          synced_def Let_def)
  next
    fix old
    assume "m_headerType q = 3" "prev = Some old" "m_nBodySize old = m_nBodySize q"
      "m_packetType old = m_packetType q" "m_nLastWireTimeStamp q = m_nTimeStamp q - m_nTimeStamp old"
      "m_nLastWireTimeStamp q = m_nLastWireTimeStamp old"
    then show ?thesis using p0 rd sync ch
      by (auto simp: s header_tail_def parse_header_def start_packet_def header_matches_def be24_def header_types
          synced_def Let_def)
  qed
qed

text \<open>The absolute time the reader computes for a packet with the header of \<open>q\<close>.\<close>

definition read_time :: "rtmp_packet \<Rightarrow> 'c rtmp \<Rightarrow> u32" where
  "read_time q r =
     (if m_headerType q = RTMP_PACKET_SIZE_LARGE then m_nLastWireTimeStamp q
      else m_nLastWireTimeStamp q + m_channelTimestamp r (m_nChannel q))"

lemma read_time_same:
  "reader_same r r' \<Longrightarrow> read_time q r' = read_time q r"
  "read_time q (r\<lparr>m_vecChannelsIn := v\<rparr>) = read_time q r"
  by (simp_all add: read_time_def reader_same_def)

lemma time_restored:
  assumes "plain_message prev p" and "q = sent_packet prev p" and "synced prev (m_nChannel p) r"
  shows "read_time q r = m_nTimeStamp q"
  by (rule header_types_sent [OF assms(1,2)])
    (use assms(2,3) in \<open>auto simp: read_time_def synced_def header_types diff_eq_eq split: option.splits\<close>)

section \<open>The chunks of a message\<close>

definition wire_body :: "rtmp_packet \<Rightarrow> byte list" where
  "wire_body p = (case m_body p of None \<Rightarrow> [] | Some b \<Rightarrow> b)"

lemma header_read_plain:
  "m_nTimeStamp (parse_header (packetSize ht - 1) h p) \<noteq> 0xffffff \<Longrightarrow>
     header_read ops ht p r h = read_body ops False ht r (parse_header (packetSize ht - 1) h p)"
  by (simp add: header_read_def Let_def del: packetSize.simps)

lemma read_first_chunk:
  assumes net: "reliable_net ops sent arriving" and out: "0 < m_outChunkSize r"
    and p: "plain_message prev p" and q: "q = sent_packet prev p" and sync: "synced prev (m_nChannel p) r"
    and p0: "m_body p0 = None" "\<not> m_hasAbsTimestamp p0"
    and k: "m_inChunkSize r = int k" "0 < k" and n: "n = min k (length (wire_body q))"
    and av: "avail arriving r = message_header q (m_nLastWireTimeStamp q) @ take n (wire_body q) @ rest"
  obtains r' s h where "RTMP_ReadPacket ops r p0 =
      (let (r1, q') = keep_packet False ((advanced (wire_body q) n s)\<lparr>m_headerType := h\<rparr>) r' in Some (r1, ReadOk q'))"
    and "header_matches q s" and "filled (wire_body q) 0 s" and "reader_same r r'" and "avail arriving r' = rest"
proof -
  let ?b = "wire_body q" and ?ht = "m_headerType q" and ?ch = "m_nChannel q"
  define s where "s = parse_header (packetSize ?ht - 1) (header_tail q) (start_packet r p0 ?ht ?ch)"
  have s: "header_matches q s" "m_nBytesRead s = 0" "m_body s = None"
    using parse_matches [OF p q sync p0 s_def] by simp_all
  have t: "m_nLastWireTimeStamp q < 0xffffff" and ch: "valid_channel ?ch"
    using p q by (auto simp: plain_message_def)
  have ht: "?ht \<le> 3" by (rule header_types_sent [OF p q]) simp_all
  have size: "unat (m_nBodySize q) = length ?b" "length ?b < 2 ^ 24"
    using p q by (auto simp: plain_message_def whole_body_def wire_body_def word_less_nat_alt split: option.splits)
  have filled: "filled ?b 0 s" using s size by (simp add: filled_def header_matches_def)
  have av1: "avail arriving r = header_byte ?ht ?ch # channel_bytes ?ch @ (header_tail q @ take n ?b @ rest)"
    using av message_header_tail [OF t] by simp
  obtain r1 where r1: "RTMP_ReadPacket ops r p0 = read_message ops r1 p0 ?ht ?ch" "reader_same r r1"
    and av2: "avail arriving r1 = header_tail q @ (take n ?b @ rest)"
    by (rule read_basic_header [OF net out ch ht av1])
  define r2 where "r2 = (if ?ch \<ge> m_channelsAllocatedIn r1 then r1\<lparr>m_channelsAllocatedIn := ?ch + 10\<rparr> else r1)"
  have r2: "reader_same r r2" "avail arriving r2 = header_tail q @ (take n ?b @ rest)"
    using r1(2) av2 by (auto simp: r2_def reader_same_def avail_def)
  have out2: "0 < m_outChunkSize r2" using out r2(1) by (simp add: reader_same_def)
  have start: "start_packet r2 p0 ?ht ?ch = start_packet r p0 ?ht ?ch"
    using r2(1) by (simp add: start_packet_def reader_same_def)
  have len: "int (packetSize ?ht - 1) = int (length (header_tail q))"
    using ht by (auto simp: header_tail_def EncodeInt32LE_def Let_def)
  obtain r3 where r3: "read_then ops r2 (int (packetSize ?ht - 1)) (header_read ops ?ht (start_packet r p0 ?ht ?ch)) =
      header_read ops ?ht (start_packet r p0 ?ht ?ch) r3 (header_tail q)"
    and same3: "reader_same r2 r3" and av3: "avail arriving r3 = take n ?b @ rest"
    by (rule read_then_reliable [OF net out2 r2(2) len])
  have same3': "reader_same r r3" using r2(1) same3 by (rule reader_same_trans)
  have out3: "0 < m_outChunkSize r3" and k3: "m_inChunkSize r3 = int k"
    using out k same3' by (auto simp: reader_same_def)
  have av3': "avail arriving r3 = take n (drop 0 ?b) @ rest" and n3: "n = min k (length ?b - 0)"
    using av3 n by simp_all
  obtain r' h where r': "read_body ops False ?ht r3 s =
      (let (r1, q') = keep_packet False ((advanced ?b (0 + n) s)\<lparr>m_headerType := h\<rparr>) r' in Some (r1, ReadOk q'))"
    "reader_same r3 r'" "avail arriving r' = rest"
    by (rule read_body_chunk [OF net out3 filled k3 k(2) n3 av3'])
  have "m_nTimeStamp s \<noteq> 0xffffff" using s(1) t by (auto simp: header_matches_def)
  then have "header_read ops ?ht (start_packet r p0 ?ht ?ch) r3 (header_tail q) = read_body ops False ?ht r3 s"
    unfolding s_def by (rule header_read_plain)
  moreover have "RTMP_ReadPacket ops r p0 =
      read_then ops r2 (int (packetSize ?ht - 1)) (header_read ops ?ht (start_packet r p0 ?ht ?ch))"
    unfolding r1(1) start [symmetric] by (simp add: read_message_def Let_def start_packet_def del: packetSize.simps flip: r2_def)
  ultimately show thesis
    using r3 r' s(1) filled same3' by (intro that [of h s r']) (auto intro: reader_same_trans)
qed

lemma read_next_chunk:
  assumes net: "reliable_net ops sent arriving" and out: "0 < m_outChunkSize r"
    and ch: "valid_channel ch" and h: "ht \<le> 3"
    and kept: "m_vecChannelsIn r ch = Some s" and s: "filled b m s"
    and k: "m_inChunkSize r = int k" "0 < k" and n: "n = min k (length b - m)"
    and av: "avail arriving r = (or 0xc0 (header_byte ht ch) # channel_bytes ch) @ take n (drop m b) @ rest"
  obtains r' h' where "RTMP_ReadPacket ops r p0 =
      (let (r1, q') = keep_packet False ((advanced b (m + n) s)\<lparr>m_headerType := h'\<rparr>) r' in Some (r1, ReadOk q'))"
    and "reader_same r r'" and "avail arriving r' = rest"
proof -
  have av1: "avail arriving r = header_byte 3 ch # channel_bytes ch @ (take n (drop m b) @ rest)"
    using av header_byte_fields(3) [OF h ch] by simp
  obtain r1 where r1: "RTMP_ReadPacket ops r p0 = read_message ops r1 p0 3 ch" "reader_same r r1"
    and av2: "avail arriving r1 = take n (drop m b) @ rest"
    by (rule read_basic_header [OF net out ch _ av1]) simp_all
  define r2 where "r2 = (if ch \<ge> m_channelsAllocatedIn r1 then r1\<lparr>m_channelsAllocatedIn := ch + 10\<rparr> else r1)"
  have r2: "reader_same r r2" "avail arriving r2 = [] @ (take n (drop m b) @ rest)"
    using r1(2) av2 by (auto simp: r2_def reader_same_def avail_def)
  have out2: "0 < m_outChunkSize r2" using out r2(1) by (simp add: reader_same_def)
  obtain r3 where r3: "read_then ops r2 0 (header_read ops 3 s) = header_read ops 3 s r3 []"
    and same3: "reader_same r2 r3" and av3: "avail arriving r3 = take n (drop m b) @ rest"
    by (rule read_then_reliable [OF net out2 r2(2), of 0]) simp_all
  have same3': "reader_same r r3" using r2(1) same3 by (rule reader_same_trans)
  have out3: "0 < m_outChunkSize r3" and k3: "m_inChunkSize r3 = int k"
    using out k same3' by (auto simp: reader_same_def)
  obtain r' h' where r': "read_body ops False 3 r3 s =
      (let (r1, q') = keep_packet False ((advanced b (m + n) s)\<lparr>m_headerType := h'\<rparr>) r' in Some (r1, ReadOk q'))"
    "reader_same r3 r'" "avail arriving r' = rest"
    by (rule read_body_chunk [OF net out3 s k3 k(2) n av3])
  have "header_read ops 3 s r3 [] = read_body ops False 3 r3 s"
    by (simp add: header_read_def parse_header_def Let_def)
  moreover have "RTMP_ReadPacket ops r p0 = read_then ops r2 0 (header_read ops 3 s)"
    using kept r2(1) r1(1) by (simp add: read_message_def Let_def reader_same_def flip: r2_def)
  ultimately show thesis
    using r3 r' same3' by (intro that [of h' r']) (auto intro: reader_same_trans)
qed

section \<open>The round trip of a message\<close>

text \<open>The packet \<open>p'\<close> that was read is the packet \<open>q\<close> that was sent.\<close>

definition delivered :: "rtmp_packet \<Rightarrow> rtmp_packet \<Rightarrow> bool" where
  "delivered q p' \<longleftrightarrow>
     m_nChannel p' = m_nChannel q \<and> m_packetType p' = m_packetType q \<and> m_nTimeStamp p' = m_nTimeStamp q \<and>
     m_nBodySize p' = m_nBodySize q \<and> wire_body p' = wire_body q \<and> RTMPPacket_IsReady p' \<and>
     (m_headerType q = RTMP_PACKET_SIZE_LARGE \<longrightarrow> m_nInfoField2 p' = m_nInfoField2 q)"

definition others_same :: "nat \<Rightarrow> 'c rtmp \<Rightarrow> 'c rtmp \<Rightarrow> bool" where
  "others_same ch r r' \<longleftrightarrow>
     m_inChunkSize r' = m_inChunkSize r \<and> m_outChunkSize r' = m_outChunkSize r \<and>
     (\<forall>c. c \<noteq> ch \<longrightarrow> m_vecChannelsIn r' c = m_vecChannelsIn r c \<and>
        m_channelTimestamp r' c = m_channelTimestamp r c)"

definition message_read :: "('c \<Rightarrow> byte list) \<Rightarrow> rtmp_packet \<Rightarrow> byte list \<Rightarrow> 'c rtmp \<Rightarrow> 'c rtmp \<times> rtmp_packet \<Rightarrow> bool" where
  "message_read arriving q rest r x \<longleftrightarrow>
     (case x of (r', p') \<Rightarrow> delivered q p' \<and> synced (Some q) (m_nChannel q) r' \<and>
        others_same (m_nChannel q) r r' \<and> avail arriving r' = rest)"

lemma keep_done:
  assumes s: "header_matches q s" and b: "b = wire_body q" and size: "unat (m_nBodySize q) = length b"
    and time: "read_time q r = m_nTimeStamp q"
    and rest: "avail arriving r = rest"
  shows "message_read arriving q rest r
    (keep_packet False ((advanced b (length b) s)\<lparr>m_headerType := h\<rparr>) r)"
proof -
  have "of_nat (length b) = m_nBodySize q" using size by (metis of_nat_unat ucast_id)
  then show ?thesis
    using s b time rest
    by (auto simp: message_read_def keep_packet_def RTMPPacket_IsReady_def advanced_def header_matches_def
        delivered_def wire_body_def synced_def others_same_def avail_def Let_def add.commute read_time_def
        split: if_splits)
qed

lemma keep_more:
  assumes "filled b m s" and "m < n" and "n < length b"
  shows "keep_packet False ((advanced b n s)\<lparr>m_headerType := h\<rparr>) r =
    (r\<lparr>m_vecChannelsIn := (m_vecChannelsIn r)(m_nChannel s \<mapsto> (advanced b n s)\<lparr>m_headerType := h\<rparr>)\<rparr>,
     (advanced b n s)\<lparr>m_headerType := h, m_body := None\<rparr>)"
    and "\<not> RTMPPacket_IsReady ((advanced b n s)\<lparr>m_headerType := h, m_body := x\<rparr>)"
proof -
  have "unat (of_nat n :: u32) = n" using assms by (intro unat_less_24) (simp add: filled_def)
  then have "of_nat n \<noteq> m_nBodySize s" using assms by (auto simp: filled_def)
  then show "\<not> RTMPPacket_IsReady ((advanced b n s)\<lparr>m_headerType := h, m_body := x\<rparr>)"
    and "keep_packet False ((advanced b n s)\<lparr>m_headerType := h\<rparr>) r =
    (r\<lparr>m_vecChannelsIn := (m_vecChannelsIn r)(m_nChannel s \<mapsto> (advanced b n s)\<lparr>m_headerType := h\<rparr>)\<rparr>,
     (advanced b n s)\<lparr>m_headerType := h, m_body := None\<rparr>)"
    by (simp_all add: RTMPPacket_IsReady_def advanced_def keep_packet_def Let_def)
qed

lemma chunk_parts_step:
  assumes "0 < k" and "n = min k (length b)"
  shows "chunk_parts cont k b =
    take n b @ (if length b \<le> k then [] else cont @ chunk_parts cont k (drop n b))"
  using assms by (subst chunk_parts.simps) auto

lemma message_read_others:
  "others_same (m_nChannel q) r s \<Longrightarrow> message_read arriving q rest s x \<Longrightarrow> message_read arriving q rest r x"
  by (auto simp: message_read_def others_same_def)

lemma message_read_same:
  "reader_same r s \<Longrightarrow> message_read arriving q rest s x \<Longrightarrow> message_read arriving q rest r x"
  by (auto simp: message_read_def others_same_def reader_same_def)

lemma read_rest_chunks:
  assumes net: "reliable_net ops sent arriving" and ch: "valid_channel (m_nChannel q)" and h: "m_headerType q \<le> 3"
    and t: "m_nLastWireTimeStamp q < 0xffffff" and b: "b = wire_body q" and size: "unat (m_nBodySize q) = length b"
    and k: "0 < k" and cont: "cont = or 0xc0 (header_byte (m_headerType q) (m_nChannel q)) # channel_bytes (m_nChannel q)"
  shows "m_vecChannelsIn r (m_nChannel q) = Some s \<Longrightarrow> filled b m s \<Longrightarrow> header_matches q s \<Longrightarrow> m < length b \<Longrightarrow>
    m_inChunkSize r = int k \<Longrightarrow> 0 < m_outChunkSize r \<Longrightarrow>
    read_time q r = m_nTimeStamp q \<Longrightarrow>
    avail arriving r = cont @ chunk_parts cont k (drop m b) @ rest \<Longrightarrow> length b - m \<le> fuel \<Longrightarrow>
    \<exists>x. read_whole fuel ops r p0 = Some (fst x, ReadOk (snd x)) \<and> message_read arriving q rest r x"
proof (induction fuel arbitrary: r s m p0)
  case 0
  then show ?case by simp
next
  case (Suc fuel)
  define n where "n = min k (length b - m)"
  define tail where "tail = (if length b - m \<le> k then [] else cont @ chunk_parts cont k (drop (m + n) b))"
  have av: "avail arriving r = cont @ take n (drop m b) @ (tail @ rest)"
    using Suc.prems(8) chunk_parts_step [OF k, of n "drop m b" cont] by (simp add: n_def tail_def add.commute)
  obtain r' h' where read: "RTMP_ReadPacket ops r p0 =
      (let (r1, q') = keep_packet False ((advanced b (m + n) s)\<lparr>m_headerType := h'\<rparr>) r' in Some (r1, ReadOk q'))"
    and same: "reader_same r r'" and rest: "avail arriving r' = tail @ rest"
    by (rule read_next_chunk [OF net Suc.prems(6) ch h Suc.prems(1,2,5) k n_def av [unfolded cont]])
  have time: "read_time q r' = m_nTimeStamp q"
    using Suc.prems(7) by (simp add: read_time_same(1) [OF same])
  show ?case
  proof (cases "length b - m \<le> k")
    case True
    then have n: "m + n = length b" and tail: "tail = []" using Suc.prems(4) by (auto simp: n_def tail_def)
    have "message_read arriving q rest r' (keep_packet False ((advanced b (length b) s)\<lparr>m_headerType := h'\<rparr>) r')"
      using rest by (intro keep_done [OF Suc.prems(3) b size time]) (simp add: tail)
    then have "message_read arriving q rest r (keep_packet False ((advanced b (length b) s)\<lparr>m_headerType := h'\<rparr>) r')"
      by (rule message_read_same [OF same])
    then show ?thesis
      using read n by (cases "keep_packet False ((advanced b (length b) s)\<lparr>m_headerType := h'\<rparr>) r'")
        (auto simp: message_read_def delivered_def)
  next
    case False
    then have n: "m < m + n" "m + n < length b" using k by (auto simp: n_def)
    let ?s = "(advanced b (m + n) s)\<lparr>m_headerType := h'\<rparr>"
    let ?r = "r'\<lparr>m_vecChannelsIn := (m_vecChannelsIn r')(m_nChannel s \<mapsto> ?s)\<rparr>"
    have chs: "m_nChannel s = m_nChannel q" using Suc.prems(3) by (simp add: header_matches_def)
    note more = keep_more [OF Suc.prems(2) n, where h = h']
    have "read_whole (Suc fuel) ops r p0 = read_whole fuel ops ?r (?s\<lparr>m_body := None\<rparr>)"
      using read more(2) [of None] by (simp add: more(1))
    moreover have "\<exists>x. read_whole fuel ops ?r (?s\<lparr>m_body := None\<rparr>) = Some (fst x, ReadOk (snd x)) \<and>
        message_read arriving q rest ?r x"
    proof (rule Suc.IH)
      show "m_vecChannelsIn ?r (m_nChannel q) = Some ?s" by (simp add: chs)
      show "filled b (m + n) ?s" using advanced_filled [OF Suc.prems(2), of "m + n"] n by (simp add: filled_def)
      show "header_matches q ?s" using Suc.prems(3) by (simp add: header_matches_def)
      show "m + n < length b" by (rule n(2))
      show "m_inChunkSize ?r = int k" "0 < m_outChunkSize ?r"
        using Suc.prems(5,6) same by (simp_all add: reader_same_def)
      show "read_time q ?r = m_nTimeStamp q"
        using time by (simp add: read_time_same)
      show "avail arriving ?r = cont @ chunk_parts cont k (drop (m + n) b) @ rest"
        using rest False by (simp add: avail_def tail_def)
      show "length b - (m + n) \<le> fuel" using Suc.prems(9) n by simp
    qed
    moreover have "others_same (m_nChannel q) r ?r"
      using same chs by (simp add: reader_same_def others_same_def)
    ultimately show ?thesis by (auto intro: message_read_others)
  qed
qed

theorem message_round_trip:
  assumes net: "reliable_net ops sent arriving" and p: "plain_message prev p" and q: "q = sent_packet prev p"
    and sync: "synced prev (m_nChannel p) r" and p0: "m_body p0 = None" "\<not> m_hasAbsTimestamp p0"
    and k: "m_inChunkSize r = int k" "0 < k" and out: "0 < m_outChunkSize r"
    and av: "avail arriving r = message_bytes k q @ rest" and fuel: "unat (m_nBodySize p) < fuel"
  shows "\<exists>x. read_whole fuel ops r p0 = Some (fst x, ReadOk (snd x)) \<and> message_read arriving q rest r x"
proof -
  let ?b = "wire_body q" and ?t = "m_nLastWireTimeStamp q"
  have t: "?t < 0xffffff" and ch: "valid_channel (m_nChannel q)" using p q by (auto simp: plain_message_def)
  have h: "m_headerType q \<le> 3" by (rule header_types_sent [OF p q]) simp_all
  have size: "unat (m_nBodySize q) = length ?b"
    using p q by (auto simp: plain_message_def whole_body_def wire_body_def split: option.splits)
  define cont where "cont = or 0xc0 (header_byte (m_headerType q) (m_nChannel q)) # channel_bytes (m_nChannel q)"
  have cont: "continuation_header q ?t = cont"
    using t by (auto simp: continuation_header_def cont_def)
  define n where "n = min k (length ?b)"
  define tail where "tail = (if length ?b \<le> k then [] else cont @ chunk_parts cont k (drop n ?b))"
  have bytes: "message_bytes k q = message_header q ?t @ take n ?b @ tail"
    using chunk_parts_step [OF k(2) n_def] by (simp add: message_bytes_def cont tail_def wire_body_def)
  obtain fuel' where fuel': "fuel = Suc fuel'" using fuel by (cases fuel) auto
  obtain r' s h where read: "RTMP_ReadPacket ops r p0 =
      (let (r1, q') = keep_packet False ((advanced ?b n s)\<lparr>m_headerType := h\<rparr>) r' in Some (r1, ReadOk q'))"
    and s: "header_matches q s" "filled ?b 0 s" and same: "reader_same r r'" and rest: "avail arriving r' = tail @ rest"
    by (rule read_first_chunk [OF net out p q sync p0 k n_def, of "tail @ rest"]) (simp_all add: av bytes)
  have time: "read_time q r' = m_nTimeStamp q"
    using time_restored [OF p q sync] by (simp add: read_time_same(1) [OF same])
  show ?thesis
  proof (cases "length ?b \<le> k")
    case True
    then have n: "n = length ?b" and tail: "tail = []" by (auto simp: n_def tail_def)
    have "message_read arriving q rest r' (keep_packet False ((advanced ?b (length ?b) s)\<lparr>m_headerType := h\<rparr>) r')"
      using rest by (intro keep_done [OF s(1) refl size time]) (simp add: tail)
    then have "message_read arriving q rest r (keep_packet False ((advanced ?b (length ?b) s)\<lparr>m_headerType := h\<rparr>) r')"
      by (rule message_read_same [OF same])
    then show ?thesis
      using read n fuel' by (cases "keep_packet False ((advanced ?b (length ?b) s)\<lparr>m_headerType := h\<rparr>) r'")
        (auto simp: message_read_def delivered_def)
  next
    case False
    then have n: "0 < n" "n < length ?b" using k(2) by (auto simp: n_def)
    let ?s = "(advanced ?b n s)\<lparr>m_headerType := h\<rparr>"
    let ?r = "r'\<lparr>m_vecChannelsIn := (m_vecChannelsIn r')(m_nChannel s \<mapsto> ?s)\<rparr>"
    have chs: "m_nChannel s = m_nChannel q" using s(1) by (simp add: header_matches_def)
    note more = keep_more [OF s(2) n, where h = h]
    have "read_whole fuel ops r p0 = read_whole fuel' ops ?r (?s\<lparr>m_body := None\<rparr>)"
      using read more(2) [of None] by (simp add: more(1) fuel')
    moreover have "\<exists>x. read_whole fuel' ops ?r (?s\<lparr>m_body := None\<rparr>) = Some (fst x, ReadOk (snd x)) \<and>
        message_read arriving q rest ?r x"
    proof (rule read_rest_chunks [OF net ch h t refl size k(2) cont_def])
      show "m_vecChannelsIn ?r (m_nChannel q) = Some ?s" by (simp add: chs)
      show "filled ?b n ?s" using advanced_filled [OF s(2), of n] n by (simp add: filled_def)
      show "header_matches q ?s" using s(1) by (simp add: header_matches_def)
      show "n < length ?b" by (rule n(2))
      show "m_inChunkSize ?r = int k" "0 < m_outChunkSize ?r" using k(1) out same by (simp_all add: reader_same_def)
      show "read_time q ?r = m_nTimeStamp q" using time by (simp add: read_time_same)
      show "avail arriving ?r = cont @ chunk_parts cont k (drop n ?b) @ rest"
        using rest False by (simp add: avail_def tail_def)
      show "length ?b - n \<le> fuel'" using fuel size n fuel' q by simp
    qed
    moreover have "others_same (m_nChannel q) r ?r" using same chs by (simp add: reader_same_def others_same_def)
    ultimately show ?thesis by (auto intro: message_read_others)
  qed
qed

end
