(* ===== verification/Rtmp_Streams.thy ===== *)
theory Rtmp_Streams
  imports Rtmp_Roundtrip Flv_Properties
begin

text \<open>
  Streams of messages over a connection: what a sequence of sends puts on the wire, what a sequence
  of reads makes of it, and \<open>RTMP_Write\<close> as a send of the packet of an FLV tag.
\<close>

section \<open>A pipe\<close>

text \<open>
  A network for the witnesses: what is sent is kept, seven bytes at most in a call, and what is to be
  read comes in pieces of at most five bytes.
\<close>

type_synonym pipe = "byte list \<times> byte list"

definition pipe_ops :: "pipe net_ops" where
  "pipe_ops =
     \<lparr>net_send = (\<lambda>c bs. ((fst c @ take 7 bs, snd c), Sent (length (take 7 bs)))),
      net_recv = (\<lambda>c n. if snd c = [] then (c, RecvClosed)
                        else ((fst c, drop (min 5 n) (snd c)), Received (take (min 5 n) (snd c)))),
      net_close = (\<lambda>c. c)\<rparr>"

lemma pipe_reliable: "reliable_net pipe_ops fst snd"
  by (auto simp: reliable_net_def pipe_ops_def min_def)

section \<open>Streams of messages\<close>

fun send_all :: "'c closer \<Rightarrow> 'c net_ops \<Rightarrow> 'c rtmp \<Rightarrow> rtmp_packet list \<Rightarrow> ('c rtmp \<times> bool) option" where
  "send_all close ops s [] = Some (s, True)"
| "send_all close ops s (p # ps) =
     Option.bind (RTMP_SendPacket close ops s p False) (\<lambda>(s1, q, ok).
       if ok then send_all close ops s1 ps else Some (s1, False))"

fun read_all :: "nat \<Rightarrow> 'c net_ops \<Rightarrow> nat \<Rightarrow> 'c rtmp \<Rightarrow> ('c rtmp \<times> rtmp_packet list) option" where
  "read_all fuel ops 0 r = Some (r, [])"
| "read_all fuel ops (Suc n) r =
     Option.bind (read_whole fuel ops r packet_zero) (\<lambda>(r1, res).
       case res of
         ReadOk q \<Rightarrow> Option.bind (read_all fuel ops n r1) (\<lambda>(r2, qs). Some (r2, q # qs))
       | _ \<Rightarrow> Some (r1, []))"

text \<open>Messages without extended timestamps, each judged by the one before it on its channel.\<close>

fun plain_stream :: "(nat \<Rightarrow> rtmp_packet option) \<Rightarrow> rtmp_packet list \<Rightarrow> bool" where
  "plain_stream v [] = True"
| "plain_stream v (p # ps) =
     (plain_message (v (m_nChannel p)) p \<and>
      plain_stream (v(m_nChannel p \<mapsto> sent_packet (v (m_nChannel p)) p)) ps)"

lemma sent_header_large:
  "plain_message prev p \<Longrightarrow> m_headerType (sent_packet prev p) = RTMP_PACKET_SIZE_LARGE \<longleftrightarrow>
     m_headerType p = RTMP_PACKET_SIZE_LARGE"
  by (auto simp: plain_message_def sent_packet_def compress_header_def header_types Let_def split: option.splits)

lemma delivered_sent:
  "plain_message prev p \<Longrightarrow> delivered (sent_packet prev p) p' \<longleftrightarrow> delivered p p'"
  by (simp add: delivered_def wire_body_def sent_header_large)

section \<open>The bytes of a stream\<close>

fun stream_bytes :: "nat \<Rightarrow> (nat \<Rightarrow> rtmp_packet option) \<Rightarrow> rtmp_packet list \<Rightarrow> byte list" where
  "stream_bytes k v [] = []"
| "stream_bytes k v (p # ps) =
     (let q = sent_packet (v (m_nChannel p)) p
      in message_bytes k q @ stream_bytes k (v(m_nChannel p \<mapsto> q)) ps)"

lemma send_all_bytes:
  assumes net: "reliable_net ops sent arriving"
  shows "plain_stream (m_vecChannelsOut s) ps \<Longrightarrow> 0 < m_outChunkSize s \<Longrightarrow>
    \<exists>s'. send_all close ops s ps = Some (s', True) \<and>
      sent (net s') = sent (net s) @ stream_bytes (m_outChunkSize s) (m_vecChannelsOut s) ps"
proof (induction ps arbitrary: s)
  case Nil
  then show ?case by simp
next
  case (Cons p ps)
  define q where "q = sent_packet (m_vecChannelsOut s (m_nChannel p)) p"
  have p: "m_headerType p \<le> 3" "whole_body p" using Cons.prems(1) by (auto simp: plain_message_def header_types)
  obtain a m c where send: "RTMP_SendPacket close ops s p False =
      Some (s\<lparr>m_channelsAllocatedOut := a, m_methodCalls := m, net := c,
        m_vecChannelsOut := (m_vecChannelsOut s)(m_nChannel p \<mapsto> q)\<rparr>, q, True)"
    and c: "sent c = sent (net s) @ message_bytes (m_outChunkSize s) q"
    using SendPacket_reliable [OF net Cons.prems(2) p q_def, of close False] by blast
  show ?case
    using Cons.IH [of "s\<lparr>m_channelsAllocatedOut := a, m_methodCalls := m, net := c,
        m_vecChannelsOut := (m_vecChannelsOut s)(m_nChannel p \<mapsto> q)\<rparr>"] Cons.prems send c
    by (simp add: Let_def q_def fun_upd_def)
qed

lemma read_all_delivers:
  assumes net: "reliable_net ops sent arriving"
  shows "plain_stream v ps \<Longrightarrow> 0 < k \<Longrightarrow> \<forall>ch. synced (v ch) ch r \<Longrightarrow> m_inChunkSize r = int k \<Longrightarrow>
    0 < m_outChunkSize r \<Longrightarrow> \<forall>p \<in> set ps. unat (m_nBodySize p) < fuel \<Longrightarrow>
    avail arriving r = stream_bytes k v ps @ rest \<Longrightarrow>
    \<exists>r' ps'. read_all fuel ops (length ps) r = Some (r', ps') \<and> list_all2 delivered ps ps' \<and>
      avail arriving r' = rest"
proof (induction ps arbitrary: v r)
  case Nil
  then show ?case by simp
next
  case (Cons p ps)
  let ?ch = "m_nChannel p"
  define q where "q = sent_packet (v ?ch) p"
  have plain: "plain_message (v ?ch) p" using Cons.prems(1) by simp
  have av: "avail arriving r = message_bytes k q @ (stream_bytes k (v(?ch \<mapsto> q)) ps @ rest)"
    using Cons.prems(7) by (simp add: Let_def q_def)
  have zero: "m_body packet_zero = None" "\<not> m_hasAbsTimestamp packet_zero" by (simp_all add: packet_zero_def)
  have fuel: "unat (m_nBodySize p) < fuel" using Cons.prems(6) by simp
  obtain r1 p' where read: "read_whole fuel ops r packet_zero = Some (r1, ReadOk p')"
    and msg: "message_read arriving q (stream_bytes k (v(?ch \<mapsto> q)) ps @ rest) r (r1, p')"
    using message_round_trip [OF net plain q_def spec [OF Cons.prems(3)] zero Cons.prems(4,2,5) av fuel] by force
  have "synced ((v(?ch \<mapsto> q)) ch) ch r1" for ch
    using msg Cons.prems(3) [rule_format, of ch]
    by (auto simp: message_read_def q_def synced_def others_same_def split: option.splits)
  then have sync: "\<forall>ch. synced ((v(?ch \<mapsto> q)) ch) ch r1" by blast
  have "plain_stream (v(?ch \<mapsto> q)) ps" using Cons.prems(1) by (simp add: q_def)
  moreover have "m_inChunkSize r1 = int k" "0 < m_outChunkSize r1" "\<forall>p \<in> set ps. unat (m_nBodySize p) < fuel"
    and "avail arriving r1 = stream_bytes k (v(?ch \<mapsto> q)) ps @ rest"
    using msg Cons.prems(4,5,6) by (simp_all add: message_read_def others_same_def)
  ultimately obtain r' ps' where "read_all fuel ops (length ps) r1 = Some (r', ps')"
    and "list_all2 delivered ps ps'" "avail arriving r' = rest"
    using Cons.IH [OF _ Cons.prems(2) sync] by blast
  moreover have "delivered p p'" using msg delivered_sent [OF plain] by (simp add: message_read_def q_def)
  ultimately show ?case using read by (intro exI [of _ r'] exI [of _ "p' # ps'"]) simp
qed

section \<open>The packet of a tag\<close>

type_synonym tag = "byte \<times> u32 \<times> byte list"

definition tag_bytes :: "tag \<Rightarrow> byte list" where
  "tag_bytes x = (case x of (ty, time, body) \<Rightarrow> make_tag ty time body)"

definition tag_message :: "u32 \<Rightarrow> tag \<Rightarrow> rtmp_packet" where
  "tag_message info x =
     (case x of (ty, time, body) \<Rightarrow>
        message_packet 4
          (if (ty = RTMP_TYPE_AUDIO \<or> ty = RTMP_TYPE_VIDEO) \<and> and time 0x7FFFFFFF = 0 \<or> ty = RTMP_TYPE_INFO
           then RTMP_PACKET_SIZE_LARGE else RTMP_PACKET_SIZE_MEDIUM)
          ty (and time 0x7FFFFFFF) info body\<lparr>m_nBytesRead := of_nat (length body)\<rparr>)"

definition good_tag :: "tag \<Rightarrow> bool" where
  "good_tag x \<longleftrightarrow> (case x of (ty, time, body) \<Rightarrow> ty \<noteq> 0x46 \<and> length body < 2 ^ 24)"

text \<open>The write packet between two tags: nothing is left of the last one but what a send replaces.\<close>

definition write_idle :: "'c rtmp \<Rightarrow> bool" where
  "write_idle r \<longleftrightarrow> m_nBytesRead (m_write r) = 0 \<and> \<not> m_hasAbsTimestamp (m_write r)"

fun write_all :: "'c net_ops \<Rightarrow> 'c rtmp \<Rightarrow> nat \<Rightarrow> tag list \<Rightarrow> ('c rtmp \<times> bool) option" where
  "write_all ops s i [] = Some (s, True)"
| "write_all ops s i (x # xs) =
     Option.bind (RTMP_Write ops s (tag_bytes x) i) (\<lambda>(s1, res).
       if res = Some (int (length (tag_bytes x))) then write_all ops s1 i xs else Some (s1, False))"

lemma get32_time_parts:
  "or (get24 (ucast (drop_bit 16 w)) (ucast (drop_bit 8 w)) (ucast w))
     (push_bit 24 (ucast (and (ucast (drop_bit 24 w) :: byte) 0x7F))) = and w 0x7FFFFFFF"
  for w :: u32
  using get32_time [of w] by (simp add: get24_def get32_def or.assoc or.commute or.left_commute)

lemma make_tag_bytes:
  "make_tag ty time body = ty # be24 (of_nat (length body)) @ be24 time @
     and (ucast (drop_bit 24 time)) 0x7F # 0 # 0 # 0 # body @ be32 (of_nat (11 + length body))"
  by (simp add: make_tag_def Let_def)

lemma write_header_tag:
  assumes "length body < 2 ^ 24"
  shows "write_header (make_tag ty time body) p = RTMPPacket_Alloc
     (p\<lparr>m_packetType := ty, m_nBodySize := of_nat (length body), m_nTimeStamp := and time 0x7FFFFFFF,
        m_headerType := (if (ty = RTMP_TYPE_AUDIO \<or> ty = RTMP_TYPE_VIDEO) \<and> and time 0x7FFFFFFF = 0 \<or>
          ty = RTMP_TYPE_INFO then RTMP_PACKET_SIZE_LARGE else RTMP_PACKET_SIZE_MEDIUM)\<rparr>)
     (of_nat (length body))"
proof -
  have "get24 (ucast (drop_bit 16 (of_nat (length body) :: u32))) (ucast (drop_bit 8 (of_nat (length body) :: u32)))
      (ucast (of_nat (length body) :: u32)) = of_nat (length body)"
    using get24_of_nat [OF assms] by (metis of_nat_unat ucast_id)
  then show ?thesis
    by (simp add: write_header_def make_tag_bytes be24_def get32_time_parts Let_def)
qed

lemma write_fill_tag:
  assumes "length body < 2 ^ 24" and "m_nBodySize p = of_nat (length body)" and "m_nBytesRead p = 0"
    and "m_body p = Some (replicate (length body) 0)"
  shows "write_fill (body @ rest) p = (p\<lparr>m_body := Some body, m_nBytesRead := of_nat (length body)\<rparr>, rest)"
proof -
  have "unat (of_nat (length body) :: u32) = length body" using assms(1) by (simp add: unat_of_nat)
  then show ?thesis using assms by (simp add: write_fill_def put_bytes_def Let_def)
qed

lemma compress_wire:
  "compress_header prev (p\<lparr>m_nLastWireTimeStamp := t\<rparr>) =
   map_prod (\<lambda>p. p\<lparr>m_nLastWireTimeStamp := t\<rparr>) (\<lambda>x. x) (compress_header prev p)"
  by (cases prev) (simp_all add: compress_header_def Let_def)

lemma sent_packet_wire: "sent_packet prev (p\<lparr>m_nLastWireTimeStamp := t\<rparr>) = sent_packet prev p"
  by (simp add: sent_packet_def compress_wire split: prod.split)

lemma sent_packet_abs [simp]: "m_hasAbsTimestamp (sent_packet prev p) = m_hasAbsTimestamp p"
  by (simp add: sent_packet_def compress_header_def Let_def split: option.splits)

lemma skip_tag: "ty \<noteq> 0x46 \<Longrightarrow> skip_flv_header (make_tag ty time body) = Some (make_tag ty time body)"
  by (simp add: skip_flv_header_def make_tag_bytes be24_def)

lemma write_one:
  assumes net: "reliable_net ops sent arriving" and k: "0 < m_outChunkSize s" and idle: "write_idle s"
    and x: "good_tag x" and q: "q = sent_packet (m_vecChannelsOut s 4)
      (tag_message (word_of_int (st_id (stream_link s i))) x)"
  shows "\<exists>a c w. RTMP_Write ops s (tag_bytes x) i =
      Some (s\<lparr>m_channelsAllocatedOut := a, net := c, m_vecChannelsOut := (m_vecChannelsOut s)(4 \<mapsto> q),
        m_write := w\<rparr>, Some (int (length (tag_bytes x)))) \<and>
    m_nBytesRead w = 0 \<and> \<not> m_hasAbsTimestamp w \<and>
    sent c = sent (net s) @ message_bytes (m_outChunkSize s) q"
proof -
  obtain ty time body where xs: "x = (ty, time, body)" by (cases x)
  have ty: "ty \<noteq> 0x46" and len: "length body < 2 ^ 24" using x by (simp_all add: good_tag_def xs)
  let ?info = "word_of_int (st_id (stream_link s i)) :: u32" and ?b = "make_tag ty time body"
  define s0 where "s0 = s\<lparr>m_write := (m_write s)\<lparr>m_nChannel := 4, m_nInfoField2 := ?info\<rparr>\<rparr>"
  define p where "p = (tag_message ?info x)\<lparr>m_nLastWireTimeStamp := m_nLastWireTimeStamp (m_write s)\<rparr>"
  have u: "unat (of_nat (length body) :: u32) = length body" using len by (simp add: unat_of_nat)
  have drop: "drop 11 ?b = body @ be32 (of_nat (11 + length body))" by (simp add: make_tag_bytes be24_def)
  have fill: "write_fill (drop 11 ?b) (write_header ?b ((m_write s)\<lparr>m_nChannel := 4, m_nInfoField2 := ?info\<rparr>)) = (p, be32 (of_nat (11 + length body)))"
    unfolding drop write_header_tag [OF len]
    by (subst write_fill_tag [OF len])
      (use idle u in \<open>simp_all add: RTMPPacket_Alloc_def p_def s0_def xs tag_message_def message_packet_def
        packet_zero_def write_idle_def\<close>)
  have p: "m_headerType p \<le> 3" "whole_body p" "m_nChannel p = 4" "m_nBytesRead p = m_nBodySize p"
    "\<not> m_hasAbsTimestamp p"
    using u by (auto simp: p_def xs tag_message_def message_packet_def packet_zero_def whole_body_def header_types)
  have qp: "q = sent_packet (m_vecChannelsOut (s0\<lparr>m_write := p\<rparr>) (m_nChannel p)) p"
    by (simp add: q p(3)) (simp add: p_def s0_def sent_packet_wire)
  have k0: "0 < m_outChunkSize (s0\<lparr>m_write := p\<rparr>)" using k by (simp add: s0_def)
  obtain a c where send: "RTMP_SendPacket (RTMP_Close ops) ops (s0\<lparr>m_write := p\<rparr>) p False =
      Some (s0\<lparr>m_write := p, m_channelsAllocatedOut := a, net := c,
        m_vecChannelsOut := (m_vecChannelsOut s)(4 \<mapsto> q)\<rparr>, q, True)"
    and c: "sent c = sent (net s) @ message_bytes (m_outChunkSize s) q"
    using SendPacket_reliable [OF net k0 p(1,2) qp, of "RTMP_Close ops" False]
    by (auto simp: p(3) s0_def)
  have "RTMP_Write ops s (tag_bytes x) i = Some (s\<lparr>m_channelsAllocatedOut := a, net := c,
      m_vecChannelsOut := (m_vecChannelsOut s)(4 \<mapsto> q), m_write := (RTMPPacket_Free q)\<lparr>m_nBytesRead := 0\<rparr>\<rparr>,
      Some (int (length (tag_bytes x))))"
  proof -
    have "?b \<noteq> []" "\<not> length ?b < 11" by (simp_all add: make_tag_bytes)
    moreover have "m_write s0 = (m_write s)\<lparr>m_nChannel := 4, m_nInfoField2 := ?info\<rparr>" by (simp add: s0_def)
    ultimately have "write_loop ops (length ?b) ?b s0 = Some (s0\<lparr>m_channelsAllocatedOut := a, net := c,
      m_vecChannelsOut := (m_vecChannelsOut s)(4 \<mapsto> q), m_write := (RTMPPacket_Free q)\<lparr>m_nBytesRead := 0\<rparr>\<rparr>,
      Some (int (length ?b)))"
      using idle send
      by (simp add: write_loop.simps [of ops _ ?b] write_loop.simps [of ops _ "[]"]
          skip_tag [OF ty] fill write_idle_def p(4) Let_def)
    then show ?thesis by (simp add: RTMP_Write_def tag_bytes_def xs flip: s0_def) (simp add: s0_def)
  qed
  moreover have "\<not> m_hasAbsTimestamp q" using p(5) qp by (simp add: p(3))
  ultimately show ?thesis using c by (intro exI [of _ a] exI [of _ c] exI [of _ "(RTMPPacket_Free q)\<lparr>m_nBytesRead := 0\<rparr>"])
      (simp add: RTMPPacket_Free_def)
qed

lemma write_all_bytes:
  assumes net: "reliable_net ops sent arriving"
  shows "list_all good_tag xs \<Longrightarrow> 0 < m_outChunkSize s \<Longrightarrow> write_idle s \<Longrightarrow>
    info = word_of_int (st_id (stream_link s i)) \<Longrightarrow>
    \<exists>s'. write_all ops s i xs = Some (s', True) \<and>
      sent (net s') = sent (net s) @ stream_bytes (m_outChunkSize s) (m_vecChannelsOut s) (map (tag_message info) xs)"
proof (induction xs arbitrary: s)
  case Nil
  then show ?case by simp
next
  case (Cons x xs)
  define q where "q = sent_packet (m_vecChannelsOut s 4) (tag_message info x)"
  have x: "good_tag x" using Cons.prems(1) by simp
  obtain a c w where wr: "RTMP_Write ops s (tag_bytes x) i =
      Some (s\<lparr>m_channelsAllocatedOut := a, net := c, m_vecChannelsOut := (m_vecChannelsOut s)(4 \<mapsto> q),
        m_write := w\<rparr>, Some (int (length (tag_bytes x))))"
    and w: "m_nBytesRead w = 0" "\<not> m_hasAbsTimestamp w"
    and c: "sent c = sent (net s) @ message_bytes (m_outChunkSize s) q"
    using write_one [OF net Cons.prems(2,3) x q_def [unfolded Cons.prems(4)]] by blast
  have bytes: "stream_bytes k v (map (tag_message info) (x # xs)) =
      message_bytes k (sent_packet (v 4) (tag_message info x)) @
      stream_bytes k (v(4 \<mapsto> sent_packet (v 4) (tag_message info x))) (map (tag_message info) xs)" for k v info
    by (cases x) (simp add: tag_message_def message_packet_def Let_def)
  show ?case
    using Cons.IH [of "s\<lparr>m_channelsAllocatedOut := a, net := c, m_vecChannelsOut := (m_vecChannelsOut s)(4 \<mapsto> q),
        m_write := w\<rparr>"] Cons.prems wr w c
    by (simp add: bytes q_def write_idle_def stream_link_def fun_upd_def del: list.map)
qed

section \<open>The times of the tags\<close>

definition full_header :: "tag \<Rightarrow> bool" where
  "full_header x \<longleftrightarrow> (case x of (ty, time, body) \<Rightarrow>
     (ty = RTMP_TYPE_AUDIO \<or> ty = RTMP_TYPE_VIDEO) \<and> and time 0x7FFFFFFF = 0 \<or> ty = RTMP_TYPE_INFO)"

text \<open>
  No tag needs an extended timestamp: the time, or its distance from the tag before, is short of
  \<open>0xffffff\<close> milliseconds, about four hours and 40 minutes.
\<close>

fun wire_times :: "u32 option \<Rightarrow> tag list \<Rightarrow> bool" where
  "wire_times prev [] = True"
| "wire_times prev (x # xs) =
     (let t = and (fst (snd x)) 0x7FFFFFFF
      in (case prev of Some u \<Rightarrow> if full_header x then t else t - u | None \<Rightarrow> t) < 0xffffff \<and>
         wire_times (Some t) xs)"

lemma sent_wire_time:
  "m_nLastWireTimeStamp (sent_packet prev p) =
     (case prev of None \<Rightarrow> m_nTimeStamp p
      | Some q \<Rightarrow> if m_headerType p = RTMP_PACKET_SIZE_LARGE then m_nTimeStamp p
                  else m_nTimeStamp p - m_nTimeStamp q)"
  by (simp add: sent_packet_def compress_header_def Let_def split: option.split)

lemma plain_tags:
  "list_all good_tag xs \<Longrightarrow> wire_times (map_option m_nTimeStamp (v 4)) xs \<Longrightarrow>
     plain_stream v (map (tag_message info) xs)"
proof (induction xs arbitrary: v)
  case Nil
  then show ?case by simp
next
  case (Cons x xs)
  obtain ty time body where x: "x = (ty, time, body)" by (cases x)
  let ?p = "tag_message info x"
  have len: "length body < 2 ^ 24" using Cons.prems(1) by (simp add: good_tag_def x)
  then have u: "unat (of_nat (length body) :: u32) = length body" by (simp add: unat_of_nat)
  have p: "m_nChannel ?p = 4" "m_nTimeStamp ?p = and (fst (snd x)) 0x7FFFFFFF" "whole_body ?p"
    "m_nBodySize ?p = of_nat (length body)"
    "m_headerType ?p = (if full_header x then RTMP_PACKET_SIZE_LARGE else RTMP_PACKET_SIZE_MEDIUM)"
    using u by (simp_all add: x tag_message_def message_packet_def packet_zero_def whole_body_def full_header_def)
  have "m_nLastWireTimeStamp (sent_packet (v 4) ?p) < 0xffffff"
    using Cons.prems(2) by (auto simp: sent_wire_time p header_types Let_def split: option.splits if_splits)
  moreover have "m_nBodySize ?p < 2 ^ 24" using u len by (simp add: p word_less_nat_alt)
  moreover have "plain_stream (v(4 \<mapsto> sent_packet (v 4) ?p)) (map (tag_message info) xs)"
    using Cons.prems by (intro Cons.IH) (simp_all add: p Let_def)
  ultimately show ?case
    using p by (simp add: plain_message_def valid_channel_def)
qed

end
