(* ===== verification/Rtmp_Url.thy ===== *)
theory Rtmp_Url
  imports Rtmp_Chunk Flv_Mux
begin

text \<open>
  The parsing of the server address and of the stream key: \<open>src/rtmp/librtmp/parseurl.c\<close> and
  \<open>RTMP_SetupURL\<close> and \<open>RTMP_AddStream\<close> of \<open>src/rtmp/librtmp/rtmp.c\<close>. A C string is the list of the bytes
  before its terminating zero; a pointer into it is a position, and the zero is read at its length.
\<close>

section \<open>String functions\<close>

fun strchr_at :: "byte \<Rightarrow> byte list \<Rightarrow> nat option" where
  "strchr_at c [] = None"
| "strchr_at c (x # xs) = (if x = c then Some 0 else map_option Suc (strchr_at c xs))"

fun strstr_at :: "byte list \<Rightarrow> byte list \<Rightarrow> nat option" where
  "strstr_at pat [] = (if pat = [] then Some 0 else None)"
| "strstr_at pat (x # xs) =
     (if take (length pat) (x # xs) = pat then Some 0 else map_option Suc (strstr_at pat xs))"

definition to_lower :: "byte \<Rightarrow> byte" where
  "to_lower c = (if 65 \<le> c \<and> c \<le> 90 then c + 32 else c)"

definition is_space :: "byte \<Rightarrow> bool" where
  "is_space c \<longleftrightarrow> c = 32 \<or> 9 \<le> c \<and> c \<le> 13"

definition is_digit :: "byte \<Rightarrow> bool" where
  "is_digit c \<longleftrightarrow> 48 \<le> c \<and> c \<le> 57"

fun digits_value :: "nat \<Rightarrow> byte list \<Rightarrow> nat" where
  "digits_value n [] = n"
| "digits_value n (c # cs) = (if is_digit c then digits_value (10 * n + (unat c - 48)) cs else n)"

text \<open>\<open>atoi\<close>; a number out of range gives the nearest in range, as the Windows runtime does.\<close>

definition c_atoi :: "byte list \<Rightarrow> int" where
  "c_atoi s =
     (let t = dropWhile is_space s;
          neg = (t \<noteq> [] \<and> hd t = 45);
          u = (if t \<noteq> [] \<and> (hd t = 45 \<or> hd t = 43) then tl t else t);
          v = (if neg then - int (digits_value 0 u) else int (digits_value 0 u))
      in max (- (2 ^ 31)) (min (2 ^ 31 - 1) v))"

definition hex_digit :: "byte \<Rightarrow> byte option" where
  "hex_digit c =
     (if 48 \<le> c \<and> c \<le> 57 then Some (c - 48)
      else if 65 \<le> c \<and> c \<le> 70 then Some (c - 55)
      else if 97 \<le> c \<and> c \<le> 102 then Some (c - 87)
      else None)"

text \<open>\<open>sscanf (s, "%02x")\<close>: at most two characters, a sign among them; \<open>None\<close> where nothing is converted.\<close>

definition scan_hex :: "byte list \<Rightarrow> byte option" where
  "scan_hex s =
     (case dropWhile is_space s of
        [] \<Rightarrow> None
      | c # cs \<Rightarrow>
          if c = 43 \<or> c = 45 then
            (case cs of [] \<Rightarrow> None | d # _ \<Rightarrow> map_option (\<lambda>v. if c = 45 then - v else v) (hex_digit d))
          else case hex_digit c of
            None \<Rightarrow> None
          | Some v \<Rightarrow>
              (case cs of
                 [] \<Rightarrow> Some v
               | d # _ \<Rightarrow> if c = 48 \<and> (d = 120 \<or> d = 88) then None
                          else case hex_digit d of None \<Rightarrow> Some v | Some w \<Rightarrow> Some (16 * v + w)))"

section \<open>\<open>RTMP_ParseURL\<close>\<close>

definition RTMP_PROTOCOL_RTMP :: nat where "RTMP_PROTOCOL_RTMP = 0"
definition RTMP_PROTOCOL_RTMPE :: nat where "RTMP_PROTOCOL_RTMPE = 2"
definition RTMP_PROTOCOL_RTMPT :: nat where "RTMP_PROTOCOL_RTMPT = 1"
definition RTMP_PROTOCOL_RTMPS :: nat where "RTMP_PROTOCOL_RTMPS = 4"
definition RTMP_PROTOCOL_RTMPTE :: nat where "RTMP_PROTOCOL_RTMPTE = 3"
definition RTMP_PROTOCOL_RTMPTS :: nat where "RTMP_PROTOCOL_RTMPTS = 5"
definition RTMP_PROTOCOL_RTMFP :: nat where "RTMP_PROTOCOL_RTMFP = 8"

text \<open>The protocols by name; an unknown one leaves the default.\<close>

definition parse_protocol :: "byte list \<Rightarrow> nat" where
  "parse_protocol name =
     (let s = map to_lower name
      in if s = bytes_of ''rtmp'' then RTMP_PROTOCOL_RTMP
         else if s = bytes_of ''rtmpt'' then RTMP_PROTOCOL_RTMPT
         else if s = bytes_of ''rtmps'' then RTMP_PROTOCOL_RTMPS
         else if s = bytes_of ''rtmpe'' then RTMP_PROTOCOL_RTMPE
         else if s = bytes_of ''rtmfp'' then RTMP_PROTOCOL_RTMFP
         else if s = bytes_of ''rtmpte'' then RTMP_PROTOCOL_RTMPTE
         else if s = bytes_of ''rtmpts'' then RTMP_PROTOCOL_RTMPTS
         else RTMP_PROTOCOL_RTMP)"

text \<open>The result, the protocol, the host (\<open>None\<close>: left as it was), the port and the application.\<close>

record parsed_url =
  url_ok :: bool
  url_protocol :: nat
  url_host :: "byte list option"
  url_port :: nat
  url_app :: "byte list option"

text \<open>\<open>p\<close> is the address after \<open>://\<close>. A bracketed address may have colons in it.\<close>

definition host_length :: "byte list \<Rightarrow> nat" where
  "host_length p =
     (let slash = strchr_at 47 p;
          col = (case (strchr_at 93 p, slash) of
                   (Some v6, Some s) \<Rightarrow> if v6 < s then map_option ((+) v6) (strchr_at 58 (drop v6 p))
                                        else strchr_at 58 p
                 | _ \<Rightarrow> strchr_at 58 p);
          len = (case slash of Some s \<Rightarrow> s | None \<Rightarrow> length p)
      in case col of Some c \<Rightarrow> if c < len then c else len | None \<Rightarrow> len)"

definition parse_port :: "byte list \<Rightarrow> nat" where
  "parse_port s =
     (if s \<noteq> [] \<and> hd s = 58 then
        let p2 = uint (word_of_int (c_atoi (tl s)) :: u32) in if p2 > 65535 then 0 else nat p2
      else 0)"

definition parse_app :: "byte list \<Rightarrow> byte list" where
  "parse_app p = (if p \<noteq> [] \<and> last p = 47 then butlast p else p)"

definition RTMP_ParseURL :: "byte list \<Rightarrow> parsed_url" where
  "RTMP_ParseURL url =
     (case strstr_at (bytes_of ''://'') url of
        None \<Rightarrow> \<lparr>url_ok = False, url_protocol = RTMP_PROTOCOL_RTMP, url_host = None, url_port = 0, url_app = None\<rparr>
      | Some i \<Rightarrow>
          let proto = parse_protocol (take i url);
              p = drop (i + 3) url
          in if p = [] then
               \<lparr>url_ok = False, url_protocol = proto, url_host = None, url_port = 0, url_app = None\<rparr>
             else
               let hostlen = host_length p
               in \<lparr>url_ok = True, url_protocol = proto,
                   url_host = (if hostlen < 256 then Some (take hostlen p) else None),
                   url_port = parse_port (drop hostlen p),
                   url_app = map_option (\<lambda>s. parse_app (drop (s + 1) p)) (strchr_at 47 p)\<rparr>)"

section \<open>\<open>RTMP_SetupURL\<close>\<close>

text \<open>
  The application always points into the address, so that the branch that puts a new \<open>tcUrl\<close>
  together is never taken. There is no SOCKS proxy: nothing sets one.
\<close>

definition default_port :: "nat \<Rightarrow> nat" where
  "default_port proto = (if bit proto 2 then 443 else if bit proto 0 then 80 else 1935)"

definition setup_tcUrl :: "byte list \<Rightarrow> byte list option \<Rightarrow> byte list" where
  "setup_tcUrl url app =
     (case app of
        Some a \<Rightarrow> if a \<noteq> [] \<and> url \<noteq> [] \<and> last url = 47 then butlast url else url
      | None \<Rightarrow> url)"

definition RTMP_SetupURL :: "'c rtmp \<Rightarrow> byte list \<Rightarrow> 'c rtmp \<times> bool" where
  "RTMP_SetupURL r url =
     (let u = RTMP_ParseURL url;
          r1 = r\<lparr>lnk_protocol := url_protocol u,
                 lnk_hostname := (case url_host u of Some h \<Rightarrow> Some h | None \<Rightarrow> lnk_hostname r),
                 lnk_app := (case url_app u of Some a \<Rightarrow> a | None \<Rightarrow> [])\<rparr>
      in if \<not> url_ok u then (r1, False)
         else (r1\<lparr>lnk_tcUrl := (if lnk_tcUrl r = [] then setup_tcUrl url (url_app u) else lnk_tcUrl r),
                  lnk_port := (if url_port u = 0 then default_port (url_protocol u) else url_port u)\<rparr>, True))"

section \<open>\<open>RTMP_ParsePlaypath\<close>\<close>

text \<open>
  \<open>pos\<close> is where the path starts in the key and \<open>pplen\<close> its length; \<open>ext\<close> is where its extension
  would be, a position that can lie before the key: reading there is the result \<open>None\<close>.
\<close>

definition path_start :: "byte list \<Rightarrow> nat \<times> nat" where
  "path_start key =
     (if key \<noteq> [] \<and> hd key = 63 then
        (case strstr_at (bytes_of ''slist='') key of
           None \<Rightarrow> (0, length key)
         | Some i \<Rightarrow>
             let s = drop (i + 6) key
             in (i + 6, case strchr_at 38 s of Some j \<Rightarrow> j | None \<Rightarrow> length s))
      else (0, length key))"

definition path_ext :: "byte list \<Rightarrow> nat \<Rightarrow> nat \<Rightarrow> int" where
  "path_ext key pos pplen =
     (case strchr_at 63 (drop pos key) of
        Some q \<Rightarrow> int (pos + q) - 4
      | None \<Rightarrow> int (pos + pplen) - 4)"

text \<open>What the extension asks for: a prefix to add, and whether the extension is skipped.\<close>

definition ext_is :: "byte list \<Rightarrow> int \<Rightarrow> string \<Rightarrow> bool" where
  "ext_is key ext e \<longleftrightarrow> take 4 (drop (nat ext) key) = bytes_of e"

definition path_prefix :: "byte list \<Rightarrow> nat \<Rightarrow> int \<Rightarrow> byte list \<times> bool" where
  "path_prefix key pos ext =
     (let prefixed = (\<lambda>pre. take 4 (drop pos key) = bytes_of pre)
      in if ext_is key ext ''.f4v'' \<or> ext_is key ext ''.mp4''
         then (if prefixed ''mp4:'' then ([], False) else (bytes_of ''mp4:'', True))
         else if pos = 0 \<and> ext_is key ext ''.flv'' then ([], True)
         else if ext_is key ext ''.mp3''
         then (if prefixed ''mp3:'' then ([], False) else (bytes_of ''mp3:'', True))
         else ([], False))"

text \<open>The copy. \<open>junk\<close> is what the unset variable holds where \<open>sscanf\<close> converts nothing.\<close>

function copy_path :: "byte \<Rightarrow> byte list \<Rightarrow> int option \<Rightarrow> nat \<Rightarrow> int \<Rightarrow> byte list" where
  "copy_path junk key ext p pplen =
     (if pplen \<le> 0 then []
      else if ext = Some (int p) then copy_path junk key ext (p + 4) (pplen - 4)
      else if p < length key \<and> key ! p = 37 then
        (case scan_hex (drop (p + 1) key) of Some c \<Rightarrow> c | None \<Rightarrow> junk) # copy_path junk key ext (p + 3) (pplen - 3)
      else (if p < length key then key ! p else 0) # copy_path junk key ext (p + 1) (pplen - 1))"
  by pat_completeness auto
termination by (relation "measure (\<lambda>(junk, key, ext, p, pplen). nat pplen)") auto

declare copy_path.simps [simp del]

definition RTMP_ParsePlaypath :: "byte \<Rightarrow> byte list \<Rightarrow> byte list option" where
  "RTMP_ParsePlaypath junk key =
     (case path_start key of (pos, pplen) \<Rightarrow>
        if pplen < 4 then Some (copy_path junk key None pos (int pplen))
        else
          let ext = path_ext key pos pplen
          in if ext < 0 then None
             else case path_prefix key pos ext of (pre, skip) \<Rightarrow>
               Some (pre @ copy_path junk key (if skip then Some ext else None) pos (int pplen)))"

text \<open>The new stream has no identifier yet; \<open>None\<close> is the read before the key.\<close>

definition RTMP_AddStream :: "byte \<Rightarrow> 'c rtmp \<Rightarrow> byte list \<Rightarrow> ('c rtmp \<times> nat) option" where
  "RTMP_AddStream junk r key =
     map_option (\<lambda>path. (r\<lparr>lnk_streams := lnk_streams r @ [\<lparr>st_id = - 1, st_playpath = path\<rparr>]\<rparr>,
                          length (lnk_streams r)))
       (RTMP_ParsePlaypath junk key)"

end
