(* ===== verification/Rtmp_Url_Properties.thy ===== *)
theory Rtmp_Url_Properties
  imports Rtmp_Url
begin

text \<open>
  The parser of addresses finds the parts an address was put together from, the parser of keys
  gives every ordinary key back as it is, and the two ways in which they go wrong.
\<close>

section \<open>Addresses\<close>

fun decimal :: "nat \<Rightarrow> byte list" where
  "decimal n = (if n < 10 then [48 + of_nat n] else decimal (n div 10) @ [48 + of_nat (n mod 10)])"

declare decimal.simps [simp del]

lemma digit_byte:
  assumes "d < 10"
  shows "unat (48 + of_nat d :: byte) = 48 + d" and "is_digit (48 + of_nat d)"
    and "(48 + of_nat d :: byte) \<notin> {45, 43, 47, 58, 93}"
proof -
  show u: "unat (48 + of_nat d :: byte) = 48 + d"
    using assms by (simp add: unat_word_ariths unat_of_nat)
  then show "is_digit (48 + of_nat d)" using assms by (simp add: is_digit_def word_le_nat_alt)
  have "unat (48 + of_nat d :: byte) \<noteq> unat x" if "x \<in> {45, 43, 47, 58, 93}" for x :: byte
    using that u assms by auto
  then show "(48 + of_nat d :: byte) \<notin> {45, 43, 47, 58, 93}" by blast
qed

lemma decimal_bytes: "c \<in> set (decimal n) \<Longrightarrow> is_digit c \<and> c \<notin> {45, 43, 47, 58, 93}"
proof (induction n rule: decimal.induct)
  case (1 n)
  then show ?case
    using digit_byte [of n] digit_byte [of "n mod 10"] by (subst (asm) decimal.simps) (auto split: if_splits)
qed

lemma decimal_ne: "decimal n \<noteq> []"
  by (subst decimal.simps) simp

lemma digits_value_append:
  "\<forall>c \<in> set xs. is_digit c \<Longrightarrow> digits_value n (xs @ ys) = digits_value (digits_value n xs) ys"
  by (induction xs arbitrary: n) auto

lemma digits_value_decimal: "ys = [] \<or> \<not> is_digit (hd ys) \<Longrightarrow> digits_value 0 (decimal n @ ys) = n"
proof (induction n arbitrary: ys rule: decimal.induct)
  case (1 n)
  have stop: "digits_value m ys = m" for m using 1(2) by (cases ys) auto
  show ?case
  proof (cases "n < 10")
    case True
    then show ?thesis using digit_byte [of n] by (subst decimal.simps) (simp add: stop)
  next
    case False
    have "digits_value 0 (decimal (n div 10)) = n div 10" using 1(1) [OF False, of "[]"] by simp
    then show ?thesis
      using False digit_byte [of "n mod 10"] decimal_bytes
      by (subst decimal.simps) (simp add: digits_value_append stop)
  qed
qed

lemma atoi_decimal:
  assumes "n \<le> 65535" and "ys = [] \<or> \<not> is_digit (hd ys)"
  shows "c_atoi (decimal n @ ys) = int n"
proof -
  obtain c cs where c: "decimal n = c # cs" using decimal_ne by (cases "decimal n") auto
  have "is_digit c" "c \<notin> {45, 43}" using decimal_bytes [of c n] by (simp_all add: c)
  moreover have "\<not> is_space c" using \<open>is_digit c\<close> by (auto simp: is_digit_def is_space_def word_le_nat_alt)
  ultimately have "c_atoi (decimal n @ ys) = max (- (2 ^ 31)) (min (2 ^ 31 - 1) (int (digits_value 0 (decimal n @ ys))))"
    unfolding c_atoi_def Let_def c by simp
  then show ?thesis using digits_value_decimal [OF assms(2)] assms(1) by simp
qed

lemma strchr_append:
  "c \<notin> set xs \<Longrightarrow> strchr_at c (xs @ ys) = map_option ((+) (length xs)) (strchr_at c ys)"
proof (induction xs)
  case Nil
  show ?case by (cases "strchr_at c ys") simp_all
next
  case (Cons x xs)
  then show ?case by (cases "strchr_at c ys") auto
qed

lemma strchr_none: "c \<notin> set xs \<Longrightarrow> strchr_at c xs = None"
  using strchr_append [of c xs "[]"] by simp

text \<open>A name or an IPv4 address, or an IPv6 address in brackets; then perhaps a port.\<close>

definition host_ok :: "byte list \<Rightarrow> bool" where
  "host_ok h \<longleftrightarrow>
     h \<noteq> [] \<and> length h < 256 \<and>
     (set h \<inter> {47, 58, 93} = {} \<or>
      (hd h = 91 \<and> last h = 93 \<and> 2 \<le> length h \<and> set (butlast (tl h)) \<inter> {47, 93} = {}))"

definition port_text :: "nat option \<Rightarrow> byte list" where
  "port_text port = (case port of None \<Rightarrow> [] | Some n \<Rightarrow> 58 # decimal n)"

definition make_url :: "byte list \<Rightarrow> nat option \<Rightarrow> byte list \<Rightarrow> byte list" where
  "make_url h port a = bytes_of ''rtmp://'' @ h @ port_text port @ 47 # a"

lemma port_chars: "47 \<notin> set (port_text port)" "93 \<notin> set (port_text port)"
  using decimal_bytes by (auto simp: port_text_def split: option.splits)

lemma host_shape:
  assumes "host_ok h"
  shows "47 \<notin> set h" and "set h \<inter> {58, 93} = {} \<or> (\<exists>v. h = v @ [93] \<and> 93 \<notin> set v)"
proof -
  have "47 \<notin> set h \<and> (set h \<inter> {58, 93} = {} \<or> (\<exists>v. h = v @ [93] \<and> 93 \<notin> set v))"
  proof (cases "set h \<inter> {47, 58, 93} = {}")
    case False
    then have b: "hd h = 91" "last h = 93" "2 \<le> length h" "set (butlast (tl h)) \<inter> {47, 93} = {}"
      using assms by (auto simp: host_ok_def)
    obtain x t where h: "h = x # t" "t \<noteq> []" using b(3) by (cases h; cases "tl h") auto
    have "t = butlast t @ [93]" using b(2) h by (metis append_butlast_last_id last_ConsR)
    then obtain m where t: "t = m @ [93]" by blast
    have "set m \<inter> {47, 93} = {}" "x = 91" using b(1,4) by (simp_all add: h t)
    then show ?thesis by (intro conjI disjI2 exI [of _ "91 # m"]) (auto simp: h t)
  qed auto
  then show "47 \<notin> set h" "set h \<inter> {58, 93} = {} \<or> (\<exists>v. h = v @ [93] \<and> 93 \<notin> set v)" by simp_all
qed

lemma host_length_url:
  assumes h: "host_ok h"
  shows "host_length (h @ port_text port @ 47 # a) = length h"
proof -
  let ?p = "h @ port_text port @ 47 # a"
  have slash: "strchr_at 47 ?p = Some (length h + length (port_text port))"
    using strchr_append [of 47 "h @ port_text port" "47 # a"] host_shape(1) [OF h] by (simp add: port_chars)
  let ?rest = "port_text port @ 47 # a"
  have col: "(case (strchr_at 93 ?p, strchr_at 47 ?p) of
        (Some v6, Some s) \<Rightarrow> if v6 < s then map_option ((+) v6) (strchr_at 58 (drop v6 ?p)) else strchr_at 58 ?p
      | _ \<Rightarrow> strchr_at 58 ?p) = map_option ((+) (length h)) (strchr_at 58 ?rest)"
    using host_shape(2) [OF h]
  proof
    assume plain: "set h \<inter> {58, 93} = {}"
    have "strchr_at 58 ?p = map_option ((+) (length h)) (strchr_at 58 ?rest)"
      using plain by (intro strchr_append) auto
    moreover have "\<not> v6 < length h + length (port_text port)" if "strchr_at 93 ?p = Some v6" for v6
    proof -
      have "93 \<notin> set (h @ port_text port @ [47])" using plain by (auto simp: port_chars)
      then show ?thesis
        using that strchr_append [of 93 "h @ port_text port @ [47]" a] by (cases "strchr_at 93 a") auto
    qed
    ultimately show ?thesis by (simp add: slash split: option.split)
  next
    assume "\<exists>v. h = v @ [93] \<and> 93 \<notin> set v"
    then obtain v where v: "h = v @ [93]" "93 \<notin> set v" by blast
    have c93: "strchr_at 93 ?p = Some (length v)" using strchr_append [OF v(2)] by (simp add: v(1))
    have "strchr_at 58 (drop (length v) ?p) = map_option Suc (strchr_at 58 ?rest)"
      by (simp add: v(1))
    moreover have "length v < length h + length (port_text port)" by (simp add: v(1))
    moreover have "length h = Suc (length v)" by (simp add: v(1))
    ultimately show ?thesis by (cases "strchr_at 58 ?rest") (simp_all add: slash c93)
  qed
  show ?thesis
    unfolding host_length_def Let_def col unfolding slash option.case
    by (cases port; cases "strchr_at 58 a") (simp_all add: port_text_def)
qed

lemma parse_make_url:
  assumes h: "host_ok h" and port: "\<And>n. port = Some n \<Longrightarrow> n \<le> 65535" and a: "a = [] \<or> last a \<noteq> 47"
  shows "RTMP_ParseURL (make_url h port a) =
    \<lparr>url_ok = True, url_protocol = RTMP_PROTOCOL_RTMP, url_host = Some h,
     url_port = (case port of None \<Rightarrow> 0 | Some n \<Rightarrow> n), url_app = Some a\<rparr>"
proof -
  let ?p = "h @ port_text port @ 47 # a"
  have i: "strstr_at (bytes_of ''://'') (make_url h port a) = Some 4"
    by (simp add: make_url_def bytes_of_def)
  have p: "drop (4 + 3) (make_url h port a) = ?p" by (simp add: make_url_def bytes_of_def)
  have proto: "parse_protocol (take 4 (make_url h port a)) = RTMP_PROTOCOL_RTMP"
    by (simp add: make_url_def bytes_of_def parse_protocol_def to_lower_def)
  have slash: "strchr_at 47 ?p = Some (length h + length (port_text port))"
    using strchr_append [of 47 "h @ port_text port" "47 # a"] host_shape(1) [OF h] by (simp add: port_chars)
  have "\<not> is_digit 47" by (simp add: is_digit_def)
  then have "parse_port (port_text port @ 47 # a) = (case port of None \<Rightarrow> 0 | Some n \<Rightarrow> n)"
    using port atoi_decimal [of _ "47 # a"]
    by (auto simp: parse_port_def port_text_def Let_def take_bit_int_eq_self unsigned_of_int split: option.split)
  moreover have "h \<noteq> []" "length h < 256" using h by (simp_all add: host_ok_def)
  ultimately show ?thesis
    using a unfolding RTMP_ParseURL_def i option.case p Let_def host_length_url [OF h] slash proto
    by (auto simp: parse_app_def)
qed



section \<open>Keys\<close>

definition special_exts :: "byte list set" where
  "special_exts = {bytes_of ''.f4v'', bytes_of ''.mp4'', bytes_of ''.flv'', bytes_of ''.mp3''}"

text \<open>Where the extension would be; the part after a question mark does not belong to it.\<close>

definition key_ext :: "byte list \<Rightarrow> byte list option" where
  "key_ext key =
     (let e = (case strchr_at 63 key of Some q \<Rightarrow> q | None \<Rightarrow> length key)
      in if e < 4 then None else Some (take 4 (drop (e - 4) key)))"

definition plain_key :: "byte list \<Rightarrow> bool" where
  "plain_key key \<longleftrightarrow>
     37 \<notin> set key \<and> (key = [] \<or> hd key \<noteq> 63) \<and>
     (length key < 4 \<or> (case key_ext key of Some e \<Rightarrow> e \<notin> special_exts | None \<Rightarrow> False))"

lemma copy_plain:
  "37 \<notin> set key \<Longrightarrow> p + n = length key \<Longrightarrow> copy_path junk key None p (int n) = drop p key"
proof (induction n arbitrary: p)
  case 0
  then show ?case by (simp add: copy_path.simps)
next
  case (Suc n)
  have "copy_path junk key None p (int (Suc n)) = key ! p # copy_path junk key None (Suc p) (int n)"
    using Suc.prems by (subst copy_path.simps) (auto simp: in_set_conv_nth)
  then show ?case using Suc.IH [of "Suc p"] Suc.prems by (simp add: Cons_nth_drop_Suc)
qed

text \<open>A stream key without a percent sign and without one of the four special extensions (before
a question mark, if there is one) is the play path that is published, character by character.\<close>

lemma key_unchanged:
  assumes "plain_key key"
  shows "RTMP_ParsePlaypath junk key = Some key"
proof -
  have start: "path_start key = (0, length key)" using assms by (auto simp: path_start_def plain_key_def)
  have copy: "copy_path junk key None 0 (int (length key)) = key"
    using copy_plain [of key 0 "length key"] assms by (simp add: plain_key_def)
  show ?thesis
  proof (cases "length key < 4")
    case True
    then show ?thesis using start copy by (simp add: RTMP_ParsePlaypath_def)
  next
    case False
    let ?e = "case strchr_at 63 key of Some q \<Rightarrow> q | None \<Rightarrow> length key"
    have e: "4 \<le> ?e" "take 4 (drop (?e - 4) key) \<notin> special_exts"
      using assms False by (auto simp: plain_key_def key_ext_def Let_def split: if_splits)
    have ext: "path_ext key 0 (length key) = int (?e - 4)"
      using e(1) by (auto simp: path_ext_def split: option.splits)
    have "path_prefix key 0 (int (?e - 4)) = ([], False)"
      using e(2) by (auto simp: path_prefix_def ext_is_def special_exts_def Let_def)
    then show ?thesis using False start copy by (simp add: RTMP_ParsePlaypath_def ext Let_def)
  qed
qed

lemma key_unchanged_witness:
  "RTMP_ParsePlaypath 0 (bytes_of ''live_12?bandwidthtest=true'') = Some (bytes_of ''live_12?bandwidthtest=true'')"
  by (rule key_unchanged) (simp add: plain_key_def key_ext_def special_exts_def bytes_of_def)

section \<open>Where they go wrong\<close>

text \<open>A question mark early in the key puts the extension before the start of the string.\<close>

lemma key_read_before_start: "RTMP_ParsePlaypath junk (bytes_of ''ab?cd'') = None"
  by (simp add: RTMP_ParsePlaypath_def path_start_def path_ext_def bytes_of_def)

text \<open>
  A host of 256 characters or more is not stored, but the address is accepted: on a fresh connection
  the host stays NULL, and \<open>get_hostname\<close> dereferences it.
\<close>

lemma long_host_accepted:
  "\<exists>r'. RTMP_SetupURL (RTMP_Init c) (bytes_of ''rtmp://'' @ replicate 300 97 @ bytes_of ''/live'') = (r', True) \<and>
     lnk_hostname r' = None"
proof -
  let ?p = "replicate 300 (97 :: byte) @ 47 # bytes_of ''live''" and ?u = "bytes_of ''rtmp://'' @ replicate 300 97 @ bytes_of ''/live''"
  have i: "strstr_at (bytes_of ''://'') ?u = Some 4" by (simp add: bytes_of_def)
  have p: "drop (4 + 3) ?u = ?p" by (simp add: bytes_of_def)
  have "strchr_at 47 ?p = Some 300" "strchr_at 58 ?p = None" "strchr_at 93 ?p = None"
    by (subst strchr_append; simp add: bytes_of_def)+
  then have "host_length ?p = 300" by (simp add: host_length_def)
  then show ?thesis
    unfolding RTMP_SetupURL_def RTMP_ParseURL_def i option.case p Let_def
    by (simp add: RTMP_Init_def RTMP_Reset_def)
qed

end
