(* ===== verification/Rtmp_Client.thy ===== *)
theory Rtmp_Client
  imports Rtmp_Read Rtmp_Url
begin

text \<open>
  The client of \<open>src/rtmp/librtmp/rtmp.c\<close>: what it does with the messages of the server, the loops
  that read them, the handshake and the connection. The connection is a publisher's, as the plugin
  only publishes: where the code goes on with the playback side the result is \<open>Playback\<close>. There is no
  secure token. Logging is left out.
\<close>

section \<open>Reading what the server invokes\<close>

text \<open>
  How the body is decoded: the AMF3 decoder, the size of \<open>long\<close>, fuel, and what reading the number of
  a property of another type gives. The static invalid property is all zeros.
\<close>

record amf_env =
  ae_amf3 :: amf3_decoder
  ae_lp64 :: bool
  ae_fuel :: nat
  ae_pun :: "amf_prop \<Rightarrow> u64"

definition decode_body :: "amf_env \<Rightarrow> byte list \<Rightarrow> int \<Rightarrow> amf_error + amf_object \<times> int" where
  "decode_body env mem n = amf_decode (ae_amf3 env) (ae_lp64 env) (ae_fuel env) mem 0 n False"

definition prop_number :: "amf_env \<Rightarrow> amf_prop \<Rightarrow> u64" where
  "prop_number env p =
     (case amf_prop_get_number p of
        Some d \<Rightarrow> d
      | None \<Rightarrow> if p_value p = AmfInvalid then 0 else ae_pun env p)"

text \<open>
  The result of a handler: the number it returns, or that it does not come back: the decoder reads
  past the body or hangs, the playback side goes on, or a stream past the ones added is written.
\<close>

datatype handled = Goes nat | Stops amf_error | Playback | BeyondStreams

section \<open>The queue of calls\<close>

fun find_index :: "('a \<Rightarrow> bool) \<Rightarrow> 'a list \<Rightarrow> nat option" where
  "find_index P [] = None"
| "find_index P (x # xs) = (if P x then Some 0 else map_option Suc (find_index P xs))"

definition AV_erase :: "nat \<Rightarrow> 'a list \<Rightarrow> 'a list" where
  "AV_erase i vals = take i vals @ drop (Suc i) vals"

definition RTMP_DropRequest :: "nat \<Rightarrow> 'c rtmp \<Rightarrow> 'c rtmp" where
  "RTMP_DropRequest i r = r\<lparr>m_methodCalls := AV_erase i (m_methodCalls r)\<rparr>"

definition erase_named :: "string \<Rightarrow> 'c rtmp \<Rightarrow> 'c rtmp" where
  "erase_named name r =
     (case find_index (\<lambda>c. fst c = bytes_of name) (m_methodCalls r) of
        None \<Rightarrow> r
      | Some i \<Rightarrow> RTMP_DropRequest i r)"

section \<open>\<open>HandleInvoke\<close>\<close>

text \<open>A loop over the streams; a failed send closes the connection and leaves none.\<close>

fun each_stream ::
  "nat \<Rightarrow> nat \<Rightarrow> (nat \<Rightarrow> 'c rtmp \<Rightarrow> ('c rtmp \<times> bool) option) \<Rightarrow> 'c rtmp \<Rightarrow> 'c rtmp option" where
  "each_stream 0 i f r = Some r"
| "each_stream (Suc k) i f r =
     (if i < length (lnk_streams r) then Option.bind (f i r) (\<lambda>(r1, _). each_stream k (Suc i) f r1)
      else Some r)"

definition for_streams :: "(nat \<Rightarrow> 'c rtmp \<Rightarrow> ('c rtmp \<times> bool) option) \<Rightarrow> 'c rtmp \<Rightarrow> 'c rtmp option" where
  "for_streams f r = each_stream (length (lnk_streams r)) 0 f r"

definition connect_result :: "'c net_ops \<Rightarrow> 'c rtmp \<Rightarrow> ('c rtmp \<times> handled) option" where
  "connect_result ops r =
     (if lnk_write r then
        Option.bind (for_streams (\<lambda>i r. SendReleaseStream (RTMP_Close ops) ops r i) r) (\<lambda>r1.
        Option.bind (for_streams (\<lambda>i r. SendFCPublish (RTMP_Close ops) ops r i) r1) (\<lambda>r2.
        Option.bind (for_streams (\<lambda>i r. RTMP_SendCreateStream (RTMP_Close ops) ops r) r2) (\<lambda>r3.
        Some (r3, Goes 0))))
      else Some (r, Playback))"

definition createStream_result ::
  "amf_env \<Rightarrow> 'c net_ops \<Rightarrow> 'c rtmp \<Rightarrow> amf_object \<Rightarrow> ('c rtmp \<times> handled) option" where
  "createStream_result env ops r obj =
     (let i = lnk_curStreamIdx r;
          sid = double_to_int (prop_number env (amf_get_prop obj [] 3))
      in if i \<ge> length (lnk_streams r) then Some (r, BeyondStreams)
         else
           let r1 = r\<lparr>lnk_streams := (lnk_streams r)[i := (stream_link r i)\<lparr>st_id := sid\<rparr>]\<rparr>
           in if lnk_write r then
                Option.bind (SendPublish (RTMP_Close ops) ops r1 i) (\<lambda>(r2, _).
                  Some (r2\<lparr>lnk_curStreamIdx := Suc (lnk_curStreamIdx r2)\<rparr>, Goes 0))
              else Some (r1, Playback))"

definition invoke_result ::
  "amf_env \<Rightarrow> 'c net_ops \<Rightarrow> 'c rtmp \<Rightarrow> amf_object \<Rightarrow> u64 \<Rightarrow> ('c rtmp \<times> handled) option" where
  "invoke_result env ops r obj txn =
     (case find_index (\<lambda>c. snd c = double_to_int txn) (m_methodCalls r) of
        None \<Rightarrow> Some (r, Goes 0)
      | Some i \<Rightarrow>
          let name = fst (m_methodCalls r ! i);
              r1 = RTMP_DropRequest i r
          in if name = bytes_of ''connect'' then connect_result ops r1
             else if name = bytes_of ''createStream'' then createStream_result env ops r1 obj
             else if name = bytes_of ''play'' \<or> name = bytes_of ''publish''
             then Some (r1\<lparr>m_bPlaying := True, lnk_playingStreams := lnk_playingStreams r1 + 1\<rparr>, Goes 0)
             else Some (r1, Goes 0))"

definition failed_codes :: "string list" where
  "failed_codes =
     [''NetStream.Failed'', ''NetStream.Play.Failed'', ''NetStream.Play.StreamNotFound'',
      ''NetConnection.Connect.InvalidApp'', ''NetStream.Publish.Rejected'', ''NetStream.Publish.Denied'',
      ''NetStream.Publish.BadName'']"

definition closed_with :: "nat \<Rightarrow> 'c net_ops \<Rightarrow> 'c rtmp \<Rightarrow> ('c rtmp \<times> handled) option" where
  "closed_with n ops r = map_option (\<lambda>r1. (r1, Goes n)) (RTMP_Close ops r)"

definition invoke_status :: "'c net_ops \<Rightarrow> 'c rtmp \<Rightarrow> amf_object \<Rightarrow> ('c rtmp \<times> handled) option" where
  "invoke_status ops r obj =
     (let obj2 = amf_prop_get_object (amf_get_prop obj [] 3);
          code = amf_prop_get_string (amf_get_prop obj2 (bytes_of ''code'') (- 1));
          is_one = (\<lambda>names. code \<in> set (map bytes_of names))
      in if is_one failed_codes then closed_with 0 ops (r\<lparr>m_stream_id := - 1\<rparr>)
         else if is_one [''NetStream.Play.Start'', ''NetStream.Play.PublishNotify'']
         then Some (erase_named ''play'' (r\<lparr>m_bPlaying := True\<rparr>), Goes 0)
         else if is_one [''NetStream.Publish.Start'']
         then Some (erase_named ''publish'' (r\<lparr>m_bPlaying := True\<rparr>), Goes 0)
         else if is_one [''NetStream.Play.Complete'', ''NetStream.Play.Stop'', ''NetStream.Play.UnpublishNotify'']
         then closed_with 1 ops r
         else if is_one [''NetStream.Seek.Notify''] then Some (r\<lparr>rd_seeking := False\<rparr>, Goes 0)
         else if is_one [''NetStream.Pause.Notify''] \<and> (m_pausing r = 1 \<or> m_pausing r = 2)
         then map_option (\<lambda>(r1, _). (r1\<lparr>m_pausing := 3\<rparr>, Goes 0))
                (RTMP_SendPause (RTMP_Close ops) ops r False (m_pauseStamp r))
         else Some (r, Goes 0))"

definition invoke_method ::
  "amf_env \<Rightarrow> 'c net_ops \<Rightarrow> 'c rtmp \<Rightarrow> amf_object \<Rightarrow> ('c rtmp \<times> handled) option" where
  "invoke_method env ops r obj =
     (let name = amf_prop_get_string (amf_get_prop obj [] 0);
          txn = prop_number env (amf_get_prop obj [] 1);
          sends = map_option (\<lambda>(r1, _). (r1, Goes 0))
      in if name = bytes_of ''_result'' then invoke_result env ops r obj txn
         else if name = bytes_of ''onBWDone''
         then (if m_nBWCheckCounter r = 0 then sends (SendCheckBW (RTMP_Close ops) ops r) else Some (r, Goes 0))
         else if name = bytes_of ''onFCSubscribe'' then Some (r, Goes 0)
         else if name = bytes_of ''onFCUnsubscribe'' then closed_with 1 ops r
         else if name = bytes_of ''ping'' then sends (SendPong (RTMP_Close ops) ops r txn)
         else if name = bytes_of ''_onbwcheck'' then sends (SendCheckBWResult (RTMP_Close ops) ops r txn)
         else if name = bytes_of ''_onbwdone'' then Some (erase_named ''_checkbw'' r, Goes 0)
         else if name = bytes_of ''_error'' then Some (r, Goes 0)
         else if name = bytes_of ''close'' then closed_with 0 ops r
         else if name = bytes_of ''onStatus'' then invoke_status ops r obj
         else if name = bytes_of ''playlist_ready'' then Some (erase_named ''set_playlist'' r, Goes 0)
         else Some (r, Goes 0))"

definition HandleInvoke ::
  "amf_env \<Rightarrow> 'c net_ops \<Rightarrow> 'c rtmp \<Rightarrow> byte list \<Rightarrow> int \<Rightarrow> ('c rtmp \<times> handled) option" where
  "HandleInvoke env ops r mem n =
     (if mem = [] then Some (r, Stops Oob)
      else if mem ! 0 \<noteq> 2 then Some (r, Goes 0)
      else case decode_body env mem n of
        Inl e \<Rightarrow> Some (r, if e = Bad then Goes 0 else Stops e)
      | Inr (obj, used) \<Rightarrow> invoke_method env ops r obj)"

section \<open>Metadata\<close>

fun RTMP_FindFirstMatchingProperty :: "byte list \<Rightarrow> amf_object \<Rightarrow> amf_prop option" where
  "RTMP_FindFirstMatchingProperty name [] = None"
| "RTMP_FindFirstMatchingProperty name (AmfProp pn v # ps) =
     (if pn = name then Some (AmfProp pn v)
      else case (case v of AmfObject qs \<Rightarrow> RTMP_FindFirstMatchingProperty name qs
                 | AmfEcmaArray qs \<Rightarrow> RTMP_FindFirstMatchingProperty name qs
                 | _ \<Rightarrow> None) of
        Some q \<Rightarrow> Some q
      | None \<Rightarrow> RTMP_FindFirstMatchingProperty name ps)"

fun RTMP_FindPrefixProperty :: "byte list \<Rightarrow> amf_object \<Rightarrow> amf_prop option" where
  "RTMP_FindPrefixProperty name [] = None"
| "RTMP_FindPrefixProperty name (AmfProp pn v # ps) =
     (if length pn > length name \<and> take (length name) pn = name then Some (AmfProp pn v)
      else case (case v of AmfObject qs \<Rightarrow> RTMP_FindPrefixProperty name qs | _ \<Rightarrow> None) of
        Some q \<Rightarrow> Some q
      | None \<Rightarrow> RTMP_FindPrefixProperty name ps)"

definition HandleMetadata :: "amf_env \<Rightarrow> 'c rtmp \<Rightarrow> byte list \<Rightarrow> int \<Rightarrow> 'c rtmp \<times> handled" where
  "HandleMetadata env r mem n =
     (case decode_body env mem n of
        Inl e \<Rightarrow> (r, if e = Bad then Goes 0 else Stops e)
      | Inr (obj, used) \<Rightarrow>
          if amf_prop_get_string (amf_get_prop obj [] 0) = bytes_of ''onMetaData'' then
            let r1 = (case RTMP_FindFirstMatchingProperty (bytes_of ''duration'') obj of
                        Some p \<Rightarrow> r\<lparr>m_fDuration := prop_number env p\<rparr> | None \<Rightarrow> r);
                r2 = (if RTMP_FindPrefixProperty (bytes_of ''video'') obj = None then r1
                      else r1\<lparr>rd_dataType := or (rd_dataType r1) 1\<rparr>);
                r3 = (if RTMP_FindPrefixProperty (bytes_of ''audio'') obj = None then r2
                      else r2\<lparr>rd_dataType := or (rd_dataType r2) 4\<rparr>)
            in (r3, Goes 1)
          else (r, Goes 0))"

section \<open>\<open>RTMP_ClientPacket\<close>\<close>

definition RTMP_TYPE_FLEX_MESSAGE :: byte where "RTMP_TYPE_FLEX_MESSAGE = 0x11"
definition RTMP_TYPE_FLASH_VIDEO :: byte where "RTMP_TYPE_FLASH_VIDEO = 0x16"

definition media_packet :: "'c rtmp \<Rightarrow> rtmp_packet \<Rightarrow> 'c rtmp" where
  "media_packet r p =
     (let r1 = (if m_mediaChannel r = 0 then r\<lparr>m_mediaChannel := m_nChannel p\<rparr> else r)
      in if m_pausing r1 = 0 then r1\<lparr>m_mediaStamp := m_nTimeStamp p\<rparr> else r1)"

text \<open>The FLV tags in a packet: sizes are below \<open>2 ^ 24\<close>, so that the positions do not wrap.\<close>

function flash_loop ::
  "amf_env \<Rightarrow> byte list \<Rightarrow> nat \<Rightarrow> nat \<Rightarrow> u32 \<Rightarrow> 'c rtmp \<Rightarrow> ('c rtmp \<times> u32) + amf_error" where
  "flash_loop env b n pos ts r =
     (if pos + 11 < n then
        let dataSize = unat (get24 (b ! (pos + 1)) (b ! (pos + 2)) (b ! (pos + 3)))
        in if pos + 11 + dataSize + 4 > n then Inl (r, ts)
           else
             let (r1, h) = (if b ! pos = 0x12 then HandleMetadata env r (drop (pos + 11) b) (int dataSize)
                            else (r, Goes 0));
                 ts1 = (if b ! pos = 8 \<or> b ! pos = 9
                        then or (get24 (b ! (pos + 4)) (b ! (pos + 5)) (b ! (pos + 6)))
                               (push_bit 24 (ucast (b ! (pos + 7)))) else ts)
             in case h of
                  Stops e \<Rightarrow> Inr e
                | _ \<Rightarrow> flash_loop env b n (pos + 11 + dataSize + 4) ts1 r1
      else Inl (r, ts))"
  by pat_completeness auto
termination by (relation "measure (\<lambda>(env, b, n, pos, ts, r). n - pos)") auto

declare flash_loop.simps [simp del]

definition invoked :: "('c rtmp \<times> handled) option \<Rightarrow> ('c rtmp \<times> handled) option" where
  "invoked = map_option (\<lambda>(r, h). (r, case h of Goes k \<Rightarrow> Goes (if k = 1 then 2 else 0) | _ \<Rightarrow> h))"

definition RTMP_ClientPacket ::
  "amf_env \<Rightarrow> 'c net_ops \<Rightarrow> 'c rtmp \<Rightarrow> rtmp_packet \<Rightarrow> ('c rtmp \<times> handled) option" where
  "RTMP_ClientPacket env ops r p =
     (let ty = m_packetType p; b = body_of p; n = uint (m_nBodySize p)
      in if ty = RTMP_TYPE_CHUNK_SIZE then Some (HandleChangeChunkSize r p, Goes 0)
         else if ty = RTMP_TYPE_CONTROL then map_option (\<lambda>r1. (r1, Goes 0)) (HandleCtrl ops r p)
         else if ty = RTMP_TYPE_SERVER_BW then Some (HandleServerBW r p, Goes 0)
         else if ty = RTMP_TYPE_CLIENT_BW then Some (HandleClientBW r p, Goes 0)
         else if ty = RTMP_TYPE_AUDIO \<or> ty = RTMP_TYPE_VIDEO then Some (media_packet r p, Goes 1)
         else if ty = RTMP_TYPE_FLEX_MESSAGE then invoked (HandleInvoke env ops r (drop 1 b) (n - 1))
         else if ty = RTMP_TYPE_INFO then Some (HandleMetadata env r b n)
         else if ty = RTMP_TYPE_INVOKE then invoked (HandleInvoke env ops r b n)
         else if ty = RTMP_TYPE_FLASH_VIDEO then
           (case flash_loop env b (nat n) 0 (m_nTimeStamp p) r of
              Inr e \<Rightarrow> Some (r, Stops e)
            | Inl (r1, ts) \<Rightarrow> Some (if m_pausing r1 = 0 then r1\<lparr>m_mediaStamp := ts\<rparr> else r1, Goes 1))
         else Some (r, Goes 0))"

section \<open>The reading loops\<close>

text \<open>\<open>LoopStopped\<close>: a handler or a read did not come back.\<close>

datatype loop_end = LoopDone bool | LoopOverflow | LoopStopped handled

definition media_type :: "byte \<Rightarrow> bool" where
  "media_type ty \<longleftrightarrow> ty = RTMP_TYPE_AUDIO \<or> ty = RTMP_TYPE_VIDEO \<or> ty = RTMP_TYPE_INFO"

partial_function (option) connect_loop ::
  "amf_env \<Rightarrow> 'c net_ops \<Rightarrow> 'c rtmp \<Rightarrow> rtmp_packet \<Rightarrow> ('c rtmp \<times> loop_end) option" where
  "connect_loop env ops r p =
     (if m_bPlaying r \<or> \<not> RTMP_IsConnected r then Some (r, LoopDone (m_bPlaying r))
      else Option.bind (RTMP_ReadPacket ops r p) (\<lambda>(r1, res).
        case res of
          ReadFailed \<Rightarrow> Some (r1, LoopDone (m_bPlaying r1))
        | ReadOverflow \<Rightarrow> Some (r1, LoopOverflow)
        | ReadOk q \<Rightarrow>
            if \<not> RTMPPacket_IsReady q \<or> m_nBodySize q = 0 then connect_loop env ops r1 q
            else if media_type (m_packetType q) then connect_loop env ops r1 (RTMPPacket_Free q)
            else Option.bind (RTMP_ClientPacket env ops r1 q) (\<lambda>(r2, h).
              case h of
                Goes k \<Rightarrow> connect_loop env ops r2 (RTMPPacket_Free q)
              | _ \<Rightarrow> Some (r2, LoopStopped h))))"

definition RTMP_ConnectStream :: "amf_env \<Rightarrow> 'c net_ops \<Rightarrow> 'c rtmp \<Rightarrow> ('c rtmp \<times> loop_end) option" where
  "RTMP_ConnectStream env ops r = connect_loop env ops (r\<lparr>m_mediaChannel := 0\<rparr>) packet_zero"

partial_function (option) media_loop ::
  "amf_env \<Rightarrow> 'c net_ops \<Rightarrow> 'c rtmp \<Rightarrow> rtmp_packet \<Rightarrow> ('c rtmp \<times> rtmp_packet \<times> nat + handled option) option" where
  "media_loop env ops r p =
     (if \<not> RTMP_IsConnected r then Some (Inl (r, p, 0))
      else Option.bind (RTMP_ReadPacket ops r p) (\<lambda>(r1, res).
        case res of
          ReadFailed \<Rightarrow> Some (Inl (r1, p, 0))
        | ReadOverflow \<Rightarrow> Some (Inr None)
        | ReadOk q \<Rightarrow>
            if \<not> RTMPPacket_IsReady q \<or> m_nBodySize q = 0 then media_loop env ops r1 q
            else Option.bind (RTMP_ClientPacket env ops r1 q) (\<lambda>(r2, h).
              case h of
                Goes k \<Rightarrow>
                  if k = 0 then media_loop env ops r2 (RTMPPacket_Free q)
                  else if m_pausing r2 = 3 \<and> m_nTimeStamp q \<le> m_mediaStamp r2
                  then media_loop env ops r2 (RTMPPacket_Free q)
                  else Some (Inl (if m_pausing r2 = 3 then r2\<lparr>m_pausing := 0\<rparr> else r2, q, k))
              | _ \<Rightarrow> Some (Inr (Some h)))))"

definition RTMP_GetNextMediaPacket ::
  "amf_env \<Rightarrow> 'c net_ops \<Rightarrow> 'c rtmp \<Rightarrow> rtmp_packet \<Rightarrow> ('c rtmp \<times> rtmp_packet \<times> nat + handled option) option" where
  "RTMP_GetNextMediaPacket env ops r p =
     map_option (\<lambda>x. case x of
         Inr h \<Rightarrow> Inr h
       | Inl (r1, q, k) \<Rightarrow>
           Inl (if k > 0 then r1\<lparr>m_bPlaying := True\<rparr>
                else if sb_timedout r1 \<and> m_pausing r1 = 0 then r1\<lparr>m_pauseStamp := pause_stamp r1\<rparr>
                else r1, q, k))
       (media_loop env ops r p)"

definition RTMP_DeleteStream :: "'c net_ops \<Rightarrow> 'c rtmp \<Rightarrow> nat \<Rightarrow> 'c rtmp option" where
  "RTMP_DeleteStream ops r i =
     (if m_stream_id r < 0 then Some r
      else
        let r1 = r\<lparr>m_bPlaying := False\<rparr>
        in Option.bind (if lnk_write r1 then SendFCUnpublish (RTMP_Close ops) ops r1 i else Some (r1, True)) (\<lambda>(r2, _).
           Option.bind (SendDeleteStream (RTMP_Close ops) ops r2 (m_stream_id r2)) (\<lambda>(r3, _).
           Some (r3\<lparr>m_stream_id := - 1\<rparr>))))"

definition RTMP_ReconnectStream ::
  "amf_env \<Rightarrow> 'c net_ops \<Rightarrow> 'c rtmp \<Rightarrow> nat \<Rightarrow> ('c rtmp \<times> loop_end) option" where
  "RTMP_ReconnectStream env ops r i =
     Option.bind (RTMP_DeleteStream ops r i) (\<lambda>r1.
     Option.bind (RTMP_SendCreateStream (RTMP_Close ops) ops r1) (\<lambda>(r2, _).
     RTMP_ConnectStream env ops r2))"

section \<open>Connecting\<close>

text \<open>
  The handshake without encryption: \<open>now\<close> is the clock and \<open>rnd\<close> the random bytes of the signature.
\<close>

definition RTMP_SIG_SIZE :: nat where "RTMP_SIG_SIZE = 1536"

definition client_signature :: "u32 \<Rightarrow> byte list \<Rightarrow> byte list" where
  "client_signature now rnd = be32 now @ [0, 0, 0, 0] @ take (RTMP_SIG_SIZE - 8) rnd"

text \<open>A read of the handshake: the state goes on where all bytes asked for have come.\<close>

definition read_or_fail ::
  "'c net_ops \<Rightarrow> 'c rtmp \<Rightarrow> nat \<Rightarrow> ('c rtmp \<Rightarrow> byte list \<Rightarrow> ('c rtmp \<times> bool) option) \<Rightarrow> ('c rtmp \<times> bool) option" where
  "read_or_fail ops r n f =
     Option.bind (ReadN ops r (int n)) (\<lambda>(r1, res).
       case res of None \<Rightarrow> Some (r1, False) | Some bs \<Rightarrow> f r1 bs)"

definition HandShake :: "u32 \<Rightarrow> byte list \<Rightarrow> 'c net_ops \<Rightarrow> 'c rtmp \<Rightarrow> ('c rtmp \<times> bool) option" where
  "HandShake now rnd ops r =
     Option.bind (WriteN (RTMP_Close ops) ops r (0x03 # client_signature now rnd)) (\<lambda>(r1, wrote).
       if \<not> wrote then Some (r1, False)
       else read_or_fail ops r1 1 (\<lambda>r2 ty.
            read_or_fail ops r2 RTMP_SIG_SIZE (\<lambda>r3 serversig.
            Option.bind (WriteN (RTMP_Close ops) ops r3 serversig) (\<lambda>(r4, wrote2).
              if \<not> wrote2 then Some (r4, False)
              else read_or_fail ops r4 RTMP_SIG_SIZE (\<lambda>r5 answer. Some (r5, True))))))"

text \<open>\<open>RTMP_Connect0\<close> with the socket's new state, without a SOCKS proxy.\<close>

definition RTMP_Connect0 :: "'c \<Rightarrow> 'c rtmp \<Rightarrow> 'c rtmp" where
  "RTMP_Connect0 c r = r\<lparr>sb_timedout := False, m_pausing := 0, m_fDuration := 0, sb_connected := True, net := c\<rparr>"

definition failed_close :: "'c net_ops \<Rightarrow> 'c rtmp \<Rightarrow> ('c rtmp \<times> bool) option" where
  "failed_close ops r = map_option (\<lambda>r1. (r1, False)) (RTMP_Close ops r)"

text \<open>\<open>RTMP_Connect1\<close>: without the crypto support the secure protocols fail. Tunnelling is not modelled.\<close>

definition RTMP_Connect1 :: "u32 \<Rightarrow> byte list \<Rightarrow> 'c net_ops \<Rightarrow> 'c rtmp \<Rightarrow> ('c rtmp \<times> bool) option" where
  "RTMP_Connect1 now rnd ops r =
     (if bit (lnk_protocol r) 2 then failed_close ops r
      else Option.bind (HandShake now rnd ops r) (\<lambda>(r1, ok).
        if \<not> ok then failed_close ops r1
        else Option.bind (SendConnectPacket (RTMP_Close ops) ops r1) (\<lambda>(r2, sent).
          if \<not> sent then failed_close ops r2 else Some (r2, True))))"

text \<open>\<open>get_hostname\<close>: the address without its brackets. \<open>None\<close>: the host is NULL and is dereferenced.\<close>

definition get_hostname :: "byte list option \<Rightarrow> byte list option" where
  "get_hostname host =
     map_option (\<lambda>h. if h \<noteq> [] \<and> hd h = 91 then take (length h - 2) (tl h) else h) host"

text \<open>
  \<open>RTMP_Connect\<close>. \<open>connect host port\<close> is the outcome of \<open>happy-eyeballs.c\<close>: the connected socket or
  an error. \<open>None\<close> in the inner result is the NULL host.
\<close>

definition RTMP_Connect ::
  "(byte list \<Rightarrow> nat \<Rightarrow> int + 'c) \<Rightarrow> u32 \<Rightarrow> byte list \<Rightarrow> 'c net_ops \<Rightarrow> 'c rtmp \<Rightarrow>
   ('c rtmp \<times> bool) option option" where
  "RTMP_Connect connect now rnd ops r =
     (case get_hostname (lnk_hostname r) of
        None \<Rightarrow> Some None
      | Some host \<Rightarrow>
          map_option Some
            (case connect host (lnk_port r) of
               Inl e \<Rightarrow> failed_close ops (r\<lparr>rtmp_error := e\<rparr>)
             | Inr c \<Rightarrow>
                 Option.bind (RTMP_Connect1 now rnd ops ((RTMP_Connect0 c r)\<lparr>m_bSendCounter := True\<rparr>)) (\<lambda>(r1, ok).
                   if ok then Some (r1, True) else failed_close ops r1)))"

end
