(* ===== verification/Rtmp_Kept.thy ===== *)
theory Rtmp_Kept
  imports Rtmp_Client Rtmp_Wire
begin

text \<open>
  What sending and reading leave alone. Whatever the network does, an operation either ends with the
  connection closed, or it keeps the streams and the queue of calls; a call that is sent may be
  added to the queue under its own name.
\<close>

section \<open>Closed or kept\<close>

definition same_streams :: "'c rtmp \<Rightarrow> 'c rtmp \<Rightarrow> bool" where
  "same_streams r r' \<longleftrightarrow>
     sb_connected r' = sb_connected r \<and> lnk_streams r' = lnk_streams r \<and>
     lnk_curStreamIdx r' = lnk_curStreamIdx r \<and> lnk_write r' = lnk_write r \<and>
     m_outChunkSize r' = m_outChunkSize r"

definition kept :: "'c rtmp \<Rightarrow> 'c rtmp \<Rightarrow> bool" where
  "kept r r' \<longleftrightarrow> \<not> sb_connected r' \<or> same_streams r r' \<and> m_methodCalls r' = m_methodCalls r"

definition closes :: "'c closer \<Rightarrow> bool" where
  "closes close \<longleftrightarrow> (\<forall>r r'. close r = Some r' \<longrightarrow> \<not> sb_connected r')"

lemma same_streams_refl [simp]: "same_streams r r"
  by (simp add: same_streams_def)

lemma kept_refl [simp]: "kept r r"
  by (simp add: kept_def)

lemma kept_trans [trans]: "kept r r1 \<Longrightarrow> kept r1 r2 \<Longrightarrow> kept r r2"
  by (auto simp: kept_def same_streams_def)

lemma kept_from: "same_streams r0 r \<Longrightarrow> m_methodCalls r0 = m_methodCalls r \<Longrightarrow> kept r r' \<Longrightarrow> kept r0 r'"
  by (auto simp: kept_def same_streams_def)

lemma close_levels_closed: "close_levels ops d r = Some r' \<Longrightarrow> \<not> sb_connected r'"
  by (cases d) (auto simp: close_state_def split: if_splits bind_splits)

lemma close_closes: "closes (RTMP_Close ops)" "closes (close_levels ops d)"
  using close_levels_closed by (fastforce simp: closes_def RTMP_Close_def)+

lemma WriteN_kept:
  "WriteN close ops r bs = Some y \<Longrightarrow> closes close \<Longrightarrow>
     \<not> sb_connected (fst y) \<or> (\<exists>c. fst y = r\<lparr>net := c\<rparr>)"
proof (induction rule: WriteN.raw_induct [rotated, consumes 1, case_names step])
  case (step rec close ops r bs y)
  show ?case
  proof (cases "bs = []")
    case True
    then show ?thesis using step.hyps by (auto intro: exI [of _ "net r"])
  next
    case False
    obtain c res where n: "net_send ops (net r) bs = (c, res)" by (cases "net_send ops (net r) bs")
    show ?thesis
    proof (cases res)
      case (Sent k)
      show ?thesis
      proof (cases "k = 0")
        case True
        then have "y = (r\<lparr>net := c\<rparr>, False)" using step.hyps False by (simp add: n Sent)
        then show ?thesis by auto
      next
        case no: False
        then have "rec close ops (r\<lparr>net := c\<rparr>) (drop k bs) = Some y" using step.hyps False by (simp add: n Sent)
        from step.IH [OF this step.prems] show ?thesis by auto
      qed
    next
      case SendInterrupted
      then have "rec close ops (r\<lparr>net := c\<rparr>) bs = Some y" using step.hyps False by (simp add: n)
      from step.IH [OF this step.prems] show ?thesis by auto
    next
      case (SendFailed e)
      then obtain r1 where "close (RTMPSockBuf_Close ops (r\<lparr>net := c, rtmp_error := e\<rparr>)) = Some r1" "y = (r1, False)"
        using step.hyps False by (auto simp: n split: bind_splits)
      then show ?thesis using step.prems by (auto simp: closes_def)
    qed
  qed
qed

lemma WriteN_ok: "WriteN close ops r bs = Some y \<Longrightarrow> snd y \<Longrightarrow> \<exists>c. fst y = r\<lparr>net := c\<rparr>"
proof (induction rule: WriteN.raw_induct [rotated, consumes 1, case_names step])
  case (step rec close ops r bs y)
  obtain c res where n: "net_send ops (net r) bs = (c, res)" by (cases "net_send ops (net r) bs")
  show ?case
  proof (cases "bs = []")
    case True
    then show ?thesis using step.hyps by (auto intro: exI [of _ "net r"])
  next
    case False
    have "\<exists>bs'. rec close ops (r\<lparr>net := c\<rparr>) bs' = Some y"
      using step.hyps step.prems False by (cases res) (auto simp: n split: if_splits bind_splits)
    then show ?thesis using step.IH [OF _ step.prems] by fastforce
  qed
qed

lemma send_chunks_ok:
  "send_chunks close ops cont r mem buf hSize nSize nChunkSize = Some y \<Longrightarrow> snd (snd y) \<Longrightarrow>
     \<exists>c. fst y = r\<lparr>net := c\<rparr>"
proof (induction rule: send_chunks.raw_induct [rotated, consumes 1, case_names step])
  case (step rec close ops cont r mem buf hSize nSize nChunkSize y)
  show ?case
  proof (cases "nSize + hSize = 0")
    case True
    then have "y = (r, mem, True)" using step.hyps by simp
    then show ?thesis by (auto intro: exI [of _ "net r"])
  next
    case False
    define n where "n = (if nSize < nChunkSize then nSize else nChunkSize)"
    obtain r1 wrote where w: "WriteN close ops r (take (n + hSize) (drop (buf - hSize) mem)) = Some (r1, wrote)"
      and y: "(if \<not> wrote then Some (r1, mem, False)
             else if nSize - n > 0
             then rec close ops cont r1 (put_bytes (buf + n - length cont) cont mem)
                    (buf + n) (length cont) (nSize - n) n
             else rec close ops cont r1 mem (buf + n) 0 (nSize - n) n) = Some y"
      using step.hyps False by (auto simp: Let_def bind_eq_Some_conv simp flip: n_def)
    have wrote: "wrote" using y step.prems by (cases wrote) auto
    have "\<exists>c. fst y = r1\<lparr>net := c\<rparr>"
    proof (cases "nSize - n > 0")
      case True
      then have "rec close ops cont r1 (put_bytes (buf + n - length cont) cont mem)
          (buf + n) (length cont) (nSize - n) n = Some y" using y wrote by simp
      from step.IH [OF this step.prems] show ?thesis .
    next
      case False
      then have "rec close ops cont r1 mem (buf + n) 0 (nSize - n) n = Some y" using y wrote by simp
      from step.IH [OF this step.prems] show ?thesis .
    qed
    then show ?thesis using WriteN_ok [OF w] wrote by auto
  qed
qed

text \<open>The chunks after the first are headed at least \<open>k\<close> bytes into the memory: what lies before stays.\<close>

lemma send_chunks_kept:
  "send_chunks close ops cont r mem buf hSize nSize nChunkSize = Some y \<Longrightarrow> closes close \<Longrightarrow>
     k \<le> length mem \<Longrightarrow> (nChunkSize < nSize \<longrightarrow> k + length cont \<le> buf + nChunkSize) \<Longrightarrow>
     (\<not> sb_connected (fst y) \<or> (\<exists>c. fst y = r\<lparr>net := c\<rparr>)) \<and> take k (fst (snd y)) = take k mem"
proof (induction rule: send_chunks.raw_induct [rotated, consumes 1, case_names step])
  case (step rec close ops cont r mem buf hSize nSize nChunkSize y)
  show ?case
  proof (cases "nSize + hSize = 0")
    case True
    then have "y = (r, mem, True)" using step.hyps by simp
    then show ?thesis by (auto intro: exI [of _ "net r"])
  next
    case False
    define n where "n = (if nSize < nChunkSize then nSize else nChunkSize)"
    obtain r1 wrote where w: "WriteN close ops r (take (n + hSize) (drop (buf - hSize) mem)) = Some (r1, wrote)"
      and y: "(if \<not> wrote then Some (r1, mem, False)
             else if nSize - n > 0
             then rec close ops cont r1 (put_bytes (buf + n - length cont) cont mem)
                    (buf + n) (length cont) (nSize - n) n
             else rec close ops cont r1 mem (buf + n) 0 (nSize - n) n) = Some y"
      using step.hyps False by (auto simp: Let_def bind_eq_Some_conv simp flip: n_def)
    have r1: "\<not> sb_connected r1 \<or> (\<exists>c. r1 = r\<lparr>net := c\<rparr>)" using WriteN_kept [OF w step.prems(1)] by simp
    have chain: "\<not> sb_connected r2 \<or> (\<exists>c. r2 = r\<lparr>net := c\<rparr>)"
      if "\<not> sb_connected r2 \<or> (\<exists>c. r2 = r1\<lparr>net := c\<rparr>)" for r2
      using r1 that by auto
    consider "\<not> wrote" | "wrote" "nSize - n > 0" | "wrote" "\<not> nSize - n > 0" by blast
    then show ?thesis
    proof cases
      case 1
      then show ?thesis using y r1 by auto
    next
      case 2
      then have n: "n = nChunkSize" by (simp add: n_def split: if_splits)
      have "rec close ops cont r1 (put_bytes (buf + n - length cont) cont mem) (buf + n) (length cont) (nSize - n) n
          = Some y" using y 2 by simp
      moreover have put: "take k (put_bytes (buf + n - length cont) cont mem) = take k mem"
        using step.prems(2,3) 2 by (auto simp: put_bytes_def n min_def)
      moreover have "k \<le> length (put_bytes (buf + n - length cont) cont mem)"
        using arg_cong [OF put, of length] step.prems(2) by simp
      ultimately have "(\<not> sb_connected (fst y) \<or> (\<exists>c. fst y = r1\<lparr>net := c\<rparr>)) \<and>
          take k (fst (snd y)) = take k (put_bytes (buf + n - length cont) cont mem)"
        using step.prems(3) 2 by (intro step.IH [OF _ step.prems(1)]) (auto simp: n)
      then show ?thesis using chain put by auto
    next
      case 3
      then have "rec close ops cont r1 mem (buf + n) 0 (nSize - n) n = Some y" using y by simp
      from step.IH [OF this step.prems(1,2)] show ?thesis using chain 3 by auto
    qed
  qed
qed

section \<open>Sending a packet\<close>

definition call_bytes :: "byte list \<Rightarrow> byte list" where
  "call_bytes nm = AMF_STRING # be16 (of_nat (length nm)) @ nm"

definition calls_as :: "byte list \<Rightarrow> rtmp_packet \<Rightarrow> bool" where
  "calls_as nm p \<longleftrightarrow> length nm \<le> 100 \<and> (\<exists>rest. m_body p = Some (call_bytes nm @ rest))"

lemma queue_call_named:
  assumes "take (length (call_bytes nm)) mem = call_bytes nm" and "length nm \<le> 100"
  shows "queue_call mem r = r \<or> (\<exists>n. queue_call mem r = AV_queue nm n r)"
proof -
  obtain rest where mem: "mem = call_bytes nm @ rest" using assms(1) by (metis append_take_drop_id)
  have len: "uint (of_nat (length nm) :: u16) = int (length nm)"
    using assms(2) by (simp add: uint_nat unat_of_nat)
  have "read_bytes mem 1 2 = Inr (be16 (of_nat (length nm)))"
    by (simp add: read_bytes_def mem call_bytes_def)
  then have i: "amf_decode_int16 mem 1 = Inr (of_nat (length nm))"
    by (simp add: amf_decode_int16_def amf_then_def) (simp add: be16_def)
  have "mem_slice mem 3 (int (length nm)) = nm"
    by (simp add: mem_slice_def mem call_bytes_def be16_def)
  then have "amf_decode_string mem 1 = Inr nm"
    by (simp add: amf_decode_string_def i amf_then_def len)
  then show ?thesis by (auto simp: queue_call_def split: sum.split)
qed

lemma packet_mem_split: "drop RTMP_MAX_HEADER_SIZE (packet_mem p) = (case m_body p of None \<Rightarrow> [] | Some b \<Rightarrow> b)"
proof -
  let ?h = "message_header p (m_nLastWireTimeStamp p)"
  show ?thesis
    unfolding packet_mem_def Let_def
    by (subst drop_put_bytes) (use header_room [of p "m_nLastWireTimeStamp p"] in auto)
qed

lemma packet_mem_length:
  "length (packet_mem p) = RTMP_MAX_HEADER_SIZE + length (case m_body p of None \<Rightarrow> [] | Some b \<Rightarrow> b)"
  unfolding packet_mem_def Let_def
  by (subst length_put_bytes) (use header_room [of p "m_nLastWireTimeStamp p"] in auto)

lemma cont_length: "length (continuation_header p t) \<le> 7"
  by (simp add: header_lengths channel_extra_def)

text \<open>What a send does to the queue of calls: nothing, or the call is added.\<close>

definition sent_as :: "byte list option \<Rightarrow> 'c rtmp \<Rightarrow> 'c rtmp \<Rightarrow> bool" where
  "sent_as nm r r' \<longleftrightarrow>
     \<not> sb_connected r' \<or>
     same_streams r r' \<and>
     (m_methodCalls r' = m_methodCalls r \<or>
      (\<exists>name n. nm = Some name \<and> m_methodCalls r' = m_methodCalls r @ [(name, n)]))"

lemma sent_as_None [simp]: "sent_as None r r' \<longleftrightarrow> kept r r'"
  by (auto simp: sent_as_def kept_def)

lemma kept_sent_as: "kept r r' \<Longrightarrow> sent_as nm r r'"
  by (auto simp: sent_as_def kept_def)

lemma send_prepared_parts:
  assumes "send_prepared close ops r p queue = Some (r', q, ok)"
  obtains r1 mem1 sent where "send_chunks close ops (continuation_header p (m_nLastWireTimeStamp p)) r
      (packet_mem p) RTMP_MAX_HEADER_SIZE (length (message_header p (m_nLastWireTimeStamp p)))
      (unat (m_nBodySize p)) (m_outChunkSize r) = Some (r1, mem1, sent)"
    and "\<not> sent \<and> r' = r1 \<and> \<not> ok \<or>
      sent \<and> (\<exists>r2 v. (r2 = r1 \<or> queue \<and> r2 = queue_call (drop RTMP_MAX_HEADER_SIZE mem1) r1) \<and>
        r' = r2\<lparr>m_vecChannelsOut := v\<rparr>)"
proof -
  obtain r1 mem1 sent where chunks: "send_chunks close ops (continuation_header p (m_nLastWireTimeStamp p)) r
      (packet_mem p) RTMP_MAX_HEADER_SIZE (length (message_header p (m_nLastWireTimeStamp p)))
      (unat (m_nBodySize p)) (m_outChunkSize r) = Some (r1, mem1, sent)"
    and rest: "(if \<not> sent then Some (r1, p, False)
      else let r2 = (if m_packetType p = RTMP_TYPE_INVOKE \<and> queue
                     then queue_call (drop RTMP_MAX_HEADER_SIZE mem1) r1 else r1)
           in Some (r2\<lparr>m_vecChannelsOut := (m_vecChannelsOut r2)(m_nChannel p \<mapsto> p)\<rparr>, p, True)) = Some (r', q, ok)"
    using assms unfolding send_prepared_def Let_def bind_eq_Some_conv by auto
  have "\<not> sent \<and> r' = r1 \<and> \<not> ok \<or>
      sent \<and> (\<exists>r2 v. (r2 = r1 \<or> queue \<and> r2 = queue_call (drop RTMP_MAX_HEADER_SIZE mem1) r1) \<and>
        r' = r2\<lparr>m_vecChannelsOut := v\<rparr>)"
    using rest by (auto simp: Let_def split: if_splits)
  then show thesis using that [OF chunks] by blast
qed

lemma send_prepared_kept:
  assumes send: "send_prepared close ops r p queue = Some (r', q, ok)" and close: "closes close"
    and k: "128 \<le> m_outChunkSize r" and named: "queue \<Longrightarrow> calls_as name p"
  shows "sent_as (if queue then Some name else None) r r'"
proof -
  let ?t = "m_nLastWireTimeStamp p"
  obtain r1 mem1 sent where chunks: "send_chunks close ops (continuation_header p ?t) r (packet_mem p)
      RTMP_MAX_HEADER_SIZE (length (message_header p ?t)) (unat (m_nBodySize p)) (m_outChunkSize r) =
      Some (r1, mem1, sent)"
    and rest: "\<not> sent \<and> r' = r1 \<and> \<not> ok \<or>
      sent \<and> (\<exists>r2 v. (r2 = r1 \<or> queue \<and> r2 = queue_call (drop RTMP_MAX_HEADER_SIZE mem1) r1) \<and>
        r' = r2\<lparr>m_vecChannelsOut := v\<rparr>)"
    by (rule send_prepared_parts [OF send])
  then have r': "r' = r1 \<or> (\<exists>r2 v. (r2 = r1 \<or> queue \<and> r2 = queue_call (drop RTMP_MAX_HEADER_SIZE mem1) r1) \<and>
      r' = r2\<lparr>m_vecChannelsOut := v\<rparr>)" by blast
  have r1: "\<not> sb_connected r1 \<or> (\<exists>c. r1 = r\<lparr>net := c\<rparr>)"
    using send_chunks_kept [OF chunks close, of 0] k cont_length [of p ?t] by simp
  show ?thesis
  proof (cases queue)
    case False
    then show ?thesis using r1 r' by (auto simp: kept_def same_streams_def)
  next
    case True
    then obtain rest where body: "m_body p = Some (call_bytes name @ rest)" and len: "length name \<le> 100"
      using named by (auto simp: calls_as_def)
    let ?n = "RTMP_MAX_HEADER_SIZE + length (call_bytes name)"
    have n: "?n \<le> length (packet_mem p)" "?n + length (continuation_header p ?t) \<le> RTMP_MAX_HEADER_SIZE + m_outChunkSize r"
      using k len cont_length [of p ?t] by (simp_all add: packet_mem_length body call_bytes_def)
    have "take ?n mem1 = take ?n (packet_mem p)"
      using send_chunks_kept [OF chunks close n(1)] n(2) by simp
    then have "take (length (call_bytes name)) (drop RTMP_MAX_HEADER_SIZE mem1) =
        take (length (call_bytes name)) (drop RTMP_MAX_HEADER_SIZE (packet_mem p))"
      by (metis add_diff_cancel_left' drop_take)
    then have "take (length (call_bytes name)) (drop RTMP_MAX_HEADER_SIZE mem1) = call_bytes name"
      by (simp add: packet_mem_split body)
    from queue_call_named [OF this len, of r1] show ?thesis
      using r1 r' True by (auto simp: sent_as_def same_streams_def AV_queue_def split: if_splits)
  qed
qed

lemma SendPacket_kept:
  assumes send: "RTMP_SendPacket close ops r p queue = Some (r', q, ok)" and close: "closes close"
    and k: "128 \<le> m_outChunkSize r" and named: "queue \<Longrightarrow> calls_as name p"
  shows "sent_as (if queue then Some name else None) r r'"
proof -
  define r0 where "r0 = (if m_nChannel p \<ge> m_channelsAllocatedOut r
    then r\<lparr>m_channelsAllocatedOut := m_nChannel p + 10\<rparr> else r)"
  obtain p1 last_ts where comp: "compress_header (m_vecChannelsOut r0 (m_nChannel p)) p = (p1, last_ts)"
    by (cases "compress_header (m_vecChannelsOut r0 (m_nChannel p)) p")
  have r0: "same_streams r r0" "m_methodCalls r0 = m_methodCalls r" by (simp_all add: r0_def same_streams_def)
  let ?p = "p1\<lparr>m_nLastWireTimeStamp := m_nTimeStamp p1 - last_ts\<rparr>"
  have "RTMP_SendPacket close ops r p queue =
      (if m_headerType p1 > 3 then Some (r0, p1, False) else send_prepared close ops r0 ?p queue)"
    unfolding RTMP_SendPacket_def Let_def r0_def [symmetric] comp by simp
  then have "(if m_headerType p1 > 3 then Some (r0, p1, False) else send_prepared close ops r0 ?p queue) = Some (r', q, ok)"
    using send by simp
  then consider "r' = r0" | "send_prepared close ops r0 ?p queue = Some (r', q, ok)" by (auto split: if_splits)
  then show ?thesis
  proof cases
    case 1
    then show ?thesis using r0 by (auto simp: kept_def intro: kept_sent_as)
  next
    case 2
    have "sent_as (if queue then Some name else None) r0 r'"
      using named compress_same(6) [OF comp] k r0(1)
      by (intro send_prepared_kept [OF 2 close]) (auto simp: calls_as_def same_streams_def)
    then show ?thesis using r0 by (auto simp: sent_as_def same_streams_def)
  qed
qed

lemma queue_call_streams: "same_streams r (queue_call mem r)"
  by (auto simp: queue_call_def AV_queue_def same_streams_def split: sum.split)

lemma SendPacket_stays:
  assumes send: "RTMP_SendPacket close ops r p queue = Some (r', q, ok)"
  shows "closes close \<Longrightarrow> \<not> sb_connected r' \<or> same_streams r r'"
    and "ok \<Longrightarrow> \<not> queue \<Longrightarrow> same_streams r r' \<and> m_methodCalls r' = m_methodCalls r"
proof -
  define r0 where "r0 = (if m_nChannel p \<ge> m_channelsAllocatedOut r
    then r\<lparr>m_channelsAllocatedOut := m_nChannel p + 10\<rparr> else r)"
  obtain p1 last_ts where comp: "compress_header (m_vecChannelsOut r0 (m_nChannel p)) p = (p1, last_ts)"
    by (cases "compress_header (m_vecChannelsOut r0 (m_nChannel p)) p")
  have r0: "same_streams r r0" "m_methodCalls r0 = m_methodCalls r" by (simp_all add: r0_def same_streams_def)
  let ?p = "p1\<lparr>m_nLastWireTimeStamp := m_nTimeStamp p1 - last_ts\<rparr>"
  have "RTMP_SendPacket close ops r p queue =
      (if m_headerType p1 > 3 then Some (r0, p1, False) else send_prepared close ops r0 ?p queue)"
    unfolding RTMP_SendPacket_def Let_def r0_def [symmetric] comp by simp
  then consider "r' = r0" "\<not> ok" | "send_prepared close ops r0 ?p queue = Some (r', q, ok)"
    using send by (auto split: if_splits)
  note how = this
  show "\<not> sb_connected r' \<or> same_streams r r'" if close: "closes close"
    using how
  proof cases
    case 2
    from 2 obtain r1 mem1 sent where chunks: "send_chunks close ops
        (continuation_header ?p (m_nLastWireTimeStamp ?p)) r0 (packet_mem ?p) RTMP_MAX_HEADER_SIZE
        (length (message_header ?p (m_nLastWireTimeStamp ?p))) (unat (m_nBodySize ?p)) (m_outChunkSize r0) =
        Some (r1, mem1, sent)"
      and rest: "\<not> sent \<and> r' = r1 \<and> \<not> ok \<or>
        sent \<and> (\<exists>r2 v. (r2 = r1 \<or> queue \<and> r2 = queue_call (drop RTMP_MAX_HEADER_SIZE mem1) r1) \<and>
          r' = r2\<lparr>m_vecChannelsOut := v\<rparr>)"
      by (rule send_prepared_parts)
    then have r': "r' = r1 \<or> (\<exists>r2 v. same_streams r1 r2 \<and> r' = r2\<lparr>m_vecChannelsOut := v\<rparr>)"
      using queue_call_streams [of r1] by (metis same_streams_refl)
    have "\<not> sb_connected r1 \<or> (\<exists>c. r1 = r0\<lparr>net := c\<rparr>)"
      using send_chunks_kept [OF chunks close, of 0] cont_length [of ?p "m_nLastWireTimeStamp ?p"]
      by (simp add: RTMP_MAX_HEADER_SIZE_def)
    then show ?thesis using r' r0 by (auto simp: same_streams_def)
  qed (use r0 in simp)
  show "same_streams r r' \<and> m_methodCalls r' = m_methodCalls r" if ok: ok "\<not> queue"
    using how
  proof cases
    case 2
    from 2 obtain r1 mem1 sent where chunks: "send_chunks close ops
        (continuation_header ?p (m_nLastWireTimeStamp ?p)) r0 (packet_mem ?p) RTMP_MAX_HEADER_SIZE
        (length (message_header ?p (m_nLastWireTimeStamp ?p))) (unat (m_nBodySize ?p)) (m_outChunkSize r0) =
        Some (r1, mem1, sent)"
      and rest: "\<not> sent \<and> r' = r1 \<and> \<not> ok \<or>
        sent \<and> (\<exists>r2 v. (r2 = r1 \<or> queue \<and> r2 = queue_call (drop RTMP_MAX_HEADER_SIZE mem1) r1) \<and>
          r' = r2\<lparr>m_vecChannelsOut := v\<rparr>)"
      by (rule send_prepared_parts)
    then obtain v where sent and r': "r' = r1\<lparr>m_vecChannelsOut := v\<rparr>" using ok by blast
    show ?thesis using send_chunks_ok [OF chunks] \<open>sent\<close> r' r0 by (auto simp: same_streams_def)
  qed (use ok in simp)
qed

section \<open>Sending a message\<close>

lemma sent_as_from:
  "same_streams r0 r \<Longrightarrow> m_methodCalls r = m_methodCalls r0 \<Longrightarrow> sent_as nm r r' \<Longrightarrow> sent_as nm r0 r'"
  by (auto simp: sent_as_def same_streams_def)

lemma send_message_kept:
  assumes "send_message close ops p queue r = Some (r', ok)" and "closes close" and "128 \<le> m_outChunkSize r"
    and "queue \<Longrightarrow> calls_as name p"
  shows "sent_as (if queue then Some name else None) r r'"
  using assms SendPacket_kept [of close ops r p queue r' _ ok name]
  by (auto simp: send_message_def)

lemma encode_name:
  "length s < 65536 \<Longrightarrow> amf_encode_string room s = Some bs \<Longrightarrow> bs = call_bytes s"
  by (auto simp: amf_encode_string_def amf_encode_int16_def call_bytes_def Let_def split: if_splits)

lemma send_invoke_kept:
  assumes send: "send_invoke close ops bufsz ch ht info name args queue r = Some (r', ok)"
    and close: "closes close" and k: "128 \<le> m_outChunkSize r" and len: "length name \<le> 100"
  shows "sent_as (if queue then Some (bytes_of name) else None) r r'"
proof -
  define r1 where "r1 = r\<lparr>m_numInvokes := m_numInvokes r + 1\<rparr>"
  have r1: "same_streams r r1" "m_methodCalls r1 = m_methodCalls r" "128 \<le> m_outChunkSize r1"
    using k by (simp_all add: r1_def same_streams_def)
  let ?body = "amf_steps (bufsz - RTMP_MAX_HEADER_SIZE)
    ([step_string (bytes_of name), step_number (double_of_int (m_numInvokes r1)), step_byte AMF_NULL] @ args)"
  have send1: "(case ?body of None \<Rightarrow> Some (r1, False)
      | Some body \<Rightarrow> send_message close ops (message_packet ch ht RTMP_TYPE_INVOKE 0 info body) queue r1) = Some (r', ok)"
    using send by (simp only: send_invoke_def Let_def r1_def [symmetric])
  have "sent_as (if queue then Some (bytes_of name) else None) r1 r'"
  proof (cases ?body)
    case None
    then have "r' = r1" using send1 by simp
    then show ?thesis by (simp add: kept_sent_as)
  next
    case (Some body)
    have "\<exists>rest. body = call_bytes (bytes_of name) @ rest"
      using Some len by (auto simp: step_string_def bytes_of_def bind_eq_Some_conv dest!: encode_name [rotated])
    then have "calls_as (bytes_of name) (message_packet ch ht RTMP_TYPE_INVOKE 0 info body)"
      using len by (auto simp: calls_as_def message_packet_def bytes_of_def)
    moreover have "send_message close ops (message_packet ch ht RTMP_TYPE_INVOKE 0 info body) queue r1 = Some (r', ok)"
      using send1 Some by simp
    ultimately show ?thesis using send_message_kept close r1(3) by blast
  qed
  then show ?thesis using sent_as_from [OF r1(1,2)] by blast
qed

lemma send_answer_kept:
  assumes "send_answer close ops name txn args ts r = Some (r', ok)" and "closes close" and "128 \<le> m_outChunkSize r"
  shows "kept r r'"
  using assms send_message_kept [of close ops _ False r r' ok] by (auto simp: send_answer_def split: option.splits)

text \<open>The messages of the client, over any way to close that does close; \<open>RTMP_Close\<close> is one.\<close>

locale closing_client =
  fixes close :: "'c closer"
    and ops :: "'c net_ops"
  assumes closed: "closes close"
begin

lemma answers_kept:
  assumes "128 \<le> m_outChunkSize r"
  shows "SendCheckBWResult close ops r txn = Some (r', ok) \<Longrightarrow> kept r r'"
    and "SendPong close ops r txn = Some (r', ok) \<Longrightarrow> kept r r'"
proof -
  assume "SendCheckBWResult close ops r txn = Some (r', ok)"
  then have "kept (r\<lparr>m_nBWCheckCounter := m_nBWCheckCounter r + 1\<rparr>) r'"
    using assms by (auto simp: SendCheckBWResult_def intro: send_answer_kept [OF _ closed])
  then show "kept r r'" by (rule kept_from [rotated 2]) (simp_all add: same_streams_def)
next
  assume "SendPong close ops r txn = Some (r', ok)"
  then show "kept r r'" using assms by (auto simp: SendPong_def intro: send_answer_kept [OF _ closed])
qed

lemma invokes_kept:
  assumes "128 \<le> m_outChunkSize r"
  shows "SendReleaseStream close ops r i = Some (r', ok) \<Longrightarrow> kept r r'"
    and "SendFCPublish close ops r i = Some (r', ok) \<Longrightarrow> kept r r'"
    and "SendFCUnpublish close ops r i = Some (r', ok) \<Longrightarrow> kept r r'"
    and "SendDeleteStream close ops r n = Some (r', ok) \<Longrightarrow> kept r r'"
    and "SendCheckBW close ops r = Some (r', ok) \<Longrightarrow> kept r r'"
  using send_invoke_kept [OF _ closed assms, where queue = False]
  by (fastforce simp: SendReleaseStream_def SendFCPublish_def SendFCUnpublish_def SendDeleteStream_def
      SendCheckBW_def)+

lemma calls_kept:
  assumes "128 \<le> m_outChunkSize r"
  shows "RTMP_SendCreateStream close ops r = Some (r', ok) \<Longrightarrow> sent_as (Some (bytes_of ''createStream'')) r r'"
    and "SendPublish close ops r i = Some (r', ok) \<Longrightarrow> sent_as (Some (bytes_of ''publish'')) r r'"
    and "RTMP_SendPause close ops r b t = Some (r', ok) \<Longrightarrow> sent_as (Some (bytes_of ''pause'')) r r'"
  using send_invoke_kept [OF _ closed assms, where queue = True]
  by (fastforce simp: RTMP_SendCreateStream_def SendPublish_def RTMP_SendPause_def)+

lemma controls_kept:
  assumes "128 \<le> m_outChunkSize r"
  shows "SendBytesReceived close ops r = Some (r', ok) \<Longrightarrow> kept r r'"
    and "RTMP_SendCtrl close ops r ty obj t = Some (r', ok) \<Longrightarrow> kept r r'"
proof -
  assume "SendBytesReceived close ops r = Some (r', ok)"
  then have "kept (r\<lparr>m_nBytesInSent := m_nBytesIn r\<rparr>) r'"
    using send_message_kept [OF _ closed, where queue = False] assms by (fastforce simp: SendBytesReceived_def)
  then show "kept r r'" by (rule kept_from [rotated 2]) (simp_all add: same_streams_def)
next
  assume "RTMP_SendCtrl close ops r ty obj t = Some (r', ok)"
  then show "kept r r'"
    using send_message_kept [OF _ closed, where queue = False] assms
    unfolding RTMP_SendCtrl_def Let_def by fastforce
qed

end

interpretation rtmp_close: closing_client "RTMP_Close ops" ops for ops :: "'c net_ops"
  by unfold_locales (rule close_closes)

end
