(* ===== verification/Rtmp_Client_Properties.thy ===== *)
theory Rtmp_Client_Properties
  imports Rtmp_Kept
begin

text \<open>
  The table of streams is safe from the server: whatever it sends, and whatever the network does, the
  client only writes and publishes the streams it has added. The reason is an invariant over the
  queue of calls: a stream is created for each answer the client still waits for.
\<close>

section \<open>Reading keeps the streams\<close>

lemma bind_SomeE: "Option.bind a f = Some y \<Longrightarrow> (\<And>x. a = Some x \<Longrightarrow> f x = Some y \<Longrightarrow> P) \<Longrightarrow> P"
  by (cases a) auto

lemma SendBytesReceived_ok:
  assumes "SendBytesReceived close ops r = Some (r', True)"
  shows "same_streams r r' \<and> m_methodCalls r' = m_methodCalls r"
proof -
  obtain p q where "RTMP_SendPacket close ops (r\<lparr>m_nBytesInSent := m_nBytesIn r\<rparr>) p False = Some (r', q, True)"
    using assms by (auto simp: SendBytesReceived_def send_message_def)
  from SendPacket_stays(2) [OF this] show ?thesis by (auto simp: same_streams_def)
qed

lemma RTMPSockBuf_Fill_same:
  "RTMPSockBuf_Fill ops r = Some y \<Longrightarrow> same_streams r (fst y) \<and> m_methodCalls (fst y) = m_methodCalls r"
proof (induction rule: RTMPSockBuf_Fill.raw_induct [rotated, consumes 1, case_names step])
  case (step rec ops r y)
  obtain c res where n: "net_recv ops (net r) (RTMP_BUFFER_CACHE_SIZE - 1 - length (sb_buf r)) = (c, res)"
    by (cases "net_recv ops (net r) (RTMP_BUFFER_CACHE_SIZE - 1 - length (sb_buf r))")
  show ?case
  proof (cases "res = RecvInterrupted")
    case True
    then have "rec ops (r\<lparr>net := c\<rparr>) = Some y" using step.hyps unfolding n by simp
    from step.IH [OF this] show ?thesis by (simp add: same_streams_def)
  next
    case False
    then show ?thesis using step.hyps unfolding n by (cases res) (auto simp: same_streams_def)
  qed
qed

lemma report_received_kept:
  assumes "report_received ops r = Some (r', ok)" and "128 \<le> m_outChunkSize r"
  shows "kept r r'" and "ok \<Longrightarrow> same_streams r r' \<and> m_methodCalls r' = m_methodCalls r"
  using assms rtmp_close.controls_kept(1) [of r ops r' ok] SendBytesReceived_ok [of "RTMP_Close ops" ops r r']
  by (auto simp: report_received_def split: if_splits)

lemma read_loop_kept:
  "read_loop ops n r acc = Some y \<Longrightarrow> 128 \<le> m_outChunkSize r \<Longrightarrow>
     kept r (fst y) \<and> (snd y \<noteq> None \<longrightarrow> same_streams r (fst y) \<and> m_methodCalls (fst y) = m_methodCalls r)"
proof (induction rule: read_loop.raw_induct [rotated, consumes 1, case_names step])
  case (step rec ops n r acc y)
  show ?case
  proof (cases "n = 0")
    case True
    then show ?thesis using step.hyps by auto
  next
    case False
    obtain r1 got where fill: "(if sb_buf r = [] then RTMPSockBuf_Fill ops r else Some (r, 1)) = Some (r1, got)"
      and rest: "(if got < 1 then
          (if sb_timedout r1 then Some (r1, None)
           else Option.bind (RTMP_Close ops r1) (\<lambda>r2. Some (r2, None)))
        else
          let k = min n (length (sb_buf r1));
              bs = take k (sb_buf r1);
              r2 = r1\<lparr>sb_buf := drop k (sb_buf r1), m_nBytesIn := m_nBytesIn r1 + int k\<rparr>
          in Option.bind (report_received ops r2) (\<lambda>(r3, ok).
               if \<not> ok then Some (r3, None) else rec ops (n - k) r3 (acc @ bs))) = Some y"
    proof -
      have "Option.bind (if sb_buf r = [] then RTMPSockBuf_Fill ops r else Some (r, 1)) (\<lambda>(r1, got).
        if got < 1 then
          (if sb_timedout r1 then Some (r1, None)
           else Option.bind (RTMP_Close ops r1) (\<lambda>r2. Some (r2, None)))
        else
          let k = min n (length (sb_buf r1));
              bs = take k (sb_buf r1);
              r2 = r1\<lparr>sb_buf := drop k (sb_buf r1), m_nBytesIn := m_nBytesIn r1 + int k\<rparr>
          in Option.bind (report_received ops r2) (\<lambda>(r3, ok).
               if \<not> ok then Some (r3, None) else rec ops (n - k) r3 (acc @ bs))) = Some y"
        using step.hyps False by (simp only: if_False)
      then show thesis by (rule bind_SomeE) (use that in \<open>simp split: prod.splits\<close>)
    qed
    have r1: "same_streams r r1" "m_methodCalls r1 = m_methodCalls r"
      using fill RTMPSockBuf_Fill_same [of ops r "(r1, got)"] by (auto split: if_splits)
    show ?thesis
    proof (cases "got < 1")
      case True
      then show ?thesis
        using rest r1 close_closes(1) [of ops]
        by (auto simp: closes_def kept_def split: if_splits bind_splits)
    next
      case no: False
      define k where "k = min n (length (sb_buf r1))"
      define r2 where "r2 = r1\<lparr>sb_buf := drop k (sb_buf r1), m_nBytesIn := m_nBytesIn r1 + int k\<rparr>"
      have r2: "same_streams r r2" "m_methodCalls r2 = m_methodCalls r" "128 \<le> m_outChunkSize r2"
        using r1 step.prems by (simp_all add: r2_def same_streams_def)
      obtain r3 ok where rep: "report_received ops r2 = Some (r3, ok)"
        and y: "(if \<not> ok then Some (r3, None) else rec ops (n - k) r3 (acc @ take k (sb_buf r1))) = Some y"
        using rest no by (auto simp: Let_def bind_eq_Some_conv simp flip: k_def r2_def)
      note kept = report_received_kept [OF rep r2(3)]
      show ?thesis
      proof (cases ok)
        case False
        then show ?thesis using y kept(1) r2 by (auto intro: kept_from)
      next
        case True
        then have r3: "same_streams r r3" "m_methodCalls r3 = m_methodCalls r"
          using kept(2) r2 by (auto simp: same_streams_def)
        have "rec ops (n - k) r3 (acc @ take k (sb_buf r1)) = Some y" using y True by simp
        from step.IH [OF this] have "kept r3 (fst y) \<and> (snd y \<noteq> None \<longrightarrow>
            same_streams r3 (fst y) \<and> m_methodCalls (fst y) = m_methodCalls r3)"
          using r3 step.prems by (auto simp: same_streams_def)
        then show ?thesis using r3 by (auto simp: same_streams_def kept_def)
      qed
    qed
  qed
qed

text \<open>A read that succeeds has kept all; one that fails may have closed the connection.\<close>

definition read_kept :: "'c rtmp \<Rightarrow> 'c rtmp \<Rightarrow> read_outcome \<Rightarrow> bool" where
  "read_kept r r' res \<longleftrightarrow>
     kept r r' \<and> ((\<exists>q. res = ReadOk q) \<longrightarrow> same_streams r r' \<and> m_methodCalls r' = m_methodCalls r)"

lemma read_kept_from:
  "same_streams r0 r \<Longrightarrow> m_methodCalls r0 = m_methodCalls r \<Longrightarrow> read_kept r r' res \<Longrightarrow> read_kept r0 r' res"
  by (auto simp: read_kept_def kept_def same_streams_def)

lemma read_then_kept:
  assumes "read_then ops r n f = Some (r', o')" and k: "128 \<le> m_outChunkSize r"
    and "\<And>r1 bs. 128 \<le> m_outChunkSize r1 \<Longrightarrow> f r1 bs = Some (r', o') \<Longrightarrow> read_kept r1 r' o'"
  shows "read_kept r r' o'"
proof -
  obtain r1 res where read: "ReadN ops r n = Some (r1, res)"
    and rest: "(case res of None \<Rightarrow> Some (r1, ReadFailed) | Some bs \<Rightarrow> f r1 bs) = Some (r', o')"
    using assms(1) by (auto simp: read_then_def bind_eq_Some_conv)
  let ?r = "r\<lparr>sb_timedout := False\<rparr>"
  have k1: "128 \<le> m_outChunkSize ?r" using k by simp
  have "kept ?r r1 \<and> (res \<noteq> None \<longrightarrow> same_streams ?r r1 \<and> m_methodCalls r1 = m_methodCalls ?r)"
    using read read_loop_kept [of ops "nat n" ?r "[]" "(r1, res)"] k1 by (auto simp: ReadN_def split: if_splits)
  then have r1: "kept r r1" "res \<noteq> None \<Longrightarrow> same_streams r r1 \<and> m_methodCalls r1 = m_methodCalls r"
    by (auto simp: kept_def same_streams_def)
  show ?thesis
  proof (cases res)
    case None
    then show ?thesis using rest r1 by (auto simp: read_kept_def)
  next
    case (Some bs)
    then have same: "same_streams r r1" "m_methodCalls r1 = m_methodCalls r" using r1(2) by auto
    have "read_kept r1 r' o'" using rest Some same k by (intro assms(3)) (auto simp: same_streams_def)
    then show ?thesis using same by (auto intro: read_kept_from)
  qed
qed

lemma keep_packet_same:
  "same_streams r (fst (keep_packet ext p r))" "m_methodCalls (fst (keep_packet ext p r)) = m_methodCalls r"
  by (simp_all add: keep_packet_def same_streams_def Let_def)

lemma chunk_read_kept: "chunk_read ext p n r bs = Some (r', o') \<Longrightarrow> read_kept r r' o'"
  by (auto simp: chunk_read_def read_kept_def kept_def keep_packet_same Let_def case_prod_beta)

lemma read_body_kept:
  assumes "read_body ops ext ht r p = Some (r', o')" and "128 \<le> m_outChunkSize r"
  shows "read_kept r r' o'"
proof -
  consider "r' = r" "o' = ReadOverflow" | q n where "read_then ops r n (chunk_read ext q n) = Some (r', o')"
    using assms(1) by (fastforce simp: read_body_def Let_def split: if_splits)
  then show ?thesis
  proof cases
    case 2
    show ?thesis by (rule read_then_kept [OF 2 assms(2)]) (rule chunk_read_kept)
  qed (simp add: read_kept_def)
qed

lemma ReadPacket_kept:
  assumes "RTMP_ReadPacket ops r p = Some (r', o')" and "128 \<le> m_outChunkSize r"
  shows "read_kept r r' o'"
proof -
  have header: "read_kept r r' o'" if h: "header_read ops ht p r h = Some (r', o')" "128 \<le> m_outChunkSize r" for ht p r h
  proof -
    show ?thesis
    proof (cases "packetSize ht - 1 \<ge> 3 \<and> m_nTimeStamp (parse_header (packetSize ht - 1) h p) = 0xffffff")
      case True
      show ?thesis
        using h(1) unfolding header_read_def Let_def if_P [OF True]
        by (rule read_then_kept) (use h(2) read_body_kept in blast)+
    next
      case False
      show ?thesis
        using h(1) unfolding header_read_def Let_def if_not_P [OF False] by (rule read_body_kept) (rule h(2))
    qed
  qed
  have message: "read_kept r r' o'" if m: "read_message ops r p ht ch = Some (r', o')" "128 \<le> m_outChunkSize r" for r p ht ch
  proof -
    let ?r = "if ch \<ge> m_channelsAllocatedIn r then r\<lparr>m_channelsAllocatedIn := ch + 10\<rparr> else r"
    obtain q n where "read_then ops ?r n (header_read ops ht q) = Some (r', o')"
      using m(1) unfolding read_message_def Let_def by blast
    then have "read_kept ?r r' o'" by (rule read_then_kept) (use m(2) header in auto)
    then show ?thesis by (rule read_kept_from [rotated 2]) (simp_all add: same_streams_def)
  qed
  have channel: "read_kept r r' o'" if c: "channel_read ops p r b = Some (r', o')" "128 \<le> m_outChunkSize r" for r b
  proof -
    consider "unat (and (b ! 0) 0x3f) = 0" | "unat (and (b ! 0) 0x3f) \<noteq> 0" "unat (and (b ! 0) 0x3f) = 1"
      | "unat (and (b ! 0) 0x3f) \<noteq> 0" "unat (and (b ! 0) 0x3f) \<noteq> 1" by blast
    then show ?thesis
    proof cases
      case 1
      show ?thesis
        using c(1) unfolding channel_read_def Let_def if_P [OF 1]
        by (rule read_then_kept) (use c(2) message in blast)+
    next
      case 2
      show ?thesis
        using c(1) unfolding channel_read_def Let_def if_not_P [OF 2(1)] if_P [OF 2(2)]
        by (rule read_then_kept) (use c(2) message in blast)+
    next
      case 3
      show ?thesis
        using c(1) unfolding channel_read_def Let_def if_not_P [OF 3(1)] if_not_P [OF 3(2)]
        by (rule message) (rule c(2))
    qed
  qed
  show ?thesis
    using assms(1) unfolding RTMP_ReadPacket_def by (rule read_then_kept) (use assms(2) channel in auto)
qed

section \<open>The invariant\<close>

text \<open>
  The streams that may still be published: one for each answer to \<open>createStream\<close> the client waits for,
  all of them for each answer to \<open>connect\<close>, and those published so far.
\<close>

definition waiting :: "string \<Rightarrow> 'c rtmp \<Rightarrow> nat" where
  "waiting nm r = length (filter (\<lambda>c. fst c = bytes_of nm) (m_methodCalls r))"

definition streams_ok :: "'c rtmp \<Rightarrow> bool" where
  "streams_ok r \<longleftrightarrow>
     (sb_connected r \<longrightarrow>
        128 \<le> m_outChunkSize r \<and>
        waiting ''connect'' r * length (lnk_streams r) + waiting ''createStream'' r + lnk_curStreamIdx r
          \<le> length (lnk_streams r))"

lemma streams_ok_closed: "\<not> sb_connected r \<Longrightarrow> streams_ok r"
  by (simp add: streams_ok_def)

lemma streams_ok_kept: "streams_ok r \<Longrightarrow> kept r r' \<Longrightarrow> streams_ok r'"
  by (auto simp: streams_ok_def kept_def same_streams_def waiting_def)

text \<open>A call under another name does no harm.\<close>

lemma streams_ok_sent:
  assumes "streams_ok r" and "sent_as (Some (bytes_of nm)) r r'" and "bytes_of nm \<noteq> bytes_of ''connect''"
    and "bytes_of nm \<noteq> bytes_of ''createStream''"
  shows "streams_ok r'"
  using assms by (auto simp: streams_ok_def sent_as_def same_streams_def waiting_def)

lemma find_index_Some:
  "find_index P xs = Some i \<Longrightarrow> i < length xs \<and> P (xs ! i)"
  by (induction xs arbitrary: i) (auto split: if_splits)

lemma filter_erase:
  "i < length xs \<Longrightarrow> length (filter P (AV_erase i xs)) = length (filter P xs) - (if P (xs ! i) then 1 else 0)"
  by (subst (2) id_take_nth_drop [of i xs]) (simp_all add: AV_erase_def)

lemma filter_pos: "i < length xs \<Longrightarrow> P (xs ! i) \<Longrightarrow> 0 < length (filter P xs)"
  by (auto simp: filter_empty_conv intro: bexI [OF _ nth_mem])

lemma DropRequest_waiting:
  assumes "i < length (m_methodCalls r)"
  shows "waiting nm (RTMP_DropRequest i r) = waiting nm r - (if fst (m_methodCalls r ! i) = bytes_of nm then 1 else 0)"
    and "fst (m_methodCalls r ! i) = bytes_of nm \<Longrightarrow> 0 < waiting nm r"
  using filter_erase [OF assms] filter_pos [OF assms] by (auto simp: waiting_def RTMP_DropRequest_def)

lemma DropRequest_fields [simp]:
  "sb_connected (RTMP_DropRequest i r) = sb_connected r" "lnk_streams (RTMP_DropRequest i r) = lnk_streams r"
  "lnk_curStreamIdx (RTMP_DropRequest i r) = lnk_curStreamIdx r" "lnk_write (RTMP_DropRequest i r) = lnk_write r"
  "m_outChunkSize (RTMP_DropRequest i r) = m_outChunkSize r"
  by (simp_all add: RTMP_DropRequest_def)

lemma streams_ok_drop:
  assumes "streams_ok r" and "i < length (m_methodCalls r)"
  shows "streams_ok (RTMP_DropRequest i r)"
proof -
  have "waiting nm (RTMP_DropRequest i r) \<le> waiting nm r" for nm using DropRequest_waiting(1) [OF assms(2)] by simp
  note le = this
  have "waiting ''connect'' (RTMP_DropRequest i r) * length (lnk_streams r) \<le>
      waiting ''connect'' r * length (lnk_streams r)"
    using le by (rule mult_right_mono) simp
  with le [of "''createStream''"] show ?thesis
    using assms(1) unfolding streams_ok_def DropRequest_fields by (intro impI conjI) linarith+
qed

lemma streams_ok_read: "streams_ok r \<Longrightarrow> read_kept r r' res \<Longrightarrow> streams_ok r'"
  by (auto simp: read_kept_def intro: streams_ok_kept)

lemma streams_ok_erase: "streams_ok r \<Longrightarrow> streams_ok (erase_named nm r)"
  using find_index_Some by (fastforce simp: erase_named_def split: option.split intro: streams_ok_drop)

section \<open>The answers\<close>

text \<open>A closed connection stays closed, whatever is sent.\<close>

lemma send_invoke_closed:
  assumes "send_invoke close ops bufsz ch ht info name args queue r = Some (r', ok)" and "closes close"
    and "\<not> sb_connected r"
  shows "\<not> sb_connected r'"
  using assms SendPacket_stays(1)
  by (fastforce simp: send_invoke_def send_message_def same_streams_def Let_def split: option.splits)

lemma each_stream_steps:
  assumes "\<And>i r r' ok. f i r = Some (r', ok) \<Longrightarrow> Q r \<Longrightarrow> Q r'"
  shows "each_stream k i f r = Some r' \<Longrightarrow> Q r \<Longrightarrow> Q r'"
proof (induction k arbitrary: i r)
  case (Suc k)
  show ?case
  proof (cases "i < length (lnk_streams r)")
    case True
    then obtain r1 ok where "f i r = Some (r1, ok)" "each_stream k (Suc i) f r1 = Some r'"
      using Suc.prems(1) by (auto elim: bind_SomeE)
    then show ?thesis using Suc.IH assms Suc.prems(2) by blast
  next
    case False
    then show ?thesis using Suc.prems by simp
  qed
qed simp

lemma kept_step:
  assumes "128 \<le> m_outChunkSize r0" and "kept r0 r"
    and "sb_connected r \<Longrightarrow> 128 \<le> m_outChunkSize r \<Longrightarrow> kept r r'" and "\<not> sb_connected r \<Longrightarrow> \<not> sb_connected r'"
  shows "kept r0 r'"
  using assms by (auto simp: kept_def same_streams_def)

lemma loop_steps_kept:
  assumes k: "128 \<le> m_outChunkSize r0" and r: "kept r0 r"
  shows "SendReleaseStream (RTMP_Close ops) ops r i = Some (r', ok) \<Longrightarrow> kept r0 r'"
    and "SendFCPublish (RTMP_Close ops) ops r i = Some (r', ok) \<Longrightarrow> kept r0 r'"
proof -
  assume s: "SendReleaseStream (RTMP_Close ops) ops r i = Some (r', ok)"
  show "kept r0 r'"
    using rtmp_close.invokes_kept(1) [OF _ s] send_invoke_closed [OF s [unfolded SendReleaseStream_def] close_closes(1)]
    by (rule kept_step [OF k r])
next
  assume s: "SendFCPublish (RTMP_Close ops) ops r i = Some (r', ok)"
  show "kept r0 r'"
    using rtmp_close.invokes_kept(2) [OF _ s] send_invoke_closed [OF s [unfolded SendFCPublish_def] close_closes(1)]
    by (rule kept_step [OF k r])
qed

lemma creates_waiting:
  assumes "128 \<le> m_outChunkSize r0"
  shows "each_stream k i (\<lambda>i r. RTMP_SendCreateStream (RTMP_Close ops) ops r) r = Some r' \<Longrightarrow>
    \<not> sb_connected r \<or> same_streams r0 r \<Longrightarrow>
    \<not> sb_connected r' \<or>
    sb_connected r \<and> same_streams r0 r' \<and> waiting ''connect'' r' = waiting ''connect'' r \<and>
      waiting ''createStream'' r' \<le> waiting ''createStream'' r + k"
proof (induction k arbitrary: i r)
  case (Suc k)
  show ?case
  proof (cases "i < length (lnk_streams r)")
    case True
    then obtain r1 ok where send: "RTMP_SendCreateStream (RTMP_Close ops) ops r = Some (r1, ok)"
      and rest: "each_stream k (Suc i) (\<lambda>i r. RTMP_SendCreateStream (RTMP_Close ops) ops r) r1 = Some r'"
      using Suc.prems(1) by (auto elim: bind_SomeE)
    have closed: "\<not> sb_connected r \<Longrightarrow> \<not> sb_connected r1"
      using send send_invoke_closed [OF _ close_closes(1)] unfolding RTMP_SendCreateStream_def by blast
    have step: "\<not> sb_connected r1 \<or> same_streams r0 r1 \<and> waiting ''connect'' r1 = waiting ''connect'' r \<and>
        waiting ''createStream'' r1 \<le> waiting ''createStream'' r + 1" if "sb_connected r"
    proof -
      have r: "same_streams r0 r" using Suc.prems(2) that by simp
      then have "128 \<le> m_outChunkSize r" using assms by (simp add: same_streams_def)
      from rtmp_close.calls_kept(1) [OF this send] r show ?thesis
        by (auto simp: sent_as_def same_streams_def waiting_def bytes_of_def)
    qed
    have "\<not> sb_connected r1 \<or> same_streams r0 r1" using closed step by blast
    from Suc.IH [OF rest this] closed step show ?thesis by (cases "sb_connected r") auto
  next
    case False
    then show ?thesis using Suc.prems by auto
  qed
qed auto

lemma connect_result_ok:
  assumes "connect_result ops r = Some (r', h)" and k: "128 \<le> m_outChunkSize r" and "sb_connected r"
    and room: "waiting ''connect'' r * length (lnk_streams r) + waiting ''createStream'' r + lnk_curStreamIdx r +
      length (lnk_streams r) \<le> length (lnk_streams r)"
  shows "streams_ok r' \<and> h \<noteq> BeyondStreams"
proof (cases "lnk_write r")
  case False
  then have "r' = r" "h = Playback" using assms(1) by (simp_all add: connect_result_def)
  then show ?thesis using k room unfolding streams_ok_def by auto
next
  case True
  then obtain r1 r2 where p1: "for_streams (\<lambda>i r. SendReleaseStream (RTMP_Close ops) ops r i) r = Some r1"
    and p2: "for_streams (\<lambda>i r. SendFCPublish (RTMP_Close ops) ops r i) r1 = Some r2"
    and p3: "for_streams (\<lambda>i r. RTMP_SendCreateStream (RTMP_Close ops) ops r) r2 = Some r'" and h: "h = Goes 0"
    using assms(1) by (auto simp: connect_result_def elim!: bind_SomeE)
  have "kept r r1"
    using p1 unfolding for_streams_def
    by (rule each_stream_steps [where Q = "kept r", rotated]) (use loop_steps_kept(1) [OF k] in auto)
  with p2 have "kept r r2"
    unfolding for_streams_def
    by (rule each_stream_steps [where Q = "kept r", rotated]) (use loop_steps_kept(2) [OF k] in auto)
  then have r2: "\<not> sb_connected r2 \<or> same_streams r r2 \<and> m_methodCalls r2 = m_methodCalls r" by (simp add: kept_def)
  then have "\<not> sb_connected r' \<or> sb_connected r2 \<and> same_streams r r' \<and>
      waiting ''connect'' r' = waiting ''connect'' r2 \<and>
      waiting ''createStream'' r' \<le> waiting ''createStream'' r2 + length (lnk_streams r2)"
    using creates_waiting [OF k p3 [unfolded for_streams_def]] by blast
  then show ?thesis
    using r2 room k by (auto simp: streams_ok_def h waiting_def same_streams_def)
qed

lemma createStream_result_ok:
  assumes "createStream_result env ops r obj = Some (r', h)" and k: "128 \<le> m_outChunkSize r"
    and room: "waiting ''connect'' r * length (lnk_streams r) + waiting ''createStream'' r + lnk_curStreamIdx r
      < length (lnk_streams r)"
  shows "streams_ok r' \<and> h \<noteq> BeyondStreams"
proof -
  let ?i = "lnk_curStreamIdx r"
  define r1 where "r1 = r\<lparr>lnk_streams := (lnk_streams r)[?i := (stream_link r ?i)\<lparr>st_id :=
    double_to_int (prop_number env (amf_get_prop obj [] 3))\<rparr>]\<rparr>"
  have i: "\<not> ?i \<ge> length (lnk_streams r)" using room by simp
  have r1: "128 \<le> m_outChunkSize r1" "length (lnk_streams r1) = length (lnk_streams r)" "lnk_curStreamIdx r1 = ?i"
    "m_methodCalls r1 = m_methodCalls r" "lnk_write r1 = lnk_write r"
    using k by (simp_all add: r1_def)
  show ?thesis
  proof (cases "lnk_write r")
    case True
    then obtain r2 ok where send: "SendPublish (RTMP_Close ops) ops r1 ?i = Some (r2, ok)"
      and r': "r' = r2\<lparr>lnk_curStreamIdx := Suc (lnk_curStreamIdx r2)\<rparr>" and h: "h = Goes 0"
      using assms(1) i by (auto simp: createStream_result_def Let_def simp flip: r1_def elim!: bind_SomeE)
    have "sent_as (Some (bytes_of ''publish'')) r1 r2" by (rule rtmp_close.calls_kept(2) [OF r1(1) send])
    then have "\<not> sb_connected r2 \<or> same_streams r1 r2 \<and> waiting ''connect'' r2 = waiting ''connect'' r \<and>
        waiting ''createStream'' r2 = waiting ''createStream'' r"
      using r1(4) by (auto simp: sent_as_def waiting_def bytes_of_def)
    then show ?thesis
      using r1 room k h by (auto simp: r' streams_ok_def same_streams_def waiting_def)
  next
    case False
    then have "r' = r1" "h = Playback"
      using assms(1) i by (simp_all add: createStream_result_def Let_def flip: r1_def)
    then show ?thesis using r1 room k by (auto simp: streams_ok_def waiting_def)
  qed
qed

lemma invoke_result_ok:
  assumes "invoke_result env ops r obj txn = Some (r', h)" and ok: "streams_ok r" and conn: "sb_connected r"
  shows "streams_ok r' \<and> h \<noteq> BeyondStreams"
proof (cases "find_index (\<lambda>c. snd c = double_to_int txn) (m_methodCalls r)")
  case None
  then show ?thesis using assms by (auto simp: invoke_result_def)
next
  case (Some i)
  define r1 where "r1 = RTMP_DropRequest i r"
  let ?name = "fst (m_methodCalls r ! i)"
  have i: "i < length (m_methodCalls r)" using find_index_Some [OF Some] by simp
  note w = DropRequest_waiting [OF i, folded r1_def]
  have k: "128 \<le> m_outChunkSize r1" "sb_connected r1" and ok1: "streams_ok r1"
    using ok conn streams_ok_drop [OF ok i] by (auto simp: r1_def streams_ok_def)
  have room: "waiting ''connect'' r * length (lnk_streams r) + waiting ''createStream'' r + lnk_curStreamIdx r
      \<le> length (lnk_streams r)" using ok conn by (simp add: streams_ok_def)
  have res: "(if ?name = bytes_of ''connect'' then connect_result ops r1
      else if ?name = bytes_of ''createStream'' then createStream_result env ops r1 obj
      else if ?name = bytes_of ''play'' \<or> ?name = bytes_of ''publish''
      then Some (r1\<lparr>m_bPlaying := True, lnk_playingStreams := lnk_playingStreams r1 + 1\<rparr>, Goes 0)
      else Some (r1, Goes 0)) = Some (r', h)"
    using assms(1) by (simp only: invoke_result_def Some option.case Let_def r1_def)
  consider (connect) "?name = bytes_of ''connect''"
    | (create) "?name \<noteq> bytes_of ''connect''" "?name = bytes_of ''createStream''"
    | (other) "?name \<noteq> bytes_of ''connect''" "?name \<noteq> bytes_of ''createStream''" by blast
  then show ?thesis
  proof cases
    case connect
    have "waiting ''connect'' r = Suc (waiting ''connect'' r1)" using w connect by (simp add: gr0_conv_Suc)
    moreover have "waiting ''createStream'' r1 = waiting ''createStream'' r"
      using w(1) [of "''createStream''"] connect by (simp add: bytes_of_def)
    ultimately have "waiting ''connect'' r1 * length (lnk_streams r1) + waiting ''createStream'' r1 +
        lnk_curStreamIdx r1 + length (lnk_streams r1) \<le> length (lnk_streams r1)"
      using room by (simp add: r1_def)
    moreover have "connect_result ops r1 = Some (r', h)" using res connect by simp
    ultimately show ?thesis using connect_result_ok k by blast
  next
    case create
    have "waiting ''createStream'' r = Suc (waiting ''createStream'' r1)" using w create by (simp add: gr0_conv_Suc)
    moreover have "waiting ''connect'' r1 = waiting ''connect'' r" using w(1) [of "''connect''"] create by simp
    ultimately have "waiting ''connect'' r1 * length (lnk_streams r1) + waiting ''createStream'' r1 +
        lnk_curStreamIdx r1 < length (lnk_streams r1)"
      using room by (simp add: r1_def)
    moreover have "createStream_result env ops r1 obj = Some (r', h)" using res create by simp
    ultimately show ?thesis using createStream_result_ok k by blast
  next
    case other
    then have "h = Goes 0" "r' = r1 \<or> r' = r1\<lparr>m_bPlaying := True, lnk_playingStreams := lnk_playingStreams r1 + 1\<rparr>"
      using res by (auto split: if_splits)
    then show ?thesis using ok1 by (auto simp: streams_ok_def waiting_def)
  qed
qed

section \<open>All messages\<close>

text \<open>The end of a handler that is fine: the invariant holds and no stream beyond the table is asked for.\<close>

definition fine :: "('c rtmp \<times> handled) option \<Rightarrow> bool" where
  "fine res \<longleftrightarrow> (\<forall>r h. res = Some (r, h) \<longrightarrow> streams_ok r \<and> h \<noteq> BeyondStreams)"

lemma fine_simps [simp]:
  "fine (Some (r, h)) \<longleftrightarrow> streams_ok r \<and> h \<noteq> BeyondStreams" "fine None"
  by (simp_all add: fine_def)

lemma fine_if: "(b \<Longrightarrow> fine x) \<Longrightarrow> (\<not> b \<Longrightarrow> fine y) \<Longrightarrow> fine (if b then x else y)"
  by simp

lemma fine_closed: "fine (closed_with n ops r)"
  using close_closes(1) [of ops] by (auto simp: fine_def closed_with_def closes_def intro: streams_ok_closed)

lemma fine_map: "(\<And>r ok. x = Some (r, ok) \<Longrightarrow> streams_ok r) \<Longrightarrow> fine (map_option (\<lambda>(r, _). (r, Goes n)) x)"
  by (auto simp: fine_def)

context closing_client
begin

lemma single_sends_ok:
  assumes ok: "streams_ok r" and conn: "sb_connected r"
  shows "SendCheckBW close ops r = Some (r', sent) \<Longrightarrow> streams_ok r'"
    and "SendPong close ops r txn = Some (r', sent) \<Longrightarrow> streams_ok r'"
    and "SendCheckBWResult close ops r txn = Some (r', sent) \<Longrightarrow> streams_ok r'"
    and "RTMP_SendCtrl close ops r ty obj t = Some (r', sent) \<Longrightarrow> streams_ok r'"
    and "RTMP_SendPause close ops r b t = Some (r', sent) \<Longrightarrow> streams_ok r'"
proof -
  have k: "128 \<le> m_outChunkSize r" using ok conn by (simp add: streams_ok_def)
  show "SendCheckBW close ops r = Some (r', sent) \<Longrightarrow> streams_ok r'"
    by (rule streams_ok_kept [OF ok invokes_kept(5) [OF k]])
  show "SendPong close ops r txn = Some (r', sent) \<Longrightarrow> streams_ok r'"
    by (rule streams_ok_kept [OF ok answers_kept(2) [OF k]])
  show "SendCheckBWResult close ops r txn = Some (r', sent) \<Longrightarrow> streams_ok r'"
    by (rule streams_ok_kept [OF ok answers_kept(1) [OF k]])
  show "RTMP_SendCtrl close ops r ty obj t = Some (r', sent) \<Longrightarrow> streams_ok r'"
    by (rule streams_ok_kept [OF ok controls_kept(2) [OF k]])
  show "RTMP_SendPause close ops r b t = Some (r', sent) \<Longrightarrow> streams_ok r'"
    by (rule streams_ok_sent [OF ok calls_kept(3) [OF k]]) (simp_all add: bytes_of_def)
qed

end

lemma streams_ok_update [simp]:
  "streams_ok (r\<lparr>m_bPlaying := b\<rparr>) = streams_ok r" "streams_ok (r\<lparr>m_stream_id := i\<rparr>) = streams_ok r"
  "streams_ok (r\<lparr>rd_seeking := b\<rparr>) = streams_ok r" "streams_ok (r\<lparr>m_pausing := n\<rparr>) = streams_ok r"
  "streams_ok (r\<lparr>m_fDuration := d\<rparr>) = streams_ok r" "streams_ok (r\<lparr>rd_dataType := t\<rparr>) = streams_ok r"
  "streams_ok (r\<lparr>m_mediaChannel := n\<rparr>) = streams_ok r" "streams_ok (r\<lparr>m_mediaStamp := w\<rparr>) = streams_ok r"
  "streams_ok (r\<lparr>m_pauseStamp := w\<rparr>) = streams_ok r" "streams_ok (r\<lparr>m_inChunkSize := c\<rparr>) = streams_ok r"
  "streams_ok (r\<lparr>m_nServerBW := c\<rparr>) = streams_ok r" "streams_ok (r\<lparr>m_nClientBW := c, m_nClientBW2 := c2\<rparr>) = streams_ok r"
  by (simp_all add: streams_ok_def waiting_def)

lemma status_fine:
  assumes "streams_ok r" and "sb_connected r"
  shows "fine (invoke_status ops r obj)"
  unfolding invoke_status_def Let_def
  using assms by (intro fine_if fine_closed) (auto intro!: streams_ok_erase simp: fine_def
      dest: rtmp_close.single_sends_ok(5) [rotated 2])

lemma method_fine:
  assumes "streams_ok r" and "sb_connected r"
  shows "fine (invoke_method env ops r obj)"
  unfolding invoke_method_def Let_def
  using assms rtmp_close.single_sends_ok [OF assms]
  by (intro fine_if fine_closed fine_map status_fine)
    (auto simp: fine_def intro: streams_ok_erase dest: invoke_result_ok)

lemma invoke_fine:
  assumes "streams_ok r" and "sb_connected r"
  shows "fine (HandleInvoke env ops r mem n)"
  using assms method_fine [OF assms] by (auto simp: HandleInvoke_def split: sum.split prod.split)

lemma metadata_fine: "streams_ok r \<Longrightarrow> fine (Some (HandleMetadata env r mem n))"
  by (auto simp: fine_def HandleMetadata_def Let_def split: sum.splits prod.splits option.splits if_splits)

lemma flash_loop_ok:
  "flash_loop env b n pos ts r = Inl (r', ts') \<Longrightarrow> streams_ok r \<Longrightarrow> streams_ok r'"
proof (induction "n - pos" arbitrary: pos ts r rule: less_induct)
  case less
  define size where "size = unat (get24 (b ! (pos + 1)) (b ! (pos + 2)) (b ! (pos + 3)))"
  define next_ts where "next_ts = (if b ! pos = 8 \<or> b ! pos = 9
    then or (get24 (b ! (pos + 4)) (b ! (pos + 5)) (b ! (pos + 6))) (push_bit 24 (ucast (b ! (pos + 7)))) else ts)"
  obtain r1 h where one: "(if b ! pos = 0x12 then HandleMetadata env r (drop (pos + 11) b) (int size)
      else (r, Goes 0)) = (r1, h)" by fastforce
  have r1: "streams_ok r1"
    using one less.prems(2) metadata_fine [OF less.prems(2), of env "drop (pos + 11) b" "int size"]
    by (auto simp: fine_def split: if_splits)
  have "flash_loop env b n pos ts r =
      (if pos + 11 < n then
         if pos + 11 + size + 4 > n then Inl (r, ts)
         else (case h of Stops e \<Rightarrow> Inr e | _ \<Rightarrow> flash_loop env b n (pos + 11 + size + 4) next_ts r1)
       else Inl (r, ts))"
    by (subst flash_loop.simps) (simp only: Let_def size_def [symmetric] one next_ts_def [symmetric] prod.case)
  moreover have "pos + 11 < n \<Longrightarrow> flash_loop env b n (pos + 11 + size + 4) next_ts r1 = Inl (r', ts') \<Longrightarrow> streams_ok r'"
    using r1 by (intro less.hyps [of "pos + 11 + size + 4" next_ts r1]) auto
  ultimately show ?case using less.prems by (auto split: if_splits handled.splits)
qed

lemma ctrl_ok:
  assumes "HandleCtrl ops r p = Some r'" and "streams_ok r" and "sb_connected r"
  shows "streams_ok r'"
proof -
  have pause: "streams_ok r2" if "RTMP_SendPause (RTMP_Close ops) ops (r\<lparr>m_pauseStamp := t\<rparr>) b u = Some (r2, ok)" for r2 ok b t u
    using rtmp_close.single_sends_ok(5) [OF _ _ that] assms by simp
  have pause0: "streams_ok r2" if "RTMP_SendPause (RTMP_Close ops) ops r b u = Some (r2, ok)" for r2 ok b u
    using rtmp_close.single_sends_ok(5) [OF _ _ that] assms by simp
  show ?thesis
    using assms(1,2) pause pause0 rtmp_close.single_sends_ok(4) [OF assms(2,3), where ops = ops]
    by (auto simp: HandleCtrl_def Let_def split: if_splits)
qed

lemma client_packet_fine:
  assumes ok: "streams_ok r" and conn: "sb_connected r"
  shows "fine (RTMP_ClientPacket env ops r p)"
proof -
  have invoked: "fine (invoked x)" if "fine x" for x :: "('c rtmp \<times> handled) option"
  proof (cases x)
    case (Some y)
    then show ?thesis using that by (cases y; cases "snd y") (auto simp: fine_def invoked_def)
  qed (simp add: invoked_def)
  have flash: "fine (case flash_loop env (body_of p) n 0 (m_nTimeStamp p) r of
      Inr e \<Rightarrow> Some (r, Stops e)
    | Inl (r1, ts) \<Rightarrow> Some (if m_pausing r1 = 0 then r1\<lparr>m_mediaStamp := ts\<rparr> else r1, Goes 1))" for n
    using ok flash_loop_ok [OF _ ok, of env "body_of p" n 0 "m_nTimeStamp p"]
    by (auto simp: fine_def split: sum.split prod.split)
  show ?thesis
    unfolding RTMP_ClientPacket_def Let_def
    by (intro fine_if invoked invoke_fine metadata_fine flash ok conn)
      (use ok ctrl_ok [OF _ ok conn] in \<open>auto simp: fine_def HandleChangeChunkSize_def HandleServerBW_def HandleClientBW_def
        media_packet_def Let_def\<close>)
qed

lemma connect_loop_ok:
  "connect_loop env ops r p = Some y \<Longrightarrow> streams_ok r \<Longrightarrow> streams_ok (fst y) \<and> snd y \<noteq> LoopStopped BeyondStreams"
proof (induction rule: connect_loop.raw_induct [rotated, consumes 1, case_names step])
  case (step rec env ops r p y)
  show ?case
  proof (cases "m_bPlaying r \<or> \<not> RTMP_IsConnected r")
    case True
    then show ?thesis using step.hyps step.prems by auto
  next
    case False
    then have conn: "sb_connected r" by (simp add: RTMP_IsConnected_def)
    then have k: "128 \<le> m_outChunkSize r" using step.prems by (simp add: streams_ok_def)
    obtain r1 res where read: "RTMP_ReadPacket ops r p = Some (r1, res)"
      and rest: "(case res of
          ReadFailed \<Rightarrow> Some (r1, LoopDone (m_bPlaying r1))
        | ReadOverflow \<Rightarrow> Some (r1, LoopOverflow)
        | ReadOk q \<Rightarrow>
            if \<not> RTMPPacket_IsReady q \<or> m_nBodySize q = 0 then rec env ops r1 q
            else if media_type (m_packetType q) then rec env ops r1 (RTMPPacket_Free q)
            else Option.bind (RTMP_ClientPacket env ops r1 q) (\<lambda>(r2, h).
              case h of
                Goes k \<Rightarrow> rec env ops r2 (RTMPPacket_Free q)
              | _ \<Rightarrow> Some (r2, LoopStopped h))) = Some y"
    proof -
      from step.hyps False have "\<exists>x. RTMP_ReadPacket ops r p = Some x \<and> (case x of (r1, res) \<Rightarrow> (case res of
          ReadFailed \<Rightarrow> Some (r1, LoopDone (m_bPlaying r1))
        | ReadOverflow \<Rightarrow> Some (r1, LoopOverflow)
        | ReadOk q \<Rightarrow>
            if \<not> RTMPPacket_IsReady q \<or> m_nBodySize q = 0 then rec env ops r1 q
            else if media_type (m_packetType q) then rec env ops r1 (RTMPPacket_Free q)
            else Option.bind (RTMP_ClientPacket env ops r1 q) (\<lambda>(r2, h).
              case h of
                Goes k \<Rightarrow> rec env ops r2 (RTMPPacket_Free q)
              | _ \<Rightarrow> Some (r2, LoopStopped h)))) = Some y"
        by (simp only: if_False bind_eq_Some_conv)
      then obtain x where "RTMP_ReadPacket ops r p = Some x" and "(case x of (r1, res) \<Rightarrow> (case res of
          ReadFailed \<Rightarrow> Some (r1, LoopDone (m_bPlaying r1))
        | ReadOverflow \<Rightarrow> Some (r1, LoopOverflow)
        | ReadOk q \<Rightarrow>
            if \<not> RTMPPacket_IsReady q \<or> m_nBodySize q = 0 then rec env ops r1 q
            else if media_type (m_packetType q) then rec env ops r1 (RTMPPacket_Free q)
            else Option.bind (RTMP_ClientPacket env ops r1 q) (\<lambda>(r2, h).
              case h of
                Goes k \<Rightarrow> rec env ops r2 (RTMPPacket_Free q)
              | _ \<Rightarrow> Some (r2, LoopStopped h)))) = Some y" by blast
      then show thesis using that [of "fst x" "snd x"] by (simp only: case_prod_beta prod.collapse)
    qed
    have kept: "read_kept r r1 res" by (rule ReadPacket_kept [OF read k])
    have ok1: "streams_ok r1" by (rule streams_ok_read [OF step.prems kept])
    show ?thesis
    proof (cases res)
      case (ReadOk q)
      show ?thesis
      proof (cases "(\<not> RTMPPacket_IsReady q \<or> m_nBodySize q = 0) \<or> media_type (m_packetType q)")
        case True
        then obtain q' where "rec env ops r1 q' = Some y" using rest ReadOk by (auto split: if_splits)
        from step.IH [OF this ok1] show ?thesis .
      next
        case no: False
        then obtain r2 h where handled: "RTMP_ClientPacket env ops r1 q = Some (r2, h)"
          and y: "(case h of Goes k \<Rightarrow> rec env ops r2 (RTMPPacket_Free q) | _ \<Rightarrow> Some (r2, LoopStopped h)) = Some y"
          using rest ReadOk by (auto elim!: bind_SomeE)
        have "sb_connected r1" using kept conn ReadOk by (simp add: read_kept_def same_streams_def)
        then have "streams_ok r2 \<and> h \<noteq> BeyondStreams"
          using client_packet_fine [OF ok1, of env ops q] handled by (simp add: fine_def)
        then show ?thesis using y step.IH [of env ops r2 "RTMPPacket_Free q" y] by (cases h) auto
      qed
    qed (use rest ok1 in auto)
  qed
qed

text \<open>From a connection on which only \<open>connect\<close> is waiting for its answer, whatever messages the server
sends and whatever the network does, the client never writes or publishes a stream past the ones it has
added, and the invariant that says so holds when the loop ends.\<close>

lemma streams_never_exceeded:
  assumes "sb_connected r" and "128 \<le> m_outChunkSize r" and "m_methodCalls r = [(bytes_of ''connect'', txn)]"
    and "lnk_curStreamIdx r = 0" and "RTMP_ConnectStream env ops r = Some (r', res)"
  shows "res \<noteq> LoopStopped BeyondStreams \<and> streams_ok r'"
proof -
  have "streams_ok (r\<lparr>m_mediaChannel := 0\<rparr>)"
    using assms(1-4) by (simp add: streams_ok_def waiting_def bytes_of_def)
  then show ?thesis
    using connect_loop_ok [of env ops _ packet_zero] assms(5) unfolding RTMP_ConnectStream_def by fastforce
qed

text \<open>A network that is silent: the loop ends with a closed connection.\<close>

definition silent_ops :: "unit net_ops" where
  "silent_ops = \<lparr>net_send = (\<lambda>c bs. (c, Sent (length bs))), net_recv = (\<lambda>c n. (c, RecvClosed)), net_close = (\<lambda>c. c)\<rparr>"

definition waiting_client :: "unit rtmp" where
  "waiting_client = (RTMP_Init ())\<lparr>sb_connected := True, m_methodCalls := [(bytes_of ''connect'', 1)],
     lnk_streams := [\<lparr>st_id = - 1, st_playpath = []\<rparr>]\<rparr>"

definition plain_env :: amf_env where
  "plain_env = \<lparr>ae_amf3 = (\<lambda>_ _ _. Inl Bad), ae_lp64 = True, ae_fuel = 100, ae_pun = (\<lambda>_. 0)\<rparr>"

lemma streams_never_exceeded_witness:
  "\<exists>r' res. RTMP_ConnectStream plain_env silent_ops waiting_client = Some (r', res) \<and>
     res \<noteq> LoopStopped BeyondStreams \<and> streams_ok r'"
proof -
  let ?r = "waiting_client\<lparr>m_mediaChannel := 0\<rparr>"
  note defs = waiting_client_def RTMP_Init_def RTMP_Reset_def silent_ops_def
  have close: "RTMP_Close silent_ops (?r\<lparr>sb_timedout := False\<rparr>) = Some (close_state (?r\<lparr>sb_timedout := False\<rparr>))"
    by (simp add: defs RTMP_Close_def has_id_def RTMPSockBuf_Close_def)
  let ?q = "?r\<lparr>sb_timedout := False\<rparr>"
  have fill: "RTMPSockBuf_Fill silent_ops ?q = Some (?q, 0)"
    by (subst RTMPSockBuf_Fill.simps) (simp add: silent_ops_def)
  have "read_loop silent_ops 1 ?q [] = Some (close_state ?q, None)"
    by (subst read_loop.simps) (simp add: fill close, simp add: defs)
  then have "RTMP_ReadPacket silent_ops ?r packet_zero = Some (close_state ?q, ReadFailed)"
    by (simp add: RTMP_ReadPacket_def read_then_def ReadN_def)
  then have "\<exists>r' res. RTMP_ConnectStream plain_env silent_ops waiting_client = Some (r', res)"
    by (subst RTMP_ConnectStream_def, subst connect_loop.simps) (simp add: defs RTMP_IsConnected_def)
  then obtain r' res where loop: "RTMP_ConnectStream plain_env silent_ops waiting_client = Some (r', res)" by blast
  have "res \<noteq> LoopStopped BeyondStreams \<and> streams_ok r'"
    by (rule streams_never_exceeded [OF _ _ _ _ loop, of 1]) (simp_all add: defs RTMP_DEFAULT_CHUNKSIZE_def)
  then show ?thesis using loop by blast
qed

end
