(* ===== verification/Rtmp_Anomalies.thy ===== *)
theory Rtmp_Anomalies
  imports Rtmp_Client
begin

text \<open>
  Where the chunk layer goes wrong: a server can make \<open>RTMP_ReadPacket\<close> write past the body it has
  allocated, the two ends do not agree on long messages with extended timestamps, and a failed send
  is followed by sends on the closed socket.
\<close>

section \<open>Reading from the buffer\<close>

lemma ReadN_buffered:
  assumes "n \<le> length (sb_buf r)" and "\<not> m_bSendCounter r"
  shows "ReadN ops r (int n) = Some (r\<lparr>sb_timedout := False, sb_buf := drop n (sb_buf r),
    m_nBytesIn := m_nBytesIn r + int n\<rparr>, Some (take n (sb_buf r)))"
proof (cases "n = 0")
  case True
  then show ?thesis by (simp add: ReadN_def read_loop.simps)
next
  case False
  let ?r = "r\<lparr>sb_timedout := False\<rparr>"
  have ne: "sb_buf r \<noteq> []" using assms(1) False by auto
  have "read_loop ops n ?r [] =
      read_loop ops 0 (?r\<lparr>sb_buf := drop n (sb_buf r), m_nBytesIn := m_nBytesIn r + int n\<rparr>) (take n (sb_buf r))"
    using assms False ne by (subst read_loop.simps) (simp add: report_received_def min_absorb1)
  then show ?thesis by (simp add: ReadN_def read_loop.simps)
qed

lemma read_then_buffered:
  assumes "0 \<le> n" and "nat n \<le> length (sb_buf r)" and "\<not> m_bSendCounter r"
  shows "read_then ops r n f = f (r\<lparr>sb_timedout := False, sb_buf := drop (nat n) (sb_buf r),
    m_nBytesIn := m_nBytesIn r + n\<rparr>) (take (nat n) (sb_buf r))"
  using ReadN_buffered [OF assms(2,3), of ops] assms(1) by (simp add: read_then_def)

text \<open>A client that has read some bytes into its buffer, with one-byte chunks where so asked.\<close>

definition buffered_client :: "int \<Rightarrow> byte list \<Rightarrow> unit rtmp" where
  "buffered_client chunk bs = (RTMP_Init ())\<lparr>sb_connected := True, m_inChunkSize := chunk, sb_buf := bs\<rparr>"

section \<open>A body too small\<close>

text \<open>
  A message of two bytes is started, then a second header on the same channel says four: the body
  stays the one of two bytes, and the third byte of the new message goes past it.
\<close>

definition overflow_bytes :: "byte list" where
  "overflow_bytes =
     [0x03, 0, 0, 0, 0, 0, 2, 0x14, 0, 0, 0, 0, 65] @ [0x43, 0, 0, 0, 0, 0, 4, 0x14, 66] @ [0xC3, 67] @ [0xC3, 68]"

lemmas read_evals = RTMP_ReadPacket_def read_then_buffered channel_read_def read_message_def header_read_def
  parse_header_def read_body_def chunk_read_def keep_packet_def Let_def get24_def get32_def DecodeInt32LE_def
  RTMPPacket_Alloc_def RTMPPacket_IsReady_def packet_zero_def body_room_def as_i32_def put_bytes_def

lemma read_overflows:
  "\<exists>r'. read_whole (Suc (Suc (Suc (Suc 0)))) ops (buffered_client 1 overflow_bytes) packet_zero = Some (r', ReadOverflow)"
  by (simp add: read_evals buffered_client_def overflow_bytes_def RTMP_Init_def RTMP_Reset_def)

section \<open>Extended timestamps\<close>

text \<open>
  The sender repeats an extended timestamp in front of every further chunk of a message; the reader
  does not expect it there and takes its bytes for the body.
\<close>

definition long_message :: rtmp_packet where
  "long_message = packet_zero\<lparr>m_nChannel := 4, m_packetType := RTMP_TYPE_VIDEO, m_nTimeStamp := 0x1000000,
     m_nLastWireTimeStamp := 0x1000000, m_nBodySize := 3, m_body := Some [65, 66, 67]\<rparr>"

definition long_bytes :: "byte list" where
  "long_bytes = message_header long_message 0x1000000 @ [65, 66] @ continuation_header long_message 0x1000000 @ [67]"

lemma long_bytes_eq: "long_bytes =
  [4, 0xff, 0xff, 0xff, 0, 0, 3, 9, 0, 0, 0, 0, 1, 0, 0, 0, 65, 66, 0xc4, 1, 0, 0, 0, 67]"
  by (simp add: long_bytes_def long_message_def message_header_def continuation_header_def header_byte_def
      channel_bytes_def channel_extra_def packet_zero_def be24_def be32_def EncodeInt32LE_def RTMP_TYPE_VIDEO_def Let_def)

lemma extended_time_in_body:
  "\<exists>r' q. read_whole (Suc (Suc 0)) ops (buffered_client 2 long_bytes) packet_zero = Some (r', ReadOk q) \<and>
     m_body q = Some [65, 66, 1]"
  by (simp add: read_evals buffered_client_def long_bytes_eq RTMP_Init_def RTMP_Reset_def)

end
