(* ===== verification/Rtmp_Socket.thy ===== *)
theory Rtmp_Socket
  imports Prelude "HOL-Library.Sublist"
begin

text \<open>
  The new socket loop: \<open>src/rtmp/rtmp-windows.c\<close>, the thread that empties the write buffer into the
  socket, and \<open>socket_queue_data\<close> of \<open>src/rtmp/rtmp-stream.c\<close>, with which the send thread fills it.
  The code under \<open>write_buf_mutex\<close> is one step. What the socket answers is an argument; \<open>wire\<close> is a
  history of the bytes it has taken. Sleeping and the tuning of the send window are left out.
\<close>

section \<open>State\<close>

record socket_loop =
  write_buf :: "byte list"
  write_buf_size :: nat
  low_latency_mode :: bool
  socket_open :: bool
  last_error_code :: int
  buffer_space_available_event :: bool
  buffer_has_data_event :: bool
  send_thread_signaled_exit :: bool
  can_write :: bool
  last_send_time :: u64
  wire :: "byte list"

definition LATENCY_FACTOR :: nat where "LATENCY_FACTOR = 20"

definition latency_packet_size :: "socket_loop \<Rightarrow> nat" where
  "latency_packet_size s =
     (if low_latency_mode s then write_buf_size s div (LATENCY_FACTOR - 2) else write_buf_size s)"

definition fatal_sock_shutdown :: "socket_loop \<Rightarrow> socket_loop" where
  "fatal_sock_shutdown s = s\<lparr>socket_open := False, write_buf := [], buffer_space_available_event := True\<rparr>"

section \<open>Events of the socket\<close>

text \<open>
  The results of the reads that throw away what has arrived: the loop goes on until one would block,
  which here is the end of the list.
\<close>

datatype discard = Discarded nat | DiscardFailed int | DiscardClosed

fun discard_loop :: "discard list \<Rightarrow> int option" where
  "discard_loop [] = None"
| "discard_loop (d # ds) =
     (case d of Discarded n \<Rightarrow> discard_loop ds | DiscardFailed e \<Rightarrow> Some e | DiscardClosed \<Rightarrow> Some 0)"

record net_events =
  fd_write :: bool
  fd_close :: bool
  fd_read :: "discard list option"

text \<open>\<open>None\<close>: the events cannot be asked for.\<close>

definition socket_event :: "net_events option \<Rightarrow> socket_loop \<Rightarrow> socket_loop \<times> bool" where
  "socket_event ev s =
     (case ev of
        None \<Rightarrow> (fatal_sock_shutdown s, False)
      | Some e \<Rightarrow>
          let s1 = (if fd_write e then s\<lparr>can_write := True\<rparr> else s)
          in if fd_close e then (fatal_sock_shutdown s1, False)
             else case Option.bind (fd_read e) discard_loop of
               None \<Rightarrow> (s1, True)
             | Some err \<Rightarrow> (fatal_sock_shutdown (s1\<lparr>last_error_code := err\<rparr>), False))"

section \<open>Writing\<close>

datatype data_ret = RET_BREAK | RET_FATAL | RET_CONTINUE

datatype send_ret = Took nat | WouldBlock | SendError int | SendZero

definition send_len :: "socket_loop \<Rightarrow> nat" where
  "send_len s =
     (if low_latency_mode s then min (latency_packet_size s) (length (write_buf s)) else length (write_buf s))"

definition write_data :: "u64 \<Rightarrow> send_ret \<Rightarrow> socket_loop \<Rightarrow> socket_loop \<times> data_ret" where
  "write_data now ret s =
     (if write_buf s = [] then (s, RET_BREAK)
      else case ret of
        Took k \<Rightarrow>
          let s1 = s\<lparr>write_buf := drop k (write_buf s), wire := wire s @ take k (write_buf s),
                     last_send_time := now div 1000000, buffer_space_available_event := True\<rparr>
          in (s1, if length (write_buf s1) \<le> 1000 then RET_BREAK else RET_CONTINUE)
      | WouldBlock \<Rightarrow> (s\<lparr>can_write := False\<rparr>, RET_BREAK)
      | SendError e \<Rightarrow> (fatal_sock_shutdown (s\<lparr>last_error_code := e\<rparr>), RET_FATAL)
      | SendZero \<Rightarrow> (fatal_sock_shutdown (s\<lparr>last_error_code := 0\<rparr>), RET_FATAL))"

text \<open>What the socket may answer: it takes some of what it is offered.\<close>

definition send_answer_ok :: "socket_loop \<Rightarrow> send_ret \<Rightarrow> bool" where
  "send_answer_ok s ret \<longleftrightarrow> (case ret of Took k \<Rightarrow> 0 < k \<and> k \<le> send_len s | _ \<Rightarrow> True)"

section \<open>Queueing\<close>

text \<open>
  One pass of \<open>socket_queue_data\<close> under the mutex: \<open>None\<close> is no room, after which it waits for
  \<open>buffer_space_available_event\<close> and starts again.
\<close>

definition queue_pass :: "byte list \<Rightarrow> socket_loop \<Rightarrow> socket_loop option" where
  "queue_pass d s =
     (if length (write_buf s) + length d > write_buf_size s then None
      else Some (s\<lparr>write_buf := write_buf s @ d\<rparr>))"

section \<open>The two threads\<close>

text \<open>
  Where the send thread is: outside, at the check of the connection, before the mutex, waiting for
  room, before the signal that there are data, and, at the end of the stream, before the second of
  the two signals that end the socket thread, and waiting for that end. Where the socket thread is:
  at the top of its loop, waiting, in the inner loop, ended, or ended by an error.
\<close>

datatype sender = Outside | Checking "byte list" | Locking "byte list" | AwaitingRoom "byte list"
  | Signalling | Exiting | Joining

datatype worker = Top | Waiting | Writing | Ended | Aborted

record world =
  sloop :: socket_loop
  sender_at :: sender
  worker_at :: worker
  queued :: "byte list"

definition woken :: "world \<Rightarrow> socket_loop \<Rightarrow> world" where
  "woken w s = w\<lparr>sloop := s, worker_at := (if can_write s then Writing else Top)\<rparr>"

text \<open>What the socket thread does next, given what the system answers.\<close>

inductive worker_step :: "world \<Rightarrow> world \<Rightarrow> bool" where
  leave: "worker_at w = Top \<Longrightarrow> send_thread_signaled_exit (sloop w) \<Longrightarrow> write_buf (sloop w) = [] \<Longrightarrow>
    worker_step w (w\<lparr>sloop := (sloop w)\<lparr>send_thread_signaled_exit := False\<rparr>, worker_at := Ended\<rparr>)"
| enter: "worker_at w = Top \<Longrightarrow> \<not> (send_thread_signaled_exit (sloop w) \<and> write_buf (sloop w) = []) \<Longrightarrow>
    worker_step w (w\<lparr>worker_at := Waiting\<rparr>)"
| wait_failed: "worker_at w = Waiting \<Longrightarrow>
    worker_step w (w\<lparr>sloop := fatal_sock_shutdown (sloop w), worker_at := Aborted\<rparr>)"
| socket: "worker_at w = Waiting \<Longrightarrow> socket_event ev (sloop w) = (s, ok) \<Longrightarrow>
    worker_step w (if ok then woken w s else w\<lparr>sloop := s, worker_at := Aborted\<rparr>)"
| data: "worker_at w = Waiting \<Longrightarrow> buffer_has_data_event (sloop w) \<Longrightarrow>
    worker_step w (woken w ((sloop w)\<lparr>buffer_has_data_event := False\<rparr>))"
| backlog: "worker_at w = Waiting \<Longrightarrow> worker_step w (w\<lparr>worker_at := Top\<rparr>)"
| written: "worker_at w = Writing \<Longrightarrow> send_answer_ok (sloop w) ret \<Longrightarrow> write_data now ret (sloop w) = (s, res) \<Longrightarrow>
    worker_step w (w\<lparr>sloop := s, worker_at :=
      (case res of RET_BREAK \<Rightarrow> Top | RET_FATAL \<Rightarrow> Aborted | RET_CONTINUE \<Rightarrow> Writing)\<rparr>)"

text \<open>What the send thread does next; \<open>len\<close> bounds what it queues at a time.\<close>

inductive sender_step :: "nat \<Rightarrow> world \<Rightarrow> world \<Rightarrow> bool" for len where
  call: "sender_at w = Outside \<Longrightarrow> d \<noteq> [] \<Longrightarrow> length d \<le> len \<Longrightarrow>
    sender_step len w (w\<lparr>sender_at := Checking d\<rparr>)"
| gone: "sender_at w = Checking d \<Longrightarrow> \<not> socket_open (sloop w) \<Longrightarrow>
    sender_step len w (w\<lparr>sender_at := Outside\<rparr>)"
| connected: "sender_at w = Checking d \<Longrightarrow> socket_open (sloop w) \<Longrightarrow>
    sender_step len w (w\<lparr>sender_at := Locking d\<rparr>)"
| full: "sender_at w = Locking d \<Longrightarrow> queue_pass d (sloop w) = None \<Longrightarrow>
    sender_step len w (w\<lparr>sender_at := AwaitingRoom d\<rparr>)"
| room: "sender_at w = Locking d \<Longrightarrow> queue_pass d (sloop w) = Some s \<Longrightarrow>
    sender_step len w (w\<lparr>sloop := s, sender_at := Signalling, queued := queued w @ d\<rparr>)"
| retry: "sender_at w = AwaitingRoom d \<Longrightarrow> buffer_space_available_event (sloop w) \<Longrightarrow>
    sender_step len w (w\<lparr>sloop := (sloop w)\<lparr>buffer_space_available_event := False\<rparr>, sender_at := Checking d\<rparr>)"
| signal: "sender_at w = Signalling \<Longrightarrow>
    sender_step len w (w\<lparr>sloop := (sloop w)\<lparr>buffer_has_data_event := True\<rparr>, sender_at := Outside\<rparr>)"
| finish: "sender_at w = Outside \<Longrightarrow>
    sender_step len w (w\<lparr>sloop := (sloop w)\<lparr>send_thread_signaled_exit := True\<rparr>, sender_at := Exiting\<rparr>)"
| exit_signal: "sender_at w = Exiting \<Longrightarrow>
    sender_step len w (w\<lparr>sloop := (sloop w)\<lparr>buffer_has_data_event := True\<rparr>, sender_at := Joining\<rparr>)"

text \<open>
  The start of a stream: the exit is reset, the other two events are as the last stream left them.
\<close>

definition loop_start :: "nat \<Rightarrow> bool \<Rightarrow> bool \<Rightarrow> bool \<Rightarrow> socket_loop" where
  "loop_start n low space has_data =
     \<lparr>write_buf = [], write_buf_size = n, low_latency_mode = low, socket_open = True, last_error_code = 0,
      buffer_space_available_event = space, buffer_has_data_event = has_data,
      send_thread_signaled_exit = False, can_write = False, last_send_time = 0, wire = []\<rparr>"

definition world_start :: "nat \<Rightarrow> bool \<Rightarrow> bool \<Rightarrow> bool \<Rightarrow> world" where
  "world_start n low space has_data =
     \<lparr>sloop = loop_start n low space has_data, sender_at = Outside, worker_at = Top, queued = []\<rparr>"

inductive reached :: "nat \<Rightarrow> nat \<Rightarrow> bool \<Rightarrow> world \<Rightarrow> bool" for len n low where
  start: "reached len n low (world_start n low space has_data)"
| worker: "reached len n low w \<Longrightarrow> worker_step w w' \<Longrightarrow> reached len n low w'"
| sender: "reached len n low w \<Longrightarrow> sender_step len w w' \<Longrightarrow> reached len n low w'"

section \<open>Nothing is lost or reordered\<close>

text \<open>What the socket has taken is the first part of what was queued; the buffer has the rest, until an error.\<close>

definition in_order :: "nat \<Rightarrow> world \<Rightarrow> bool" where
  "in_order n w \<longleftrightarrow>
     prefix (wire (sloop w)) (queued w) \<and>
     (worker_at w \<noteq> Aborted \<longrightarrow> queued w = wire (sloop w) @ write_buf (sloop w)) \<and>
     length (write_buf (sloop w)) \<le> n \<and> write_buf_size (sloop w) = n \<and>
     (worker_at w \<noteq> Aborted \<longrightarrow> socket_open (sloop w)) \<and>
     (send_thread_signaled_exit (sloop w) \<or> worker_at w = Ended \<longrightarrow> sender_at w = Exiting \<or> sender_at w = Joining) \<and>
     (worker_at w = Ended \<longrightarrow> write_buf (sloop w) = [])"

lemma shutdown_simps [simp]:
  "write_buf (fatal_sock_shutdown s) = []" "wire (fatal_sock_shutdown s) = wire s"
  "write_buf_size (fatal_sock_shutdown s) = write_buf_size s" "\<not> socket_open (fatal_sock_shutdown s)"
  "send_thread_signaled_exit (fatal_sock_shutdown s) = send_thread_signaled_exit s"
  "buffer_space_available_event (fatal_sock_shutdown s)"
  "buffer_has_data_event (fatal_sock_shutdown s) = buffer_has_data_event s"
  by (simp_all add: fatal_sock_shutdown_def)

text \<open>An event either leaves the loop as it is, but for \<open>can_write\<close>, or shuts the socket down.\<close>

lemma socket_event_cases:
  assumes "socket_event ev s = (s', ok)"
  obtains (on) "ok" "s' = s \<or> s' = s\<lparr>can_write := True\<rparr>"
  | (off) s1 where "\<not> ok" "s' = fatal_sock_shutdown s1" "wire s1 = wire s" "write_buf_size s1 = write_buf_size s"
      "send_thread_signaled_exit s1 = send_thread_signaled_exit s"
  using assms by (auto simp: socket_event_def Let_def split: option.splits if_splits)

lemma write_data_cases:
  assumes "write_data now ret s = (s', res)" and "send_answer_ok s ret"
  obtains (empty) "write_buf s = []" "s' = s" "res = RET_BREAK"
  | (took) k where "write_buf s \<noteq> []" "0 < k" "k \<le> length (write_buf s)"
      "s' = s\<lparr>write_buf := drop k (write_buf s), wire := wire s @ take k (write_buf s),
         last_send_time := now div 1000000, buffer_space_available_event := True\<rparr>"
      "res = (if length (write_buf s) - k \<le> 1000 then RET_BREAK else RET_CONTINUE)"
  | (later) "s' = s\<lparr>can_write := False\<rparr>" "res = RET_BREAK"
  | (off) s1 where "res = RET_FATAL" "s' = fatal_sock_shutdown s1" "wire s1 = wire s"
      "write_buf_size s1 = write_buf_size s" "send_thread_signaled_exit s1 = send_thread_signaled_exit s"
proof (cases "write_buf s = []")
  case True
  then show thesis using assms(1) by (intro empty) (simp_all add: write_data_def)
next
  case False
  note res = assms(1) [unfolded write_data_def if_not_P [OF False]]
  show thesis
  proof (cases ret)
    case (Took k)
    then have "0 < k" and "k \<le> length (write_buf s)"
      using assms(2) by (auto simp: send_answer_ok_def send_len_def split: if_splits)
    then show thesis using False res Took by (intro took [of k]) (simp_all add: Let_def)
  next
    case WouldBlock
    then show thesis using res by (intro later) simp_all
  next
    case (SendError e)
    then show thesis using res by (intro off [of "s\<lparr>last_error_code := e\<rparr>"]) simp_all
  next
    case SendZero
    then show thesis using res by (intro off [of "s\<lparr>last_error_code := 0\<rparr>"]) simp_all
  qed
qed

lemma worker_in_order:
  assumes "worker_step w w'" and "in_order n w"
  shows "in_order n w'"
  using assms
proof (induction rule: worker_step.induct)
  case (socket w ev s ok)
  from socket(2) show ?case
    by (cases rule: socket_event_cases; use socket(1,3) in \<open>auto simp: in_order_def woken_def\<close>)
next
  case (written w ret now s res)
  from written(3,2) show ?case
    by (cases rule: write_data_cases; use written(1,4) in \<open>auto simp: in_order_def take_is_prefix\<close>)
qed (auto simp: in_order_def woken_def)

lemma sender_in_order:
  assumes "sender_step len w w'" and "in_order n w"
  shows "in_order n w'"
  using assms
proof (induction rule: sender_step.induct)
  case (room w d s)
  then have s: "s = (sloop w)\<lparr>write_buf := write_buf (sloop w) @ d\<rparr>"
    and len: "length (write_buf (sloop w)) + length d \<le> write_buf_size (sloop w)"
    by (simp_all add: queue_pass_def split: if_splits)
  show ?case using room(1,3) len by (simp add: s in_order_def prefix_prefix)
next
  case (call w d)
  then show ?case by (simp add: in_order_def)
next
  case (gone w d)
  then show ?case by (simp add: in_order_def)
next
  case (connected w d)
  then show ?case by (simp add: in_order_def)
next
  case (full w d)
  then show ?case by (simp add: in_order_def)
next
  case (retry w d)
  then show ?case by (simp add: in_order_def)
next
  case (signal w)
  then show ?case by (simp add: in_order_def)
next
  case (finish w)
  then show ?case by (simp add: in_order_def)
next
  case (exit_signal w)
  then show ?case by (simp add: in_order_def)
qed

lemma start_in_order: "in_order n (world_start n low space has_data)"
  by (simp add: in_order_def world_start_def loop_start_def)

lemma reached_in_order: "reached len n low w \<Longrightarrow> in_order n w"
  by (induction rule: reached.induct) (auto intro: start_in_order worker_in_order sender_in_order)

end
