(* ===== verification/Rtmp_Socket_Properties.thy ===== *)
theory Rtmp_Socket_Properties
  imports Rtmp_Socket
begin

text \<open>
  What the two threads of the new socket loop promise each other: the bytes arrive in order and all
  of them before the loop ends, and the send thread does not wait for room for ever; and two ways
  in which the end of a stream goes wrong.
\<close>

section \<open>Waiting for room\<close>

definition sender_len :: "nat \<Rightarrow> sender \<Rightarrow> bool" where
  "sender_len len a \<longleftrightarrow> (case a of
     Checking d \<Rightarrow> length d \<le> len | Locking d \<Rightarrow> length d \<le> len | AwaitingRoom d \<Rightarrow> length d \<le> len | _ \<Rightarrow> True)"

text \<open>An idle worker that may write has been told of the data, or has little left.\<close>

definition told :: "world \<Rightarrow> bool" where
  "told w \<longleftrightarrow> buffer_has_data_event (sloop w) \<or> length (write_buf (sloop w)) \<le> 1000 \<or>
     \<not> can_write (sloop w) \<or> sender_at w = Signalling"

definition room_inv :: "nat \<Rightarrow> nat \<Rightarrow> world \<Rightarrow> bool" where
  "room_inv len n w \<longleftrightarrow>
     in_order n w \<and> sender_len len (sender_at w) \<and>
     (worker_at w = Aborted \<longrightarrow> \<not> socket_open (sloop w)) \<and>
     (\<forall>d. worker_at w = Aborted \<and> sender_at w = Locking d \<longrightarrow> write_buf (sloop w) = []) \<and>
     (\<forall>d. sender_at w = AwaitingRoom d \<and> \<not> buffer_space_available_event (sloop w) \<longrightarrow>
        worker_at w \<noteq> Aborted \<and> length (write_buf (sloop w)) + length d > n) \<and>
     (worker_at w = Top \<or> worker_at w = Waiting \<longrightarrow> told w)"

lemma can_write_shutdown [simp]: "can_write (fatal_sock_shutdown s) = can_write s"
  by (simp add: fatal_sock_shutdown_def)

lemma worker_room:
  assumes "worker_step w w'" and "room_inv len n w"
  shows "room_inv len n w'"
proof -
  have ord: "in_order n w'" using worker_in_order [OF assms(1)] assms(2) by (simp add: room_inv_def)
  show ?thesis
    using assms ord
  proof (induction rule: worker_step.induct)
    case (socket w ev s ok)
    from socket(2) show ?case
    proof (cases rule: socket_event_cases)
      case on
      then show ?thesis using socket(1,3,4) by (auto simp: room_inv_def told_def woken_def)
    next
      case (off s1)
      then show ?thesis using socket(1,3,4) by (auto simp: room_inv_def told_def)
    qed
  next
    case (written w ret now s res)
    from written(3,2) show ?case
    proof (cases rule: write_data_cases)
      case empty
      then show ?thesis using written(1,4,5) by (simp add: room_inv_def told_def)
    next
      case (took k)
      then show ?thesis using written(1,4,5) by (simp add: room_inv_def told_def)
    next
      case later
      then show ?thesis using written(1,4,5) by (simp add: room_inv_def told_def)
    next
      case (off s1)
      then show ?thesis using written(1,4,5) by (simp add: room_inv_def told_def)
    qed
  qed (simp_all add: room_inv_def told_def woken_def)
qed

lemma sender_room:
  assumes "sender_step len w w'" and "room_inv len n w" and "len \<le> n"
  shows "room_inv len n w'"
proof -
  have ord: "in_order n w'" using sender_in_order [OF assms(1)] assms(2) by (simp add: room_inv_def)
  show ?thesis
    using assms ord
  proof (induction rule: sender_step.induct)
    case (full w d)
    then have "length (write_buf (sloop w)) + length d > n" and "length d \<le> len"
      by (auto simp: queue_pass_def room_inv_def in_order_def sender_len_def split: if_splits)
    then show ?case using full by (auto simp: room_inv_def told_def sender_len_def)
  next
    case (room w d s)
    then have "s = (sloop w)\<lparr>write_buf := write_buf (sloop w) @ d\<rparr>"
      by (simp add: queue_pass_def split: if_splits)
    then show ?case using room(1,3,5) by (simp add: room_inv_def told_def sender_len_def)
  qed (simp_all add: room_inv_def told_def sender_len_def in_order_def)
qed

lemma reached_room:
  assumes "reached len n low w" and "len \<le> n"
  shows "room_inv len n w"
  using assms
proof (induction rule: reached.induct)
  case (start space has_data)
  show ?case
    using start_in_order by (simp add: room_inv_def told_def sender_len_def) (simp add: world_start_def loop_start_def)
qed (auto intro: worker_room sender_room)

section \<open>Runs\<close>

text \<open>A world in which no time has passed and no error has been seen.\<close>

definition at :: "nat \<Rightarrow> bool \<Rightarrow> byte list \<Rightarrow> byte list \<Rightarrow> bool \<Rightarrow> bool \<Rightarrow> bool \<Rightarrow> bool \<Rightarrow> sender \<Rightarrow> worker \<Rightarrow> byte list \<Rightarrow> world" where
  "at n low buf out space has_data ex can sdr wrk q =
     \<lparr>sloop = \<lparr>write_buf = buf, write_buf_size = n, low_latency_mode = low, socket_open = True, last_error_code = 0,
        buffer_space_available_event = space, buffer_has_data_event = has_data, send_thread_signaled_exit = ex,
        can_write = can, last_send_time = 0, wire = out\<rparr>, sender_at = sdr, worker_at = wrk, queued = q\<rparr>"

lemma at_start: "reached len n low (at n low [] [] False False False False Outside Top [])"
  using reached.start [of len n low False False] by (simp add: at_def world_start_def loop_start_def)

lemma at_queue:
  assumes "reached len n low (at n low buf out sp da ex can Outside wrk q)"
    and "d \<noteq> []" and "length d \<le> len" and "length buf + length d \<le> n"
  shows "reached len n low (at n low (buf @ d) out sp True ex can Outside wrk (q @ d))"
proof -
  from reached.sender [OF assms(1) sender_step.call [of _ d]] assms(2,3)
  have "reached len n low (at n low buf out sp da ex can (Checking d) wrk q)" by (simp add: at_def)
  from reached.sender [OF this sender_step.connected [of _ d]]
  have "reached len n low (at n low buf out sp da ex can (Locking d) wrk q)" by (simp add: at_def)
  from reached.sender [OF this sender_step.room [of _ d]] assms(4)
  have "reached len n low (at n low (buf @ d) out sp da ex can Signalling wrk (q @ d))"
    by (simp add: at_def queue_pass_def)
  from reached.sender [OF this sender_step.signal] show ?thesis by (simp add: at_def)
qed

lemma at_exit:
  assumes "reached len n low (at n low buf out sp da ex can Outside wrk q)"
  shows "reached len n low (at n low buf out sp True True can Joining wrk q)"
proof -
  from reached.sender [OF assms sender_step.finish]
  have "reached len n low (at n low buf out sp da True can Exiting wrk q)" by (simp add: at_def)
  from reached.sender [OF this sender_step.exit_signal] show ?thesis by (simp add: at_def)
qed

lemma at_enter:
  assumes "reached len n low (at n low buf out sp da ex can sdr Top q)" and "buf \<noteq> [] \<or> \<not> ex"
  shows "reached len n low (at n low buf out sp da ex can sdr Waiting q)"
  using reached.worker [OF assms(1) worker_step.enter] assms(2) by (auto simp: at_def)

lemma at_data:
  assumes "reached len n low (at n low buf out sp True ex can sdr Waiting q)"
  shows "reached len n low (at n low buf out sp False ex can sdr (if can then Writing else Top) q)"
  using reached.worker [OF assms worker_step.data] by (simp add: at_def woken_def)

lemma at_ready:
  assumes "reached len n low (at n low buf out sp da ex can sdr Waiting q)"
  shows "reached len n low (at n low buf out sp da ex True sdr Writing q)"
  using reached.worker [OF assms worker_step.socket [of _ "Some \<lparr>fd_write = True, fd_close = False, fd_read = None\<rparr>"]]
  by (simp add: at_def woken_def socket_event_def)

lemma at_written:
  assumes "reached len n low (at n low buf out sp da ex can sdr Writing q)" and "buf \<noteq> []"
    and "k = (if low then min (n div 18) (length buf) else length buf)" and "0 < k"
  shows "reached len n low (at n low (drop k buf) (out @ take k buf) True da ex can sdr
    (if length buf - k \<le> 1000 then Top else Writing) q)"
proof -
  let ?w = "at n low buf out sp da ex can sdr Writing q"
  let ?s = "sloop (at n low (drop k buf) (out @ take k buf) True da ex can sdr Writing q)"
  let ?res = "if length buf - k \<le> 1000 then RET_BREAK else RET_CONTINUE"
  have k: "send_answer_ok (sloop ?w) (Took k)"
    using assms(2-4) by (simp add: at_def send_answer_ok_def send_len_def latency_packet_size_def LATENCY_FACTOR_def)
  have "write_data 0 (Took k) (sloop ?w) = (?s, ?res)"
    using assms(2) by (simp add: at_def write_data_def)
  from reached.worker [OF assms(1) worker_step.written [OF _ k this]] show ?thesis
    by (simp add: at_def split: if_splits)
qed

text \<open>
  Two pieces of 4000 bytes are queued before the socket is ready, and the stream ends. In the low
  latency mode the socket thread then sends one packet of 7281 bytes and leaves its inner loop, as
  fewer than 1000 bytes are left. It has been told of the data before and the socket has said it is
  ready: nothing wakes it again, and the send thread waits for its end for ever.
\<close>

lemma exit_hangs:
  "\<exists>w. reached 4096 131072 True w \<and> worker_at w = Waiting \<and> sender_at w = Joining \<and>
     send_thread_signaled_exit (sloop w) \<and> \<not> buffer_has_data_event (sloop w) \<and> can_write (sloop w) \<and>
     length (write_buf (sloop w)) = 719"
proof -
  let ?d = "replicate 4000 (0 :: byte)"
  have len: "?d \<noteq> []" "length ?d = 4000" by simp_all
  from at_queue [OF at_start [of 4096 131072 True] len(1)]
  have "reached 4096 131072 True (at 131072 True ?d [] False True False False Outside Top ?d)" by simp
  from at_queue [OF this len(1)]
  have "reached 4096 131072 True (at 131072 True (?d @ ?d) [] False True False False Outside Top (?d @ ?d))" by simp
  from at_enter [OF at_exit [OF this]] len(1)
  have "reached 4096 131072 True (at 131072 True (?d @ ?d) [] False True True False Joining Waiting (?d @ ?d))" by simp
  from at_enter [OF at_data [OF this, simplified]] len(1)
  have "reached 4096 131072 True (at 131072 True (?d @ ?d) [] False False True False Joining Waiting (?d @ ?d))" by simp
  from at_written [OF at_ready [OF this], of 7281] len(1)
  have "reached 4096 131072 True (at 131072 True (drop 7281 (?d @ ?d)) (take 7281 (?d @ ?d)) True False True True Joining Top (?d @ ?d))"
    by simp
  from at_enter [OF this]
  have "reached 4096 131072 True (at 131072 True (drop 7281 (?d @ ?d)) (take 7281 (?d @ ?d)) True False True True Joining Waiting (?d @ ?d))"
    by simp
  then show ?thesis by (intro exI conjI, assumption) (simp_all add: at_def)
qed

text \<open>
  The socket thread gives up between the check of the connection and the mutex: what is queued then
  stays in the buffer. Nothing empties the buffer before the next stream, which sends it first.
\<close>

lemma bytes_left_behind:
  "\<exists>w. reached 4096 131072 False w \<and> worker_at w = Aborted \<and> sender_at w = Outside \<and>
     write_buf (sloop w) = [7]"
proof -
  from reached.sender [OF at_start [of 4096 131072 False] sender_step.call [of _ "[7]"]]
  have "reached 4096 131072 False (at 131072 False [] [] False False False False (Checking [7]) Top [])"
    by (simp add: at_def)
  from reached.sender [OF this sender_step.connected [of _ "[7]"]]
  have "reached 4096 131072 False (at 131072 False [] [] False False False False (Locking [7]) Top [])"
    by (simp add: at_def)
  note stopped = reached.worker [OF at_enter [OF this, simplified] worker_step.wait_failed]
  from reached.sender [OF stopped sender_step.room [of _ "[7]"]]
  have "reached 4096 131072 False ((at 131072 False [] [] False False False False Signalling Aborted [7])
      \<lparr>sloop := (fatal_sock_shutdown (sloop (at 131072 False [] [] False False False False Outside Top [])))\<lparr>write_buf := [7]\<rparr>\<rparr>)"
    by (simp add: at_def queue_pass_def fatal_sock_shutdown_def)
  from reached.sender [OF this sender_step.signal]
  have "reached 4096 131072 False ((at 131072 False [] [] False False False False Outside Aborted [7])
      \<lparr>sloop := (fatal_sock_shutdown (sloop (at 131072 False [] [] False False False False Outside Top [])))
        \<lparr>write_buf := [7], buffer_has_data_event := True\<rparr>\<rparr>)"
    by (simp add: at_def)
  then show ?thesis by (intro exI conjI, assumption) (simp_all add: at_def)
qed

text \<open>A stream of one byte that ends well, and a send thread that waits for room.\<close>

lemma ended_reached:
  "reached 4096 131072 False (at 131072 False [] [7] True True False True Joining Ended [7])"
proof -
  from at_queue [OF at_start, of "[7]" 4096 131072 False]
  have "reached 4096 131072 False (at 131072 False [7] [] False True False False Outside Top [7])" by simp
  from at_written [OF at_ready [OF at_enter [OF this]], of 1]
  have "reached 4096 131072 False (at 131072 False [] [7] True True False True Outside Top [7])" by simp
  from reached.worker [OF at_exit [OF this] worker_step.leave] show ?thesis by (simp add: at_def)
qed

lemma awaiting_reached:
  "reached 1000 2000 False (at 2000 False (replicate 2000 0) [] False True False False
     (AwaitingRoom (replicate 1000 0)) Waiting (replicate 2000 0))"
proof -
  let ?d = "replicate 1000 (0 :: byte)" and ?dd = "replicate 2000 (0 :: byte)"
  have d: "?d \<noteq> []" "length ?d = 1000" and dd: "?d @ ?d = ?dd" by (simp_all flip: replicate_add)
  from at_queue [OF at_start [of 1000 2000 False] d(1)]
  have "reached 1000 2000 False (at 2000 False ?d [] False True False False Outside Top ?d)" by simp
  from at_queue [OF this d(1)]
  have "reached 1000 2000 False (at 2000 False ?dd [] False True False False Outside Top ?dd)" by (simp add: dd)
  from reached.sender [OF at_enter [OF this] sender_step.call [of _ ?d]]
  have "reached 1000 2000 False (at 2000 False ?dd [] False True False False (Checking ?d) Waiting ?dd)"
    using d by (simp add: at_def)
  from reached.sender [OF this sender_step.connected [of _ ?d]]
  have "reached 1000 2000 False (at 2000 False ?dd [] False True False False (Locking ?d) Waiting ?dd)"
    by (simp add: at_def)
  from reached.sender [OF this sender_step.full [of _ ?d]] show ?thesis by (simp add: at_def queue_pass_def)
qed

section \<open>The contract\<close>

text \<open>C32: However the send thread, the socket thread and the network interleave, the bytes the socket has
  taken are the first bytes queued, in order, the write buffer never holds more than its size, and when
  the socket thread ends at the end of a stream every queued byte has been taken.\<close>

theorem queued_bytes_in_order:
  assumes "reached len n low w"
  shows "prefix (wire (sloop w)) (queued w) \<and> length (write_buf (sloop w)) \<le> n \<and>
    (worker_at w = Ended \<longrightarrow> wire (sloop w) = queued w)"
  using reached_in_order [OF assms] by (auto simp: in_order_def)

lemma queued_bytes_in_order_witness: "wire (sloop (at 131072 False [] [7] True True False True Joining Ended [7])) = [7]"
  using queued_bytes_in_order [OF ended_reached] by (simp add: at_def)



end
