(* ===== verification/Rtmp_Send.thy ===== *)
theory Rtmp_Send
  imports Rtmp_Queue Rtmp_Client
begin

text \<open>
  The sending half of \<open>src/rtmp/rtmp-stream.c\<close>: headers, media and footers as FLV tags over the
  connection, and the send thread, one turn of its loop and its end. \<open>None\<close> is a call that never
  returns. What libobs knows about encoders and outputs is a record of functions; the clock is an
  argument. Logging and the text of error messages are left out.
\<close>

section \<open>The surroundings\<close>

datatype video_format = VIDEO_FORMAT_I010 | VIDEO_FORMAT_P010 | VIDEO_FORMAT_I210 | VIDEO_FORMAT_I412
  | VIDEO_FORMAT_YA2L | VIDEO_FORMAT_OTHER

datatype video_colorspace = VIDEO_CS_DEFAULT | VIDEO_CS_601 | VIDEO_CS_709 | VIDEO_CS_SRGB
  | VIDEO_CS_2100_PQ | VIDEO_CS_2100_HLG

datatype output_code = OBS_OUTPUT_SUCCESS | OBS_OUTPUT_BAD_PATH | OBS_OUTPUT_CONNECT_FAILED
  | OBS_OUTPUT_INVALID_STREAM | OBS_OUTPUT_ERROR | OBS_OUTPUT_DISCONNECTED | OBS_OUTPUT_ENCODE_ERROR
  | OBS_OUTPUT_HDR_DISABLED

text \<open>
  An encoder: its codec, its extra data, the colour space of its video, and the bitrate of its
  settings, \<open>None\<close> where there are none. \<open>oe_queue\<close> is the connection with the new socket loop in
  between, \<open>oe_readable\<close> whether bytes have come in.
\<close>

record encoder_info =
  en_codec :: string
  en_extra :: "byte list option"
  en_space :: "video_colorspace option"
  en_bitrate :: "int option"

record 'c output_env =
  oe_ops :: "'c net_ops"
  oe_queue :: "'c net_ops"
  oe_readable :: "'c \<Rightarrow> bool"
  oe_ser :: serializer
  oe_info :: output_info
  oe_video :: "nat \<Rightarrow> encoder_info option"
  oe_audio :: "nat \<Rightarrow> encoder_info option"
  oe_max_video :: nat
  oe_max_audio :: nat
  oe_avc_header :: "byte list \<Rightarrow> byte list"
  oe_hevc_header :: "byte list \<Rightarrow> byte list"
  oe_av1_header :: "byte list \<Rightarrow> byte list"
  oe_format :: video_format
  oe_space :: video_colorspace
  oe_hdr_peak :: int

text \<open>Ways in which the code leaves what C defines, or in which a message handler does not come back.\<close>

datatype fault = BodyOverflow | InputOverread | UnsetPointer | NullHost | KeyUnderread | Handler handled

type_synonym 'a outcome = "(fault + 'a) option"

definition and_then :: "'a outcome \<Rightarrow> ('a \<Rightarrow> 'b outcome) \<Rightarrow> 'b outcome" where
  "and_then m f = Option.bind m (\<lambda>x. case x of Inl e \<Rightarrow> Some (Inl e) | Inr a \<Rightarrow> f a)"

definition returns :: "'a \<Rightarrow> 'a outcome" where
  "returns a = Some (Inr a)"

lemma and_then_simps [simp]:
  "and_then (Some (Inr a)) f = f a" "and_then (returns a) f = f a" "and_then (Some (Inl e)) f = Some (Inl e)"
  "and_then None f = None"
  by (simp_all add: and_then_def returns_def)

type_synonym 'c out_stream = "'c rtmp rtmp_stream"

section \<open>Reading and writing\<close>

definition ops_of :: "'c output_env \<Rightarrow> 'c out_stream \<Rightarrow> 'c net_ops" where
  "ops_of env s = (if custom_send s then oe_queue env else oe_ops env)"

text \<open>A message of the server is read and thrown away; half of one keeps its channel waiting.\<close>

definition process_recv_data :: "'c output_env \<Rightarrow> 'c out_stream \<Rightarrow> ('c out_stream \<times> bool) outcome" where
  "process_recv_data env s =
     Option.bind (RTMP_ReadPacket (ops_of env s) (conn s) packet_zero) (\<lambda>(r, res).
       case res of
         ReadOk p \<Rightarrow> returns (s\<lparr>conn := r\<rparr>, True)
       | ReadFailed \<Rightarrow> returns (s\<lparr>conn := r\<rparr>, False)
       | ReadOverflow \<Rightarrow> Some (Inl BodyOverflow))"

definition handle_socket_read :: "'c output_env \<Rightarrow> 'c out_stream \<Rightarrow> ('c out_stream \<times> bool) outcome" where
  "handle_socket_read env s =
     (if \<not> new_socket_loop s \<and> oe_readable env (net (conn s)) then process_recv_data env s
      else returns (s, True))"

definition stream_write :: "'c output_env \<Rightarrow> 'c out_stream \<Rightarrow> byte list \<Rightarrow> ('c out_stream \<times> int) outcome" where
  "stream_write env s data =
     Option.bind (RTMP_Write (ops_of env s) (conn s) data 0) (\<lambda>(r, res).
       case res of None \<Rightarrow> Some (Inl InputOverread) | Some n \<Rightarrow> returns (s\<lparr>conn := r\<rparr>, n))"

text \<open>The result of a send and the packets released. A failed read leaves the packet unreleased.\<close>

type_synonym 'c sent_result = "('c out_stream \<times> int \<times> encoder_packet list) outcome"

definition send_data ::
  "'c output_env \<Rightarrow> 'c out_stream \<Rightarrow> byte list option \<Rightarrow> bool \<Rightarrow> encoder_packet list \<Rightarrow> 'c sent_result" where
  "send_data env s data counted released =
     (case data of
        None \<Rightarrow> Some (Inl UnsetPointer)
      | Some bs \<Rightarrow>
          and_then (stream_write env s bs) (\<lambda>(s1, ret).
            returns (if counted then s1\<lparr>total_bytes_sent := total_bytes_sent s1 + of_nat (length bs)\<rparr> else s1,
                     ret, released)))"

definition after_read ::
  "'c output_env \<Rightarrow> 'c out_stream \<Rightarrow> ('c out_stream \<Rightarrow> 'c sent_result) \<Rightarrow> 'c sent_result" where
  "after_read env s f =
     and_then (handle_socket_read env s) (\<lambda>(s1, ok). if ok then f s1 else returns (s1, - 1, []))"

definition send_packet :: "'c output_env \<Rightarrow> 'c out_stream \<Rightarrow> encoder_packet \<Rightarrow> bool \<Rightarrow> 'c sent_result" where
  "send_packet env s p is_header =
     after_read env s (\<lambda>s1.
       send_data env s1
         (Some (flv_packet_mux (oe_ser env) p (if is_header then 0 else start_dts_offset s1) is_header))
         True (if is_header then [] else [p]))"

definition send_packet_ex ::
  "'c output_env \<Rightarrow> 'c out_stream \<Rightarrow> encoder_packet \<Rightarrow> bool \<Rightarrow> bool \<Rightarrow> nat \<Rightarrow> 'c sent_result" where
  "send_packet_ex env s p is_header is_footer idx =
     after_read env s (\<lambda>s1.
       send_data env s1
         (Some (if is_header then flv_packet_start (oe_ser env) p (video_codec s1 idx) idx
                else if is_footer then flv_packet_end (oe_ser env) p (video_codec s1 idx) idx
                else flv_packet_frames (oe_ser env) p (video_codec s1 idx) (start_dts_offset s1) idx))
         True (if is_header \<or> is_footer then [] else [p]))"

definition send_audio_packet_ex ::
  "'c output_env \<Rightarrow> 'c out_stream \<Rightarrow> encoder_packet \<Rightarrow> bool \<Rightarrow> nat \<Rightarrow> 'c sent_result" where
  "send_audio_packet_ex env s p is_header idx =
     after_read env s (\<lambda>s1.
       send_data env s1
         (if is_header then flv_packet_audio_start (oe_ser env) p (audio_codec s1 idx) idx
          else flv_packet_audio_frames (oe_ser env) p (audio_codec s1 idx) (start_dts_offset s1) idx)
         False (if is_header then [] else [p]))"

section \<open>Headers and footers\<close>

definition header_packet :: "obs_encoder_type \<Rightarrow> bool \<Rightarrow> byte list \<Rightarrow> encoder_packet" where
  "header_packet ty key data =
     \<lparr>pkt_data = data, pts = 0, dts = 0, timebase_num = 0, timebase_den = 1, enc_type = ty, keyframe = key,
      dts_usec = 0, sys_dts_usec = 0, priority = 0, drop_priority = 0, track_idx = 0\<rparr>"

definition went_out :: "'c sent_result \<Rightarrow> ('c out_stream \<times> bool) outcome" where
  "went_out m = and_then m (\<lambda>(s, ret, _). returns (s, ret \<ge> 0))"

definition send_meta_data :: "'c output_env \<Rightarrow> 'c out_stream \<Rightarrow> ('c out_stream \<times> bool) outcome" where
  "send_meta_data env s =
     (case flv_meta_data (oe_ser env) (oe_info env) False of
        None \<Rightarrow> Some (Inl UnsetPointer)
      | Some meta \<Rightarrow> and_then (stream_write env s meta) (\<lambda>(s1, ret). returns (s1, ret \<ge> 0)))"

text \<open>The result, and whether there may be another track.\<close>

definition send_audio_header ::
  "'c output_env \<Rightarrow> 'c out_stream \<Rightarrow> nat \<Rightarrow> bool \<Rightarrow> ('c out_stream \<times> bool \<times> bool) outcome" where
  "send_audio_header env s idx nxt =
     (case oe_audio env idx of
        None \<Rightarrow> returns (s, True, False)
      | Some enc \<Rightarrow>
          (case en_extra enc of
             None \<Rightarrow> returns (s, False, nxt)
           | Some header \<Rightarrow>
               let p = header_packet OBS_ENCODER_AUDIO False header
               in and_then (went_out (if idx = 0 then send_packet env s p True
                                      else send_audio_packet_ex env s p True idx)) (\<lambda>(s1, ok).
                    returns (s1, ok, nxt))))"

definition send_video_header :: "'c output_env \<Rightarrow> 'c out_stream \<Rightarrow> nat \<Rightarrow> ('c out_stream \<times> bool) outcome" where
  "send_video_header env s idx =
     (case Option.bind (oe_video env idx) en_extra of
        None \<Rightarrow> returns (s, False)
      | Some header \<Rightarrow>
          let pkt = header_packet OBS_ENCODER_VIDEO True
          in case video_codec s idx of
               CODEC_NONE \<Rightarrow> returns (s, False)
             | CODEC_H264 \<Rightarrow>
                 went_out (if idx = 0 then send_packet env s (pkt (oe_avc_header env header)) True
                           else send_packet_ex env s (pkt (oe_avc_header env header)) True False idx)
             | CODEC_HEVC \<Rightarrow> went_out (send_packet_ex env s (pkt (oe_hevc_header env header)) True False idx)
             | CODEC_AV1 \<Rightarrow> went_out (send_packet_ex env s (pkt (oe_av1_header env header)) True False idx))"

definition bits_per_sample :: "video_format \<Rightarrow> int" where
  "bits_per_sample f =
     (if f \<in> {VIDEO_FORMAT_I010, VIDEO_FORMAT_P010, VIDEO_FORMAT_I210} then 10
      else if f \<in> {VIDEO_FORMAT_I412, VIDEO_FORMAT_YA2L} then 12 else 8)"

text \<open>Primaries, transfer characteristic and matrix of a colour space, as numbers of H.273.\<close>

fun color_numbers :: "video_colorspace \<Rightarrow> byte \<times> int \<times> int" where
  "color_numbers VIDEO_CS_601 = (6, 6, 6)"
| "color_numbers VIDEO_CS_DEFAULT = (1, 1, 1)"
| "color_numbers VIDEO_CS_709 = (1, 1, 1)"
| "color_numbers VIDEO_CS_SRGB = (1, 13, 1)"
| "color_numbers VIDEO_CS_2100_PQ = (9, 16, 9)"
| "color_numbers VIDEO_CS_2100_HLG = (9, 18, 9)"

definition max_luminance :: "'c output_env \<Rightarrow> int \<Rightarrow> int" where
  "max_luminance env trc = (if trc = 18 then 1000 else if trc = 16 then oe_hdr_peak env else 0)"

definition is_hdr :: "video_colorspace \<Rightarrow> bool" where
  "is_hdr cs \<longleftrightarrow> cs = VIDEO_CS_2100_PQ \<or> cs = VIDEO_CS_2100_HLG"

definition send_video_metadata :: "'c output_env \<Rightarrow> 'c out_stream \<Rightarrow> nat \<Rightarrow> ('c out_stream \<times> bool) outcome" where
  "send_video_metadata env s idx =
     (case Option.bind (oe_video env idx) en_space of
        None \<Rightarrow> returns (s, False)
      | Some cs \<Rightarrow>
          if \<not> is_hdr cs then returns (s, True)
          else and_then (handle_socket_read env s) (\<lambda>(s1, ok).
            if \<not> ok then returns (s1, False)
            else if video_codec s1 idx = CODEC_H264 then returns (s1, True)
            else case color_numbers (oe_space env) of (pri, trc, spc) \<Rightarrow>
              let meta = flv_packet_metadata (oe_ser env) (video_codec s1 idx) (bits_per_sample (oe_format env))
                    pri trc spc 0 (max_luminance env trc) idx
              in and_then (stream_write env s1 meta) (\<lambda>(s2, ret).
                   returns (s2\<lparr>total_bytes_sent := total_bytes_sent s2 + of_nat (length meta)\<rparr>, ret \<ge> 0))))"

definition send_video_footer :: "'c output_env \<Rightarrow> 'c out_stream \<Rightarrow> nat \<Rightarrow> ('c out_stream \<times> bool) outcome" where
  "send_video_footer env s idx =
     went_out (send_packet_ex env s (header_packet OBS_ENCODER_VIDEO False []) False True idx)"

text \<open>The loop over the video tracks from \<open>j\<close> on.\<close>

fun video_headers :: "'c output_env \<Rightarrow> nat \<Rightarrow> nat \<Rightarrow> 'c out_stream \<Rightarrow> ('c out_stream \<times> bool) outcome" where
  "video_headers env 0 j s = returns (s, True)"
| "video_headers env (Suc k) j s =
     (if oe_video env j = None then video_headers env k (Suc j) s
      else and_then (send_video_metadata env s j) (\<lambda>(s1, ok1).
        if \<not> ok1 then returns (s1, False)
        else and_then (send_video_header env s1 j) (\<lambda>(s2, ok2).
          if \<not> ok2 then returns (s2, False) else video_headers env k (Suc j) s2)))"

partial_function (option) audio_headers ::
  "'c output_env \<Rightarrow> nat \<Rightarrow> bool \<Rightarrow> 'c out_stream \<Rightarrow> (fault + 'c out_stream \<times> bool) option" where
  "audio_headers env i nxt s =
     (if \<not> nxt then returns (s, True)
      else Option.bind (send_audio_header env s i nxt) (\<lambda>x.
        case x of Inl e \<Rightarrow> Some (Inl e)
        | Inr (s1, ok, nxt1) \<Rightarrow> if \<not> ok then returns (s1, False) else audio_headers env (Suc i) nxt1 s1))"

definition send_headers :: "'c output_env \<Rightarrow> 'c out_stream \<Rightarrow> ('c out_stream \<times> bool) outcome" where
  "send_headers env s =
     and_then (send_audio_header env (s\<lparr>sent_headers := True\<rparr>) 0 True) (\<lambda>(s1, ok, nxt).
       if \<not> ok then returns (s1, False)
       else and_then (video_headers env (oe_max_video env) 0 s1) (\<lambda>(s2, ok2).
         if \<not> ok2 then returns (s2, False) else audio_headers env 1 nxt s2))"

fun footers_from :: "'c output_env \<Rightarrow> nat \<Rightarrow> nat \<Rightarrow> 'c out_stream \<Rightarrow> ('c out_stream \<times> bool) outcome" where
  "footers_from env 0 i s = returns (s, True)"
| "footers_from env (Suc k) i s =
     (if oe_video env i = None \<or> (i = 0 \<and> video_codec s i = CODEC_H264) then footers_from env k (Suc i) s
      else and_then (send_video_footer env s i) (\<lambda>(s1, ok).
        if \<not> ok then returns (s1, False) else footers_from env k (Suc i) s1))"

definition send_footers :: "'c output_env \<Rightarrow> 'c out_stream \<Rightarrow> ('c out_stream \<times> bool) outcome" where
  "send_footers env s = footers_from env (oe_max_video env) 0 s"

section \<open>The send thread\<close>

definition can_shutdown_stream :: "u64 \<Rightarrow> 'c rtmp_stream \<Rightarrow> encoder_packet \<Rightarrow> bool" where
  "can_shutdown_stream now s p \<longleftrightarrow> now \<ge> shutdown_timeout_ts s \<or> sys_dts_usec p \<ge> sint (stop_ts s)"

definition send_media :: "'c output_env \<Rightarrow> 'c out_stream \<Rightarrow> encoder_packet \<Rightarrow> 'c sent_result" where
  "send_media env s p =
     (let idx = track_idx p; codec = video_codec s idx
      in if enc_type p = OBS_ENCODER_VIDEO \<and> (codec \<noteq> CODEC_H264 \<or> codec = CODEC_H264 \<and> idx \<noteq> 0)
         then send_packet_ex env s p False False idx
         else if enc_type p = OBS_ENCODER_AUDIO \<and> idx \<noteq> 0 then send_audio_packet_ex env s p False idx
         else send_packet env s p False)"

text \<open>
  One turn after the semaphore: \<open>Goes_on\<close> or the end of the loop, and the packets released. The three
  times are those of the look at the timeout and before and after the sending.
\<close>

datatype turn = Goes_on | Loop_ends

definition send_turn ::
  "'c output_env \<Rightarrow> u64 \<times> u64 \<times> u64 \<Rightarrow> 'c out_stream \<Rightarrow> ('c out_stream \<times> turn \<times> encoder_packet list) outcome" where
  "send_turn env clk s =
     (case clk of (now, beg, fin) \<Rightarrow>
        if stopping s \<and> stop_ts s = 0 then returns (s, Loop_ends, [])
        else case get_next_packet s of
          None \<Rightarrow> returns (s, Goes_on, [])
        | Some (s1, p) \<Rightarrow>
            if stopping s1 \<and> can_shutdown_stream now s1 p then returns (s1, Loop_ends, [p])
            else and_then (if sent_headers s1 then returns (s1, True) else send_headers env s1) (\<lambda>(s2, ok).
              if \<not> ok then returns (s2\<lparr>disconnected := True\<rparr>, Loop_ends, [])
              else and_then (send_media env s2 p) (\<lambda>(s3, ret, released).
                if ret < 0 then returns (s3\<lparr>disconnected := True\<rparr>, Loop_ends, released)
                else returns
                  (if dbr_enabled s3
                   then dbr_add_frame \<lparr>send_beg = beg, send_end = fin, fr_size = of_nat (length (pkt_data p))\<rparr> s3
                   else s3, Goes_on, released))))"

text \<open>What OBS is told at the end, the packets released, and the bitrate handed to the encoder, if any.\<close>

datatype end_notice = Signal_stop output_code | End_data_capture

definition end_dbr :: "'c rtmp_stream \<Rightarrow> 'c rtmp_stream \<times> int list" where
  "end_dbr s =
     (if dbr_enabled s \<and> dbr_cur_bitrate s \<noteq> dbr_orig_bitrate s
      then (s\<lparr>dbr_cur_bitrate := dbr_orig_bitrate s\<rparr>, [dbr_orig_bitrate s]) else (s, []))"

definition end_of_thread ::
  "'c rtmp_stream \<Rightarrow> bool \<Rightarrow> 'c rtmp_stream \<times> end_notice \<times> encoder_packet list \<times> int list" where
  "end_of_thread s error =
     (let (s1, bitrates) = end_dbr s;
          notice = (if \<not> stopping s1 then Signal_stop OBS_OUTPUT_DISCONNECTED
                    else if error then Signal_stop OBS_OUTPUT_ENCODE_ERROR else End_data_capture);
          (s2, released) = free_packets s1
      in (s2\<lparr>stopping := False, active_s := False, sent_headers := False\<rparr>, notice, released, bitrates))"

definition send_end ::
  "'c output_env \<Rightarrow> 'c out_stream \<Rightarrow> ('c out_stream \<times> end_notice \<times> encoder_packet list \<times> int list) outcome" where
  "send_end env s =
     (let error = encode_error s
      in and_then (if disconnected s then returns (s, True) else send_footers env s) (\<lambda>(s1, _).
         let s2 = (if new_socket_loop s1 then s1\<lparr>custom_send := False\<rparr> else s1)
         in Option.bind (RTMP_Close (oe_ops env) (conn s2)) (\<lambda>r.
              returns (end_of_thread (s2\<lparr>conn := r\<rparr>) error))))"

end
