(* ===== verification/Rtmp_Output.thy ===== *)
theory Rtmp_Output
  imports Rtmp_Send
begin

text \<open>
  The life of an output in \<open>src/rtmp/rtmp-stream.c\<close>: settings, connection, the start of the send
  thread, stop, and what OBS asks of it. Its delay is in \<open>Control\<close>. Waiting for a thread to end is an
  assumption on the order of the calls.
\<close>

section \<open>Settings\<close>

text \<open>The settings of the output; \<open>os_service\<close> is the address and the key, \<open>None\<close> without a service.\<close>

record output_settings =
  os_service :: "(byte list \<times> byte list) option"
  os_drop_threshold :: int
  os_pframe_drop_threshold :: int
  os_max_shutdown :: int
  os_dyn_bitrate :: bool
  os_bind_ip :: "byte list"
  os_ip_family :: "string option"
  os_new_socket_loop :: bool
  os_low_latency :: bool
  os_video_bitrate :: int
  os_audio_bitrate :: int
  os_caps_dyn_bitrate :: bool
  os_delayed :: bool
  os_depad :: "byte list \<Rightarrow> byte list"

definition ip_hint :: "string \<Rightarrow> nat" where
  "ip_hint family = (if family = ''IPv6'' then 28 else if family = ''IPv4'' then 16 else 0)"

definition starts_with :: "byte list \<Rightarrow> string \<Rightarrow> bool" where
  "starts_with bs pre \<longleftrightarrow> take (length pre) bs = bytes_of pre"

definition init_codecs :: "'c output_env \<Rightarrow> 'c out_stream \<Rightarrow> 'c out_stream" where
  "init_codecs env s =
     s\<lparr>audio_codec := (\<lambda>i. if i < oe_max_audio env
          then (case oe_audio env i of Some e \<Rightarrow> to_audio_type (en_codec e) | None \<Rightarrow> audio_codec s i)
          else audio_codec s i),
       video_codec := (\<lambda>i. if i < oe_max_video env
          then (case oe_video env i of Some e \<Rightarrow> to_video_type (en_codec e) | None \<Rightarrow> video_codec s i)
          else video_codec s i)\<rparr>"

definition init_dbr :: "output_settings \<Rightarrow> 'c out_stream \<Rightarrow> 'c out_stream" where
  "init_dbr os s =
     (let orig = as_i32 (os_video_bitrate os)
      in s\<lparr>dbr_frames := [], audio_bitrate := as_i32 (os_audio_bitrate os), dbr_data_size := 0,
           dbr_orig_bitrate := orig, dbr_cur_bitrate := orig, dbr_est_bitrate := 0,
           dbr_inc_step := c_div orig 10, dbr_inc_timeout := 0,
           dbr_enabled := os_dyn_bitrate os \<and> os_caps_dyn_bitrate os \<and> \<not> os_delayed os\<rparr>)"

definition init_thresholds :: "output_settings \<Rightarrow> 'c out_stream \<Rightarrow> 'c out_stream" where
  "init_thresholds os s =
     (let drop_b = os_drop_threshold os;
          drop_p = (if os_pframe_drop_threshold os < drop_b + 200 then drop_b + 200
                    else os_pframe_drop_threshold os)
      in s\<lparr>drop_threshold_usec := 1000 * drop_b, pframe_drop_threshold_usec := 1000 * drop_p\<rparr>)"

definition init_network :: "output_settings \<Rightarrow> 'c out_stream \<Rightarrow> 'c out_stream" where
  "init_network os s =
     s\<lparr>stream_bind_ip := os_bind_ip os,
       addrlen_hint := (case os_ip_family os of
          Some f \<Rightarrow> if length f = 4 then ip_hint f else addrlen_hint s | None \<Rightarrow> addrlen_hint s),
       new_socket_loop := os_new_socket_loop os \<and> \<not> starts_with (stream_path s) ''rtmps://'',
       low_latency := os_low_latency os\<rparr>"

text \<open>The packets released, and whether there is a service.\<close>

definition init_connect ::
  "'c output_env \<Rightarrow> output_settings \<Rightarrow> 'c out_stream \<Rightarrow> 'c out_stream \<times> bool \<times> encoder_packet list" where
  "init_connect env os s0 =
     (let (s, released) = free_packets s0
      in case os_service os of
           None \<Rightarrow> (s, False, released)
         | Some (address, k) \<Rightarrow>
             let s1 = s\<lparr>disconnected := False, encode_error := False, total_bytes_sent := 0, dropped_frames := 0,
                        min_priority := 0, got_first_packet := False, stream_path := os_depad os address,
                        stream_key := os_depad os k, max_shutdown_time_sec := as_i32 (os_max_shutdown os)\<rparr>
             in (init_network os (init_thresholds os (init_dbr os (init_codecs env s1))), True, released))"

section \<open>The send thread is started\<close>

text \<open>What the system grants: the send thread, the non-blocking socket and the socket thread.\<close>

record grants =
  gr_send_thread :: bool
  gr_nonblocking :: bool
  gr_socket_thread :: bool

definition reset_semaphore :: "'c rtmp_stream \<Rightarrow> 'c rtmp_stream" where
  "reset_semaphore s = s\<lparr>sem_count := 0\<rparr>"

text \<open>The bitrates of the video tracks; a track without one disables the low latency mode.\<close>

fun video_bitrates :: "'c output_env \<Rightarrow> nat \<Rightarrow> nat \<Rightarrow> int \<times> bool" where
  "video_bitrates env 0 i = (0, False)"
| "video_bitrates env (Suc k) i =
     (let (total, missing) = video_bitrates env k (Suc i)
      in case Option.bind (oe_video env i) en_bitrate of
           None \<Rightarrow> (total, missing)
         | Some b \<Rightarrow> if b = 0 then (total + 10000, True) else (total + b, missing))"

text \<open>The code asks for the first audio encoder every time.\<close>

definition audio_bitrates :: "'c output_env \<Rightarrow> int" where
  "audio_bitrates env =
     (case Option.bind (oe_audio env 0) en_bitrate of
        None \<Rightarrow> 0
      | Some b \<Rightarrow> int (oe_max_audio env) * (if b = 0 then 160 else b))"

definition init_write_buf :: "'c output_env \<Rightarrow> 'c out_stream \<Rightarrow> 'c out_stream" where
  "init_write_buf env s =
     (let (video, missing) = video_bitrates env (oe_max_video env) 0;
          ideal = as_i32 ((video + audio_bitrates env) * 128)
      in s\<lparr>low_latency := low_latency s \<and> \<not> missing,
           write_room := (if ideal < 131072 then 131072 else ideal)\<rparr>)"

definition close_conn :: "'c output_env \<Rightarrow> 'c out_stream \<Rightarrow> 'c out_stream outcome" where
  "close_conn env s = Option.bind (RTMP_Close (oe_ops env) (conn s)) (\<lambda>r. returns (s\<lparr>conn := r\<rparr>))"

definition init_socket_loop ::
  "'c output_env \<Rightarrow> grants \<Rightarrow> 'c out_stream \<Rightarrow> ('c out_stream \<times> bool) outcome" where
  "init_socket_loop env gr s =
     (if \<not> new_socket_loop s then returns (s, True)
      else if \<not> gr_nonblocking gr then returns (s, False)
      else
        let s1 = init_write_buf env s
        in if gr_socket_thread gr then returns (s1\<lparr>custom_send := True\<rparr>, True)
           else and_then (close_conn env s1) (\<lambda>s2. returns (s2, False)))"

definition init_send :: "'c output_env \<Rightarrow> grants \<Rightarrow> 'c out_stream \<Rightarrow> ('c out_stream \<times> output_code) outcome" where
  "init_send env gr s0 =
     (let s = reset_semaphore s0
      in if \<not> gr_send_thread gr then and_then (close_conn env s) (\<lambda>s1. returns (s1, OBS_OUTPUT_ERROR))
         else and_then (init_socket_loop env gr s) (\<lambda>(s1, ok).
           if \<not> ok then returns (s1, OBS_OUTPUT_ERROR)
           else and_then (send_meta_data env (s1\<lparr>active_s := True\<rparr>)) (\<lambda>(s2, sent).
             returns (s2, if sent then OBS_OUTPUT_SUCCESS else OBS_OUTPUT_DISCONNECTED))))"

section \<open>Connecting\<close>

text \<open>
  \<open>ce_connect\<close> is the outcome of \<open>happy-eyeballs.c\<close> for the local address and the address family asked
  for; \<open>ce_now\<close> and \<open>ce_random\<close> go into the handshake, \<open>ce_junk\<close> is an unset byte.
\<close>

record 'c connect_env =
  ce_connect :: "byte list \<Rightarrow> nat \<Rightarrow> byte list \<Rightarrow> nat \<Rightarrow> int + 'c"
  ce_now :: u32
  ce_random :: "byte list"
  ce_junk :: byte
  ce_amf :: amf_env
  ce_net :: 'c

definition encoder_name :: "byte list" where
  "encoder_name = bytes_of ''FMLE/3.0 (compatible; FMSc/1.0)''"

definition RTMP_EnableWrite :: "'c rtmp \<Rightarrow> 'c rtmp" where
  "RTMP_EnableWrite r = r\<lparr>lnk_write := True\<rparr>"

definition connect_stream ::
  "'c connect_env \<Rightarrow> 'c output_env \<Rightarrow> 'c rtmp \<Rightarrow> ('c rtmp \<times> bool) outcome" where
  "connect_stream ce env r =
     Option.bind (RTMP_ConnectStream (ce_amf ce) (oe_ops env) r) (\<lambda>(r1, fin).
       case fin of
         LoopDone ok \<Rightarrow> returns (r1, ok)
       | LoopOverflow \<Rightarrow> Some (Inl BodyOverflow)
       | LoopStopped h \<Rightarrow> Some (Inl (Handler h)))"

text \<open>The connection before \<open>RTMP_Connect\<close>; \<open>None\<close> where the key is read before its start.\<close>

definition prepared :: "'c connect_env \<Rightarrow> 'c out_stream \<Rightarrow> 'c rtmp \<Rightarrow> 'c rtmp option" where
  "prepared ce s r =
     (let r1 = RTMP_EnableWrite r;
          r2 = r1\<lparr>lnk_flashVer := encoder_name, lnk_swfUrl := lnk_tcUrl r1\<rparr>
      in map_option (\<lambda>(r3, _). r3\<lparr>m_outChunkSize := 4096, m_bSendChunkSizeInfo := True\<rparr>)
           (RTMP_AddStream (ce_junk ce) r2 (stream_key s)))"

definition try_connect ::
  "'c connect_env \<Rightarrow> 'c output_env \<Rightarrow> grants \<Rightarrow> 'c out_stream \<Rightarrow> ('c out_stream \<times> output_code) outcome" where
  "try_connect ce env gr s =
     (if stream_path s = [] then returns (s, OBS_OUTPUT_BAD_PATH)
      else case RTMP_SetupURL (RTMP_Init (ce_net ce)) (stream_path s) of (r, ok) \<Rightarrow>
        if \<not> ok then returns (s\<lparr>conn := r\<rparr>, OBS_OUTPUT_BAD_PATH)
        else case prepared ce s r of
          None \<Rightarrow> Some (Inl KeyUnderread)
        | Some r1 \<Rightarrow>
            Option.bind (RTMP_Connect (ce_connect ce (stream_bind_ip s) (addrlen_hint s)) (ce_now ce) (ce_random ce)
                (oe_ops env) r1) (\<lambda>res. case res of
              None \<Rightarrow> Some (Inl NullHost)
            | Some (r2, up) \<Rightarrow>
                if \<not> up then returns (s\<lparr>conn := r2\<rparr>, OBS_OUTPUT_CONNECT_FAILED)
                else and_then (connect_stream ce env r2) (\<lambda>(r3, playing).
                  if \<not> playing then returns (s\<lparr>conn := r3\<rparr>, OBS_OUTPUT_INVALID_STREAM)
                  else init_send env gr (s\<lparr>conn := r3\<rparr>))))"

text \<open>HDR is refused for codecs other than H.264 and HEVC.\<close>

definition hdr_refused :: "'c output_env \<Rightarrow> 'c out_stream \<Rightarrow> bool" where
  "hdr_refused env s \<longleftrightarrow>
     is_hdr (oe_space env) \<and>
     list_ex (\<lambda>i. video_codec s i \<notin> {CODEC_NONE, CODEC_H264, CODEC_HEVC}) [0..<oe_max_video env]"

text \<open>The code OBS is told, if any, and the packets released.\<close>

definition connect_thread ::
  "'c connect_env \<Rightarrow> 'c output_env \<Rightarrow> output_settings \<Rightarrow> grants \<Rightarrow> 'c out_stream \<Rightarrow>
   ('c out_stream \<times> output_code option \<times> encoder_packet list) outcome" where
  "connect_thread ce env os gr s0 =
     (case init_connect env os s0 of (s, ok, released) \<Rightarrow>
        if \<not> ok then returns (s, Some OBS_OUTPUT_BAD_PATH, released)
        else if hdr_refused env s then returns (s, Some OBS_OUTPUT_HDR_DISABLED, released)
        else and_then (try_connect ce env gr s) (\<lambda>(s1, code).
          returns (s1\<lparr>connecting := False\<rparr>, if code = OBS_OUTPUT_SUCCESS then None else Some code, released)))"

section \<open>What OBS calls\<close>

text \<open>\<open>rtmp_stream_start\<close> after its checks, and \<open>rtmp_stream_stop\<close>: whether OBS is told of the stop at once.\<close>

definition rtmp_stream_start :: "'c rtmp_stream \<Rightarrow> 'c rtmp_stream" where
  "rtmp_stream_start s = s\<lparr>connecting := True\<rparr>"

definition rtmp_stream_stop :: "bool \<Rightarrow> u64 \<Rightarrow> 'c rtmp_stream \<Rightarrow> 'c rtmp_stream \<times> bool" where
  "rtmp_stream_stop has_delay ts0 s =
     (let ts = (if has_delay then 0 else ts0)
      in if stopping s \<and> ts \<noteq> 0 then (s, False)
         else
           let s1 = s\<lparr>stop_ts := ts div 1000\<rparr>;
               s2 = (if ts \<noteq> 0
                     then s1\<lparr>shutdown_timeout_ts := ts + word_of_int (max_shutdown_time_sec s1) * 1000000000\<rparr>
                     else s1)
           in if active_s s2
              then (s2\<lparr>stopping := True,
                       sem_count := (if stop_ts s2 = 0 then Suc (sem_count s2) else sem_count s2)\<rparr>, False)
              else (s2, True))"

datatype data_route = To_queue | To_delay | Ignored

definition rtmp_stream_data :: "bool \<Rightarrow> 'c rtmp_stream \<Rightarrow> encoder_packet option \<Rightarrow> data_route" where
  "rtmp_stream_data has_delay s pkt =
     (if pkt = None \<or> \<not> has_delay then To_queue
      else if disconnected s \<or> \<not> active_s s then Ignored
      else To_delay)"

definition rtmp_stream_congestion :: "nat \<Rightarrow> 'c rtmp_stream \<Rightarrow> rat" where
  "rtmp_stream_congestion buffered s =
     (if new_socket_loop s then fl32 (fl32 (of_nat buffered) / fl32 (of_int (write_room s)))
      else if min_priority s > 0 then 1 else congestion s)"

end
