(* ===== verification/Rtmp_Send_Properties.thy ===== *)
theory Rtmp_Send_Properties
  imports Rtmp_Output Rtmp_Properties Flv_Properties
begin

text \<open>
  The send thread and what arrives at the server: every turn takes one packet from the queue and puts
  its FLV tag on the wire, so that the media of a stream arrive in the order of the queue.
\<close>

section \<open>The tag of a packet\<close>

definition frame_kind :: "video_id_t \<Rightarrow> encoder_packet \<Rightarrow> byte" where
  "frame_kind codec p =
     (if (codec = CODEC_H264 \<or> codec = CODEC_HEVC) \<and> dts p = pts p then PACKETTYPE_FRAMESX else PACKETTYPE_FRAMES)"

definition video_body :: "video_id_t \<Rightarrow> encoder_packet \<Rightarrow> byte list" where
  "video_body codec p =
     (let idx = track_idx p; ct = be24 (word_of_int (ct_offset p))
      in if codec = CODEC_H264 \<and> idx = 0
         then [if keyframe p then 0x17 else 0x27, 1] @ ct @ pkt_data p
         else ex_head (or FRAME_HEADER_EX (if keyframe p then FT_KEY else FT_INTER)) PACKETTYPE_MULTITRACK
                (frame_kind codec p) (fourcc codec) idx @
              (if has_ct_offset codec (frame_kind codec p) then ct else []) @ pkt_data p)"

definition audio_body :: "encoder_packet \<Rightarrow> byte list" where
  "audio_body p =
     (if track_idx p = 0 then [0xaf, 1] @ pkt_data p
      else ex_head AUDIO_HEADER_EX AUDIO_PACKETTYPE_MULTITRACK AUDIO_PACKETTYPE_FRAMES (bytes_of ''mp4a'')
             (track_idx p) @ pkt_data p)"

definition media_tag :: "'c rtmp_stream \<Rightarrow> encoder_packet \<Rightarrow> tag" where
  "media_tag s p =
     (if enc_type p = OBS_ENCODER_VIDEO then RTMP_PACKET_TYPE_VIDEO else RTMP_PACKET_TYPE_AUDIO,
      word_of_int (time_offset p (start_dts_offset s)),
      if enc_type p = OBS_ENCODER_VIDEO then video_body (video_codec s (track_idx p)) p else audio_body p)"

text \<open>A packet with data that fits a tag, of a track whose codec is known.\<close>

definition good_media :: "'c rtmp_stream \<Rightarrow> encoder_packet \<Rightarrow> bool" where
  "good_media s p \<longleftrightarrow>
     pkt_data p \<noteq> [] \<and> length (pkt_data p) < 2 ^ 24 - 16 \<and>
     (if enc_type p = OBS_ENCODER_VIDEO then video_codec s (track_idx p) \<noteq> CODEC_NONE
      else track_idx p = 0 \<or> audio_codec s (track_idx p) = AUDIO_CODEC_AAC)"

lemma good_media_tag: "good_media s p \<Longrightarrow> good_tag (media_tag s p)"
  by (auto simp: good_media_def good_tag_def media_tag_def video_body_def audio_body_def ex_head_def Let_def
      RTMP_PACKET_TYPE_VIDEO_def RTMP_PACKET_TYPE_AUDIO_def bytes_of_def)

section \<open>One packet\<close>

text \<open>The server sends nothing while the stream runs.\<close>

definition quiet :: "'c output_env \<Rightarrow> bool" where
  "quiet env \<longleftrightarrow> (\<forall>c. \<not> oe_readable env c)"

lemma read_quiet [simp]: "quiet env \<Longrightarrow> handle_socket_read env s = returns (s, True)"
  by (simp add: quiet_def handle_socket_read_def)

definition media_bytes :: "'c output_env \<Rightarrow> 'c out_stream \<Rightarrow> encoder_packet \<Rightarrow> byte list option" where
  "media_bytes env s p =
     (let idx = track_idx p; codec = video_codec s idx; off = start_dts_offset s
      in if enc_type p = OBS_ENCODER_VIDEO \<and> (codec \<noteq> CODEC_H264 \<or> idx \<noteq> 0)
         then Some (flv_packet_frames (oe_ser env) p codec off idx)
         else if enc_type p = OBS_ENCODER_AUDIO \<and> idx \<noteq> 0
         then flv_packet_audio_frames (oe_ser env) p (audio_codec s idx) off idx
         else Some (flv_packet_mux (oe_ser env) p off False))"

lemma media_bytes_tag:
  assumes ser: "be_serializer (oe_ser env)" and p: "good_media s p"
  shows "media_bytes env s p = Some (tag_bytes (media_tag s p))"
proof (cases "enc_type p")
  case OBS_ENCODER_AUDIO
  then show ?thesis using p flv_audio_tag [OF ser] flv_packet_audio_ex_tag [OF ser]
    by (auto simp: media_bytes_def media_tag_def tag_bytes_def audio_body_def good_media_def Let_def
        flv_packet_audio_frames_def flv_packet_mux_def)
next
  case OBS_ENCODER_VIDEO
  then have c: "video_codec s (track_idx p) \<noteq> CODEC_NONE" using p by (simp add: good_media_def)
  show ?thesis
  proof (cases "video_codec s (track_idx p) = CODEC_H264 \<and> track_idx p = 0")
    case True
    then have "video_codec s 0 = CODEC_H264" "track_idx p = 0" by auto
    then show ?thesis using OBS_ENCODER_VIDEO p flv_video_tag [OF ser]
      by (simp add: media_bytes_def media_tag_def tag_bytes_def video_body_def good_media_def flv_packet_mux_def
          Let_def)
  next
    case False
    then show ?thesis using OBS_ENCODER_VIDEO flv_packet_ex_tag [OF ser c]
      by (auto simp: media_bytes_def media_tag_def tag_bytes_def video_body_def flv_packet_frames_def
          frame_kind_def [symmetric] Let_def)
  qed
qed

lemma send_data_writes:
  assumes "RTMP_Write (ops_of env s) (conn s) bs 0 = Some (r, Some n)"
  shows "\<exists>k. send_data env s (Some bs) counted released = returns (s\<lparr>conn := r, total_bytes_sent := k\<rparr>, n, released)"
  using assms by (cases counted) (auto simp: send_data_def stream_write_def returns_def intro: exI [of _ "total_bytes_sent s"])

lemma after_read_quiet: "quiet env \<Longrightarrow> after_read env s f = f s"
  by (simp add: after_read_def)

lemma send_media_data:
  assumes "quiet env"
  shows "\<exists>counted. send_media env s p = send_data env s (media_bytes env s p) counted [p]"
proof (cases "enc_type p = OBS_ENCODER_VIDEO \<and> (video_codec s (track_idx p) \<noteq> CODEC_H264 \<or> track_idx p \<noteq> 0)")
  case True
  then have "send_media env s p = send_data env s (media_bytes env s p) True [p]"
    unfolding send_media_def media_bytes_def send_packet_ex_def after_read_quiet [OF assms] Let_def by simp
  then show ?thesis by blast
next
  case video: False
  show ?thesis
  proof (cases "enc_type p = OBS_ENCODER_AUDIO \<and> track_idx p \<noteq> 0")
    case True
    then have "send_media env s p = send_data env s (media_bytes env s p) False [p]"
      unfolding send_media_def media_bytes_def send_audio_packet_ex_def after_read_quiet [OF assms] Let_def by simp
    then show ?thesis by blast
  next
    case False
    then have "send_media env s p = send_data env s (media_bytes env s p) True [p]"
      using video
      unfolding send_media_def media_bytes_def send_packet_def after_read_quiet [OF assms] Let_def by auto
    then show ?thesis by blast
  qed
qed

lemma send_media_writes:
  assumes "quiet env" and "media_bytes env s p = Some bs"
    and "RTMP_Write (ops_of env s) (conn s) bs 0 = Some (r, Some n)"
  shows "\<exists>k. send_media env s p = returns (s\<lparr>conn := r, total_bytes_sent := k\<rparr>, n, [p])"
  using send_media_data [OF assms(1), of s p] send_data_writes [OF assms(3)] assms(2) by metis

section \<open>The loop of the send thread\<close>

text \<open>Turns of the loop, one per post of the semaphore: the state, whether the loop goes on, the packets released.\<close>

fun send_turns ::
  "'c output_env \<Rightarrow> (u64 \<times> u64 \<times> u64) list \<Rightarrow> 'c out_stream \<Rightarrow> ('c out_stream \<times> turn \<times> encoder_packet list) outcome" where
  "send_turns env [] s = returns (s, Goes_on, [])"
| "send_turns env (clk # clks) s =
     and_then (send_turn env clk s) (\<lambda>(s1, t, released).
       if t = Loop_ends then returns (s1, Loop_ends, released)
       else and_then (send_turns env clks s1) (\<lambda>(s2, t2, more). returns (s2, t2, released @ more)))"

definition streaming :: "'c rtmp_stream \<Rightarrow> bool" where
  "streaming s \<longleftrightarrow> sent_headers s \<and> \<not> stopping s"

text \<open>What the tags of a stream depend on, and what keeps the thread running.\<close>

definition same_setup :: "'c out_stream \<Rightarrow> 'c out_stream \<Rightarrow> bool" where
  "same_setup s t \<longleftrightarrow>
     video_codec t = video_codec s \<and> audio_codec t = audio_codec s \<and> start_dts_offset t = start_dts_offset s \<and>
     custom_send t = custom_send s \<and> streaming t = streaming s"

lemma same_setup_keeps:
  assumes "same_setup s t"
  shows "media_tag t = media_tag s" "good_media t = good_media s" "ops_of env t = ops_of env s"
  using assms by (auto simp: same_setup_def media_tag_def good_media_def ops_of_def fun_eq_iff)

lemma send_turn_writes:
  assumes ser: "be_serializer (oe_ser env)" and quiet: "quiet env" and s: "streaming s" and q: "packets s = p # ps"
    and p: "good_media s p"
    and w: "RTMP_Write (ops_of env s) (conn s) (tag_bytes (media_tag s p)) 0 = Some (r, Some n)"
    and n: "0 \<le> n"
  shows "\<exists>t. send_turn env clk s = returns (t, Goes_on, [p]) \<and> same_setup s t \<and> conn t = r \<and> packets t = ps"
proof -
  let ?s = "s\<lparr>packets := ps\<rparr>"
  have like: "same_setup s ?s" by (simp add: same_setup_def streaming_def)
  note keeps = same_setup_keeps [OF like]
  have "media_bytes env ?s p = Some (tag_bytes (media_tag s p))"
    using media_bytes_tag [OF ser, of ?s p] p by (simp add: keeps)
  moreover have "RTMP_Write (ops_of env ?s) (conn ?s) (tag_bytes (media_tag s p)) 0 = Some (r, Some n)"
    using w by (simp add: keeps)
  ultimately obtain k where "send_media env ?s p = returns (?s\<lparr>conn := r, total_bytes_sent := k\<rparr>, n, [p])"
    using send_media_writes [OF quiet] by blast
  then show ?thesis
    using s q n
    by (cases clk) (auto simp: send_turn_def get_next_packet_def streaming_def same_setup_def dbr_add_frame_def
        Let_def split: prod.split)
qed

lemma send_turns_write:
  assumes ser: "be_serializer (oe_ser env)" and quiet: "quiet env"
  shows "streaming s \<Longrightarrow> list_all (good_media s) (packets s) \<Longrightarrow> length clks = length (packets s) \<Longrightarrow>
    write_all (ops_of env s) (conn s) 0 (map (media_tag s) (packets s)) = Some (r, True) \<Longrightarrow>
    \<exists>t. send_turns env clks s = returns (t, Goes_on, packets s) \<and> packets t = [] \<and> conn t = r"
proof (induction clks arbitrary: s)
  case Nil
  then show ?case by auto
next
  case (Cons clk clks)
  then obtain p ps where q: "packets s = p # ps" by (cases "packets s") auto
  have p: "good_media s p" using Cons.prems(2) q by simp
  obtain r1 where w: "RTMP_Write (ops_of env s) (conn s) (tag_bytes (media_tag s p)) 0 =
      Some (r1, Some (int (length (tag_bytes (media_tag s p)))))"
    and rest: "write_all (ops_of env s) r1 0 (map (media_tag s) ps) = Some (r, True)"
    using Cons.prems(4) by (auto simp: q bind_eq_Some_conv split: if_splits)
  obtain t where t: "send_turn env clk s = returns (t, Goes_on, [p])" "same_setup s t" "conn t = r1" "packets t = ps"
    using send_turn_writes [OF ser quiet Cons.prems(1) q p w] by fastforce
  note keeps = same_setup_keeps [OF t(2)]
  have "streaming t" using t(2) Cons.prems(1) by (simp add: same_setup_def)
  from Cons.IH [OF this] show ?case
    using Cons.prems rest t by (auto simp: keeps q returns_def)
qed


section \<open>An output that streams\<close>

definition queued_sample :: "encoder_packet list" where
  "queued_sample = [sample_video, sample_video\<lparr>enc_type := OBS_ENCODER_AUDIO, keyframe := False, timebase_den := 48000\<rparr>]"

definition stream_sample :: "pipe out_stream" where
  "stream_sample =
     \<lparr>packets = queued_sample, sent_headers = True, got_first_packet = True, start_dts_offset = 0,
      connecting = False, active_s = True, disconnected = False, encode_error = False, stopping = False,
      sem_count = 2, stop_ts = 0, shutdown_timeout_ts = 0, max_shutdown_time_sec = 30,
      drop_threshold_usec = 700000, pframe_drop_threshold_usec = 900000, min_priority = 0, congestion = 0,
      last_dts_usec = 0, total_bytes_sent = 0, dropped_frames = 0, dbr_frames = [], dbr_data_size = 0,
      dbr_inc_timeout = 0, audio_bitrate = 160, dbr_est_bitrate = 0, dbr_orig_bitrate = 2500, dbr_prev_bitrate = 0,
      dbr_cur_bitrate = 2500, dbr_inc_step = 250, dbr_enabled = True, audio_codec = (\<lambda>i. AUDIO_CODEC_AAC),
      video_codec = (\<lambda>i. CODEC_H264), stream_path = [], stream_key = [], stream_bind_ip = [], addrlen_hint = 0,
      new_socket_loop = False, low_latency = False, custom_send = False, write_room = 0, conn = publisher\<rparr>"

definition env_sample :: "pipe output_env" where
  "env_sample =
     \<lparr>oe_ops = pipe_ops, oe_queue = pipe_ops, oe_readable = (\<lambda>c. False), oe_ser = array_serializer,
      oe_info = \<lparr>oi_width = 1920, oi_height = 1080, oi_codec = ''h264'', oi_video_bitrate = 2500, oi_frame_rate = 30,
        oi_audio_bitrate = 160, oi_sample_rate = 48000, oi_channels = 2, oi_encoder_name = ''obs-output''\<rparr>,
      oe_video = (\<lambda>i. if i = 0 then Some \<lparr>en_codec = ''h264'', en_extra = Some [1], en_space = Some VIDEO_CS_709,
        en_bitrate = Some 2500\<rparr> else None),
      oe_audio = (\<lambda>i. if i = 0 then Some \<lparr>en_codec = ''aac'', en_extra = Some [1], en_space = None,
        en_bitrate = Some 160\<rparr> else None),
      oe_max_video = 10, oe_max_audio = 6, oe_avc_header = (\<lambda>d. d), oe_hevc_header = (\<lambda>d. d),
      oe_av1_header = (\<lambda>d. d), oe_format = VIDEO_FORMAT_OTHER, oe_space = VIDEO_CS_709, oe_hdr_peak = 0\<rparr>"


end
