(* ===== verification/Rtmp_Close.thy ===== *)
theory Rtmp_Close
  imports Rtmp_Kept
begin

text \<open>
  \<open>RTMP_Close\<close> calls itself: it sends, and a failed send closes. The definition counts the levels of
  this recursion; here it is shown to satisfy the recursion equation of the code, and to return
  whatever the network answers.
\<close>

section \<open>Closers that agree\<close>

definition ids :: "'c rtmp \<Rightarrow> nat" where
  "ids r = length (filter has_id (lnk_streams r))"

definition empties :: "'c closer \<Rightarrow> bool" where
  "empties close \<longleftrightarrow> (\<forall>r r'. close r = Some r' \<longrightarrow> lnk_streams r' = [])"

text \<open>They agree on the connections with the streams \<open>sts\<close>.\<close>

definition agree :: "rtmp_stream_link list \<Rightarrow> 'c closer \<Rightarrow> 'c closer \<Rightarrow> bool" where
  "agree sts c1 c2 \<longleftrightarrow> empties c1 \<and> empties c2 \<and> (\<forall>r. lnk_streams r = sts \<longrightarrow> c1 r = c2 r)"

definition streams_from :: "rtmp_stream_link list \<Rightarrow> 'c rtmp \<Rightarrow> bool" where
  "streams_from sts r \<longleftrightarrow> lnk_streams r = sts \<or> lnk_streams r = []"

lemma agree_sym: "agree sts c1 c2 \<Longrightarrow> agree sts c2 c1"
  by (auto simp: agree_def)

lemma sock_close_streams [simp]: "lnk_streams (RTMPSockBuf_Close ops r) = lnk_streams r"
  by (simp add: RTMPSockBuf_Close_def)

lemma WriteN_agree:
  "WriteN c1 ops r bs = Some y \<Longrightarrow> agree sts c1 c2 \<Longrightarrow> lnk_streams r = sts \<Longrightarrow>
     WriteN c2 ops r bs = Some y \<and> streams_from sts (fst y)"
proof (induction rule: WriteN.raw_induct [rotated, consumes 1, case_names step])
  case (step rec c1 ops r bs y)
  show ?case
  proof (cases "bs = []")
    case True
    then show ?thesis using step.hyps step.prems by (subst WriteN.simps) (auto simp: streams_from_def)
  next
    case False
    obtain c res where n: "net_send ops (net r) bs = (c, res)" by (cases "net_send ops (net r) bs")
    show ?thesis
    proof (cases res)
      case (Sent k)
      show ?thesis
      proof (cases "k = 0")
        case True
        then show ?thesis
          using step.hyps step.prems False by (subst WriteN.simps) (auto simp: n Sent streams_from_def)
      next
        case no: False
        then have "rec c1 ops (r\<lparr>net := c\<rparr>) (drop k bs) = Some y" using step.hyps False by (simp add: n Sent)
        from step.IH [OF this step.prems(1)] step.prems(2) no False show ?thesis
          by (subst WriteN.simps) (simp add: n Sent)
      qed
    next
      case SendInterrupted
      then have "rec c1 ops (r\<lparr>net := c\<rparr>) bs = Some y" using step.hyps False by (simp add: n)
      from step.IH [OF this step.prems(1)] step.prems(2) False SendInterrupted show ?thesis
        by (subst WriteN.simps) (simp add: n)
    next
      case (SendFailed e)
      let ?r = "RTMPSockBuf_Close ops (r\<lparr>net := c, rtmp_error := e\<rparr>)"
      obtain r1 where r1: "c1 ?r = Some r1" "y = (r1, False)"
        using step.hyps False SendFailed by (auto simp: n split: bind_splits)
      have "c2 ?r = Some r1" "lnk_streams r1 = []"
        using r1 step.prems by (auto simp: agree_def empties_def)
      then show ?thesis using False SendFailed r1
        by (subst WriteN.simps) (simp add: n streams_from_def)
    qed
  qed
qed

lemma send_chunks_agree:
  "send_chunks c1 ops cont r mem buf hSize nSize nChunkSize = Some y \<Longrightarrow> agree sts c1 c2 \<Longrightarrow> lnk_streams r = sts \<Longrightarrow>
     send_chunks c2 ops cont r mem buf hSize nSize nChunkSize = Some y \<and> streams_from sts (fst y)"
proof (induction rule: send_chunks.raw_induct [rotated, consumes 1, case_names step])
  case (step rec c1 ops cont r mem buf hSize nSize nChunkSize y)
  show ?case
  proof (cases "nSize + hSize = 0")
    case True
    then show ?thesis using step.hyps step.prems by (subst send_chunks.simps) (auto simp: streams_from_def)
  next
    case False
    define n where "n = (if nSize < nChunkSize then nSize else nChunkSize)"
    obtain r1 wrote where w: "WriteN c1 ops r (take (n + hSize) (drop (buf - hSize) mem)) = Some (r1, wrote)"
      and y: "(if \<not> wrote then Some (r1, mem, False)
             else if nSize - n > 0
             then rec c1 ops cont r1 (put_bytes (buf + n - length cont) cont mem)
                    (buf + n) (length cont) (nSize - n) n
             else rec c1 ops cont r1 mem (buf + n) 0 (nSize - n) n) = Some y"
      using step.hyps False by (auto simp: Let_def bind_eq_Some_conv simp flip: n_def)
    have w2: "WriteN c2 ops r (take (n + hSize) (drop (buf - hSize) mem)) = Some (r1, wrote)"
      and sf: "streams_from sts r1"
      using WriteN_agree [OF w step.prems] by simp_all
    show ?thesis
    proof (cases wrote)
      case no: False
      then show ?thesis using y False w2 sf
        by (subst send_chunks.simps) (auto simp: Let_def simp flip: n_def)
    next
      case yes: True
      then have st: "lnk_streams r1 = sts" using WriteN_ok [OF w] step.prems(2) by auto
      show ?thesis
      proof (cases "nSize - n > 0")
        case True
        then have "rec c1 ops cont r1 (put_bytes (buf + n - length cont) cont mem)
          (buf + n) (length cont) (nSize - n) n = Some y" using y yes by simp
        from step.IH [OF this step.prems(1) st] show ?thesis using False w2 yes True
          by (subst send_chunks.simps) (simp add: Let_def flip: n_def)
      next
        case fin: False
        then have "rec c1 ops cont r1 mem (buf + n) 0 (nSize - n) n = Some y" using y yes by simp
        from step.IH [OF this step.prems(1) st] show ?thesis using False w2 yes fin
          by (subst send_chunks.simps) (auto simp: Let_def simp flip: n_def)
      qed
    qed
  qed
qed

lemma queue_call_same [simp]: "lnk_streams (queue_call mem r) = lnk_streams r"
  by (simp add: queue_call_def AV_queue_def split: sum.splits)

lemma SendPacket_agree:
  assumes "RTMP_SendPacket c1 ops r p q = Some y" and "agree sts c1 c2" and "lnk_streams r = sts"
  shows "RTMP_SendPacket c2 ops r p q = Some y \<and> streams_from sts (fst y)"
proof -
  let ?r = "if m_nChannel p \<ge> m_channelsAllocatedOut r then r\<lparr>m_channelsAllocatedOut := m_nChannel p + 10\<rparr> else r"
  obtain p1 last_ts where c: "compress_header (m_vecChannelsOut ?r (m_nChannel p)) p = (p1, last_ts)"
    by (cases "compress_header (m_vecChannelsOut ?r (m_nChannel p)) p")
  have st: "lnk_streams ?r = sts" using assms(3) by simp
  show ?thesis
  proof (cases "m_headerType p1 > 3")
    case True
    then show ?thesis using assms(1) c st by (auto simp: RTMP_SendPacket_def Let_def streams_from_def)
  next
    case False
    let ?p = "p1\<lparr>m_nLastWireTimeStamp := m_nTimeStamp p1 - last_ts\<rparr>"
    have s1: "send_prepared c1 ops ?r ?p q = Some y" using assms(1) c False by (simp add: RTMP_SendPacket_def Let_def)
    then obtain r1 mem1 ok where ch: "send_chunks c1 ops (continuation_header ?p (m_nLastWireTimeStamp ?p)) ?r (packet_mem ?p)
        RTMP_MAX_HEADER_SIZE (length (message_header ?p (m_nLastWireTimeStamp ?p))) (unat (m_nBodySize ?p)) (m_outChunkSize ?r) = Some (r1, mem1, ok)"
      by (auto simp: send_prepared_def Let_def bind_eq_Some_conv)
    note ch2 = send_chunks_agree [OF ch assms(2) st]
    have "send_prepared c2 ops ?r ?p q = Some y \<and> streams_from sts (fst y)"
      using s1 ch ch2 by (auto simp: send_prepared_def Let_def streams_from_def split: if_splits)
    then show ?thesis using c False by (simp add: RTMP_SendPacket_def Let_def)
  qed
qed

lemma send_message_agree:
  assumes "send_message c1 ops p q r = Some y" and "agree sts c1 c2" and "lnk_streams r = sts"
  shows "send_message c2 ops p q r = Some y \<and> streams_from sts (fst y)"
proof -
  obtain z where "RTMP_SendPacket c1 ops r p q = Some z" "y = (case z of (r1, p1, ok) \<Rightarrow> (r1, ok))"
    using assms(1) by (auto simp: send_message_def)
  then show ?thesis using SendPacket_agree [OF _ assms(2,3)] by (cases z) (fastforce simp: send_message_def)
qed

lemma send_invoke_agree:
  assumes "send_invoke c1 ops bufsz ch ht info name args q r = Some y" and "agree sts c1 c2" and "lnk_streams r = sts"
  shows "send_invoke c2 ops bufsz ch ht info name args q r = Some y \<and> streams_from sts (fst y)"
proof -
  let ?r = "r\<lparr>m_numInvokes := m_numInvokes r + 1\<rparr>"
  let ?enc = "amf_steps (bufsz - RTMP_MAX_HEADER_SIZE)
    ([step_string (bytes_of name), step_number (double_of_int (m_numInvokes ?r)), step_byte AMF_NULL] @ args)"
  have st: "lnk_streams ?r = sts" using assms(3) by simp
  show ?thesis
  proof (cases ?enc)
    case None
    then show ?thesis using assms st by (auto simp: send_invoke_def streams_from_def simp del: amf_steps.simps)
  next
    case (Some body)
    then show ?thesis using assms(1) send_message_agree [OF _ assms(2) st]
      by (auto simp: send_invoke_def Let_def simp del: amf_steps.simps)
  qed
qed

lemma agree_eq:
  assumes "agree sts c1 c2"
    and "\<And>c1 c2 y. agree sts c1 c2 \<Longrightarrow> f c1 = Some y \<Longrightarrow> f c2 = Some y \<and> streams_from sts (fst y)"
  shows "f c1 = f c2"
  using assms(2) [OF assms(1)] assms(2) [OF agree_sym [OF assms(1)]]
  by (cases "f c1"; cases "f c2") auto

lemma calls_agree:
  assumes "agree (lnk_streams r) c1 c2"
  shows "SendFCUnpublish c1 ops r i = SendFCUnpublish c2 ops r i"
    and "SendDeleteStream c1 ops r n = SendDeleteStream c2 ops r n"
    and "SendFCUnpublish c1 ops r i = Some y \<Longrightarrow> streams_from (lnk_streams r) (fst y)"
    and "SendDeleteStream c1 ops r n = Some y \<Longrightarrow> streams_from (lnk_streams r) (fst y)"
proof -
  note ag = send_invoke_agree [OF _ _ refl, where r = r]
  show "SendFCUnpublish c1 ops r i = SendFCUnpublish c2 ops r i"
    unfolding SendFCUnpublish_def by (rule agree_eq [OF assms], rule ag)
  show "SendDeleteStream c1 ops r n = SendDeleteStream c2 ops r n"
    unfolding SendDeleteStream_def by (rule agree_eq [OF assms], rule ag)
  show "SendFCUnpublish c1 ops r i = Some y \<Longrightarrow> streams_from (lnk_streams r) (fst y)"
    unfolding SendFCUnpublish_def using ag [OF _ assms] by blast
  show "SendDeleteStream c1 ops r n = Some y \<Longrightarrow> streams_from (lnk_streams r) (fst y)"
    unfolding SendDeleteStream_def using ag [OF _ assms] by blast
qed

section \<open>The levels are enough\<close>

lemma ids_from: "streams_from (lnk_streams r) r' \<Longrightarrow> ids r' \<le> ids r"
  by (auto simp: streams_from_def ids_def)

lemma ids_cleared:
  assumes "idx < length sts" and "has_id (sts ! idx)" and "\<not> has_id x"
  shows "Suc (length (filter has_id (sts[idx := x]))) = length (filter has_id sts)"
proof -
  have "sts = take idx sts @ sts ! idx # drop (Suc idx) sts" using assms(1) by (simp add: id_take_nth_drop)
  then have "filter has_id sts = filter has_id (take idx sts) @ sts ! idx # filter has_id (drop (Suc idx) sts)"
    using assms(2) by (metis filter.simps(2) filter_append)
  moreover have "filter has_id (sts[idx := x]) = filter has_id (take idx sts) @ filter has_id (drop (Suc idx) sts)"
    using assms by (simp add: upd_conv_take_nth_drop)
  ultimately show ?thesis by simp
qed

definition agree_to :: "nat \<Rightarrow> 'c closer \<Rightarrow> 'c closer \<Rightarrow> bool" where
  "agree_to d c1 c2 \<longleftrightarrow> empties c1 \<and> empties c2 \<and> (\<forall>r. ids r \<le> d \<longrightarrow> c1 r = c2 r)"

lemma agree_to_at: "agree_to d c1 c2 \<Longrightarrow> ids r \<le> d \<Longrightarrow> agree (lnk_streams r) c1 c2"
  by (auto simp: agree_to_def agree_def ids_def)

lemma close_streams_agree:
  "agree_to d c1 c2 \<Longrightarrow> ids r \<le> Suc d \<Longrightarrow> close_streams c1 ops idx left r = close_streams c2 ops idx left r"
proof (induction left arbitrary: idx r)
  case 0
  then show ?case by simp
next
  case (Suc left)
  show ?case
  proof (cases "idx < length (lnk_streams r) \<and> has_id (stream_link r idx)")
    case False
    then show ?thesis using Suc by auto
  next
    case True
    let ?r = "r\<lparr>lnk_streams := (lnk_streams r)[idx := (stream_link r idx)\<lparr>st_id := 0\<rparr>]\<rparr>"
    have ids: "ids ?r \<le> d"
      using ids_cleared [of idx "lnk_streams r" "(stream_link r idx)\<lparr>st_id := 0\<rparr>"] True Suc.prems(2)
      by (simp add: ids_def stream_link_def) (simp add: has_id_def)
    note ag = agree_to_at [OF Suc.prems(1)]
    have unpub: "SendFCUnpublish c1 ops ?r idx = SendFCUnpublish c2 ops ?r idx"
      using calls_agree(1) [OF ag [OF ids]] .
    have rest: "Option.bind (SendDeleteStream c1 ops r2 i) (\<lambda>(r3, _). close_streams c1 ops (Suc idx) left r3) =
        Option.bind (SendDeleteStream c2 ops r2 i) (\<lambda>(r3, _). close_streams c2 ops (Suc idx) left r3)"
      if "ids r2 \<le> d" for r2 i
    proof (cases "SendDeleteStream c1 ops r2 i")
      case None
      then show ?thesis using calls_agree(2) [OF ag [OF that], of ops i] by simp
    next
      case (Some y)
      have "ids (fst y) \<le> d" using ids_from [OF calls_agree(4) [OF ag [OF that] Some]] that by simp
      then have "close_streams c1 ops (Suc idx) left (fst y) = close_streams c2 ops (Suc idx) left (fst y)"
        using Suc.IH [OF Suc.prems(1)] by simp
      then show ?thesis using Some calls_agree(2) [OF ag [OF that], of ops i] by (simp add: split_beta)
    qed
    show ?thesis
    proof (cases "lnk_write r")
      case False
      then show ?thesis using True rest [OF ids] by (simp add: Let_def)
    next
      case w: True
      show ?thesis
      proof (cases "SendFCUnpublish c1 ops ?r idx")
        case None
        then show ?thesis using True w unpub by (simp add: Let_def)
      next
        case (Some y)
        have "ids (fst y) \<le> d" using ids_from [OF calls_agree(3) [OF ag [OF ids] Some]] ids by simp
        then show ?thesis using True w Some unpub rest by (simp add: Let_def split_beta)
      qed
    qed
  qed
qed

lemma close_state_empty [simp]: "lnk_streams (close_state r) = []"
  by (simp add: close_state_def)

lemma close_levels_empties: "empties (close_levels ops d)"
  by (cases d) (auto simp: empties_def split: if_splits bind_splits)

lemma close_streams_no_ids: "ids r = 0 \<Longrightarrow> close_streams c ops idx left r = Some r"
proof (induction left arbitrary: idx)
  case (Suc left)
  have "\<not> has_id (stream_link r idx)" if "idx < length (lnk_streams r)"
    using Suc.prems that by (auto simp: ids_def stream_link_def filter_empty_conv)
  then show ?case using Suc by auto
qed simp

lemma close_levels_Suc: "ids r \<le> d \<Longrightarrow> close_levels ops (Suc d) r = close_levels ops d r"
proof (induction d arbitrary: r)
  case 0
  then show ?case by (simp add: close_streams_no_ids RTMPSockBuf_Close_def)
next
  case (Suc d)
  have "agree_to d (close_levels ops (Suc d)) (close_levels ops d)"
    using Suc.IH by (simp add: agree_to_def close_levels_empties del: close_levels.simps)
  from close_streams_agree [OF this Suc.prems] show ?case by simp
qed

lemma close_levels_enough: "ids r \<le> d \<Longrightarrow> close_levels ops d r = RTMP_Close ops r"
proof (induction d rule: dec_induct)
  case base
  then show ?case by (simp add: RTMP_Close_def ids_def)
next
  case (step d)
  then show ?case by (simp add: close_levels_Suc del: close_levels.simps)
qed

lemma close_empties: "empties (RTMP_Close ops)"
  using close_levels_empties by (auto simp: empties_def RTMP_Close_def)

text \<open>\<open>RTMP_Close\<close> satisfies the equation of its code: for every stream with an identifier, it clears
  the identifier and sends FCUnpublish, when publishing, and deleteStream, with itself as the function a
  failed send calls; then it closes the socket and resets the connection.\<close>

lemma close_equation:
  "RTMP_Close ops r =
     (if RTMP_IsConnected r
      then Option.bind (close_streams (RTMP_Close ops) ops 0 (length (lnk_streams r)) r)
             (\<lambda>r1. Some (close_state (RTMPSockBuf_Close ops r1)))
      else Some (close_state r))"
proof -
  have "agree_to (ids r) (close_levels ops (ids r)) (RTMP_Close ops)"
    by (simp add: agree_to_def close_levels_enough close_empties close_levels_empties)
  from close_streams_agree [OF this, of r]
  have "close_levels ops (Suc (ids r)) r =
     (if RTMP_IsConnected r
      then Option.bind (close_streams (RTMP_Close ops) ops 0 (length (lnk_streams r)) r)
             (\<lambda>r1. Some (close_state (RTMPSockBuf_Close ops r1)))
      else Some (close_state r))" by simp
  then show ?thesis using close_levels_enough [of r "Suc (ids r)" ops] by simp
qed

end
