(* ===== verification/Rtmp_Close_Returns.thy ===== *)
theory Rtmp_Close_Returns
  imports Rtmp_Close
begin

text \<open>
  \<open>RTMP_Close\<close> returns whatever the network answers, as long as a send is not interrupted for ever:
  a failed send closes, which sends, which may fail and close again.
\<close>

text \<open>\<open>m\<close> counts the interruptions in a row that are still to come.\<close>

definition few_interrupts :: "'c net_ops \<Rightarrow> ('c \<Rightarrow> nat) \<Rightarrow> bool" where
  "few_interrupts ops m \<longleftrightarrow> (\<forall>c bs c'. net_send ops c bs = (c', SendInterrupted) \<longrightarrow> m c' < m c)"

text \<open>A closer that returns on every connection with a chunk size and at most \<open>d\<close> streams to end.\<close>

definition returns_to :: "nat \<Rightarrow> 'c closer \<Rightarrow> bool" where
  "returns_to d close \<longleftrightarrow> empties close \<and>
     (\<forall>r. ids r \<le> d \<and> 0 < m_outChunkSize r \<longrightarrow> (\<exists>r'. close r = Some r' \<and> 0 < m_outChunkSize r'))"

text \<open>The chunk size stays and the streams stay or are gone.\<close>

definition well :: "nat \<Rightarrow> 'c rtmp \<Rightarrow> bool" where
  "well d r \<longleftrightarrow> ids r \<le> d \<and> 0 < m_outChunkSize r"

lemma returns_at: "returns_to d close \<Longrightarrow> well d r \<Longrightarrow> \<exists>r'. close r = Some r' \<and> well d r'"
  by (fastforce simp: returns_to_def well_def empties_def ids_def)

lemma well_simps [simp]:
  "well d (r\<lparr>net := c\<rparr>) = well d r" "well d (r\<lparr>rtmp_error := e\<rparr>) = well d r"
  "well d (RTMPSockBuf_Close ops r) = well d r" "well d (r\<lparr>m_numInvokes := n\<rparr>) = well d r"
  "well d (r\<lparr>m_channelsAllocatedOut := a\<rparr>) = well d r" "well d (r\<lparr>m_vecChannelsOut := v\<rparr>) = well d r"
  "well d (queue_call mem r) = well d r"
  by (simp_all add: well_def ids_def RTMPSockBuf_Close_def queue_call_def AV_queue_def split: sum.split)

lemma WriteN_returns:
  assumes few: "few_interrupts ops m" and close: "returns_to d close"
  shows "well d r \<Longrightarrow> \<exists>r' ok. WriteN close ops r bs = Some (r', ok) \<and> well d r'"
proof (induction "(length bs, m (net r))" arbitrary: bs r rule: wf_induct_rule [OF wf_lex_prod [OF wf_less_than wf_less_than]])
  case (1 bs r)
  show ?case
  proof (cases "bs = []")
    case True
    then show ?thesis using "1.prems" by (subst WriteN.simps) auto
  next
    case False
    obtain c res where n: "net_send ops (net r) bs = (c, res)" by (cases "net_send ops (net r) bs")
    show ?thesis
    proof (cases res)
      case (Sent k)
      show ?thesis
      proof (cases "k = 0")
        case True
        then show ?thesis using False n Sent "1.prems" by (subst WriteN.simps) auto
      next
        case no: False
        then have "length (drop k bs) < length bs" using False by simp
        with "1.hyps" [of "drop k bs" "r\<lparr>net := c\<rparr>"] "1.prems" False n Sent no show ?thesis
          by (subst WriteN.simps) simp
      qed
    next
      case SendInterrupted
      then have "m c < m (net r)" using few n by (auto simp: few_interrupts_def)
      with "1.hyps" [of bs "r\<lparr>net := c\<rparr>"] "1.prems" False n SendInterrupted show ?thesis
        by (subst WriteN.simps) simp
    next
      case (SendFailed e)
      have "well d (RTMPSockBuf_Close ops (r\<lparr>net := c, rtmp_error := e\<rparr>))" using "1.prems" by simp
      from returns_at [OF close this] show ?thesis
        using False n SendFailed by (subst WriteN.simps) auto
    qed
  qed
qed

lemma send_chunks_returns:
  assumes few: "few_interrupts ops m" and close: "returns_to d close"
  shows "well d r \<Longrightarrow> 0 < k \<Longrightarrow>
    \<exists>r' mem' ok. send_chunks close ops cont r mem buf hSize nSize k = Some (r', mem', ok) \<and> well d r'"
proof (induction nSize arbitrary: r mem buf hSize k rule: less_induct)
  case (less nSize)
  define n where "n = (if nSize < k then nSize else k)"
  obtain r1 ok where w: "WriteN close ops r (take (n + hSize) (drop (buf - hSize) mem)) = Some (r1, ok)"
    and well: "well d r1"
    using WriteN_returns [OF few close less.prems(1)] by blast
  have eq: "send_chunks close ops cont r mem buf hSize nSize k =
     (if nSize + hSize = 0 then Some (r, mem, True)
      else if \<not> ok then Some (r1, mem, False)
      else if nSize - n > 0
      then send_chunks close ops cont r1 (put_bytes (buf + n - length cont) cont mem) (buf + n) (length cont) (nSize - n) n
      else send_chunks close ops cont r1 mem (buf + n) 0 (nSize - n) n)"
    by (subst send_chunks.simps) (simp add: w Let_def flip: n_def)
  show ?case
  proof (cases "nSize - n > 0")
    case True
    then have "nSize - n < nSize" and "0 < n" using less.prems(2) by (auto simp: n_def)
    from less.IH [OF this(1) well this(2)] show ?thesis
      unfolding eq using True less.prems(1) well by auto
  next
    case False
    then have "nSize - n = 0" by simp
    moreover have "send_chunks close ops cont r1 mem (buf + n) 0 0 n = Some (r1, mem, True)"
      by (subst send_chunks.simps) simp
    ultimately show ?thesis unfolding eq using less.prems(1) well by auto
  qed
qed

lemma compress_cases:
  obtains p1 t where "compress_header prev p = (p1, t)" by (cases "compress_header prev p")

lemma SendPacket_returns:
  assumes few: "few_interrupts ops m" and close: "returns_to d close" and "well d r"
  shows "\<exists>r' p' ok. RTMP_SendPacket close ops r p q = Some (r', p', ok) \<and> well d r'"
proof -
  let ?r = "if m_nChannel p \<ge> m_channelsAllocatedOut r then r\<lparr>m_channelsAllocatedOut := m_nChannel p + 10\<rparr> else r"
  obtain p1 t where c: "compress_header (m_vecChannelsOut ?r (m_nChannel p)) p = (p1, t)" by (rule compress_cases)
  have w: "well d ?r" using assms(3) by simp
  then have k: "0 < m_outChunkSize ?r" unfolding well_def by blast
  let ?p = "p1\<lparr>m_nLastWireTimeStamp := m_nTimeStamp p1 - t\<rparr>"
  obtain r1 mem1 ok where "send_chunks close ops (continuation_header ?p (m_nLastWireTimeStamp ?p)) ?r (packet_mem ?p)
        RTMP_MAX_HEADER_SIZE (length (message_header ?p (m_nLastWireTimeStamp ?p))) (unat (m_nBodySize ?p))
        (m_outChunkSize ?r) = Some (r1, mem1, ok)" and "well d r1"
    using send_chunks_returns [OF few close w k] by blast
  then have "\<exists>r' p' ok. send_prepared close ops ?r ?p q = Some (r', p', ok) \<and> well d r'"
    by (cases ok) (simp_all add: send_prepared_def Let_def, auto)
  then show ?thesis using c w by (auto simp: RTMP_SendPacket_def Let_def)
qed

lemma send_invoke_returns:
  assumes few: "few_interrupts ops m" and close: "returns_to d close" and "well d r"
  shows "\<exists>r' ok. send_invoke close ops bufsz ch ht info name args q r = Some (r', ok) \<and> well d r'"
proof -
  have w: "well d (r\<lparr>m_numInvokes := m_numInvokes r + 1\<rparr>)" using assms(3) by simp
  then show ?thesis
    using SendPacket_returns [OF few close w]
    by (fastforce simp: send_invoke_def send_message_def Let_def simp del: amf_steps.simps split: option.split)
qed

lemma close_streams_returns:
  assumes few: "few_interrupts ops m" and close: "returns_to d close"
  shows "well (Suc d) r \<Longrightarrow> \<exists>r'. close_streams close ops idx left r = Some r' \<and> 0 < m_outChunkSize r'"
proof (induction left arbitrary: idx r)
  case 0
  then show ?case by (simp add: well_def)
next
  case (Suc left)
  have up: "well (Suc d) x" if "well d x" for x :: "'a rtmp" using that by (simp add: well_def)
  show ?case
  proof (cases "idx < length (lnk_streams r) \<and> has_id (stream_link r idx)")
    case False
    then show ?thesis using Suc by (auto simp: well_def)
  next
    case True
    let ?r = "r\<lparr>lnk_streams := (lnk_streams r)[idx := (stream_link r idx)\<lparr>st_id := 0\<rparr>]\<rparr>"
    have w: "well d ?r"
      using ids_cleared [of idx "lnk_streams r" "(stream_link r idx)\<lparr>st_id := 0\<rparr>"] True Suc.prems
      by (simp add: well_def ids_def stream_link_def) (simp add: has_id_def)
    obtain r2 ok2 where r2: "(if lnk_write ?r then SendFCUnpublish close ops ?r idx else Some (?r, True)) = Some (r2, ok2)"
      and w2: "well d r2"
      using send_invoke_returns [OF few close w] w unfolding SendFCUnpublish_def by (cases "lnk_write ?r") metis+
    obtain r3 ok3 where r3: "SendDeleteStream close ops r2 (st_id (stream_link r idx)) = Some (r3, ok3)"
      and w3: "well d r3"
      using send_invoke_returns [OF few close w2] unfolding SendDeleteStream_def by blast
    show ?thesis using True r2 r3 Suc.IH [OF up [OF w3]] by (auto simp: Let_def)
  qed
qed

lemma close_levels_returns:
  assumes few: "few_interrupts ops m"
  shows "returns_to d (close_levels ops d)"
proof (induction d)
  case 0
  have "\<exists>r'. close_levels ops 0 r = Some r' \<and> 0 < m_outChunkSize r'" if "0 < m_outChunkSize r" for r :: "'a rtmp"
    using that by (simp add: close_state_def RTMPSockBuf_Close_def)
  then show ?case using close_levels_empties [of ops 0] by (simp add: returns_to_def del: close_levels.simps)
next
  case (Suc d)
  have "\<exists>r'. close_levels ops (Suc d) r = Some r' \<and> 0 < m_outChunkSize r'"
    if "ids r \<le> Suc d" "0 < m_outChunkSize r" for r :: "'a rtmp"
    using close_streams_returns [OF few Suc, of r 0 "length (lnk_streams r)"] that
    by (auto simp: well_def close_state_def RTMPSockBuf_Close_def)
  then show ?case using close_levels_empties [of ops "Suc d"] by (simp add: returns_to_def del: close_levels.simps)
qed


definition broken_net :: "unit net_ops" where
  "broken_net = \<lparr>net_send = \<lambda>c bs. (c, SendFailed 10054), net_recv = \<lambda>c n. (c, RecvFailed), net_close = \<lambda>c. c\<rparr>"


end
