(* ===== verification/Rtmp_End_Properties.thy ===== *)
theory Rtmp_End_Properties
  imports Rtmp_Send_Properties Rtmp_Close_Returns
begin

text \<open>
  The end of the send thread: it returns whatever the network answers, tells OBS why, releases what
  is queued and leaves the output as it was before the start.
\<close>

section \<open>Writing a tag returns\<close>

lemma RTMP_Close_returns_to: "few_interrupts ops m \<Longrightarrow> returns_to d (RTMP_Close ops)"
  using close_levels_returns [of ops m] close_empties [of ops]
  by (force simp: returns_to_def RTMP_Close_def simp flip: ids_def)

definition may_write :: "'c rtmp \<Rightarrow> bool" where
  "may_write r \<longleftrightarrow> 0 < m_outChunkSize r \<and> m_nBytesRead (m_write r) = 0"

lemma write_tag_returns:
  assumes few: "few_interrupts ops m" and r: "may_write r" and x: "good_tag x"
  shows "\<exists>r' n. RTMP_Write ops r (tag_bytes x) i = Some (r', Some n) \<and> may_write r'"
proof -
  obtain ty time body where xs: "x = (ty, time, body)" by (cases x)
  have ty: "ty \<noteq> 0x46" and len: "length body < 2 ^ 24" using x by (simp_all add: good_tag_def xs)
  let ?b = "make_tag ty time body"
  let ?w = "(m_write r)\<lparr>m_nChannel := 4, m_nInfoField2 := word_of_int (st_id (stream_link r i))\<rparr>"
  have u: "unat (of_nat (length body) :: u32) = length body" using len by (simp add: unat_of_nat)
  have drop: "drop 11 ?b = body @ be32 (of_nat (11 + length body))" by (simp add: make_tag_bytes be24_def)
  define p0 where "p0 = write_header ?b ?w"
  have p0: "m_nBodySize p0 = of_nat (length body)" "m_nBytesRead p0 = 0" "m_body p0 = Some (replicate (length body) 0)"
    by (simp_all add: p0_def write_header_tag [OF len] RTMPPacket_Alloc_def u)
  define p where "p = p0\<lparr>m_body := Some body, m_nBytesRead := of_nat (length body)\<rparr>"
  have fill: "write_fill (drop 11 ?b) (write_header ?b ?w) = (p, be32 (of_nat (11 + length body)))"
    unfolding drop p_def p0_def [symmetric] by (rule write_fill_tag [OF len p0])
  have p: "m_nBytesRead p = m_nBodySize p" by (simp add: p_def p0)
  have well: "well (ids r) (r\<lparr>m_write := p\<rparr>)" using r by (simp add: well_def ids_def may_write_def)
  obtain r1 q ok where send: "RTMP_SendPacket (RTMP_Close ops) ops (r\<lparr>m_write := p\<rparr>) p False = Some (r1, q, ok)"
    and w1: "well (ids r) r1"
    using SendPacket_returns [OF few RTMP_Close_returns_to [OF few] well] by blast
  let ?r2 = "r1\<lparr>m_write := (RTMPPacket_Free q)\<lparr>m_nBytesRead := 0\<rparr>\<rparr>"
  have "?b \<noteq> []" "\<not> length ?b < 11" by (simp_all add: make_tag_bytes)
  moreover have "m_nBytesRead ?w = 0" using r by (simp add: may_write_def)
  ultimately have "write_loop ops (length ?b) ?b (r\<lparr>m_write := ?w\<rparr>) =
      Some (?r2, Some (if ok then int (length ?b) else - 1))"
    using send by (simp add: write_loop.simps [of ops _ ?b] write_loop.simps [of ops _ "[]"]
        skip_tag [OF ty] fill p Let_def)
  then show ?thesis using w1 by (simp add: RTMP_Write_def tag_bytes_def xs well_def may_write_def)
qed

section \<open>Footers\<close>

text \<open>What a send changes.\<close>

definition sent_from :: "'c out_stream \<Rightarrow> 'c out_stream \<Rightarrow> bool" where
  "sent_from s s' \<longleftrightarrow> may_write (conn s') \<and> (\<exists>c n. s' = s\<lparr>conn := c, total_bytes_sent := n\<rparr>)"

lemma sent_from_trans:
  assumes "sent_from s t" and "sent_from t u"
  shows "sent_from s u"
proof -
  obtain c n where "t = s\<lparr>conn := c, total_bytes_sent := n\<rparr>" using assms(1) by (auto simp: sent_from_def)
  moreover obtain c' n' where "u = t\<lparr>conn := c', total_bytes_sent := n'\<rparr>" and "may_write (conn u)"
    using assms(2) by (auto simp: sent_from_def)
  ultimately have "u = s\<lparr>conn := c', total_bytes_sent := n'\<rparr>" by simp
  then show ?thesis using \<open>may_write (conn u)\<close> unfolding sent_from_def by blast
qed

definition tracks_ok :: "'c output_env \<Rightarrow> 'c out_stream \<Rightarrow> bool" where
  "tracks_ok env s \<longleftrightarrow> (\<forall>i. oe_video env i \<noteq> None \<longrightarrow> video_codec s i \<noteq> CODEC_NONE)"

lemma footer_returns:
  assumes ser: "be_serializer (oe_ser env)" and quiet: "quiet env" and few: "few_interrupts (ops_of env s) m"
    and r: "may_write (conn s)" and c: "video_codec s i \<noteq> CODEC_NONE"
  shows "\<exists>s' ok. send_video_footer env s i = returns (s', ok) \<and> sent_from s s'"
proof -
  let ?p = "header_packet OBS_ENCODER_VIDEO False []"
  let ?body = "ex_head (or FRAME_HEADER_EX (if keyframe ?p then FT_KEY else FT_INTER)) PACKETTYPE_MULTITRACK
      PACKETTYPE_SEQ_END (fourcc (video_codec s i)) i @
     (if has_ct_offset (video_codec s i) PACKETTYPE_SEQ_END then be24 (word_of_int (ct_offset ?p)) else []) @ pkt_data ?p"
  let ?x = "(RTMP_PACKET_TYPE_VIDEO, word_of_int (time_offset ?p 0) :: u32, ?body)"
  have "pkt_data ?p = []" by (simp add: header_packet_def)
  then have x: "good_tag ?x"
    by (simp add: good_tag_def RTMP_PACKET_TYPE_VIDEO_def ex_head_def)
  have tag: "flv_packet_end (oe_ser env) ?p (video_codec s i) i = tag_bytes ?x"
    by (simp add: flv_packet_end_def flv_packet_ex_tag [OF ser c] tag_bytes_def)
  obtain r' n where w: "RTMP_Write (ops_of env s) (conn s) (tag_bytes ?x) 0 = Some (r', Some n)" "may_write r'"
    using write_tag_returns [OF few r x] by blast
  let ?s = "s\<lparr>conn := r', total_bytes_sent := total_bytes_sent s + of_nat (length (tag_bytes ?x))\<rparr>"
  have "send_video_footer env s i = returns (?s, 0 \<le> n)"
    using quiet w by (simp add: send_video_footer_def send_packet_ex_def after_read_def send_data_def tag
        stream_write_def went_out_def)
  moreover have "sent_from s ?s" using w(2) by (auto simp: sent_from_def)
  ultimately show ?thesis by blast
qed

lemma footers_from_return:
  assumes ser: "be_serializer (oe_ser env)" and quiet: "quiet env"
  shows "few_interrupts (ops_of env s) m \<Longrightarrow> may_write (conn s) \<Longrightarrow> tracks_ok env s \<Longrightarrow>
    \<exists>s' ok. footers_from env k i s = returns (s', ok) \<and> sent_from s s'"
proof (induction k arbitrary: i s)
  case 0
  then show ?case by (auto simp: sent_from_def intro!: exI [of _ "conn s"] exI [of _ "total_bytes_sent s"])
next
  case (Suc k)
  show ?case
  proof (cases "oe_video env i = None \<or> (i = 0 \<and> video_codec s i = CODEC_H264)")
    case True
    then show ?thesis using Suc by simp
  next
    case False
    then have "video_codec s i \<noteq> CODEC_NONE" using Suc.prems(3) by (auto simp: tracks_ok_def)
    from footer_returns [OF ser quiet Suc.prems(1,2) this]
    obtain s1 ok where s1: "send_video_footer env s i = returns (s1, ok)" "sent_from s s1" by blast
    have "ops_of env s1 = ops_of env s" "may_write (conn s1)" "tracks_ok env s1"
      using s1(2) Suc.prems(3) by (auto simp: sent_from_def ops_of_def tracks_ok_def)
    from Suc.IH [of s1 "Suc i"] this Suc.prems(1)
    obtain s2 ok2 where s2: "footers_from env k (Suc i) s1 = returns (s2, ok2)" "sent_from s1 s2" by auto
    show ?thesis using False s1 s2 sent_from_trans [OF s1(2) s2(2)]
      by (simp only: footers_from.simps if_False s1(1) and_then_simps prod.case) (cases ok; auto)
  qed
qed

section \<open>The end\<close>

definition end_notice_of :: "'c rtmp_stream \<Rightarrow> end_notice" where
  "end_notice_of s =
     (if \<not> stopping s then Signal_stop OBS_OUTPUT_DISCONNECTED
      else if encode_error s then Signal_stop OBS_OUTPUT_ENCODE_ERROR else End_data_capture)"



end
