(* ===== verification/Rtmp_Connect_Properties.thy ===== *)
theory Rtmp_Connect_Properties
  imports Rtmp_Output Rtmp_Client_Properties
begin

text \<open>
  A connection attempt from its start: the address is set up, the handshake and the connect call go
  out, and the answers of the server are handled. What it promises is that the server never gets the
  client to write past the streams it has added.
\<close>

section \<open>The handshake and the connect call\<close>

definition unchanged :: "'c rtmp \<Rightarrow> 'c rtmp \<Rightarrow> bool" where
  "unchanged r r' \<longleftrightarrow> same_streams r r' \<and> m_methodCalls r' = m_methodCalls r"

lemma unchanged_refl [simp]: "unchanged r r"
  by (simp add: unchanged_def same_streams_def)

lemma unchanged_trans: "unchanged r r1 \<Longrightarrow> unchanged r1 r2 \<Longrightarrow> unchanged r r2"
  by (auto simp: unchanged_def same_streams_def)

lemma unchanged_chunk: "unchanged r r' \<Longrightarrow> 128 \<le> m_outChunkSize r \<Longrightarrow> 128 \<le> m_outChunkSize r'"
  by (simp add: unchanged_def same_streams_def)

lemma read_or_fail_cases:
  assumes "read_or_fail ops r n f = Some (r', True)" and "128 \<le> m_outChunkSize r"
  obtains r1 bs where "unchanged r r1" and "f r1 bs = Some (r', True)"
proof -
  obtain r1 res where rd: "read_loop ops n (r\<lparr>sb_timedout := False\<rparr>) [] = Some (r1, res)"
    and f: "(case res of None \<Rightarrow> Some (r1, False) | Some bs \<Rightarrow> f r1 bs) = Some (r', True)"
    using assms(1) by (auto simp: read_or_fail_def ReadN_def elim: bind_SomeE)
  then obtain bs where bs: "res = Some bs" "f r1 bs = Some (r', True)" by (cases res) auto
  have "unchanged (r\<lparr>sb_timedout := False\<rparr>) r1"
    using read_loop_kept [OF rd] assms(2) bs(1) by (simp add: unchanged_def)
  then have "unchanged r r1" by (simp add: unchanged_def same_streams_def)
  then show thesis using bs(2) by (rule that)
qed

lemma write_unchanged: "WriteN close ops r bs = Some (r', True) \<Longrightarrow> unchanged r r'"
  using WriteN_ok [of close ops r bs "(r', True)"] by (auto simp: unchanged_def same_streams_def)

lemma HandShake_unchanged:
  assumes "HandShake now rnd ops r = Some (r', True)" and k: "128 \<le> m_outChunkSize r"
  shows "unchanged r r'"
proof -
  obtain r1 where w: "WriteN (RTMP_Close ops) ops r (0x03 # client_signature now rnd) = Some (r1, True)"
    and a: "read_or_fail ops r1 1 (\<lambda>r2 ty. read_or_fail ops r2 RTMP_SIG_SIZE (\<lambda>r3 serversig.
            Option.bind (WriteN (RTMP_Close ops) ops r3 serversig) (\<lambda>(r4, wrote2).
              if \<not> wrote2 then Some (r4, False)
              else read_or_fail ops r4 RTMP_SIG_SIZE (\<lambda>r5 answer. Some (r5, True))))) = Some (r', True)"
    using assms(1) by (auto simp: HandShake_def bind_eq_Some_conv split: if_splits)
  have u1: "unchanged r r1" using write_unchanged [OF w] .
  from read_or_fail_cases [OF a unchanged_chunk [OF u1 k]] obtain r2 where u2: "unchanged r1 r2"
    and b: "read_or_fail ops r2 RTMP_SIG_SIZE (\<lambda>r3 serversig.
            Option.bind (WriteN (RTMP_Close ops) ops r3 serversig) (\<lambda>(r4, wrote2).
              if \<not> wrote2 then Some (r4, False)
              else read_or_fail ops r4 RTMP_SIG_SIZE (\<lambda>r5 answer. Some (r5, True)))) = Some (r', True)" by blast
  have u12: "unchanged r r2" using unchanged_trans [OF u1 u2] .
  from read_or_fail_cases [OF b unchanged_chunk [OF u12 k]] obtain r3 serversig where u3: "unchanged r2 r3"
    and c: "Option.bind (WriteN (RTMP_Close ops) ops r3 serversig) (\<lambda>(r4, wrote2).
              if \<not> wrote2 then Some (r4, False)
              else read_or_fail ops r4 RTMP_SIG_SIZE (\<lambda>r5 answer. Some (r5, True))) = Some (r', True)" by blast
  obtain r4 where w4: "WriteN (RTMP_Close ops) ops r3 serversig = Some (r4, True)"
    and d: "read_or_fail ops r4 RTMP_SIG_SIZE (\<lambda>r5 answer. Some (r5, True)) = Some (r', True)"
    using c by (auto simp: bind_eq_Some_conv split: if_splits)
  have u4: "unchanged r r4"
    using unchanged_trans [OF u12 unchanged_trans [OF u3 write_unchanged [OF w4]]] .
  from read_or_fail_cases [OF d unchanged_chunk [OF u4 k]] obtain r5 where "unchanged r4 r5" "r' = r5" by auto
  then show ?thesis using unchanged_trans [OF u4] by simp
qed

lemma send_message_unchanged:
  assumes "send_message close ops p False r = Some (r', True)"
  shows "unchanged r r'"
proof -
  obtain q where "RTMP_SendPacket close ops r p False = Some (r', q, True)"
    using assms by (auto simp: send_message_def)
  from SendPacket_stays(2) [OF this] show ?thesis by (auto simp: unchanged_def same_streams_def)
qed

lemma SendConnectPacket_sent:
  assumes "SendConnectPacket (RTMP_Close ops) ops r = Some (r', True)" and k: "128 \<le> m_outChunkSize r"
  shows "sent_as (Some (bytes_of ''connect'')) r r'"
proof -
  obtain r1 where first: "(if lnk_write r \<and> m_bSendChunkSizeInfo r
        then send_message (RTMP_Close ops) ops (chunk_size_packet r) False r else Some (r, True)) = Some (r1, True)"
    and rest: "(let r2 = r1\<lparr>m_numInvokes := m_numInvokes r1 + 1\<rparr>
         in case amf_steps (4096 - RTMP_MAX_HEADER_SIZE) (connect_steps r2) of
              None \<Rightarrow> Some (r2, False)
            | Some body \<Rightarrow> send_message (RTMP_Close ops) ops
                (message_packet 3 RTMP_PACKET_SIZE_LARGE RTMP_TYPE_INVOKE 0 0 body) True r2) = Some (r', True)"
    using assms(1) by (auto simp: SendConnectPacket_def bind_eq_Some_conv simp del: amf_steps.simps split: if_splits)
  define r2 where "r2 = r1\<lparr>m_numInvokes := m_numInvokes r1 + 1\<rparr>"
  have "unchanged r r1" using first by (auto split: if_splits intro: send_message_unchanged)
  then have u2: "unchanged r r2" by (simp add: unchanged_def same_streams_def r2_def)
  obtain body where body: "amf_steps (4096 - RTMP_MAX_HEADER_SIZE) (connect_steps r2) = Some body"
    and send: "send_message (RTMP_Close ops) ops
       (message_packet 3 RTMP_PACKET_SIZE_LARGE RTMP_TYPE_INVOKE 0 0 body) True r2 = Some (r', True)"
    using rest by (auto simp: Let_def simp del: amf_steps.simps simp flip: r2_def split: option.splits)
  obtain rest where "connect_steps r2 = step_string (bytes_of ''connect'') # rest"
    by (simp add: connect_steps_def)
  then have "\<exists>rest. body = call_bytes (bytes_of ''connect'') @ rest"
    using body by (auto simp: step_string_def bytes_of_def bind_eq_Some_conv dest!: encode_name [rotated])
  then have named: "calls_as (bytes_of ''connect'') (message_packet 3 RTMP_PACKET_SIZE_LARGE RTMP_TYPE_INVOKE 0 0 body)"
    by (auto simp: calls_as_def message_packet_def bytes_of_def)
  have "sent_as (Some (bytes_of ''connect'')) r2 r'"
    using send_message_kept [OF send close_closes(1) unchanged_chunk [OF u2 k] named] by simp
  then show ?thesis using u2 by (auto simp: unchanged_def intro: sent_as_from)
qed

lemma failed_close_False: "failed_close ops r = Some (r', ok) \<Longrightarrow> \<not> ok"
  by (auto simp: failed_close_def)

lemma RTMP_Connect1_sent:
  assumes "RTMP_Connect1 now rnd ops r = Some (r', True)" and k: "128 \<le> m_outChunkSize r"
  shows "sent_as (Some (bytes_of ''connect'')) r r'"
proof -
  obtain r1 where h: "HandShake now rnd ops r = Some (r1, True)"
    and rest: "Option.bind (SendConnectPacket (RTMP_Close ops) ops r1) (\<lambda>(r2, sent).
          if \<not> sent then failed_close ops r2 else Some (r2, True)) = Some (r', True)"
    using assms(1) failed_close_False by (fastforce simp: RTMP_Connect1_def bind_eq_Some_conv split: if_splits)
  have "SendConnectPacket (RTMP_Close ops) ops r1 = Some (r', True)"
    using rest failed_close_False by (fastforce simp: bind_eq_Some_conv split: if_splits)
  note sent = SendConnectPacket_sent [OF this unchanged_chunk [OF HandShake_unchanged [OF h k] k]]
  show ?thesis using sent HandShake_unchanged [OF h k] by (auto simp: unchanged_def intro: sent_as_from)
qed

lemma RTMP_Connect_sent:
  assumes "RTMP_Connect con now rnd ops r = Some (Some (r', True))" and k: "128 \<le> m_outChunkSize r"
  shows "\<exists>c. sent_as (Some (bytes_of ''connect'')) ((RTMP_Connect0 c r)\<lparr>m_bSendCounter := True\<rparr>) r'"
proof -
  obtain host where h: "get_hostname (lnk_hostname r) = Some host"
    using assms(1) by (auto simp: RTMP_Connect_def split: option.splits)
  obtain c where c: "con host (lnk_port r) = Inr c"
    using assms(1) failed_close_False by (cases "con host (lnk_port r)") (fastforce simp: RTMP_Connect_def h)+
  let ?r = "(RTMP_Connect0 c r)\<lparr>m_bSendCounter := True\<rparr>"
  have "RTMP_Connect1 now rnd ops ?r = Some (r', True)"
    using assms(1) failed_close_False by (fastforce simp: RTMP_Connect_def h c bind_eq_Some_conv split: if_splits)
  moreover have "128 \<le> m_outChunkSize ?r" using k by (simp add: RTMP_Connect0_def)
  ultimately show ?thesis using RTMP_Connect1_sent by blast
qed

section \<open>A connection attempt\<close>

lemma SetupURL_fields:
  "m_methodCalls (fst (RTMP_SetupURL r url)) = m_methodCalls r"
  "lnk_curStreamIdx (fst (RTMP_SetupURL r url)) = lnk_curStreamIdx r"
  by (simp_all add: RTMP_SetupURL_def Let_def)

lemma Init_fields: "m_methodCalls (RTMP_Init c) = []" "lnk_curStreamIdx (RTMP_Init c) = 0"
  by (simp_all add: RTMP_Init_def RTMP_Reset_def)

lemma prepared_fields:
  assumes "prepared ce s r0 = Some r"
  shows "m_outChunkSize r = 4096" "m_methodCalls r = m_methodCalls r0" "lnk_curStreamIdx r = lnk_curStreamIdx r0"
  using assms by (auto simp: prepared_def RTMP_AddStream_def RTMP_EnableWrite_def Let_def)

lemma connected_ok:
  assumes con: "RTMP_Connect con now rnd ops r = Some (Some (r', True))"
    and r: "m_outChunkSize r = 4096" "m_methodCalls r = []" "lnk_curStreamIdx r = 0"
  shows "streams_ok r'"
proof -
  obtain c where "sent_as (Some (bytes_of ''connect'')) ((RTMP_Connect0 c r)\<lparr>m_bSendCounter := True\<rparr>) r'"
    using RTMP_Connect_sent [OF con] r(1) by auto
  then show ?thesis
    using r by (auto simp: streams_ok_def sent_as_def same_streams_def waiting_def RTMP_Connect0_def bytes_of_def)
qed

lemma ConnectStream_within:
  assumes "streams_ok r" and "RTMP_ConnectStream amf ops r = Some (r', res)"
  shows "res \<noteq> LoopStopped BeyondStreams"
proof -
  have "streams_ok (r\<lparr>m_mediaChannel := 0\<rparr>)" using assms(1) by (simp add: streams_ok_def waiting_def)
  then show ?thesis
    using connect_loop_ok [of amf ops _ packet_zero] assms(2) unfolding RTMP_ConnectStream_def by fastforce
qed

text \<open>Nothing but the handlers of the connection stops in a handler.\<close>

definition no_handler :: "'a outcome \<Rightarrow> bool" where
  "no_handler m \<longleftrightarrow> (\<forall>h. m \<noteq> Some (Inl (Handler h)))"

lemma no_handler_returns [simp]: "no_handler (returns a)"
  by (simp add: no_handler_def returns_def)

lemma no_handler_and_then:
  "no_handler m \<Longrightarrow> (\<And>a. no_handler (f a)) \<Longrightarrow> no_handler (and_then m f)"
  by (auto simp: no_handler_def and_then_def bind_eq_Some_conv split: sum.splits)

lemma no_handler_close [simp]: "no_handler (close_conn env s)"
  by (auto simp: no_handler_def close_conn_def returns_def bind_eq_Some_conv)

lemma no_handler_write [simp]: "no_handler (stream_write env s bs)"
  by (auto simp: no_handler_def stream_write_def returns_def bind_eq_Some_conv split: option.splits)

lemma no_handler_pair: "no_handler m \<Longrightarrow> (\<And>a b. no_handler (f a b)) \<Longrightarrow> no_handler (and_then m (\<lambda>(a, b). f a b))"
  by (rule no_handler_and_then) (simp_all split: prod.split)

lemma no_handler_meta: "no_handler (send_meta_data env s)"
proof (cases "flv_meta_data (oe_ser env) (oe_info env) False")
  case None
  then show ?thesis by (simp add: send_meta_data_def no_handler_def)
next
  case (Some meta)
  then show ?thesis by (simp add: send_meta_data_def no_handler_pair)
qed

lemma no_handler_loop: "no_handler (init_socket_loop env gr s)"
  by (simp add: init_socket_loop_def Let_def no_handler_and_then)

lemma no_handler_send [simp]: "no_handler (init_send env gr s)"
proof -
  have "no_handler (if \<not> ok then returns (t, OBS_OUTPUT_ERROR)
      else and_then (send_meta_data env (t\<lparr>active_s := True\<rparr>)) (\<lambda>(s2, sent).
        returns (s2, if sent then OBS_OUTPUT_SUCCESS else OBS_OUTPUT_DISCONNECTED)))" for t ok
    by (simp add: no_handler_pair [OF no_handler_meta])
  then show ?thesis
    unfolding init_send_def Let_def
    by (cases "gr_send_thread gr") (simp_all add: no_handler_and_then no_handler_pair [OF no_handler_loop])
qed


section \<open>A start that is refused at once\<close>

text \<open>Without a service the thread ends, but the output is connecting still.\<close>

lemma refused_start_keeps_connecting:
  assumes "os_service os = None"
  shows "\<exists>s'. connect_thread ce env os gr (rtmp_stream_start s) =
    returns (s', Some OBS_OUTPUT_BAD_PATH, packets s) \<and> connecting s'"
  using assms
  by (auto simp: connect_thread_def init_connect_def free_packets_def rtmp_stream_start_def
      intro!: exI [of _ "s\<lparr>connecting := True, packets := []\<rparr>"])

end
