(* ===== verification/Bit_Lists.thy ===== *)
theory Bit_Lists
  imports Prelude
begin

text \<open>
  Bytes as bits, the most significant first: what the bit readers of \<open>src/rtmp/rtmp-av1.c\<close> and
  \<open>src/rtmp/rtmp-hevc.c\<close> read, and the fields of a bit stream as a writer puts them together.
\<close>

section \<open>Bits and numbers\<close>

definition byte_bits :: "byte \<Rightarrow> bool list" where
  "byte_bits b = map (\<lambda>k. bit b (7 - k)) [0..<8]"

definition bits_of :: "byte list \<Rightarrow> bool list" where
  "bits_of bs = concat (map byte_bits bs)"

definition bits_word :: "bool list \<Rightarrow> 'a::len word" where
  "bits_word bs = horner_sum of_bool 2 (rev bs)"

lemma byte_u32 [simp]: "(ucast (ucast b :: u32) :: byte) = b"
  by (rule bit_word_eqI) (auto simp: bit_simps dest: bit_imp_le_length)

lemma flag_ucast [simp]: "(ucast (of_bool b :: u32) :: byte) = of_bool b"
  by simp

lemma byte_u32_eq: "(ucast a :: u32) = ucast b \<longleftrightarrow> a = b" for a b :: byte
  by (metis byte_u32)

text \<open>The field of \<open>n\<close> bits that holds \<open>w\<close>.\<close>

definition field :: "nat \<Rightarrow> 'a::len word \<Rightarrow> bool list" where
  "field n w = map (bit w) (rev [0..<n])"

lemma byte_bits_length [simp]: "length (byte_bits b) = 8"
  by (simp add: byte_bits_def)

lemma bits_of_simps [simp]:
  "bits_of [] = []" "bits_of (b # bs) = byte_bits b @ bits_of bs" "bits_of (xs @ ys) = bits_of xs @ bits_of ys"
  by (simp_all add: bits_of_def)

lemma bits_of_length [simp]: "length (bits_of bs) = 8 * length bs"
  by (induction bs) simp_all

lemma field_length [simp]: "length (field n w) = n"
  by (simp add: field_def)

lemma bit_bits_word:
  "bit (bits_word bs :: 'a::len word) k \<longleftrightarrow> k < LENGTH('a) \<and> k < length bs \<and> bs ! (length bs - Suc k)"
  by (auto simp: bits_word_def bit_horner_sum_bit_word_iff rev_nth)

lemma bit_less:
  fixes w :: "'a::len word"
  assumes "w < 2 ^ n" and "n < LENGTH('a)" and "n \<le> k"
  shows "\<not> bit w k"
proof -
  have "unat (of_nat (2 ^ n) :: 'a word) = 2 ^ n"
    unfolding unsigned_of_nat using assms(2) by (simp add: take_bit_nat_eq_self)
  then have "unat w < 2 ^ n" using assms(1) by (simp add: word_less_nat_alt)
  also have "(2 :: nat) ^ n \<le> 2 ^ k" using assms(3) by simp
  finally have "\<not> bit (unat w) k" by (simp add: bit_iff_odd)
  then show ?thesis by (simp add: bit_unsigned_iff)
qed

lemma bits_word_field [simp]: "w < 2 ^ n \<or> LENGTH('a) \<le> n \<Longrightarrow> bits_word (field n w) = (w :: 'a::len word)"
proof (rule bit_word_eqI)
  fix k assume w: "w < 2 ^ n \<or> LENGTH('a) \<le> n" and k: "k < LENGTH('a)"
  have high: "\<not> bit w k" if "n \<le> k" using bit_less [of w n k] w k that by auto
  show "bit (bits_word (field n w) :: 'a word) k \<longleftrightarrow> bit w k"
    using k high by (cases "n \<le> k") (auto simp: bit_bits_word field_def rev_nth)
qed

lemma bits_word_snoc: "bits_word (bs @ [b]) = (or (push_bit 1 (bits_word bs)) (of_bool b) :: 'a::len word)"
proof (rule bit_word_eqI)
  fix k assume "k < LENGTH('a)"
  then show "bit (bits_word (bs @ [b]) :: 'a word) k \<longleftrightarrow> bit (or (push_bit 1 (bits_word bs)) (of_bool b) :: 'a word) k"
    by (cases k) (simp_all only: bit_or_iff bit_push_bit_iff bit_of_bool_iff bit_bits_word, auto simp: nth_append)
qed

lemma bits_word_Nil [simp]: "bits_word [] = 0"
  by (simp add: bits_word_def)

lemma bits_word_single [simp]: "bits_word [b] = (of_bool b :: 'a::len word)"
  by (simp add: bits_word_def)

lemma nth_bits_of: "i < 8 * length bs \<Longrightarrow> bits_of bs ! i \<longleftrightarrow> bit (bs ! (i div 8)) (7 - i mod 8)"
proof (induction bs arbitrary: i)
  case Nil
  then show ?case by simp
next
  case (Cons b bs)
  show ?case
  proof (cases "i < 8")
    case True
    then show ?thesis by (simp add: nth_append byte_bits_def)
  next
    case False
    then have "i div 8 = Suc ((i - 8) div 8)" "i mod 8 = (i - 8) mod 8"
      by (simp_all add: le_div_geq le_mod_geq)
    then show ?thesis using False Cons.IH [of "i - 8"] Cons.prems by (simp add: nth_append)
  qed
qed

lemma bits_word_byte [simp]: "(bits_word (byte_bits b) :: u32) = ucast b"
proof (rule bit_word_eqI)
  fix k
  show "bit (bits_word (byte_bits b) :: u32) k \<longleftrightarrow> bit (ucast b :: u32) k"
    by (cases "k < 8") (auto simp: bit_bits_word byte_bits_def bit_simps dest: bit_imp_le_length)
qed

lemma bits_of_drop: "bits_of (drop m bs) = drop (8 * m) (bits_of bs)"
proof (induction bs arbitrary: m)
  case Nil
  then show ?case by simp
next
  case (Cons b bs)
  then show ?case by (cases m) simp_all
qed

lemma byte_index: "d < 8 \<Longrightarrow> (8 * m + d) div 8 = m \<and> (8 * m + d) mod 8 = d" for d m :: nat
  by simp

lemma bits_of_byte:
  assumes "k < length bs" and "n < 8"
  shows "bits_of bs ! (8 * k + (7 - n)) \<longleftrightarrow> bit (bs ! k) n"
proof -
  define d where "d = 7 - n"
  have d: "d < 8" "7 - d = n" using assms(2) by (simp_all add: d_def)
  then have "bits_of bs ! (8 * k + d) \<longleftrightarrow> bit (bs ! k) (7 - d)"
    using nth_bits_of [of "8 * k + d" bs] byte_index [of d k] assms(1) by simp
  then show ?thesis unfolding d(2) by (simp only: d_def)
qed

lemma field_byte [simp]: "field 8 (b :: byte) = byte_bits b"
  by (rule nth_equalityI) (simp_all add: field_def byte_bits_def rev_nth)

lemma field_add: "field (m + n) w = field m (drop_bit n w) @ field n w"
  by (rule nth_equalityI) (auto simp: field_def nth_append rev_nth bit_drop_bit_eq add.commute)

end
