(* ===== verification/Av1.thy ===== *)
theory Av1
  imports Packets Bit_Lists "HOL-Library.State_Monad"
begin

text \<open>
  The AV1 half of the output: \<open>src/rtmp/rtmp-av1.c\<close>, which reads the open bitstream units (OBUs) of the
  encoder, makes the configuration record of the sequence header and takes out what an FLV tag does not
  carry. The reader is a state monad over the bytes from its buffer to the end of the packet: the size
  that was set bounds the position, as in C, and not the bytes. A read behind the packet and a loop that
  does not end are flags of the reader, which \<open>with_bits\<close> makes the result of the call. Logging and the
  operating point identifiers the code throws away are left out.
\<close>

section \<open>The bit reader\<close>

record av1_bits =
  gb_mem :: "byte list"
  gb_index :: nat
  gb_size :: nat
  gb_over :: bool
  gb_stuck :: bool

datatype parse_fault = Overread | Endless

definition get_bit1 :: "(av1_bits, u32) state" where
  "get_bit1 = State (\<lambda>s.
     let i = gb_index s;
         b = (if i div 8 < length (gb_mem s) then gb_mem s ! (i div 8) else 0)
     in (ucast (drop_bit 7 (push_bit (i mod 8) b)),
         s\<lparr>gb_index := (if i < gb_size s + 8 then Suc i else i), gb_over := gb_over s \<or> length (gb_mem s) \<le> i div 8\<rparr>))"

fun get_bits_from :: "nat \<Rightarrow> u32 \<Rightarrow> (av1_bits, u32) state" where
  "get_bits_from 0 acc = State_Monad.return acc"
| "get_bits_from (Suc n) acc = do { b \<leftarrow> get_bit1; get_bits_from n (or (push_bit 1 acc) b) }"

definition get_bits :: "nat \<Rightarrow> (av1_bits, u32) state" where
  "get_bits n = get_bits_from n 0"

definition get_bits_count :: "(av1_bits, nat) state" where
  "get_bits_count = do { s \<leftarrow> State_Monad.get; State_Monad.return (gb_index s) }"

definition get_bits_left :: "(av1_bits, int) state" where
  "get_bits_left = do { s \<leftarrow> State_Monad.get; State_Monad.return (int (gb_size s) - int (gb_index s)) }"

text \<open>\<open>init_get_bits\<close>: sizes near the largest \<open>int\<close> are refused, before anything is read.\<close>

definition init_ok :: "nat \<Rightarrow> bool" where
  "init_ok bits \<longleftrightarrow> bits < 2 ^ 31 - 1 - 64 * 8"

definition with_bits :: "byte list \<Rightarrow> nat \<Rightarrow> (av1_bits, 'a) state \<Rightarrow> parse_fault + 'a" where
  "with_bits buf bits m =
     (case run_state m \<lparr>gb_mem = buf, gb_index = 0, gb_size = bits, gb_over = False, gb_stuck = False\<rparr> of (x, s) \<Rightarrow>
        if gb_over s then Inl Overread else if gb_stuck s then Inl Endless else Inr x)"

fun leb128_from :: "nat \<Rightarrow> nat \<Rightarrow> u64 \<Rightarrow> (av1_bits, u64) state" where
  "leb128_from 0 i acc = State_Monad.return acc"
| "leb128_from (Suc k) i acc = do {
     b \<leftarrow> get_bits 8;
     let r = or acc (push_bit (7 * i) (ucast (and b 0x7f)));
     if and b 0x80 = 0 then State_Monad.return r else leb128_from k (Suc i) r }"

definition leb128 :: "(av1_bits, u64) state" where
  "leb128 = leb128_from 8 0 0"

text \<open>
  The loop of \<open>uvlc\<close> ends at a one or where no bit is left. A reader that is past its end already never
  comes to that point; its position stops eight bits behind the end, so that \<open>gb_size + 9\<close> rounds tell
  whether the loop ends.
\<close>

fun uvlc_zeros :: "nat \<Rightarrow> nat \<Rightarrow> (av1_bits, nat) state" where
  "uvlc_zeros 0 n = State (\<lambda>s. (n, s\<lparr>gb_stuck := True\<rparr>))"
| "uvlc_zeros (Suc k) n = do {
     left \<leftarrow> get_bits_left;
     if left = 0 then State_Monad.return n
     else do { b \<leftarrow> get_bits 1; if b \<noteq> 0 then State_Monad.return n else uvlc_zeros k (Suc n) } }"

definition uvlc :: "(av1_bits, u32) state" where
  "uvlc = do {
     s \<leftarrow> State_Monad.get;
     zeros \<leftarrow> uvlc_zeros (gb_size s + 9) 0;
     if zeros \<ge> 32 then State_Monad.return 0 else get_bits zeros }"

section \<open>OBU headers\<close>

definition AV1_OBU_SEQUENCE_HEADER :: u32 where "AV1_OBU_SEQUENCE_HEADER = 1"
definition AV1_OBU_TEMPORAL_DELIMITER :: u32 where "AV1_OBU_TEMPORAL_DELIMITER = 2"
definition AV1_OBU_FRAME_HEADER :: u32 where "AV1_OBU_FRAME_HEADER = 3"
definition AV1_OBU_TILE_GROUP :: u32 where "AV1_OBU_TILE_GROUP = 4"
definition AV1_OBU_METADATA :: u32 where "AV1_OBU_METADATA = 5"
definition AV1_OBU_FRAME :: u32 where "AV1_OBU_FRAME = 6"
definition AV1_OBU_REDUNDANT_FRAME_HEADER :: u32 where "AV1_OBU_REDUNDANT_FRAME_HEADER = 7"
definition AV1_OBU_TILE_LIST :: u32 where "AV1_OBU_TILE_LIST = 8"

definition MAX_OBU_HEADER_SIZE :: nat where "MAX_OBU_HEADER_SIZE = 2 + 8"

lemmas obu_types = AV1_OBU_SEQUENCE_HEADER_def AV1_OBU_TEMPORAL_DELIMITER_def AV1_OBU_FRAME_HEADER_def
  AV1_OBU_TILE_GROUP_def AV1_OBU_METADATA_def AV1_OBU_FRAME_def AV1_OBU_REDUNDANT_FRAME_HEADER_def
  AV1_OBU_TILE_LIST_def

record obu =
  obu_type :: u32
  obu_size :: nat
  obu_start :: nat
  obu_len :: nat

text \<open>Type and size, behind the forbidden bit.\<close>

definition read_obu_fields :: "nat \<Rightarrow> (av1_bits, u32 \<times> u64) state" where
  "read_obu_fields buf_size = do {
     ty \<leftarrow> get_bits 4;
     extension_flag \<leftarrow> get_bits 1;
     has_size_flag \<leftarrow> get_bits 1;
     _ \<leftarrow> get_bits 1;
     _ \<leftarrow> (if extension_flag \<noteq> 0 then do { _ \<leftarrow> get_bits 3; _ \<leftarrow> get_bits 2; get_bits 3 } else State_Monad.return 0);
     len \<leftarrow> (if has_size_flag \<noteq> 0 then leb128 else State_Monad.return (of_nat buf_size - 1 - ucast extension_flag));
     State_Monad.return (ty, len) }"

text \<open>What is left of the packet is both the buffer and its size. \<open>None\<close> is the negative result.\<close>

definition read_obu_header :: "nat \<Rightarrow> (av1_bits, obu option) state" where
  "read_obu_header buf_size = do {
     forbidden \<leftarrow> get_bits 1;
     if forbidden \<noteq> 0 then State_Monad.return None else do {
     (ty, len) \<leftarrow> read_obu_fields buf_size;
     left \<leftarrow> get_bits_left;
     if left < 0 then State_Monad.return None else do {
     pos \<leftarrow> get_bits_count;
     let start = pos div 8;
     let total = len + of_nat start;
     State_Monad.return
       (if total > of_nat buf_size then None
        else Some \<lparr>obu_type = ty, obu_size = unat len, obu_start = start, obu_len = unat total\<rparr>) } } }"

definition parse_obu_header :: "byte list \<Rightarrow> parse_fault + obu option" where
  "parse_obu_header buf =
     with_bits buf (8 * min (length buf) MAX_OBU_HEADER_SIZE) (read_obu_header (length buf))"

fun strip_zeros :: "byte list \<Rightarrow> nat \<Rightarrow> nat" where
  "strip_zeros buf 0 = 0"
| "strip_zeros buf (Suc n) = (if buf ! n = 0 then strip_zeros buf n else Suc n)"

definition ctz32 :: "byte \<Rightarrow> nat" where
  "ctz32 v = length (takeWhile Not (map (bit v) [0..<8]))"

definition get_obu_bit_length :: "byte list \<Rightarrow> nat \<Rightarrow> u32 \<Rightarrow> nat option" where
  "get_obu_bit_length buf sz ty =
     (if ty \<in> {AV1_OBU_TILE_GROUP, AV1_OBU_TILE_LIST, AV1_OBU_FRAME} then
        (if sz > (2 ^ 31 - 1) div 8 then None else Some (8 * sz))
      else
        let n = strip_zeros buf sz
        in if n = 0 then Some 0
           else if n > (2 ^ 31 - 1) div 8 then None
           else Some (8 * n - (ctz32 (buf ! (n - 1)) + 1)))"

section \<open>The sequence header\<close>

definition FF_PROFILE_AV1_MAIN :: byte where "FF_PROFILE_AV1_MAIN = 0"
definition FF_PROFILE_AV1_HIGH :: byte where "FF_PROFILE_AV1_HIGH = 1"
definition FF_PROFILE_AV1_PROFESSIONAL :: byte where "FF_PROFILE_AV1_PROFESSIONAL = 2"

record AV1SequenceParameters =
  profile :: byte
  level :: byte
  tier :: byte
  bitdepth :: byte
  monochrome :: byte
  chroma_subsampling_x :: byte
  chroma_subsampling_y :: byte
  chroma_sample_position :: byte
  color_description_present_flag :: byte
  color_primaries :: byte
  transfer_characteristics :: byte
  matrix_coefficients :: byte
  color_range :: byte

definition seq_zero :: AV1SequenceParameters where
  "seq_zero = \<lparr>profile = 0, level = 0, tier = 0, bitdepth = 0, monochrome = 0, chroma_subsampling_x = 0,
     chroma_subsampling_y = 0, chroma_sample_position = 0, color_description_present_flag = 0,
     color_primaries = 0, transfer_characteristics = 0, matrix_coefficients = 0, color_range = 0\<rparr>"

definition color_description :: "AV1SequenceParameters \<Rightarrow> (av1_bits, AV1SequenceParameters) state" where
  "color_description q = do {
     present \<leftarrow> get_bits 1;
     if present \<noteq> 0 then do {
       pri \<leftarrow> get_bits 8;
       trc \<leftarrow> get_bits 8;
       mat \<leftarrow> get_bits 8;
       State_Monad.return (q\<lparr>color_description_present_flag := ucast present, color_primaries := ucast pri,
         transfer_characteristics := ucast trc, matrix_coefficients := ucast mat\<rparr>) }
     else State_Monad.return (q\<lparr>color_description_present_flag := 0, color_primaries := 2,
         transfer_characteristics := 2, matrix_coefficients := 2\<rparr>) }"

definition chroma_subsampling :: "bool \<Rightarrow> AV1SequenceParameters \<Rightarrow> (av1_bits, AV1SequenceParameters) state" where
  "chroma_subsampling twelve_bit q =
     (if profile q = FF_PROFILE_AV1_MAIN
      then State_Monad.return (q\<lparr>chroma_subsampling_x := 1, chroma_subsampling_y := 1\<rparr>)
      else if profile q = FF_PROFILE_AV1_HIGH
      then State_Monad.return (q\<lparr>chroma_subsampling_x := 0, chroma_subsampling_y := 0\<rparr>)
      else if twelve_bit then do {
        x \<leftarrow> get_bits 1;
        y \<leftarrow> (if x \<noteq> 0 then get_bits 1 else State_Monad.return 0);
        State_Monad.return (q\<lparr>chroma_subsampling_x := ucast x, chroma_subsampling_y := ucast y\<rparr>) }
      else State_Monad.return (q\<lparr>chroma_subsampling_x := 1, chroma_subsampling_y := 0\<rparr>))"

definition parse_color_config :: "AV1SequenceParameters \<Rightarrow> (av1_bits, AV1SequenceParameters) state" where
  "parse_color_config q0 = do {
     high_bitdepth \<leftarrow> get_bits 1;
     twelve_bit \<leftarrow> (if profile q0 = FF_PROFILE_AV1_PROFESSIONAL \<and> high_bitdepth \<noteq> 0 then get_bits 1
       else State_Monad.return 0);
     let q1 = q0\<lparr>bitdepth := 8 + ucast high_bitdepth * 2 + ucast twelve_bit * 2\<rparr>;
     mono \<leftarrow> (if profile q1 = FF_PROFILE_AV1_HIGH then State_Monad.return 0 else get_bits 1);
     q2 \<leftarrow> color_description (q1\<lparr>monochrome := ucast mono\<rparr>);
     if mono \<noteq> 0 then do {
       range \<leftarrow> get_bits 1;
       State_Monad.return (q2\<lparr>color_range := ucast range, chroma_subsampling_x := 1, chroma_subsampling_y := 1,
         chroma_sample_position := 0\<rparr>) }
     else do {
       q4 \<leftarrow> (if color_primaries q2 = 1 \<and> transfer_characteristics q2 = 13 \<and> matrix_coefficients q2 = 0
         then State_Monad.return (q2\<lparr>chroma_subsampling_x := 0, chroma_subsampling_y := 0\<rparr>)
         else do {
           range \<leftarrow> get_bits 1;
           q3 \<leftarrow> chroma_subsampling (twelve_bit \<noteq> 0) (q2\<lparr>color_range := ucast range\<rparr>);
           if chroma_subsampling_x q3 \<noteq> 0 \<and> chroma_subsampling_y q3 \<noteq> 0
           then do { pos \<leftarrow> get_bits 2; State_Monad.return (q3\<lparr>chroma_sample_position := ucast pos\<rparr>) }
           else State_Monad.return q3 });
       _ \<leftarrow> get_bits 1;
       State_Monad.return q4 } }"

text \<open>
  The timing information: whether a decoder model follows, and the length of its delays.
\<close>

definition timing_info :: "(av1_bits, bool \<times> nat) state" where
  "timing_info = do {
     _ \<leftarrow> get_bits 32;
     _ \<leftarrow> get_bits 32;
     equal \<leftarrow> get_bits 1;
     _ \<leftarrow> (if equal \<noteq> 0 then uvlc else State_Monad.return 0);
     model \<leftarrow> get_bits 1;
     if model \<noteq> 0 then do {
       len \<leftarrow> get_bits 5;
       _ \<leftarrow> get_bits 32;
       _ \<leftarrow> get_bits 10;
       State_Monad.return (True, unat len) }
     else State_Monad.return (False, 0) }"

text \<open>The loop over the operating points; the first one gives level and tier.\<close>

fun operating_points ::
  "nat \<Rightarrow> bool \<Rightarrow> bool \<times> nat \<Rightarrow> bool \<Rightarrow> AV1SequenceParameters \<Rightarrow> (av1_bits, AV1SequenceParameters) state" where
  "operating_points 0 first model display q = State_Monad.return q"
| "operating_points (Suc k) first model display q = do {
     _ \<leftarrow> get_bits 12;
     idx \<leftarrow> get_bits 5;
     t \<leftarrow> (if idx > 7 then get_bits 1 else State_Monad.return 0);
     _ \<leftarrow> (if fst model then do {
         present \<leftarrow> get_bits 1;
         if present \<noteq> 0 then do { _ \<leftarrow> get_bits (snd model + 1); _ \<leftarrow> get_bits (snd model + 1); get_bits 1 }
         else State_Monad.return 0 }
       else State_Monad.return 0);
     _ \<leftarrow> (if display then do {
         present \<leftarrow> get_bits 1;
         if present \<noteq> 0 then get_bits 4 else State_Monad.return 0 }
       else State_Monad.return 0);
     operating_points k False model display (if first then q\<lparr>level := ucast idx, tier := ucast t\<rparr> else q) }"

definition level_and_tier :: "AV1SequenceParameters \<Rightarrow> (av1_bits, AV1SequenceParameters) state" where
  "level_and_tier q = do {
     timing \<leftarrow> get_bits 1;
     model \<leftarrow> (if timing \<noteq> 0 then timing_info else State_Monad.return (False, 0));
     display \<leftarrow> get_bits 1;
     count \<leftarrow> get_bits 5;
     operating_points (unat count + 1) True model (display \<noteq> 0) q }"

definition skip_tools :: "(av1_bits, u32) state" where
  "skip_tools = do {
     _ \<leftarrow> get_bits 4;
     order_hint \<leftarrow> get_bits 1;
     _ \<leftarrow> (if order_hint \<noteq> 0 then get_bits 2 else State_Monad.return 0);
     chosen \<leftarrow> get_bits 1;
     force \<leftarrow> (if chosen \<noteq> 0 then State_Monad.return 2 else get_bits 1);
     _ \<leftarrow> (if force \<noteq> 0 then do {
         choose_mv \<leftarrow> get_bits 1;
         if choose_mv = 0 then get_bits 1 else State_Monad.return 0 }
       else State_Monad.return 0);
     if order_hint \<noteq> 0 then get_bits 3 else State_Monad.return 0 }"

definition read_sequence_fields :: "(av1_bits, AV1SequenceParameters) state" where
  "read_sequence_fields = do {
     prof \<leftarrow> get_bits 3;
     _ \<leftarrow> get_bits 1;
     reduced \<leftarrow> get_bits 1;
     let q0 = seq_zero\<lparr>profile := ucast prof\<rparr>;
     q1 \<leftarrow> (if reduced \<noteq> 0
       then do { lev \<leftarrow> get_bits 5; State_Monad.return (q0\<lparr>level := ucast lev, tier := 0\<rparr>) }
       else level_and_tier q0);
     width_bits \<leftarrow> get_bits 4;
     height_bits \<leftarrow> get_bits 4;
     _ \<leftarrow> get_bits (unat width_bits + 1);
     _ \<leftarrow> get_bits (unat height_bits + 1);
     _ \<leftarrow> (if reduced = 0 then do {
         ids \<leftarrow> get_bits 1;
         if ids \<noteq> 0 then get_bits 7 else State_Monad.return 0 }
       else State_Monad.return 0);
     _ \<leftarrow> get_bits 3;
     _ \<leftarrow> (if reduced = 0 then skip_tools else State_Monad.return 0);
     _ \<leftarrow> get_bits 3;
     q2 \<leftarrow> parse_color_config q1;
     _ \<leftarrow> get_bits 1;
     State_Monad.return q2 }"

text \<open>All bits before the trailing one have to be used.\<close>

definition read_sequence_header :: "(av1_bits, AV1SequenceParameters option) state" where
  "read_sequence_header = do {
     q \<leftarrow> read_sequence_fields;
     left \<leftarrow> get_bits_left;
     State_Monad.return (if left \<noteq> 0 then None else Some q) }"

text \<open>\<open>buf\<close> goes on behind the header to the end of the packet.\<close>

definition parse_sequence_header :: "byte list \<Rightarrow> nat \<Rightarrow> parse_fault + AV1SequenceParameters option" where
  "parse_sequence_header buf sz =
     (case get_obu_bit_length buf sz AV1_OBU_SEQUENCE_HEADER of
        None \<Rightarrow> Inr None
      | Some bits \<Rightarrow> if \<not> init_ok bits then Inr None else with_bits buf bits read_sequence_header)"

end
