(* ===== verification/Av1_Packet.thy ===== *)
theory Av1_Packet
  imports Av1
begin

text \<open>
  The two operations of \<open>src/rtmp/rtmp-av1.c\<close> the output calls: the configuration record of the encoder's
  extra data, and the packet without the units an FLV tag does not carry, with its priority. Both go
  through a packet unit by unit.
\<close>

section \<open>A unit is not empty\<close>

lemma read_obu_len:
  assumes "run_state (read_obu_header n) s = (Some u, s')"
  shows "obu_len u \<le> n"
proof -
  have le: "unat (w :: u64) \<le> n" if "\<not> of_nat n < w" for w
    using that by (simp add: word_less_nat_alt unat_of_nat not_less)
  show ?thesis
    using assms le
    by (auto simp: read_obu_header_def get_bits_left_def get_bits_count_def Let_def split: if_splits prod.splits)
qed

lemma parse_obu_len: "parse_obu_header buf = Inr (Some u) \<Longrightarrow> obu_len u \<le> length buf"
  by (auto simp: parse_obu_header_def with_bits_def dest: read_obu_len split: prod.splits if_splits)

section \<open>The configuration record\<close>

text \<open>
  What the loop over the extra data has found: the number of sequence headers, the parameters of the
  last one, its unit, and the unit of the last metadata.
\<close>

record av1_found =
  nb_seq :: nat
  seq_params :: AV1SequenceParameters
  seq_unit :: "byte list"
  meta_unit :: "byte list"

text \<open>One unit; \<open>None\<close> is the return without a header.\<close>

definition note_unit :: "byte list \<Rightarrow> obu \<Rightarrow> av1_found \<Rightarrow> parse_fault + av1_found option" where
  "note_unit buf u f =
     (if obu_type u = AV1_OBU_SEQUENCE_HEADER then
        (let f1 = f\<lparr>nb_seq := Suc (nb_seq f)\<rparr>
         in if obu_size u = 0 \<or> nb_seq f1 > 1 then Inr None
            else case parse_sequence_header (drop (obu_start u) buf) (obu_size u) of
              Inl e \<Rightarrow> Inl e
            | Inr None \<Rightarrow> Inr None
            | Inr (Some q) \<Rightarrow> Inr (Some (f1\<lparr>seq_params := q, seq_unit := take (obu_len u) buf\<rparr>)))
      else if obu_type u = AV1_OBU_METADATA then
        (if obu_size u = 0 then Inr None else Inr (Some (f\<lparr>meta_unit := take (obu_len u) buf\<rparr>)))
      else Inr (Some f))"

text \<open>A unit of no length would be read again and again.\<close>

function find_units :: "byte list \<Rightarrow> av1_found \<Rightarrow> parse_fault + av1_found option" where
  "find_units buf f =
     (if buf = [] then Inr (Some f)
      else case parse_obu_header buf of
        Inl e \<Rightarrow> Inl e
      | Inr None \<Rightarrow> Inr None
      | Inr (Some u) \<Rightarrow>
          (case note_unit buf u f of
             Inl e \<Rightarrow> Inl e
           | Inr None \<Rightarrow> Inr None
           | Inr (Some f1) \<Rightarrow>
               if obu_len u = 0 then Inl Endless else find_units (drop (obu_len u) buf) f1))"
  by pat_completeness auto
termination by (relation "measure (\<lambda>(buf, f). length buf)") auto

definition av1_record :: "AV1SequenceParameters \<Rightarrow> byte list" where
  "av1_record q =
     [0x81,
      or (push_bit 5 (profile q)) (level q),
      or (push_bit 7 (tier q)) (or (push_bit 6 (of_bool (bitdepth q > 8))) (or (push_bit 5 (of_bool (bitdepth q = 12)))
        (or (push_bit 4 (monochrome q)) (or (push_bit 3 (chroma_subsampling_x q))
          (or (push_bit 2 (chroma_subsampling_y q)) (chroma_sample_position q)))))),
      0]"

text \<open>An empty result is the size 0, with which the header is not set.\<close>

definition obs_parse_av1_header :: "byte list \<Rightarrow> parse_fault + byte list" where
  "obs_parse_av1_header data =
     (if data = [] then Inl Overread
      else if and (hd data) 0x80 \<noteq> 0 then
        Inr (if and (hd data) 0x7f \<noteq> 1 \<or> length data < 4 then [] else data)
      else case find_units data \<lparr>nb_seq = 0, seq_params = seq_zero, seq_unit = [], meta_unit = []\<rparr> of
        Inl e \<Rightarrow> Inl e
      | Inr None \<Rightarrow> Inr []
      | Inr (Some f) \<Rightarrow>
          Inr (if nb_seq f = 0 then [] else av1_record (seq_params f) @ seq_unit f @ meta_unit f))"

section \<open>Packets\<close>

text \<open>The frame types are the numbers 0 to 3, in this order.\<close>

definition read_frame_priority :: "bool \<times> int \<Rightarrow> (av1_bits, bool \<times> int) state" where
  "read_frame_priority kp = do {
     show_existing \<leftarrow> get_bit1;
     if show_existing \<noteq> 0 then State_Monad.return kp else do {
     ty \<leftarrow> get_bits 2;
     show_frame \<leftarrow> get_bit1;
     State_Monad.return
       (if ty = 0 then (True, 3)
        else if ty = 1 then (fst kp, if show_frame \<noteq> 0 then 1 else 2)
        else if ty = 2 then (fst kp, 3)
        else if ty = 3 then (fst kp, 2) else kp) } }"

definition compute_av1_keyframe_priority :: "byte list \<Rightarrow> bool \<times> int \<Rightarrow> parse_fault + bool \<times> int" where
  "compute_av1_keyframe_priority buf kp =
     (if snd kp \<noteq> 0 then Inr kp else with_bits buf 8 (read_frame_priority kp))"

text \<open>A unit of the packet: what is written of it, and the priority.\<close>

definition write_unit :: "byte list \<Rightarrow> obu \<Rightarrow> bool \<times> int \<Rightarrow> parse_fault + byte list \<times> bool \<times> int" where
  "write_unit buf u kp =
     (if obu_type u \<in> {AV1_OBU_TEMPORAL_DELIMITER, AV1_OBU_REDUNDANT_FRAME_HEADER, AV1_OBU_TILE_LIST}
      then Inr ([], kp)
      else if obu_type u \<in> {AV1_OBU_FRAME, AV1_OBU_FRAME_HEADER} then
        (case compute_av1_keyframe_priority (drop (obu_start u) buf) kp of
           Inl e \<Rightarrow> Inl e | Inr kp1 \<Rightarrow> Inr (take (obu_len u) buf, kp1))
      else Inr (take (obu_len u) buf, kp))"

function serialize_av1_data :: "byte list \<Rightarrow> byte list \<Rightarrow> bool \<times> int \<Rightarrow> parse_fault + byte list \<times> bool \<times> int" where
  "serialize_av1_data written buf kp =
     (if buf = [] then Inr (written, kp)
      else case parse_obu_header buf of
        Inl e \<Rightarrow> Inl e
      | Inr None \<Rightarrow> Inr (written, kp)
      | Inr (Some u) \<Rightarrow>
          (case write_unit buf u kp of
             Inl e \<Rightarrow> Inl e
           | Inr (bs, kp1) \<Rightarrow>
               if obu_len u = 0 then Inl Endless
               else serialize_av1_data (written @ bs) (drop (obu_len u) buf) kp1))"
  by pat_completeness auto
termination by (relation "measure (\<lambda>(written, buf, kp). length buf)") auto

definition obs_parse_av1_packet :: "encoder_packet \<Rightarrow> parse_fault + encoder_packet" where
  "obs_parse_av1_packet p =
     (case serialize_av1_data [] (pkt_data p) (keyframe p, priority p) of
        Inl e \<Rightarrow> Inl e
      | Inr (bs, k, prio) \<Rightarrow>
          Inr (p\<lparr>pkt_data := bs, keyframe := k, priority := prio, drop_priority := prio\<rparr>))"

declare find_units.simps [simp del] serialize_av1_data.simps [simp del]

end
