(* ===== verification/Bit_Source.thy ===== *)
theory Bit_Source
  imports Bit_Lists "HOL-Library.State_Monad"
begin

text \<open>
  What a parser takes from a bit stream, whatever reader is under it. A reader is a state with bits ahead of
  it, a relation that says where it is when it has taken some of them, and the operation that takes the next
  few as a number; both readers of the output are of this kind. The parsers of syntax elements are put
  together in the state monad, and \<open>takes\<close> follows them bit by bit.
\<close>

section \<open>Taking bits\<close>

definition takes ::
  "('s \<Rightarrow> bool list \<Rightarrow> bool) \<Rightarrow> ('s \<Rightarrow> bool list \<Rightarrow> 's \<Rightarrow> bool) \<Rightarrow> ('s, 'a) state \<Rightarrow> bool list \<Rightarrow> 'a \<Rightarrow> bool" where
  "takes ahead after m bs x \<longleftrightarrow>
     (\<forall>s rest. ahead s (bs @ rest) \<longrightarrow> (\<exists>s'. run_state m s = (x, s') \<and> after s bs s'))"

text \<open>Elements whose value is not used.\<close>

definition skips ::
  "('s \<Rightarrow> bool list \<Rightarrow> bool) \<Rightarrow> ('s \<Rightarrow> bool list \<Rightarrow> 's \<Rightarrow> bool) \<Rightarrow> ('s, 'a) state \<Rightarrow> bool list \<Rightarrow> bool" where
  "skips ahead after m bs \<longleftrightarrow> (\<exists>w. takes ahead after m bs w)"

text \<open>Syntax: an element that is there when a flag says so.\<close>

definition optional :: "bool list option \<Rightarrow> bool list" where
  "optional x = (case x of None \<Rightarrow> [False] | Some bs \<Rightarrow> True # bs)"

definition has_length :: "nat \<Rightarrow> bool list option \<Rightarrow> bool" where
  "has_length n x \<longleftrightarrow> (case x of None \<Rightarrow> True | Some bs \<Rightarrow> length bs = n)"

lemma takes_run:
  "takes ahead after m bs x \<Longrightarrow> ahead s (bs @ rest) \<Longrightarrow> \<exists>s'. run_state m s = (x, s') \<and> after s bs s'"
  by (auto simp: takes_def)

lemma skipsI: "takes ahead after m bs w \<Longrightarrow> skips ahead after m bs"
  by (auto simp: skips_def)

section \<open>Bit sources\<close>

locale bit_path =
  fixes ahead :: "'s \<Rightarrow> bool list \<Rightarrow> bool"
    and after :: "'s \<Rightarrow> bool list \<Rightarrow> 's \<Rightarrow> bool"
  assumes after_ahead: "ahead s (bs @ rest) \<Longrightarrow> after s bs s' \<Longrightarrow> ahead s' rest"
    and after_nothing: "after s [] s"
    and after_more: "after s bs s' \<Longrightarrow> after s' bs' s'' \<Longrightarrow> after s (bs @ bs') s''"
begin

lemma takes_return: "takes ahead after (State_Monad.return x) [] x"
  by (auto simp: takes_def after_nothing)

lemma takes_bind:
  assumes "takes ahead after m bs x" and "takes ahead after (f x) bs' y"
  shows "takes ahead after (State_Monad.bind m f) (bs @ bs') y"
  unfolding takes_def
proof (intro allI impI)
  fix s rest
  assume a: "ahead s ((bs @ bs') @ rest)"
  then obtain s1 where s1: "run_state m s = (x, s1)" "after s bs s1"
    using takes_run [OF assms(1), of s "bs' @ rest"] by auto
  moreover from a have "ahead s1 (bs' @ rest)" using after_ahead [OF _ s1(2), of "bs' @ rest"] by simp
  then obtain s2 where "run_state (f x) s1 = (y, s2)" "after s1 bs' s2"
    using takes_run [OF assms(2)] by blast
  ultimately show "\<exists>s'. run_state (State_Monad.bind m f) s = (y, s') \<and> after s (bs @ bs') s'"
    using after_more by auto
qed

lemma takes_last: "takes ahead after m bs x \<Longrightarrow> takes ahead after (f x) [] y \<Longrightarrow>
    takes ahead after (State_Monad.bind m f) bs y"
  using takes_bind [of m bs x f "[]" y] by simp

lemma takes_pure: "takes ahead after m [] x \<Longrightarrow> takes ahead after (f x) bs y \<Longrightarrow>
    takes ahead after (State_Monad.bind m f) bs y"
  using takes_bind [of m "[]" x f bs y] by simp

lemma skips_return: "skips ahead after (State_Monad.return x) []"
  by (rule skipsI, rule takes_return)

lemma skips_bind: "takes ahead after m bs x \<Longrightarrow> skips ahead after (f x) bs' \<Longrightarrow>
    skips ahead after (State_Monad.bind m f) (bs @ bs')"
  by (auto simp: skips_def intro: takes_bind)

lemma skips_then: "skips ahead after m bs \<Longrightarrow> (\<And>w. takes ahead after (f w) bs' y) \<Longrightarrow>
    takes ahead after (State_Monad.bind m f) (bs @ bs') y"
  by (auto simp: skips_def intro: takes_bind)

lemma skips_skips: "skips ahead after m bs \<Longrightarrow> (\<And>w. skips ahead after (f w) bs') \<Longrightarrow>
    skips ahead after (State_Monad.bind m f) (bs @ bs')"
  unfolding skips_def by (blast intro: takes_bind)

lemma skips_last: "skips ahead after m bs \<Longrightarrow> (\<And>w. takes ahead after (f w) [] y) \<Longrightarrow>
    takes ahead after (State_Monad.bind m f) bs y"
  using skips_then [of m bs f "[]" y] by simp

lemma skips_end: "skips ahead after m bs \<Longrightarrow> (\<And>w. skips ahead after (f w) []) \<Longrightarrow>
    skips ahead after (State_Monad.bind m f) bs"
  using skips_skips [of m bs f "[]"] by simp

lemma skips_if: "(b \<Longrightarrow> skips ahead after m bs) \<Longrightarrow>
    skips ahead after (if b then m else State_Monad.return z) (if b then bs else [])"
  by (simp add: skips_return)

end

text \<open>Where up to 32 bits can be taken as a number.\<close>

locale bit_source = bit_path +
  fixes get :: "nat \<Rightarrow> ('a, 32 word) state"
  assumes get_takes: "0 < length bs \<Longrightarrow> length bs \<le> 32 \<Longrightarrow> takes ahead after (get (length bs)) bs (bits_word bs)"
begin

lemma takes_list: "length bs = n \<Longrightarrow> 0 < n \<Longrightarrow> n \<le> 32 \<Longrightarrow> takes ahead after (get n) bs (bits_word bs)"
  using get_takes by blast

lemma takes_flag: "takes ahead after (get 1) [b] (of_bool b)"
  using takes_list [of "[b]" 1] by simp

lemma takes_field: "w < 2 ^ n \<or> 32 \<le> n \<Longrightarrow> 0 < n \<Longrightarrow> n \<le> 32 \<Longrightarrow> takes ahead after (get n) (field n w) w"
  using takes_list [of "field n w" n] by simp

lemma skips_bits: "length bs = n \<Longrightarrow> 0 < n \<Longrightarrow> n \<le> 32 \<Longrightarrow> skips ahead after (get n) bs"
  by (rule skipsI, rule takes_list)

lemma flag_bind: "takes ahead after (f (of_bool b)) bs y \<Longrightarrow>
    takes ahead after (State_Monad.bind (get 1) f) (b # bs) y"
  using takes_bind [OF takes_flag [of b]] by simp

lemma flag_skips: "skips ahead after (f (of_bool b)) bs \<Longrightarrow> skips ahead after (State_Monad.bind (get 1) f) (b # bs)"
  using skips_bind [OF takes_flag [of b]] by simp

lemma optional_skips:
  assumes "\<And>bs. x = Some bs \<Longrightarrow> skips ahead after m bs"
  shows "skips ahead after (do { p \<leftarrow> get 1; if p \<noteq> 0 then m else State_Monad.return z }) (optional x)"
  using assms by (cases x) (auto simp: optional_def simp del: One_nat_def intro!: flag_skips skips_return)

lemma optional_then:
  assumes "\<And>bs. x = Some bs \<Longrightarrow> skips ahead after m bs" and "\<And>w. takes ahead after (f (of_bool (x \<noteq> None)) w) bs' y"
  shows "takes ahead after (do { p \<leftarrow> get 1; w \<leftarrow> (if p \<noteq> 0 then m else State_Monad.return z); f p w })
    (optional x @ bs') y"
proof (cases x)
  case None
  have "takes ahead after (State_Monad.bind (State_Monad.return z) (f 0)) bs' y"
    using assms(2) None by (intro takes_pure [OF takes_return]) simp
  then show ?thesis using None by (simp add: optional_def flag_bind del: One_nat_def)
next
  case (Some bs)
  have "takes ahead after (State_Monad.bind m (f 1)) (bs @ bs') y"
    using assms Some by (intro skips_then) simp_all
  then show ?thesis using Some by (simp add: optional_def flag_bind del: One_nat_def)
qed

lemma optional_skips_then:
  assumes "\<And>bs. x = Some bs \<Longrightarrow> skips ahead after m bs" and "\<And>w. skips ahead after (f (of_bool (x \<noteq> None)) w) bs'"
  shows "skips ahead after (do { p \<leftarrow> get 1; w \<leftarrow> (if p \<noteq> 0 then m else State_Monad.return z); f p w })
    (optional x @ bs')"
proof (cases x)
  case None
  have "skips ahead after (State_Monad.bind (State_Monad.return z) (f 0)) ([] @ bs')"
    using assms(2) None by (intro skips_skips [OF skips_return]) simp
  then show ?thesis using None by (simp add: optional_def flag_skips del: One_nat_def)
next
  case (Some bs)
  have "skips ahead after (State_Monad.bind m (f 1)) (bs @ bs')"
    using assms Some by (intro skips_skips) simp_all
  then show ?thesis using Some by (simp add: optional_def flag_skips del: One_nat_def)
qed

end

end
