(* ===== verification/Av1_Reader.thy ===== *)
theory Av1_Reader
  imports Av1 Bit_Source
begin

text \<open>
  The AV1 reader as a bit source: while it is within the bits that were set, \<open>reads m bs x\<close> says that \<open>m\<close>
  reads the bits \<open>bs\<close> and gives \<open>x\<close>, and then stands behind them. LEB128 sizes are read back.
\<close>

section \<open>Reading bits\<close>

definition unread :: "av1_bits \<Rightarrow> bool list" where
  "unread s = drop (gb_index s) (bits_of (gb_mem s))"

definition skip :: "nat \<Rightarrow> av1_bits \<Rightarrow> av1_bits" where
  "skip n s = s\<lparr>gb_index := gb_index s + n\<rparr>"

definition av1_ahead :: "av1_bits \<Rightarrow> bool list \<Rightarrow> bool" where
  "av1_ahead s bits \<longleftrightarrow> (\<exists>tail. unread s = bits @ tail) \<and> gb_index s + length bits \<le> gb_size s"

definition av1_after :: "av1_bits \<Rightarrow> bool list \<Rightarrow> av1_bits \<Rightarrow> bool" where
  "av1_after s bs s' \<longleftrightarrow> s' = skip (length bs) s"

abbreviation reads :: "(av1_bits, 'a) state \<Rightarrow> bool list \<Rightarrow> 'a \<Rightarrow> bool" where
  "reads \<equiv> takes av1_ahead av1_after"

abbreviation passes :: "(av1_bits, 'a) state \<Rightarrow> bool list \<Rightarrow> bool" where
  "passes \<equiv> skips av1_ahead av1_after"

lemma readsI:
  "(\<And>s rest. unread s = bs @ rest \<Longrightarrow> gb_index s + length bs \<le> gb_size s \<Longrightarrow>
      run_state m s = (x, skip (length bs) s)) \<Longrightarrow> reads m bs x"
  by (auto simp: takes_def av1_ahead_def av1_after_def)

lemma skip_simps [simp]:
  "gb_mem (skip n s) = gb_mem s" "gb_index (skip n s) = gb_index s + n" "gb_size (skip n s) = gb_size s"
  "gb_over (skip n s) = gb_over s" "gb_stuck (skip n s) = gb_stuck s" "skip 0 s = s" "skip m (skip n s) = skip (n + m) s"
  by (simp_all add: skip_def add.assoc)

lemma unread_skip [simp]: "unread (skip n s) = drop n (unread s)"
  by (simp add: unread_def add.commute)

lemma reads_run:
  "reads m bs x \<Longrightarrow> unread s = bs @ rest \<Longrightarrow> gb_index s + length bs \<le> gb_size s \<Longrightarrow>
    run_state m s = (x, skip (length bs) s)"
  using takes_run [of av1_ahead av1_after m bs x s "[]"] by (auto simp: av1_ahead_def av1_after_def)

interpretation av1_path: bit_path av1_ahead av1_after
proof
  show "av1_ahead s' rest" if "av1_ahead s (bs @ rest)" "av1_after s bs s'" for s s' bs rest
    using that by (auto simp: av1_ahead_def av1_after_def)
  show "av1_after s [] s" for s by (simp add: av1_after_def)
  show "av1_after s (bs @ bs') s''" if "av1_after s bs s'" "av1_after s' bs' s''" for s s' s'' bs bs'
    using that by (simp add: av1_after_def)
qed

lemmas reads_return = av1_path.takes_return and reads_bind = av1_path.takes_bind and
  reads_skip = av1_path.takes_last and reads_pure = av1_path.takes_pure

lemma bit1_byte: "(ucast (drop_bit 7 (push_bit i b)) :: u32) = of_bool (bit b (7 - i))" if "i < 8" for b :: byte
  using that by (intro bit_word_eqI) (auto simp: bit_simps)

lemma get_bit1_reads: "reads get_bit1 [b] (of_bool b)"
proof (rule readsI)
  show "run_state get_bit1 s = (of_bool b, skip (length [b]) s)"
    if u: "unread s = [b] @ rest" and "gb_index s + length [b] \<le> gb_size s" for s rest
  proof -
    have i: "gb_index s < 8 * length (gb_mem s)"
      using arg_cong [OF u, of length] by (simp add: unread_def)
    then have "b = bits_of (gb_mem s) ! gb_index s"
      using arg_cong [OF u, of hd] by (simp add: unread_def hd_drop_conv_nth)
    then have "b \<longleftrightarrow> bit (gb_mem s ! (gb_index s div 8)) (7 - gb_index s mod 8)"
      using nth_bits_of [OF i] by simp
    moreover have "gb_index s div 8 < length (gb_mem s)" using i by (simp add: less_mult_imp_div_less mult.commute)
    ultimately show ?thesis
      using that(2) by (simp add: get_bit1_def Let_def bit1_byte skip_def not_le)
  qed
qed

lemma get_bits_from_reads: "reads (get_bits_from (length bs) (bits_word acc)) bs (bits_word (acc @ bs))"
proof (induction bs arbitrary: acc)
  case Nil
  then show ?case by (simp add: reads_return)
next
  case (Cons b bs)
  have "reads (get_bits_from (length bs) (or (push_bit 1 (bits_word acc)) (of_bool b))) bs (bits_word (acc @ b # bs))"
    using Cons [of "acc @ [b]"] unfolding bits_word_snoc by simp
  then show ?case
    using reads_bind [OF get_bit1_reads [of b]] by simp
qed

lemma get_bits_list: "length bs = n \<Longrightarrow> reads (get_bits n) bs (bits_word bs)"
  using get_bits_from_reads [of bs "[]"] by (simp add: get_bits_def)

interpretation av1: bit_source av1_ahead av1_after get_bits
  by unfold_locales (rule get_bits_list, simp)

lemmas get_flag_reads = av1.takes_flag

lemma get_bits_reads: "w < 2 ^ n \<or> 32 \<le> n \<Longrightarrow> reads (get_bits n) (field n w) w"
  using get_bits_list [of "field n w" n] by simp

lemma get_skip_reads: "length bs = n \<Longrightarrow> (\<And>w. reads (f w) bs' y) \<Longrightarrow>
    reads (State_Monad.bind (get_bits n) f) (bs @ bs') y"
  by (rule reads_bind [OF get_bits_list])

lemma get_byte_reads: "reads (get_bits 8) (byte_bits b) (ucast b)"
  using get_bits_list [of "byte_bits b" 8] by simp

section \<open>Sizes in LEB128\<close>

function leb_bytes :: "nat \<Rightarrow> byte list" where
  "leb_bytes n = (if n < 128 then [of_nat n] else (of_nat (n mod 128) + 128) # leb_bytes (n div 128))"
  by pat_completeness auto
termination by (relation "measure id") auto

declare leb_bytes.simps [simp del]

lemma leb_bytes_length: "n < 2 ^ (7 * Suc k) \<Longrightarrow> length (leb_bytes n) \<le> Suc k"
proof (induction k arbitrary: n)
  case 0
  then show ?case by (simp add: leb_bytes.simps)
next
  case (Suc k)
  show ?case
  proof (cases "n < 128")
    case True
    then show ?thesis by (simp add: leb_bytes.simps)
  next
    case False
    have "n div 128 < 2 ^ (7 * Suc k)" using Suc.prems by (simp add: div_less_iff_less_mult power_add)
    from Suc.IH [OF this] show ?thesis using False by (simp add: leb_bytes.simps [of n])
  qed
qed

lemma leb_split:
  "or (take_bit 7 w) (push_bit 7 (drop_bit 7 w)) = w" for w :: u64
proof (rule bit_word_eqI)
  fix k assume "k < LENGTH(64)"
  then show "bit (or (take_bit 7 w) (push_bit 7 (drop_bit 7 w))) k \<longleftrightarrow> bit w k"
    by (cases "k < 7") (auto simp: bit_simps)
qed

lemma leb_byte:
  "m < 128 \<Longrightarrow> (ucast (and (ucast (of_nat m :: byte) :: u32) 0x7f) :: u64) = of_nat m"
  "m < 128 \<Longrightarrow> (ucast (and (ucast (of_nat m + 128 :: byte) :: u32) 0x7f) :: u64) = of_nat m"
  "m < 128 \<Longrightarrow> and (ucast (of_nat m :: byte) :: u32) 0x80 = 0"
  "m < 128 \<Longrightarrow> and (ucast (of_nat m + 128 :: byte) :: u32) 0x80 \<noteq> 0"
proof -
  have all: "\<forall>m \<in> set [0..<128]. (ucast (and (ucast (of_nat m :: byte) :: u32) 0x7f) :: u64) = of_nat m \<and>
      (ucast (and (ucast (of_nat m + 128 :: byte) :: u32) 0x7f) :: u64) = of_nat m \<and>
      and (ucast (of_nat m :: byte) :: u32) 0x80 = 0 \<and> and (ucast (of_nat m + 128 :: byte) :: u32) 0x80 \<noteq> 0"
    by code_simp
  show "m < 128 \<Longrightarrow> (ucast (and (ucast (of_nat m :: byte) :: u32) 0x7f) :: u64) = of_nat m"
    "m < 128 \<Longrightarrow> (ucast (and (ucast (of_nat m + 128 :: byte) :: u32) 0x7f) :: u64) = of_nat m"
    "m < 128 \<Longrightarrow> and (ucast (of_nat m :: byte) :: u32) 0x80 = 0"
    "m < 128 \<Longrightarrow> and (ucast (of_nat m + 128 :: byte) :: u32) 0x80 \<noteq> 0"
    using all by auto
qed

lemma leb128_from_reads:
  "n < 2 ^ (7 * Suc k) \<Longrightarrow> n < 2 ^ 64 \<Longrightarrow>
    reads (leb128_from (Suc k) i acc) (bits_of (leb_bytes n)) (or acc (push_bit (7 * i) (of_nat n)))"
proof (induction k arbitrary: n i acc)
  case 0
  then show ?case
    by (auto simp: leb_bytes.simps leb_byte intro!: reads_bind [OF get_byte_reads, of _ _ "[]", simplified] reads_return)
next
  case (Suc k)
  show ?case
  proof (cases "n < 128")
    case True
    then show ?thesis
      by (auto simp: leb_bytes.simps leb_byte intro!: reads_bind [OF get_byte_reads, of _ _ "[]", simplified] reads_return)
  next
    case False
    let ?w = "of_nat n :: u64"
    have "of_nat (n div 128) = drop_bit 7 ?w"
      using Suc.prems(2) by (simp add: word_unat_eq_iff unat_drop_bit_eq unat_of_nat drop_bit_eq_div unat_div_distrib)
    moreover have "of_nat (n mod 128) = take_bit 7 ?w"
      unfolding take_bit_of_nat by (simp add: take_bit_eq_mod)
    ultimately have join: "or (push_bit (7 * i) (of_nat (n mod 128))) (push_bit (7 * Suc i) (of_nat (n div 128))) =
        push_bit (7 * i) ?w"
      using arg_cong [OF leb_split [of ?w], of "push_bit (7 * i)"] by (simp add: push_bit_or add.commute)
    have "n div 128 < 2 ^ (7 * Suc k)" using Suc.prems(1) by (simp add: div_less_iff_less_mult power_add)
    moreover have "n div 128 < 2 ^ 64" using Suc.prems(2) by (simp add: div_less_iff_less_mult)
    ultimately have "reads (leb128_from (Suc k) (Suc i) (or acc (push_bit (7 * i) (of_nat (n mod 128)))))
        (bits_of (leb_bytes (n div 128))) (or (or acc (push_bit (7 * i) (of_nat (n mod 128))))
          (push_bit (7 * Suc i) (of_nat (n div 128))))" by (rule Suc.IH)
    then have "reads (leb128_from (Suc k) (Suc i) (or acc (push_bit (7 * i) (of_nat (n mod 128)))))
        (bits_of (leb_bytes (n div 128))) (or acc (push_bit (7 * i) ?w))"
      by (simp only: or.assoc join)
    then have "reads (leb128_from (Suc (Suc k)) i acc)
        (byte_bits (of_nat (n mod 128) + 128) @ bits_of (leb_bytes (n div 128))) (or acc (push_bit (7 * i) ?w))"
      unfolding leb128_from.simps(2) [of "Suc k"]
      by (intro reads_bind [OF get_byte_reads]) (simp add: leb_byte del: leb128_from.simps)
    then show ?thesis using False by (simp add: leb_bytes.simps [of n] del: leb128_from.simps)
  qed
qed

lemma leb128_reads: "n < 2 ^ 56 \<Longrightarrow> reads leb128 (bits_of (leb_bytes n)) (of_nat n)"
  using leb128_from_reads [of n 7 0 0] by (simp add: leb128_def del: leb128_from.simps)

end
