(* ===== verification/Av1_Packet_Properties.thy ===== *)
theory Av1_Packet_Properties
  imports Av1_Packet Av1_Reader
begin

text \<open>
  Temporal units as an encoder writes them, unit by unit with its size, and what the parser makes of them.
\<close>

section \<open>Units\<close>

text \<open>The type of a unit, its extension byte and its payload.\<close>

type_synonym av1_unit = "byte \<times> byte option \<times> byte list"

definition head_byte :: "byte \<Rightarrow> bool \<Rightarrow> byte" where
  "head_byte ty ext = bits_word ([False] @ field 4 ty @ [ext] @ [True] @ [False])"

definition unit_head :: "av1_unit \<Rightarrow> byte list" where
  "unit_head u =
     (case u of (ty, ext, payload) \<Rightarrow>
        head_byte ty (ext \<noteq> None) # (case ext of None \<Rightarrow> [] | Some e \<Rightarrow> [e]) @ leb_bytes (length payload))"

definition unit_bytes :: "av1_unit \<Rightarrow> byte list" where
  "unit_bytes u = unit_head u @ snd (snd u)"

definition good_unit :: "av1_unit \<Rightarrow> bool" where
  "good_unit u \<longleftrightarrow> fst u < 16 \<and> length (snd (snd u)) < 2 ^ 56"

lemma byte_bits_word: "length bs = 8 \<Longrightarrow> byte_bits (bits_word bs) = bs"
  by (rule nth_equalityI) (auto simp: byte_bits_def bit_bits_word)

lemma head_byte_bits: "byte_bits (head_byte ty ext) = [False] @ field 4 ty @ [ext] @ [True] @ [False]"
  unfolding head_byte_def by (rule byte_bits_word) simp

lemma field_ucast: "field 4 ty = field 4 (ucast ty :: u32)" for ty :: byte
  by (rule nth_equalityI) (auto simp: field_def rev_nth bit_ucast_iff)

definition extension_bits :: "byte option \<Rightarrow> bool list" where
  "extension_bits ext = (case ext of None \<Rightarrow> [] | Some e \<Rightarrow> byte_bits e)"

lemma unit_head_bits:
  "bits_of (unit_head (ty, ext, payload)) =
    [False] @ field 4 (ucast ty :: u32) @ [ext \<noteq> None] @ [True] @ [False] @ extension_bits ext @
    bits_of (leb_bytes (length payload))"
  by (cases ext) (simp_all add: unit_head_def head_byte_bits field_ucast extension_bits_def)

lemma unit_head_length:
  "length (unit_head (ty, ext, payload)) = 1 + (if ext = None then 0 else 1) + length (leb_bytes (length payload))"
  by (cases ext) (simp_all add: unit_head_def)

lemma extension_reads:
  "reads (if (of_bool (ext \<noteq> None) :: u32) \<noteq> 0
      then do { _ \<leftarrow> get_bits 3; _ \<leftarrow> get_bits 2; get_bits 3 } else State_Monad.return (0 :: u32))
    (extension_bits ext) (case ext of None \<Rightarrow> 0 | Some e \<Rightarrow> bits_word (drop 5 (byte_bits e)))"
proof (cases ext)
  case None
  then show ?thesis by (simp add: extension_bits_def reads_return)
next
  case (Some e)
  have split: "byte_bits e = take 3 (byte_bits e) @ (take 2 (drop 3 (byte_bits e)) @ drop 5 (byte_bits e))"
    by (simp add: byte_bits_def upt_rec)
  have "reads (do { _ \<leftarrow> get_bits 3; _ \<leftarrow> get_bits 2; get_bits 3 })
      (take 3 (byte_bits e) @ (take 2 (drop 3 (byte_bits e)) @ drop 5 (byte_bits e))) (bits_word (drop 5 (byte_bits e)))"
    by (intro get_skip_reads get_bits_list) simp_all
  then show ?thesis using Some split by (simp add: extension_bits_def)
qed

section \<open>The header of a unit\<close>

definition unit_obu :: "av1_unit \<Rightarrow> obu" where
  "unit_obu u =
     \<lparr>obu_type = ucast (fst u), obu_size = length (snd (snd u)), obu_start = length (unit_head u),
      obu_len = length (unit_bytes u)\<rparr>"

lemma unit_fields_reads:
  assumes "good_unit (ty, ext, payload)"
  shows "reads (read_obu_fields n)
    (field 4 (ucast ty :: u32) @ [ext \<noteq> None] @ [True] @ [False] @ extension_bits ext @ bits_of (leb_bytes (length payload)))
    (ucast ty, of_nat (length payload))"
proof -
  have ty: "(ucast ty :: u32) < 2 ^ 4" and len: "length payload < 2 ^ 56"
    using assms by (auto simp: good_unit_def word_less_nat_alt unsigned_ucast_eq
        intro: le_less_trans [OF take_bit_nat_less_eq_self])
  have leb: "reads (if (of_bool True :: u32) \<noteq> 0 then leb128 else State_Monad.return r)
      (bits_of (leb_bytes (length payload))) (of_nat (length payload))" for r
    using leb128_reads [OF len] by simp
  show ?thesis
    unfolding read_obu_fields_def
    by (rule reads_bind [OF get_bits_reads [OF disjI1 [OF ty]]] reads_bind [OF get_flag_reads]
        reads_bind [OF extension_reads] reads_skip [OF leb reads_return])+
qed

lemma read_unit_header:
  assumes u: "good_unit (ty, ext, payload)" and s: "unread s = bits_of (unit_head (ty, ext, payload)) @ rest"
    and i: "gb_index s = 0" and sz: "8 * length (unit_head (ty, ext, payload)) \<le> gb_size s"
    and n: "length (unit_bytes (ty, ext, payload)) \<le> n" and n2: "n < 2 ^ 62"
  shows "run_state (read_obu_header n) s =
    (Some (unit_obu (ty, ext, payload)), skip (8 * length (unit_head (ty, ext, payload))) s)"
proof -
  let ?h = "length (unit_head (ty, ext, payload))"
  let ?bits = "field 4 (ucast ty :: u32) @ [ext \<noteq> None] @ [True] @ [False] @ extension_bits ext @
      bits_of (leb_bytes (length payload))"
  have len: "length payload < 2 ^ 56" using u by (simp add: good_unit_def)
  have sum: "length (unit_bytes (ty, ext, payload)) = length payload + ?h" by (simp add: unit_bytes_def)
  have u1: "unat (of_nat (length payload) :: u64) = length payload"
    and u2: "unat (of_nat (length payload) + of_nat ?h :: u64) = length payload + ?h" and u3: "unat (of_nat n :: u64) = n"
    using n n2 sum len by (simp_all add: unat_of_nat flip: of_nat_add)
  have fits: "\<not> (of_nat n :: u64) < of_nat (length payload) + of_nat ?h"
    using n sum by (simp only: word_less_nat_alt u2 u3 not_less)
  have bits: "bits_of (unit_head (ty, ext, payload)) = [False] @ ?bits" by (simp only: unit_head_bits)
  have h: "8 * ?h = 1 + length ?bits" using arg_cong [OF bits, of length] by simp
  have s0: "unread s = [False] @ ?bits @ rest" using s unfolding bits by simp
  have "run_state (get_bits 1) s = (0, skip 1 s)"
    using reads_run [OF get_flag_reads [of False], of s "?bits @ rest"] s0 sz h by (simp add: i)
  moreover have "run_state (read_obu_fields n) (skip 1 s) = ((ucast ty, of_nat (length payload)), skip (8 * ?h) s)"
    using reads_run [OF unit_fields_reads [OF u, of n], of "skip 1 s" rest] s0 sz h by (simp add: i)
  ultimately show ?thesis
    using sz fits u1 u2 by (simp add: read_obu_header_def get_bits_left_def get_bits_count_def i unit_obu_def sum Let_def)
qed

lemma parse_unit_header:
  assumes "good_unit u" and "length (unit_bytes u @ rest) < 2 ^ 62"
  shows "parse_obu_header (unit_bytes u @ rest) = Inr (Some (unit_obu u))"
proof -
  obtain ty ext payload where u: "u = (ty, ext, payload)" by (cases u)
  let ?s = "\<lparr>gb_mem = unit_bytes u @ rest, gb_index = 0,
      gb_size = 8 * min (length (unit_bytes u @ rest)) MAX_OBU_HEADER_SIZE, gb_over = False, gb_stuck = False\<rparr>"
  have "length (leb_bytes (length payload)) \<le> 8"
    using leb_bytes_length [of "length payload" 7] assms(1) by (simp add: good_unit_def u)
  then have "8 * length (unit_head u) \<le> gb_size ?s"
    by (auto simp: u unit_head_length unit_bytes_def MAX_OBU_HEADER_SIZE_def)
  then have "run_state (read_obu_header (length (unit_bytes u @ rest))) ?s =
      (Some (unit_obu u), skip (8 * length (unit_head u)) ?s)"
    using assms unfolding u
    by (intro read_unit_header [where rest = "bits_of (payload @ rest)"]) (simp_all add: unread_def unit_bytes_def)
  then show ?thesis by (simp add: parse_obu_header_def with_bits_def)
qed

section \<open>Packets\<close>

text \<open>The units that stay in the packet, and what a frame says of its priority.\<close>

definition kept_unit :: "av1_unit \<Rightarrow> bool" where
  "kept_unit u \<longleftrightarrow> fst u \<notin> {2, 7, 8}"

definition frame_priority :: "byte \<Rightarrow> bool \<times> int \<Rightarrow> bool \<times> int" where
  "frame_priority b kp =
     (if snd kp \<noteq> 0 \<or> bit b 7 then kp
      else if \<not> bit b 6 \<and> \<not> bit b 5 then (True, 3)
      else (fst kp, if bit b 6 then (if bit b 5 then 2 else 3) else if bit b 4 then 1 else 2))"

definition unit_priority :: "av1_unit \<Rightarrow> bool \<times> int \<Rightarrow> bool \<times> int" where
  "unit_priority u kp = (if fst u \<in> {3, 6} then frame_priority (hd (snd (snd u))) kp else kp)"

definition packet_unit :: "av1_unit \<Rightarrow> bool" where
  "packet_unit u \<longleftrightarrow> good_unit u \<and> (fst u \<in> {3, 6} \<longrightarrow> snd (snd u) \<noteq> [])"

lemma read_frame_priority_run:
  "compute_av1_keyframe_priority (b # rest) kp = Inr (frame_priority b kp)"
proof -
  let ?s = "\<lparr>gb_mem = b # rest, gb_index = 0, gb_size = 8, gb_over = False, gb_stuck = False\<rparr>"
  obtain tail where bits: "byte_bits b = [bit b 7] @ [bit b 6, bit b 5] @ [bit b 4] @ tail"
    by (simp add: byte_bits_def upt_rec)
  have u: "unread ?s = [bit b 7] @ [bit b 6, bit b 5] @ [bit b 4] @ tail @ bits_of rest"
    by (simp add: unread_def bits)
  have ty: "(bits_word [x, y] :: u32) = of_bool x * 2 + of_bool y" for x y
    by (cases x; cases y) (simp_all add: bits_word_def)
  have r1: "run_state get_bit1 ?s = (of_bool (bit b 7), skip 1 ?s)"
    using reads_run [OF get_bit1_reads u] by simp
  have r2: "run_state (get_bits 2) (skip 1 ?s) = (of_bool (bit b 6) * 2 + of_bool (bit b 5), skip 3 ?s)"
    using reads_run [OF get_bits_list [of "[bit b 6, bit b 5]" 2], of "skip 1 ?s"] u ty by simp
  have r3: "run_state get_bit1 (skip 3 ?s) = (of_bool (bit b 4), skip 4 ?s)"
    using reads_run [OF get_bit1_reads [of "bit b 4"], of "skip 3 ?s"] u by simp
  show ?thesis
    using r1 r2 r3
    by (auto simp: compute_av1_keyframe_priority_def with_bits_def read_frame_priority_def frame_priority_def skip_def)
qed

lemma u32_types:
  "(ucast ty :: u32) = 1 \<longleftrightarrow> ty = 1" "(ucast ty :: u32) = 5 \<longleftrightarrow> ty = 5" "(ucast ty :: u32) = 2 \<longleftrightarrow> ty = 2" "(ucast ty :: u32) = 3 \<longleftrightarrow> ty = 3" "(ucast ty :: u32) = 6 \<longleftrightarrow> ty = 6"
  "(ucast ty :: u32) = 7 \<longleftrightarrow> ty = 7" "(ucast ty :: u32) = 8 \<longleftrightarrow> ty = 8" for ty :: byte
proof -
  have up: "unat (ucast x :: u32) = unat x" for x :: byte
  proof -
    have "unat x < 2 ^ LENGTH(8)" by (rule unsigned_less)
    then have "unat x < 2 ^ 32" by simp
    then show ?thesis unfolding unsigned_ucast_eq by (simp add: take_bit_nat_eq_self)
  qed
  have "(ucast ty :: u32) = ucast x \<longleftrightarrow> ty = x" for x :: byte
    using up [of ty] up [of x] by (auto simp: word_unat_eq_iff)
  from this [of 1] this [of 5] this [of 2] this [of 3] this [of 6] this [of 7] this [of 8]
  show "(ucast ty :: u32) = 1 \<longleftrightarrow> ty = 1" "(ucast ty :: u32) = 5 \<longleftrightarrow> ty = 5" "(ucast ty :: u32) = 2 \<longleftrightarrow> ty = 2" "(ucast ty :: u32) = 3 \<longleftrightarrow> ty = 3" "(ucast ty :: u32) = 6 \<longleftrightarrow> ty = 6"
    "(ucast ty :: u32) = 7 \<longleftrightarrow> ty = 7" "(ucast ty :: u32) = 8 \<longleftrightarrow> ty = 8" by simp_all
qed

lemma write_unit_run:
  assumes "packet_unit u"
  shows "write_unit (unit_bytes u @ rest) (unit_obu u) kp =
    Inr (if kept_unit u then unit_bytes u else [], unit_priority u kp)"
proof (cases "fst u \<in> {3, 6}")
  case True
  then obtain b bs where "snd (snd u) = b # bs" using assms by (auto simp: packet_unit_def neq_Nil_conv)
  then have "drop (obu_start (unit_obu u)) (unit_bytes u @ rest) = b # bs @ rest"
    by (simp add: unit_obu_def unit_bytes_def)
  then show ?thesis
    using True \<open>snd (snd u) = b # bs\<close>
    by (auto simp: write_unit_def unit_obu_def obu_types u32_types read_frame_priority_run kept_unit_def unit_priority_def)
next
  case False
  then show ?thesis
    by (simp add: write_unit_def unit_obu_def obu_types u32_types kept_unit_def unit_priority_def)
qed

lemma serialize_units:
  "list_all packet_unit us \<Longrightarrow> length (concat (map unit_bytes us)) < 2 ^ 62 \<Longrightarrow>
    serialize_av1_data written (concat (map unit_bytes us)) kp =
      Inr (written @ concat (map unit_bytes (filter kept_unit us)), fold unit_priority us kp)"
proof (induction us arbitrary: written kp)
  case Nil
  then show ?case by (simp add: serialize_av1_data.simps)
next
  case (Cons u us)
  let ?rest = "concat (map unit_bytes us)"
  have u: "packet_unit u" "good_unit u" using Cons.prems(1) by (auto simp: packet_unit_def)
  have len: "obu_len (unit_obu u) = length (unit_bytes u)" by (simp add: unit_obu_def)
  have pos: "unit_bytes u \<noteq> []" by (cases u) (simp add: unit_bytes_def unit_head_def)
  have parse: "parse_obu_header (unit_bytes u @ ?rest) = Inr (Some (unit_obu u))"
    using parse_unit_header [OF u(2), of ?rest] Cons.prems(2) by simp
  show ?case
    using Cons pos u len
    by (simp add: serialize_av1_data.simps [of _ "unit_bytes u @ ?rest"] parse write_unit_run)
qed


definition av1_sample :: "av1_unit list" where
  "av1_sample = [(2, None, []), (1, None, [0, 0]), (6, Some 8, [0x10, 7, 7]), (8, None, [1])]"


end
