(* ===== verification/Av1_Header.thy ===== *)
theory Av1_Header
  imports Av1_Packet_Properties
begin

text \<open>
  Sequence headers as an encoder writes them, syntax element by syntax element, and the configuration
  record the parser makes of them. Elements the parser throws away are lists of bits of the right length.
\<close>

section \<open>Syntax\<close>

text \<open>The number of ticks per picture: as many zeros as bits behind the one.\<close>

definition uvlc_bits :: "bool list \<Rightarrow> bool list" where
  "uvlc_bits bs = replicate (length bs) False @ True # bs"

record av1_timing =
  tm_units :: "bool list"
  tm_ticks :: "bool list option"
  tm_model :: "(u32 \<times> bool list) option"

definition good_timing :: "av1_timing \<Rightarrow> bool" where
  "good_timing t \<longleftrightarrow>
     length (tm_units t) = 64 \<and> (case tm_ticks t of None \<Rightarrow> True | Some bs \<Rightarrow> length bs < 32) \<and>
     (case tm_model t of None \<Rightarrow> True | Some (n, bs) \<Rightarrow> n < 2 ^ 5 \<and> length bs = 42)"

definition timing_bits :: "av1_timing \<Rightarrow> bool list" where
  "timing_bits t =
     take 32 (tm_units t) @ drop 32 (tm_units t) @
     optional (map_option uvlc_bits (tm_ticks t)) @
     optional (map_option (\<lambda>(n, bs). field 5 n @ bs) (tm_model t))"

definition timing_model :: "av1_timing option \<Rightarrow> bool \<times> nat" where
  "timing_model t =
     (case Option.bind t tm_model of None \<Rightarrow> (False, 0) | Some (n, bs) \<Rightarrow> (True, unat n))"

record av1_point =
  pt_idc :: "bool list"
  pt_level :: u32
  pt_tier :: bool
  pt_model :: "bool list option"
  pt_display :: "bool list option"

definition good_point :: "bool \<times> nat \<Rightarrow> av1_point \<Rightarrow> bool" where
  "good_point model p \<longleftrightarrow>
     length (pt_idc p) = 12 \<and> pt_level p < 2 ^ 5 \<and> has_length (2 * (snd model + 1) + 1) (pt_model p) \<and>
     has_length 4 (pt_display p)"

definition point_bits :: "bool \<times> nat \<Rightarrow> bool \<Rightarrow> av1_point \<Rightarrow> bool list" where
  "point_bits model display p =
     pt_idc p @ field 5 (pt_level p) @ (if pt_level p > 7 then [pt_tier p] else []) @
     (if fst model then optional (pt_model p) else []) @ (if display then optional (pt_display p) else [])"

definition point_tier :: "av1_point \<Rightarrow> bool" where
  "point_tier p \<longleftrightarrow> pt_level p > 7 \<and> pt_tier p"

record av1_tools =
  tl_flags :: "bool list"
  tl_order :: "(bool list \<times> bool list) option"
  tl_screen :: "bool option"
  tl_mv :: "bool option"

definition good_tools :: "av1_tools \<Rightarrow> bool" where
  "good_tools t \<longleftrightarrow> length (tl_flags t) = 4 \<and>
     (case tl_order t of None \<Rightarrow> True | Some (a, b) \<Rightarrow> length a = 2 \<and> length b = 3)"

definition choice :: "bool option \<Rightarrow> bool list" where
  "choice x = (case x of None \<Rightarrow> [True] | Some b \<Rightarrow> [False, b])"

definition tools_bits :: "av1_tools \<Rightarrow> bool list" where
  "tools_bits t =
     tl_flags t @ optional (map_option fst (tl_order t)) @ choice (tl_screen t) @
     (if tl_screen t = Some False then [] else choice (tl_mv t)) @
     (case tl_order t of None \<Rightarrow> [] | Some (a, b) \<Rightarrow> b)"

section \<open>Reading the parts\<close>

lemmas passes_return = av1_path.skips_return and passes_bind = av1_path.skips_bind and passes_then = av1_path.skips_then and
  passes_passes = av1_path.skips_skips and passes_last = av1_path.skips_last and passes_if = av1_path.skips_if and
  flag_bind = av1.flag_bind and flag_passes = av1.flag_skips and optional_passes = av1.optional_skips and
  optional_then = av1.optional_then

lemma passes_bits: "length bs = n \<Longrightarrow> passes (get_bits n) bs"
  by (rule skipsI, rule get_bits_list)

lemma uvlc_zeros_reads:
  assumes "unread s = replicate n False @ True # rest" and "gb_index s + n + 1 \<le> gb_size s" and "n < k"
  shows "run_state (uvlc_zeros k z) s = (z + n, skip (n + 1) s)"
  using assms
proof (induction k arbitrary: n z s)
  case 0
  then show ?case by simp
next
  case (Suc k)
  have left: "int (gb_size s) - int (gb_index s) \<noteq> 0" using Suc.prems(2) by simp
  show ?case
  proof (cases n)
    case 0
    then have "run_state (get_bits 1) s = (1, skip 1 s)"
      using reads_run [OF get_flag_reads [of True], of s rest] Suc.prems by simp
    then show ?thesis using 0 left by (simp add: get_bits_left_def)
  next
    case (Suc m)
    then have "run_state (get_bits 1) s = (0, skip 1 s)"
      using reads_run [OF get_flag_reads [of False], of s "replicate m False @ True # rest"] Suc.prems by simp
    moreover have "run_state (uvlc_zeros k (Suc z)) (skip 1 s) = (Suc z + m, skip (m + 1) (skip 1 s))"
      using Suc Suc.prems by (intro Suc.IH) simp_all
    ultimately show ?thesis using Suc left by (simp add: get_bits_left_def)
  qed
qed

lemma uvlc_reads: "length bs < 32 \<Longrightarrow> reads uvlc (uvlc_bits bs) (bits_word bs)"
proof (rule readsI)
  fix s rest
  assume len: "length bs < 32" and a: "unread s = uvlc_bits bs @ rest" "gb_index s + length (uvlc_bits bs) \<le> gb_size s"
  then have "run_state (uvlc_zeros (gb_size s + 9) 0) s = (length bs, skip (length bs + 1) s)"
    using uvlc_zeros_reads [of s "length bs" "bs @ rest" "gb_size s + 9" 0] by (simp add: uvlc_bits_def)
  moreover have "run_state (get_bits (length bs)) (skip (length bs + 1) s) =
      (bits_word bs, skip (length bs) (skip (length bs + 1) s))"
    using a by (intro reads_run [OF get_bits_list]) (simp_all add: uvlc_bits_def)
  ultimately show "run_state uvlc s = (bits_word bs, skip (length (uvlc_bits bs)) s)"
    using len by (simp add: uvlc_def uvlc_bits_def)
qed

definition chosen_value :: "bool option \<Rightarrow> u32" where
  "chosen_value x = (case x of None \<Rightarrow> 2 | Some b \<Rightarrow> of_bool b)"

lemma choice_passes:
  assumes "passes (f (chosen_value x)) bs"
  shows "passes (do { chosen \<leftarrow> get_bits 1;
      force \<leftarrow> (if chosen \<noteq> 0 then State_Monad.return 2 else get_bits 1); f force }) (choice x @ bs)"
proof (cases x)
  case None
  have "passes (State_Monad.bind (State_Monad.return 2) f) ([] @ bs)"
    using assms None by (intro passes_bind [OF reads_return]) (simp add: chosen_value_def)
  then show ?thesis using None by (simp add: choice_def flag_passes del: One_nat_def)
next
  case (Some b)
  have "passes (State_Monad.bind (get_bits 1) f) (b # bs)"
    using assms Some by (intro flag_passes) (simp add: chosen_value_def)
  then show ?thesis using Some by (simp add: choice_def flag_passes del: One_nat_def)
qed

lemma tools_passes:
  assumes "good_tools t"
  shows "passes skip_tools (tools_bits t)"
proof -
  let ?o = "tl_order t"
  have order: "length a = 2 \<and> length b = 3" if "?o = Some (a, b)" for a b
    using assms that by (simp add: good_tools_def)
  have hint: "passes (if (of_bool (?o \<noteq> None) :: u32) \<noteq> 0 then get_bits 2 else State_Monad.return 0)
      (case ?o of None \<Rightarrow> [] | Some (a, b) \<Rightarrow> a)"
    using order by (auto simp: passes_return passes_bits split: option.split)
  have hints: "passes (if (of_bool (?o \<noteq> None) :: u32) \<noteq> 0 then get_bits 3 else State_Monad.return 0)
      (case ?o of None \<Rightarrow> [] | Some (a, b) \<Rightarrow> b)"
    using order by (auto simp: passes_return passes_bits split: option.split)
  have mv: "passes (if force \<noteq> (0 :: u32) then do {
         choose_mv \<leftarrow> get_bits 1;
         if choose_mv = 0 then get_bits 1 else State_Monad.return 0 }
       else State_Monad.return 0) (if force = 0 then [] else choice (tl_mv t))" for force
    by (cases "tl_mv t") (auto simp: choice_def simp del: One_nat_def intro!: flag_passes passes_return passes_bits)
  have bits: "tools_bits t = tl_flags t @ (?o \<noteq> None) # (case ?o of None \<Rightarrow> [] | Some (a, b) \<Rightarrow> a) @
      (choice (tl_screen t) @ (if chosen_value (tl_screen t) = 0 then []
        else choice (tl_mv t)) @ (case ?o of None \<Rightarrow> [] | Some (a, b) \<Rightarrow> b))"
    by (auto simp: tools_bits_def optional_def chosen_value_def split: option.split)
  show ?thesis
    unfolding skip_tools_def bits
    by (intro passes_passes [OF passes_bits] flag_passes passes_passes [OF hint] choice_passes passes_passes [OF mv] hints)
      (use assms in \<open>simp add: good_tools_def\<close>)
qed

section \<open>Timing and operating points\<close>

lemma timing_reads:
  assumes "good_timing t"
  shows "reads timing_info (timing_bits t) (timing_model (Some t))"
proof -
  have model: "reads (do {
      model \<leftarrow> get_bits 1;
      if model \<noteq> 0 then do {
        len \<leftarrow> get_bits 5; _ \<leftarrow> get_bits 32; _ \<leftarrow> get_bits 10; State_Monad.return (True, unat len) }
      else State_Monad.return (False, 0) })
    (optional (map_option (\<lambda>(n, bs). field 5 n @ bs) (tm_model t))) (timing_model (Some t))"
  proof (cases "tm_model t")
    case None
    then show ?thesis
      by (auto simp: optional_def timing_model_def simp del: One_nat_def intro!: flag_bind reads_return)
  next
    case (Some nb)
    obtain n bs where nb: "nb = (n, bs)" by (cases nb)
    have n: "n < 2 ^ 5" and bs: "length bs = 42" using assms Some nb by (simp_all add: good_timing_def)
    have "reads (do { len \<leftarrow> get_bits 5; _ \<leftarrow> get_bits 32; _ \<leftarrow> get_bits 10; State_Monad.return (True, unat len) })
        (field 5 n @ take 32 bs @ drop 32 bs) (True, unat n)"
      by (rule reads_bind [OF get_bits_reads [OF disjI1 [OF n]]] get_skip_reads passes_last [OF passes_bits] reads_return
          | simp add: bs)+
    then show ?thesis
      using Some nb
      by (auto simp: optional_def timing_model_def simp del: One_nat_def intro!: flag_bind)
  qed
  have ticks: "passes uvlc bs" if "map_option uvlc_bits (tm_ticks t) = Some bs" for bs
    using assms that by (auto simp: good_timing_def intro!: skipsI [OF uvlc_reads])
  show ?thesis
    unfolding timing_info_def timing_bits_def
    using assms by (intro get_skip_reads optional_then ticks model) (simp_all add: good_timing_def)
qed

lemma point_model_passes:
  assumes "has_length (2 * (n + 1) + 1) x"
  shows "passes (do { present \<leftarrow> get_bits 1;
      if present \<noteq> 0 then do { _ \<leftarrow> get_bits (n + 1); _ \<leftarrow> get_bits (n + 1); get_bits 1 } else State_Monad.return 0 })
    (optional x)"
proof (rule optional_passes)
  fix bs assume "x = Some bs"
  then have len: "length bs = 2 * (n + 1) + 1" using assms by (simp add: has_length_def)
  have "passes (do { _ \<leftarrow> get_bits (n + 1); _ \<leftarrow> get_bits (n + 1); get_bits 1 })
      (take (n + 1) bs @ take (n + 1) (drop (n + 1) bs) @ drop (n + 1) (drop (n + 1) bs))"
    using len by (intro passes_passes passes_bits) simp_all
  then show "passes (do { _ \<leftarrow> get_bits (n + 1); _ \<leftarrow> get_bits (n + 1); get_bits 1 }) bs"
    by (simp only: append_take_drop_id)
qed

lemma point_tier_reads:
  "reads (if pt_level p > 7 then get_bits 1 else State_Monad.return 0)
    (if pt_level p > 7 then [pt_tier p] else []) (of_bool (point_tier p))"
  using get_flag_reads [of "pt_tier p"] by (auto simp: point_tier_def reads_return)

lemma points_reads:
  "list_all (good_point model) ps \<Longrightarrow>
    reads (operating_points (length ps) first model display q) (concat (map (point_bits model display) ps))
      (if first \<and> ps \<noteq> [] then q\<lparr>level := ucast (pt_level (hd ps)), tier := of_bool (point_tier (hd ps))\<rparr> else q)"
proof (induction ps arbitrary: first q)
  case Nil
  then show ?case by (simp add: reads_return)
next
  case (Cons p ps)
  have p: "length (pt_idc p) = 12" "pt_level p < 2 ^ 5" "has_length (2 * (snd model + 1) + 1) (pt_model p)"
    "has_length 4 (pt_display p)" using Cons.prems by (simp_all add: good_point_def)
  have display: "passes (do { present \<leftarrow> get_bits 1; if present \<noteq> 0 then get_bits 4 else State_Monad.return 0 })
      (optional (pt_display p))"
    using p(4) by (intro optional_passes passes_bits) (simp add: has_length_def)
  let ?q = "if first then q\<lparr>level := ucast (pt_level p), tier := ucast (of_bool (point_tier p) :: u32)\<rparr> else q"
  have rest: "reads (operating_points (length ps) False model display ?q) (concat (map (point_bits model display) ps)) ?q"
    using Cons.IH [of False ?q] Cons.prems by simp
  have "reads (operating_points (Suc (length ps)) first model display q)
      (pt_idc p @ field 5 (pt_level p) @ (if pt_level p > 7 then [pt_tier p] else []) @
       (if fst model then optional (pt_model p) else []) @ (if display then optional (pt_display p) else []) @
       concat (map (point_bits model display) ps)) ?q"
    unfolding operating_points.simps
    by (rule get_skip_reads [OF p(1)] reads_bind [OF get_bits_reads [OF disjI1 [OF p(2)]]] reads_bind [OF point_tier_reads]
        passes_then [OF passes_if [OF point_model_passes [OF p(3)]]] passes_then [OF passes_if [OF display]] rest)+
  then have "reads (operating_points (Suc (length ps)) first model display q)
      (point_bits model display p @ concat (map (point_bits model display) ps)) ?q"
    by (simp only: point_bits_def [of _ _ p] append_assoc)
  moreover have "(ucast (of_bool (point_tier p) :: u32) :: byte) = of_bool (point_tier p)" by simp
  ultimately show ?case by (simp only: list.map concat.simps list.size list.sel list.distinct simp_thms add_Suc_right add_0_right)
qed

section \<open>Colours\<close>

record av1_color =
  cc_high :: bool
  cc_twelve :: bool
  cc_mono :: bool
  cc_desc :: "(byte \<times> byte \<times> byte) option"
  cc_range :: bool
  cc_x :: bool
  cc_y :: bool
  cc_pos :: u32
  cc_sep :: bool

text \<open>What is there of the elements under each profile, and the subsampling.\<close>

definition twelve :: "byte \<Rightarrow> av1_color \<Rightarrow> bool" where
  "twelve prof c \<longleftrightarrow> prof = 2 \<and> cc_high c \<and> cc_twelve c"

definition mono :: "byte \<Rightarrow> av1_color \<Rightarrow> bool" where
  "mono prof c \<longleftrightarrow> prof \<noteq> 1 \<and> cc_mono c"

definition srgb :: "av1_color \<Rightarrow> bool" where
  "srgb c \<longleftrightarrow> cc_desc c = Some (1, 13, 0)"

definition subsampling :: "byte \<Rightarrow> av1_color \<Rightarrow> bool \<times> bool" where
  "subsampling prof c =
     (if mono prof c then (True, True)
      else if srgb c then (False, False)
      else if prof = 0 then (True, True)
      else if prof = 1 then (False, False)
      else if twelve prof c then (cc_x c, cc_x c \<and> cc_y c)
      else (True, False))"

definition sample_position :: "byte \<Rightarrow> av1_color \<Rightarrow> u32" where
  "sample_position prof c =
     (if \<not> mono prof c \<and> \<not> srgb c \<and> subsampling prof c = (True, True) then cc_pos c else 0)"

definition description_bits :: "(byte \<times> byte \<times> byte) option \<Rightarrow> bool list" where
  "description_bits d = (case d of None \<Rightarrow> [False] | Some (p, t, m) \<Rightarrow> True # byte_bits p @ byte_bits t @ byte_bits m)"

definition subsampling_bits :: "byte \<Rightarrow> av1_color \<Rightarrow> bool list" where
  "subsampling_bits prof c =
     (if prof = 0 \<or> prof = 1 \<or> \<not> twelve prof c then [] else if cc_x c then [True, cc_y c] else [False])"

definition color_bits :: "byte \<Rightarrow> av1_color \<Rightarrow> bool list" where
  "color_bits prof c =
     cc_high c # (if prof = 2 \<and> cc_high c then [cc_twelve c] else []) @ (if prof = 1 then [] else [cc_mono c]) @
     description_bits (cc_desc c) @
     (if mono prof c then [cc_range c]
      else (if srgb c then []
            else cc_range c # subsampling_bits prof c @
              (if subsampling prof c = (True, True) then field 2 (cc_pos c) else [])) @ [cc_sep c])"

definition description_params :: "av1_color \<Rightarrow> AV1SequenceParameters \<Rightarrow> AV1SequenceParameters" where
  "description_params c q =
     (case cc_desc c of
        None \<Rightarrow> q\<lparr>color_description_present_flag := 0, color_primaries := 2, transfer_characteristics := 2,
          matrix_coefficients := 2\<rparr>
      | Some (p, t, m) \<Rightarrow> q\<lparr>color_description_present_flag := 1, color_primaries := p, transfer_characteristics := t,
          matrix_coefficients := m\<rparr>)"

definition color_params :: "byte \<Rightarrow> av1_color \<Rightarrow> AV1SequenceParameters \<Rightarrow> AV1SequenceParameters" where
  "color_params prof c q = (description_params c q)\<lparr>
     bitdepth := (if twelve prof c then 12 else if cc_high c then 10 else 8),
     monochrome := of_bool (mono prof c),
     chroma_subsampling_x := of_bool (fst (subsampling prof c)),
     chroma_subsampling_y := of_bool (snd (subsampling prof c)),
     chroma_sample_position := ucast (sample_position prof c),
     color_range := (if srgb c \<and> \<not> mono prof c then color_range q else of_bool (cc_range c))\<rparr>"

lemma description_reads:
  "reads (color_description q) (description_bits (cc_desc c)) (description_params c q)"
proof (cases "cc_desc c")
  case None
  then show ?thesis
    by (auto simp: color_description_def description_bits_def description_params_def simp del: One_nat_def
        intro!: flag_bind reads_return)
next
  case (Some d)
  obtain p t m where d: "d = (p, t, m)" by (cases d)
  have "reads (do { pri \<leftarrow> get_bits 8; trc \<leftarrow> get_bits 8; mat \<leftarrow> get_bits 8;
       State_Monad.return (q\<lparr>color_description_present_flag := ucast (1 :: u32), color_primaries := ucast pri,
         transfer_characteristics := ucast trc, matrix_coefficients := ucast mat\<rparr>) })
     (byte_bits p @ byte_bits t @ byte_bits m)
     (q\<lparr>color_description_present_flag := ucast (1 :: u32), color_primaries := ucast (ucast p :: u32),
        transfer_characteristics := ucast (ucast t :: u32), matrix_coefficients := ucast (ucast m :: u32)\<rparr>)"
    by (rule reads_bind [OF get_byte_reads] reads_skip [OF get_byte_reads reads_return])+
  then show ?thesis
    using Some d
    by (auto simp: color_description_def description_bits_def description_params_def simp del: One_nat_def
        intro!: flag_bind)
qed

lemma byte_of_flags: "(8 + of_bool a * 2 + of_bool b * 2 :: byte) = (if a then if b then 12 else 10 else if b then 10 else 8)"
  by simp

lemma subsampling_reads:
  "profile q = prof \<Longrightarrow> \<not> mono prof c \<Longrightarrow> \<not> srgb c \<Longrightarrow>
    reads (chroma_subsampling (twelve prof c) q) (subsampling_bits prof c)
      (q\<lparr>chroma_subsampling_x := of_bool (fst (subsampling prof c)),
         chroma_subsampling_y := of_bool (snd (subsampling prof c))\<rparr>)"
  using reads_return
  by (auto simp: chroma_subsampling_def subsampling_bits_def subsampling_def FF_PROFILE_AV1_MAIN_def
      FF_PROFILE_AV1_HIGH_def reads_return simp del: One_nat_def
      intro!: flag_bind reads_pure [OF reads_return] reads_skip [OF get_flag_reads])

lemma twelve_reads:
  "reads (if prof = FF_PROFILE_AV1_PROFESSIONAL \<and> (of_bool (cc_high c) :: u32) \<noteq> 0 then get_bits 1 else State_Monad.return 0)
    (if prof = 2 \<and> cc_high c then [cc_twelve c] else []) (of_bool (twelve prof c))"
  using get_flag_reads [of "cc_twelve c"] by (auto simp: FF_PROFILE_AV1_PROFESSIONAL_def twelve_def reads_return)

lemma mono_reads:
  "reads (if prof = FF_PROFILE_AV1_HIGH then State_Monad.return 0 else get_bits 1)
    (if prof = 1 then [] else [cc_mono c]) (of_bool (mono prof c))"
  using get_flag_reads [of "cc_mono c"] by (auto simp: FF_PROFILE_AV1_HIGH_def mono_def reads_return)

lemma description_srgb:
  "color_primaries (description_params c q) = 1 \<and> transfer_characteristics (description_params c q) = 13 \<and>
    matrix_coefficients (description_params c q) = 0 \<longleftrightarrow> srgb c"
  by (auto simp: description_params_def srgb_def split: option.splits prod.splits)

lemma description_range: "color_range (description_params c q) = color_range q"
  by (auto simp: description_params_def split: option.splits)

lemma same_position: "chroma_sample_position q = 0 \<Longrightarrow> q\<lparr>chroma_sample_position := 0\<rparr> = q"
  by (cases q) simp

lemma same_srgb: "chroma_sample_position q = 0 \<Longrightarrow> color_range q = r \<Longrightarrow>
    q\<lparr>chroma_subsampling_x := x, chroma_subsampling_y := y, chroma_sample_position := 0, color_range := r\<rparr> =
      q\<lparr>chroma_subsampling_x := x, chroma_subsampling_y := y\<rparr>"
  by (cases q) simp

lemma chroma_reads:
  assumes prof: "profile q = prof" and c: "\<not> mono prof c" "\<not> srgb c" and pos: "cc_pos c < 2 ^ 2"
    and zero: "chroma_sample_position q = 0"
  shows "reads (do {
      range \<leftarrow> get_bits 1;
      q3 \<leftarrow> chroma_subsampling (twelve prof c) (q\<lparr>color_range := ucast range\<rparr>);
      if chroma_subsampling_x q3 \<noteq> 0 \<and> chroma_subsampling_y q3 \<noteq> 0
      then do { pos \<leftarrow> get_bits 2; State_Monad.return (q3\<lparr>chroma_sample_position := ucast pos\<rparr>) }
      else State_Monad.return q3 })
    (cc_range c # subsampling_bits prof c @ (if subsampling prof c = (True, True) then field 2 (cc_pos c) else []))
    (q\<lparr>color_range := ucast (of_bool (cc_range c) :: u32), chroma_subsampling_x := of_bool (fst (subsampling prof c)),
       chroma_subsampling_y := of_bool (snd (subsampling prof c)),
       chroma_sample_position := ucast (sample_position prof c)\<rparr>)"
proof -
  let ?q = "q\<lparr>color_range := ucast (of_bool (cc_range c) :: u32), chroma_subsampling_x := of_bool (fst (subsampling prof c)),
       chroma_subsampling_y := of_bool (snd (subsampling prof c))\<rparr>"
  obtain x y where xy: "subsampling prof c = (x, y)" by (cases "subsampling prof c")
  have "reads (if chroma_subsampling_x ?q \<noteq> 0 \<and> chroma_subsampling_y ?q \<noteq> 0
      then do { pos \<leftarrow> get_bits 2; State_Monad.return (?q\<lparr>chroma_sample_position := ucast pos\<rparr>) }
      else State_Monad.return ?q)
    (if subsampling prof c = (True, True) then field 2 (cc_pos c) else [])
    (?q\<lparr>chroma_sample_position := ucast (sample_position prof c)\<rparr>)"
  proof (cases "x \<and> y")
    case True
    then show ?thesis
      using c xy by (auto simp: sample_position_def reads_return intro!: reads_skip [OF get_bits_reads [OF disjI1 [OF pos]]])
  next
    case False
    then show ?thesis
      using c xy zero by (auto simp: sample_position_def reads_return same_position)
  qed
  note last = this
  have "profile (q\<lparr>color_range := ucast (of_bool (cc_range c) :: u32)\<rparr>) = prof" using prof by simp
  show ?thesis
    by (rule flag_bind, rule reads_bind [OF subsampling_reads]) (fact | rule last)+
qed

text \<open>What the tail of the colour configuration sets.\<close>

definition chroma_params :: "byte \<Rightarrow> av1_color \<Rightarrow> AV1SequenceParameters \<Rightarrow> AV1SequenceParameters" where
  "chroma_params prof c q = q\<lparr>
     chroma_subsampling_x := of_bool (fst (subsampling prof c)),
     chroma_subsampling_y := of_bool (snd (subsampling prof c)),
     chroma_sample_position := ucast (sample_position prof c),
     color_range := (if srgb c \<and> \<not> mono prof c then color_range q else of_bool (cc_range c))\<rparr>"

lemma color_tail_reads:
  assumes prof: "profile q = prof" and zero: "chroma_sample_position q = 0" and pos: "cc_pos c < 2 ^ 2"
    and srgb: "color_primaries q = 1 \<and> transfer_characteristics q = 13 \<and> matrix_coefficients q = 0 \<longleftrightarrow> srgb c"
  shows "reads (if (of_bool (mono prof c) :: u32) \<noteq> 0 then do {
       range \<leftarrow> get_bits 1;
       State_Monad.return (q\<lparr>color_range := ucast range, chroma_subsampling_x := 1, chroma_subsampling_y := 1,
         chroma_sample_position := 0\<rparr>) }
     else do {
       q4 \<leftarrow> (if color_primaries q = 1 \<and> transfer_characteristics q = 13 \<and> matrix_coefficients q = 0
         then State_Monad.return (q\<lparr>chroma_subsampling_x := 0, chroma_subsampling_y := 0\<rparr>)
         else do {
           range \<leftarrow> get_bits 1;
           q3 \<leftarrow> chroma_subsampling ((of_bool (twelve prof c) :: u32) \<noteq> 0) (q\<lparr>color_range := ucast range\<rparr>);
           if chroma_subsampling_x q3 \<noteq> 0 \<and> chroma_subsampling_y q3 \<noteq> 0
           then do { pos \<leftarrow> get_bits 2; State_Monad.return (q3\<lparr>chroma_sample_position := ucast pos\<rparr>) }
           else State_Monad.return q3 });
       _ \<leftarrow> get_bits 1;
       State_Monad.return q4 })
     (if mono prof c then [cc_range c]
      else (if srgb c then []
            else cc_range c # subsampling_bits prof c @
              (if subsampling prof c = (True, True) then field 2 (cc_pos c) else [])) @ [cc_sep c])
     (chroma_params prof c q)" (is "reads (if ?m then ?mono else ?color) (if _ then _ else ?bits) _")
proof (cases "mono prof c")
  case True
  have "reads ?mono [cc_range c] (q\<lparr>color_range := ucast (of_bool (cc_range c) :: u32), chroma_subsampling_x := 1,
      chroma_subsampling_y := 1, chroma_sample_position := 0\<rparr>)"
    by (rule reads_skip [OF get_flag_reads reads_return])
  moreover have "chroma_params prof c q = q\<lparr>color_range := ucast (of_bool (cc_range c) :: u32),
      chroma_subsampling_x := 1, chroma_subsampling_y := 1, chroma_sample_position := 0\<rparr>"
    using True by (simp add: chroma_params_def subsampling_def sample_position_def)
  ultimately show ?thesis using True by simp
next
  case colour: False
  have "reads ?color ?bits (chroma_params prof c q)"
  proof (cases "srgb c")
    case True
    have "reads (do { q4 \<leftarrow> State_Monad.return (q\<lparr>chroma_subsampling_x := 0, chroma_subsampling_y := 0\<rparr>);
         _ \<leftarrow> get_bits 1; State_Monad.return q4 }) [cc_sep c]
       (q\<lparr>chroma_subsampling_x := 0, chroma_subsampling_y := 0\<rparr>)"
      by (rule reads_pure [OF reads_return] reads_skip [OF get_flag_reads reads_return])+
    moreover have "chroma_params prof c q = q\<lparr>chroma_subsampling_x := 0, chroma_subsampling_y := 0\<rparr>"
      using True colour zero same_srgb [of q "color_range q"]
      by (simp add: chroma_params_def subsampling_def sample_position_def)
    ultimately show ?thesis using True srgb by simp
  next
    case other: False
    then have "chroma_params prof c q = q\<lparr>color_range := ucast (of_bool (cc_range c) :: u32),
        chroma_subsampling_x := of_bool (fst (subsampling prof c)),
        chroma_subsampling_y := of_bool (snd (subsampling prof c)),
        chroma_sample_position := ucast (sample_position prof c)\<rparr>"
      by (simp add: chroma_params_def)
    with other srgb show ?thesis
      by (simp only: of_bool_eq_0_iff if_False not_not simp_thms)
        (intro reads_bind [OF chroma_reads [OF prof colour other pos zero]]
          reads_skip [OF get_flag_reads [of "cc_sep c"] reads_return])
  qed
  with colour show ?thesis by simp
qed

lemma color_reads:
  assumes prof: "profile q = prof" and pos: "cc_pos c < 2 ^ 2" and zero: "chroma_sample_position q = 0"
  shows "reads (parse_color_config q) (color_bits prof c) (color_params prof c q)"
proof -
  let ?q1 = "q\<lparr>bitdepth := 8 + ucast (of_bool (cc_high c) :: u32) * 2 + ucast (of_bool (twelve prof c) :: u32) * 2,
      monochrome := ucast (of_bool (mono prof c) :: u32)\<rparr>"
  let ?q2 = "description_params c ?q1"
  have q2: "profile ?q2 = prof" "chroma_sample_position ?q2 = 0"
    using prof zero by (auto simp: description_params_def split: option.splits)
  have params: "color_params prof c q = chroma_params prof c ?q2"
    by (auto simp: color_params_def chroma_params_def description_params_def byte_of_flags twelve_def split: option.splits)
  have same: "profile (q\<lparr>bitdepth := b\<rparr>) = prof" for b using prof by simp
  show ?thesis
    unfolding parse_color_config_def Let_def color_bits_def params
    by (rule flag_bind, unfold prof, rule reads_bind [OF twelve_reads], unfold same, rule reads_bind [OF mono_reads],
        rule reads_bind [OF description_reads], rule color_tail_reads [OF q2 pos description_srgb])
qed

section \<open>The header\<close>

record av1_header =
  hd_profile :: byte
  hd_still :: bool
  hd_width :: "bool list"
  hd_height :: "bool list"
  hd_size :: "u32 \<times> u32"
  hd_filters :: "bool list"
  hd_restoration :: "bool list"
  hd_color :: av1_color
  hd_grain :: bool

text \<open>The two forms: a reduced still picture with its level, or a sequence.\<close>

record av1_sequence =
  sq_timing :: "av1_timing option"
  sq_display :: bool
  sq_points :: "av1_point list"
  sq_ids :: "bool list option"
  sq_tools :: av1_tools

type_synonym av1_form = "u32 + av1_sequence"

definition good_header :: "av1_header \<Rightarrow> bool" where
  "good_header h \<longleftrightarrow>
     hd_profile h < 8 \<and> fst (hd_size h) < 2 ^ 4 \<and> snd (hd_size h) < 2 ^ 4 \<and>
     length (hd_width h) = unat (fst (hd_size h)) + 1 \<and> length (hd_height h) = unat (snd (hd_size h)) + 1 \<and>
     length (hd_filters h) = 3 \<and> length (hd_restoration h) = 3 \<and> cc_pos (hd_color h) < 2 ^ 2"

definition good_sequence :: "av1_sequence \<Rightarrow> bool" where
  "good_sequence q \<longleftrightarrow>
     (case sq_timing q of None \<Rightarrow> True | Some t \<Rightarrow> good_timing t) \<and>
     sq_points q \<noteq> [] \<and> length (sq_points q) \<le> 32 \<and>
     list_all (good_point (timing_model (sq_timing q))) (sq_points q) \<and>
     has_length 7 (sq_ids q) \<and> good_tools (sq_tools q)"

definition level_bits :: "av1_sequence \<Rightarrow> bool list" where
  "level_bits q =
     optional (map_option timing_bits (sq_timing q)) @ sq_display q #
     field 5 (of_nat (length (sq_points q) - 1) :: u32) @
     concat (map (point_bits (timing_model (sq_timing q)) (sq_display q)) (sq_points q))"

definition header_bits :: "av1_header \<Rightarrow> av1_form \<Rightarrow> bool list" where
  "header_bits h form =
     field 3 (ucast (hd_profile h) :: u32) @ hd_still h # (case form of Inl _ \<Rightarrow> True | Inr _ \<Rightarrow> False) #
     (case form of Inl lev \<Rightarrow> field 5 lev | Inr q \<Rightarrow> level_bits q) @
     field 4 (fst (hd_size h)) @ field 4 (snd (hd_size h)) @ hd_width h @ hd_height h @
     (case form of Inl _ \<Rightarrow> [] | Inr q \<Rightarrow> optional (sq_ids q)) @ hd_filters h @
     (case form of Inl _ \<Rightarrow> [] | Inr q \<Rightarrow> tools_bits (sq_tools q)) @ hd_restoration h @
     color_bits (hd_profile h) (hd_color h) @ [hd_grain h]"

definition good_form :: "av1_form \<Rightarrow> bool" where
  "good_form form \<longleftrightarrow> (case form of Inl lev \<Rightarrow> lev < 2 ^ 5 | Inr q \<Rightarrow> good_sequence q)"

definition form_level :: "av1_form \<Rightarrow> byte \<times> bool" where
  "form_level form =
     (case form of Inl lev \<Rightarrow> (ucast lev, False)
      | Inr q \<Rightarrow> (ucast (pt_level (hd (sq_points q))), point_tier (hd (sq_points q))))"

definition header_params :: "av1_header \<Rightarrow> av1_form \<Rightarrow> AV1SequenceParameters" where
  "header_params h form =
     color_params (hd_profile h) (hd_color h)
       (seq_zero\<lparr>profile := hd_profile h, level := fst (form_level form), tier := of_bool (snd (form_level form))\<rparr>)"

lemma level_reads:
  assumes "good_sequence q"
  shows "reads (level_and_tier p) (level_bits q) (p\<lparr>level := fst (form_level (Inr q)), tier := of_bool (snd (form_level (Inr q)))\<rparr>)"
proof -
  let ?model = "timing_model (sq_timing q)"
  have points: "sq_points q \<noteq> []" "length (sq_points q) \<le> 32" "list_all (good_point ?model) (sq_points q)"
    using assms by (simp_all add: good_sequence_def)
  let ?n = "of_nat (length (sq_points q) - 1) :: u32"
  have n: "unat ?n = length (sq_points q) - 1" using points(2) by (simp add: unat_of_nat)
  then have n5: "?n < 2 ^ 5" using points(2) by (simp add: word_less_nat_alt)
  have count: "unat ?n + 1 = length (sq_points q)" using n points(1) by (cases "sq_points q") simp_all
  have ops: "reads (operating_points (unat ?n + 1) True ?model (sq_display q) p)
      (concat (map (point_bits ?model (sq_display q)) (sq_points q)))
      (p\<lparr>level := fst (form_level (Inr q)), tier := of_bool (snd (form_level (Inr q)))\<rparr>)"
    unfolding count using points_reads [OF points(3), of True "sq_display q" p] points(1) by (simp add: form_level_def)
  have rest: "reads (do { display \<leftarrow> get_bits 1; count \<leftarrow> get_bits 5;
       operating_points (unat count + 1) True ?model (display \<noteq> 0) p })
     (sq_display q # field 5 ?n @ concat (map (point_bits ?model (sq_display q)) (sq_points q)))
     (p\<lparr>level := fst (form_level (Inr q)), tier := of_bool (snd (form_level (Inr q)))\<rparr>)"
    using ops by (intro flag_bind reads_bind [OF get_bits_reads [OF disjI1 [OF n5]]]) simp
  show ?thesis
  proof (cases "sq_timing q")
    case None
    then have "?model = (False, 0)" by (simp add: timing_model_def)
    then have "reads (do { model \<leftarrow> State_Monad.return (False, 0); display \<leftarrow> get_bits 1; count \<leftarrow> get_bits 5;
         operating_points (unat count + 1) True model (display \<noteq> 0) p })
       (sq_display q # field 5 ?n @ concat (map (point_bits ?model (sq_display q)) (sq_points q)))
       (p\<lparr>level := fst (form_level (Inr q)), tier := of_bool (snd (form_level (Inr q)))\<rparr>)"
      using rest by (intro reads_pure [OF reads_return]) (simp only:)
    then show ?thesis using None by (simp add: level_and_tier_def level_bits_def optional_def flag_bind del: One_nat_def)
  next
    case (Some t)
    then have "good_timing t" using assms by (simp add: good_sequence_def)
    then have "reads (do { model \<leftarrow> timing_info; display \<leftarrow> get_bits 1; count \<leftarrow> get_bits 5;
         operating_points (unat count + 1) True model (display \<noteq> 0) p })
       (timing_bits t @ sq_display q # field 5 ?n @ concat (map (point_bits ?model (sq_display q)) (sq_points q)))
       (p\<lparr>level := fst (form_level (Inr q)), tier := of_bool (snd (form_level (Inr q)))\<rparr>)"
      using rest unfolding Some by (intro reads_bind [OF timing_reads])
    then show ?thesis using Some by (simp add: level_and_tier_def level_bits_def optional_def flag_bind del: One_nat_def)
  qed
qed

lemma header_reads:
  assumes h: "good_header h" and form: "good_form form"
  shows "reads read_sequence_fields (header_bits h form) (header_params h form)"
proof -
  have prof: "(ucast (hd_profile h) :: u32) < 2 ^ 3"
    using h by (auto simp: good_header_def word_less_nat_alt unsigned_ucast_eq intro: le_less_trans [OF take_bit_nat_less_eq_self])
  have dims: "fst (hd_size h) < 2 ^ 4" "snd (hd_size h) < 2 ^ 4" "length (hd_width h) = unat (fst (hd_size h)) + 1"
    "length (hd_height h) = unat (snd (hd_size h)) + 1" "length (hd_filters h) = 3" "length (hd_restoration h) = 3"
    and pos: "cc_pos (hd_color h) < 2 ^ 2"
    using h by (simp_all add: good_header_def)
  let ?reduced = "case form of Inl _ \<Rightarrow> True | Inr _ \<Rightarrow> False"
  let ?q0 = "seq_zero\<lparr>profile := ucast (ucast (hd_profile h) :: u32)\<rparr>"
  let ?q1 = "?q0\<lparr>level := fst (form_level form), tier := of_bool (snd (form_level form))\<rparr>"
  have q1: "profile ?q1 = hd_profile h" "chroma_sample_position ?q1 = 0" by (simp_all add: seq_zero_def)
  have params: "header_params h form = color_params (hd_profile h) (hd_color h) ?q1" by (simp add: header_params_def)
  have lev: "reads (if (of_bool ?reduced :: u32) \<noteq> 0
       then do { lev \<leftarrow> get_bits 5; State_Monad.return (?q0\<lparr>level := ucast lev, tier := 0\<rparr>) }
       else level_and_tier ?q0) (case form of Inl lev \<Rightarrow> field 5 lev | Inr q \<Rightarrow> level_bits q) ?q1"
  proof (cases form)
    case (Inl lev)
    then have "lev < 2 ^ 5" using form by (simp add: good_form_def)
    from reads_skip [OF get_bits_reads [OF disjI1 [OF this]] reads_return] Inl show ?thesis by (simp add: form_level_def)
  next
    case (Inr q)
    then have "good_sequence q" using form by (simp add: good_form_def)
    from level_reads [OF this] Inr show ?thesis by simp
  qed
  have ids: "passes (if (of_bool ?reduced :: u32) = 0 then do { ids \<leftarrow> get_bits 1;
         if ids \<noteq> 0 then get_bits 7 else State_Monad.return 0 } else State_Monad.return 0)
     (case form of Inl _ \<Rightarrow> [] | Inr q \<Rightarrow> optional (sq_ids q))"
  proof (cases form)
    case (Inl lev)
    then show ?thesis by (simp add: passes_return)
  next
    case (Inr q)
    then have "has_length 7 (sq_ids q)" using form by (simp add: good_form_def good_sequence_def)
    then have "passes (do { ids \<leftarrow> get_bits 1; if ids \<noteq> 0 then get_bits 7 else State_Monad.return 0 }) (optional (sq_ids q))"
      by (intro optional_passes passes_bits) (simp add: has_length_def)
    with Inr show ?thesis by simp
  qed
  have tools: "passes (if (of_bool ?reduced :: u32) = 0 then skip_tools else State_Monad.return 0)
     (case form of Inl _ \<Rightarrow> [] | Inr q \<Rightarrow> tools_bits (sq_tools q))"
    using form tools_passes by (cases form) (auto simp: passes_return good_form_def good_sequence_def)
  have color: "reads (do { q2 \<leftarrow> parse_color_config ?q1; _ \<leftarrow> get_bits 1; State_Monad.return q2 })
      (color_bits (hd_profile h) (hd_color h) @ [hd_grain h]) (header_params h form)"
    unfolding params
    by (rule reads_bind [OF color_reads [OF q1(1) pos q1(2)]], rule reads_skip [OF get_flag_reads reads_return])
  show ?thesis
    unfolding read_sequence_fields_def header_bits_def Let_def
    by (rule reads_bind [OF get_bits_reads [OF disjI1 [OF prof]]] flag_bind reads_bind [OF lev]
        reads_bind [OF get_bits_reads [OF disjI1 [OF dims(1)]]] reads_bind [OF get_bits_reads [OF disjI1 [OF dims(2)]]]
        get_skip_reads [OF dims(3)] get_skip_reads [OF dims(4)] passes_then [OF ids] get_skip_reads [OF dims(5)]
        passes_then [OF tools] get_skip_reads [OF dims(6)] color)+
qed

end
