(* ===== verification/Av1_Header_Properties.thy ===== *)
theory Av1_Header_Properties
  imports Av1_Header
begin

text \<open>
  The configuration record \<open>obs_parse_av1_header\<close> makes of the extra data of an encoder: the trailing bits
  are found, the header is read, and the record is the one of the AV1 binding.
\<close>

section \<open>The length of a header in bits\<close>

definition ended :: "byte list \<Rightarrow> bool list \<Rightarrow> bool" where
  "ended payload bs \<longleftrightarrow> (\<exists>k. bits_of payload = bs @ True # replicate k False)"

lemma strip_zeros_at:
  "n < m \<Longrightarrow> buf ! n \<noteq> 0 \<Longrightarrow> (\<And>i. n < i \<Longrightarrow> i < m \<Longrightarrow> buf ! i = 0) \<Longrightarrow> strip_zeros buf m = Suc n"
proof (induction m)
  case 0
  then show ?case by simp
next
  case (Suc m)
  then show ?case by (cases "n = m") simp_all
qed

lemma ctz32_at: "c < 8 \<Longrightarrow> bit v c \<Longrightarrow> (\<And>j. j < c \<Longrightarrow> \<not> bit v j) \<Longrightarrow> ctz32 v = c"
  by (simp add: ctz32_def takeWhile_eq_take_P_nth [of c])

lemma ended_bit_length:
  assumes "ended payload bs" and "length payload < 2 ^ 27"
  shows "get_obu_bit_length (payload @ rest) (length payload) AV1_OBU_SEQUENCE_HEADER = Some (length bs)"
proof -
  obtain k where bits: "bits_of payload = bs @ True # replicate k False" using assms(1) by (auto simp: ended_def)
  let ?l = "length bs" and ?n = "length bs div 8" and ?c = "7 - length bs mod 8"
  have len: "8 * length payload = Suc (?l + k)" using arg_cong [OF bits, of length] by simp
  have at: "bit (payload ! (i div 8)) (7 - i mod 8) \<longleftrightarrow> i < ?l \<and> bs ! i \<or> i = ?l" if "i < 8 * length payload" for i
  proof (cases "?l < i")
    case True
    then obtain d where "i = ?l + Suc d" using less_iff_Suc_add by auto
    then show ?thesis using nth_bits_of [OF that] that len by (simp add: bits nth_append)
  next
    case False
    then show ?thesis using nth_bits_of [OF that] by (auto simp: bits nth_append)
  qed
  have n: "?n < length payload" using len by linarith
  have here: "bit (payload ! ?n) ?c" using at [of ?l] len by simp
  have low: "\<not> bit (payload ! ?n) j" if "j < ?c" for j
  proof -
    define i where "i = 8 * ?n + (7 - j)"
    have "i div 8 = ?n" "7 - i mod 8 = j" using byte_index [of "7 - j" ?n] that unfolding i_def by linarith+
    moreover have "?l = 8 * ?n + ?l mod 8" by simp
    then have "i > ?l" using that unfolding i_def by arith
    moreover have "i < 8 * length payload" using n unfolding i_def by linarith
    ultimately show ?thesis using at [of i] by simp
  qed
  have after: "payload ! m = 0" if "?n < m" "m < length payload" for m
  proof (rule bit_word_eqI)
    fix j assume j: "j < LENGTH(8)"
    define i where "i = 8 * m + (7 - j)"
    have "i div 8 = m" "7 - i mod 8 = j" using byte_index [of "7 - j" m] j unfolding i_def by fastforce+
    moreover have "i > ?l" using that unfolding i_def by linarith
    moreover have "i < 8 * length payload" using that unfolding i_def by linarith
    ultimately show "bit (payload ! m) j \<longleftrightarrow> bit (0 :: byte) j" using at [of i] by simp
  qed
  have "payload ! ?n \<noteq> 0" using here by auto
  then have strip: "strip_zeros (payload @ rest) (length payload) = Suc ?n"
    using n after by (intro strip_zeros_at) (auto simp: nth_append)
  have "ctz32 (payload ! ?n) = ?c" by (rule ctz32_at [OF _ here low]) simp_all
  then show ?thesis
    using strip n assms(2) by (simp add: get_obu_bit_length_def Let_def obu_types nth_append)
qed

lemma parse_header_run:
  assumes h: "good_header h" and form: "good_form form" and bits: "ended payload (header_bits h form)"
    and len: "length payload < 2 ^ 27"
  shows "parse_sequence_header (payload @ rest) (length payload) = Inr (Some (header_params h form))"
proof -
  let ?bs = "header_bits h form"
  let ?s = "\<lparr>gb_mem = payload @ rest, gb_index = 0, gb_size = length ?bs, gb_over = False, gb_stuck = False\<rparr>"
  obtain k where k: "bits_of payload = ?bs @ True # replicate k False" using bits by (auto simp: ended_def)
  have "init_ok (length ?bs)" using arg_cong [OF k, of length] len by (simp add: init_ok_def)
  moreover have "run_state read_sequence_fields ?s = (header_params h form, skip (length ?bs) ?s)"
    by (rule reads_run [OF header_reads [OF h form]]) (simp_all add: unread_def k)
  ultimately show ?thesis
    by (simp add: parse_sequence_header_def ended_bit_length [OF bits len] with_bits_def read_sequence_header_def
        get_bits_left_def)
qed

section \<open>The record\<close>

lemma bits_word_Cons: "bits_word (b # bs) = (or (push_bit (length bs) (of_bool b)) (bits_word bs) :: 'a::len word)"
proof (rule bit_word_eqI)
  fix k assume "k < LENGTH('a)"
  then show "bit (bits_word (b # bs) :: 'a word) k \<longleftrightarrow> bit (or (push_bit (length bs) (of_bool b)) (bits_word bs) :: 'a word) k"
    by (cases k "length bs" rule: linorder_cases) (auto simp: bit_simps bit_bits_word Suc_diff_Suc nth_Cons')
qed

lemma bits_word_append: "bits_word (xs @ ys) = (or (push_bit (length ys) (bits_word xs)) (bits_word ys) :: 'a::len word)"
  by (induction xs) (simp_all add: bits_word_Cons push_bit_or or.assoc add.commute)

lemma byte_less: "w < 32 \<Longrightarrow> (ucast w :: byte) < 32" "w < 4 \<Longrightarrow> (ucast w :: byte) < 4" for w :: u32
  by (auto simp: word_less_nat_alt unsigned_ucast_eq intro: le_less_trans [OF take_bit_nat_less_eq_self])

text \<open>Marker and version; profile and level; tier, depth, colours; no delay.\<close>

definition config_record :: "av1_header \<Rightarrow> av1_form \<Rightarrow> byte list" where
  "config_record h form = (let prof = hd_profile h; c = hd_color h; (lev, tr) = form_level form in
     [bits_word ([True] @ field 7 (1 :: byte)),
      bits_word (field 3 prof @ field 5 lev),
      bits_word ([tr, cc_high c, twelve prof c, mono prof c, fst (subsampling prof c), snd (subsampling prof c)] @
        field 2 (ucast (sample_position prof c) :: byte)),
      0])"

lemma form_level_less: "good_form form \<Longrightarrow> fst (form_level form) < 2 ^ 5"
  by (cases form) (auto simp: good_form_def form_level_def good_sequence_def good_point_def neq_Nil_conv intro!: byte_less)

lemma position_less: "good_header h \<Longrightarrow> sample_position (hd_profile h) (hd_color h) < 4"
  by (auto simp: sample_position_def good_header_def)

lemma record_of_header:
  assumes "good_header h" and "good_form form"
  shows "av1_record (header_params h form) = config_record h form"
proof -
  let ?c = "hd_color h" and ?p = "hd_profile h"
  have prof: "bits_word (field 3 ?p) = ?p" using assms(1) by (intro bits_word_field) (simp add: good_header_def)
  have lev: "bits_word (field 5 (fst (form_level form))) = fst (form_level form)"
    using form_level_less [OF assms(2)] by (intro bits_word_field) simp
  have pos: "bits_word (field 2 (ucast (sample_position ?p ?c) :: byte)) = (ucast (sample_position ?p ?c) :: byte)"
    using byte_less(2) [OF position_less [OF assms(1)]] by (intro bits_word_field) simp
  have version: "bits_word ([True] @ field 7 (1 :: byte)) = (0x81 :: byte)" by code_simp
  have params: "profile (header_params h form) = ?p" "level (header_params h form) = fst (form_level form)"
    "tier (header_params h form) = of_bool (snd (form_level form))"
    "monochrome (header_params h form) = of_bool (mono ?p ?c)"
    "chroma_subsampling_x (header_params h form) = of_bool (fst (subsampling ?p ?c))"
    "chroma_subsampling_y (header_params h form) = of_bool (snd (subsampling ?p ?c))"
    "chroma_sample_position (header_params h form) = ucast (sample_position ?p ?c)"
    "bitdepth (header_params h form) = (if twelve ?p ?c then 12 else if cc_high ?c then 10 else 8)"
    by (auto simp: header_params_def color_params_def description_params_def split: option.splits)
  have depth: "bitdepth (header_params h form) > 8 \<longleftrightarrow> cc_high ?c" "bitdepth (header_params h form) = 12 \<longleftrightarrow> twelve ?p ?c"
    unfolding params by (auto simp: twelve_def)
  have second: "bits_word (field 3 ?p @ field 5 (fst (form_level form))) =
      or (push_bit 5 ?p) (fst (form_level form))"
    by (simp add: bits_word_append prof lev)
  show ?thesis
    unfolding av1_record_def config_record_def Let_def depth params(1-7) prod.case_eq_if second version
    by (simp only: append_Cons append_Nil bits_word_Cons pos list.size field_length) simp
qed

section \<open>The extra data\<close>

definition last_metadata :: "av1_unit list \<Rightarrow> byte list" where
  "last_metadata us = (let ms = filter (\<lambda>u. fst u = 5) us in if ms = [] then [] else unit_bytes (last ms))"

definition extra_unit :: "av1_unit \<Rightarrow> bool" where
  "extra_unit u \<longleftrightarrow> good_unit u \<and> fst u \<noteq> 1 \<and> (fst u = 5 \<longrightarrow> snd (snd u) \<noteq> [])"

lemma unit_marker: "unit_bytes u \<noteq> [] \<and> and (hd (unit_bytes u @ rest)) 0x80 = 0"
proof -
  obtain ty ext payload where u: "u = (ty, ext, payload)" by (cases u)
  have "(0x80 :: byte) = 2 ^ 7" by simp
  moreover have "\<not> bit (head_byte ty (ext \<noteq> None)) 7"
    by (simp add: head_byte_def bit_bits_word)
  ultimately have "and (head_byte ty (ext \<noteq> None)) 0x80 = 0"
    by (intro bit_word_eqI) (auto simp only: bit_and_iff bit_exp_iff bit_0_eq bot_fun_def bot_bool_def)
  then show ?thesis by (simp add: u unit_bytes_def unit_head_def)
qed

lemma find_unit_step:
  assumes "good_unit u" and "length (unit_bytes u @ rest) < 2 ^ 62"
    and "note_unit (unit_bytes u @ rest) (unit_obu u) f = Inr (Some g)"
  shows "find_units (unit_bytes u @ rest) f = find_units rest g"
proof -
  have "unit_bytes u \<noteq> []" using unit_marker by blast
  then show ?thesis
    using parse_unit_header [OF assms(1,2)] assms(3)
    by (simp add: find_units.simps [of "unit_bytes u @ rest"] unit_obu_def)
qed

lemma find_extra:
  "list_all extra_unit us \<Longrightarrow> length (concat (map unit_bytes us) @ rest) < 2 ^ 62 \<Longrightarrow>
    find_units (concat (map unit_bytes us) @ rest) f =
      find_units rest (f\<lparr>meta_unit := (if filter (\<lambda>u. fst u = 5) us = [] then meta_unit f else last_metadata us)\<rparr>)"
proof (induction us arbitrary: f)
  case Nil
  then show ?case by simp
next
  case (Cons u us)
  let ?tail = "concat (map unit_bytes us) @ rest"
  let ?f = "if fst u = 5 then f\<lparr>meta_unit := unit_bytes u\<rparr> else f"
  have u: "good_unit u" "fst u \<noteq> 1" "fst u = 5 \<Longrightarrow> snd (snd u) \<noteq> []"
    using Cons.prems(1) by (simp_all add: extra_unit_def)
  have note_u: "note_unit (unit_bytes u @ ?tail) (unit_obu u) f = Inr (Some ?f)"
    using u by (simp add: note_unit_def unit_obu_def obu_types u32_types)
  have "find_units (concat (map unit_bytes (u # us)) @ rest) f = find_units ?tail ?f"
    using find_unit_step [OF u(1) _ note_u] Cons.prems(2) by simp
  also have "\<dots> = find_units rest (?f\<lparr>meta_unit :=
      (if filter (\<lambda>u. fst u = 5) us = [] then meta_unit ?f else last_metadata us)\<rparr>)"
    using Cons by simp
  finally show ?case by (cases "fst u = 5") (simp_all add: last_metadata_def Let_def)
qed

text \<open>C34: The configuration record of an encoder's extra data with one sequence header holds its profile,
  level, tier, bit depth, colour format and sample position, then the sequence header unit and the last
  metadata unit; all other units are left out.\<close>

theorem av1_header_is_configuration_record:
  assumes h: "good_header h" and form: "good_form form" and bits: "ended payload (header_bits h form)"
    and units: "list_all extra_unit (before @ after)" and u: "u = (1, ext, payload)"
    and data: "data = concat (map unit_bytes (before @ u # after))" and len: "length data < 2 ^ 27"
  shows "obs_parse_av1_header data = Inr (config_record h form @ unit_bytes u @ last_metadata (before @ after))"
proof -
  let ?f0 = "\<lparr>nb_seq = 0, seq_params = seq_zero, seq_unit = [], meta_unit = []\<rparr>"
  let ?after = "concat (map unit_bytes after)"
  have pl: "length payload < 2 ^ 27" using len unfolding data u by (simp add: unit_bytes_def)
  have good: "good_unit u" using pl by (simp add: u good_unit_def)
  have ne: "payload \<noteq> []" using bits by (auto simp: ended_def)
  have f1: "find_units data ?f0 = find_units (unit_bytes u @ ?after) (?f0\<lparr>meta_unit := last_metadata before\<rparr>)"
    using find_extra [of before "unit_bytes u @ ?after" ?f0] units len
    by (simp add: data last_metadata_def Let_def)
  let ?g = "\<lparr>nb_seq = 1, seq_params = header_params h form, seq_unit = unit_bytes u,
      meta_unit = last_metadata before\<rparr>"
  have "note_unit (unit_bytes u @ ?after) (unit_obu u) (?f0\<lparr>meta_unit := last_metadata before\<rparr>) = Inr (Some ?g)"
    using ne parse_header_run [OF h form bits pl, of ?after]
    by (simp add: note_unit_def unit_obu_def obu_types u unit_bytes_def)
  then have f2: "find_units (unit_bytes u @ ?after) (?f0\<lparr>meta_unit := last_metadata before\<rparr>) = find_units ?after ?g"
    using len by (intro find_unit_step [OF good]) (simp_all add: data)
  have f3: "find_units ?after ?g = Inr (Some (?g\<lparr>meta_unit := last_metadata (before @ after)\<rparr>))"
    using find_extra [of after "[]" ?g] units len
    by (simp add: data last_metadata_def Let_def find_units.simps [of "[]"])
  have "data \<noteq> [] \<and> and (hd data) 0x80 = 0"
    using unit_marker by (cases before) (simp_all add: data unit_marker)
  then show ?thesis
    using f1 f2 f3 record_of_header [OF h form] by (simp add: obs_parse_av1_header_def)
qed

text \<open>A reduced still picture of the main profile, 8 by 8, level 4.\<close>

definition sample_header :: av1_header where
  "sample_header = \<lparr>hd_profile = 0, hd_still = True, hd_width = [True, True, True], hd_height = [True, True, True],
     hd_size = (2, 2), hd_filters = [False, False, False], hd_restoration = [False, False, False],
     hd_color = \<lparr>cc_high = True, cc_twelve = False, cc_mono = False, cc_desc = None, cc_range = True, cc_x = False,
       cc_y = False, cc_pos = 1, cc_sep = False\<rparr>, hd_grain = False\<rparr>"

definition sample_payload :: "byte list" where
  "sample_payload = [0x19, 0x08, 0xBF, 0x02, 0x52]"

lemma av1_header_is_configuration_record_witness:
  "obs_parse_av1_header (unit_bytes (5, None, [1, 2]) @ unit_bytes (1, None, sample_payload) @ unit_bytes (2, None, [])) =
    Inr ([0x81, 0x04, 0x4D, 0] @ unit_bytes (1, None, sample_payload) @ unit_bytes (5, None, [1, 2]))"
proof -
  have h: "good_header sample_header" by (simp add: good_header_def sample_header_def)
  have form: "good_form (Inl 4)" by (simp add: good_form_def)
  have "bits_of sample_payload = header_bits sample_header (Inl 4) @ True # replicate 1 False" by code_simp
  then have bits: "ended sample_payload (header_bits sample_header (Inl 4))" unfolding ended_def by blast
  have units: "list_all extra_unit ([(5, None, [1, 2])] @ [(2, None, [])])" by (simp add: extra_unit_def good_unit_def)
  let ?data = "concat (map unit_bytes ([(5, None, [1, 2])] @ (1, None, sample_payload) # [(2, None, [])]))"
  have "length ?data = 13" by code_simp
  then have len: "length ?data < 2 ^ 27" by simp
  have config: "config_record sample_header (Inl 4) = [0x81, 0x04, 0x4D, 0]" by code_simp
  show ?thesis
    using av1_header_is_configuration_record [OF h form bits units refl refl len] config
    by (simp add: last_metadata_def Let_def)
qed

end
