(* ===== verification/Av1_Faults.thy ===== *)
theory Av1_Faults
  imports Av1_Header_Properties
begin

text \<open>
  What the bit reader does behind the end of its bits: two inputs on which the parser leaves the packet or
  does not return.
\<close>

section \<open>Behind the end\<close>

lemma get_bit1_run:
  assumes u: "unread s = b # rest" and i: "gb_index s < gb_size s + 8"
  shows "run_state get_bit1 s = (of_bool b, skip 1 s)"
proof -
  let ?t = "s\<lparr>gb_size := gb_size s + 8\<rparr>"
  have "run_state get_bit1 ?t = (of_bool b, skip 1 ?t)"
    using reads_run [OF get_bit1_reads [of b], of ?t rest] u i by (simp add: unread_def)
  then have "of_bool b = fst (run_state get_bit1 ?t)" and "gb_over (snd (run_state get_bit1 ?t)) = gb_over s"
    by (simp_all add: skip_def)
  then show ?thesis using i by (simp add: get_bit1_def Let_def skip_def)
qed

lemma get_bits_from_run:
  "unread s = bs @ rest \<Longrightarrow> gb_index s + length bs \<le> gb_size s + 8 \<Longrightarrow>
    run_state (get_bits_from (length bs) (bits_word acc)) s = (bits_word (acc @ bs), skip (length bs) s)"
proof (induction bs arbitrary: acc s)
  case Nil
  then show ?case by simp
next
  case (Cons b bs)
  have "run_state get_bit1 s = (of_bool b, skip 1 s)" using Cons.prems by (intro get_bit1_run) simp_all
  moreover have "run_state (get_bits_from (length bs) (bits_word (acc @ [b]))) (skip 1 s) =
      (bits_word ((acc @ [b]) @ bs), skip (length bs) (skip 1 s))"
    using Cons.prems by (intro Cons.IH) simp_all
  ultimately show ?case by (simp add: bits_word_snoc)
qed

lemma get_bits_run:
  "unread s = bs @ rest \<Longrightarrow> length bs = n \<Longrightarrow> gb_index s + n \<le> gb_size s + 8 \<Longrightarrow>
    run_state (get_bits n) s = (bits_word bs, skip n s)"
  using get_bits_from_run [of s bs rest "[]"] by (simp add: get_bits_def)

text \<open>At the last position the reader stays, and \<open>uvlc\<close> with it when the bit there is no one.\<close>

lemma stays_at_end:
  assumes "gb_index s = gb_size s + 8" and "unread s = False # rest"
  shows "run_state (get_bits 1) s = (0, s)"
proof -
  let ?t = "s\<lparr>gb_size := gb_size s + 9\<rparr>"
  have "run_state get_bit1 ?t = (0, skip 1 ?t)"
    using reads_run [OF get_bit1_reads [of False], of ?t rest] assms by (simp add: unread_def)
  moreover have "gb_index s < 8 * length (gb_mem s)"
    using arg_cong [OF assms(2), of length] by (simp add: unread_def)
  then have "gb_index s div 8 < length (gb_mem s)" by (simp add: less_mult_imp_div_less mult.commute)
  moreover have "s\<lparr>gb_index := gb_size s + 8\<rparr> = s" using assms(1) by (cases s) simp
  ultimately have "run_state get_bit1 s = (0, s)"
    using assms(1) by (auto simp: get_bit1_def Let_def skip_def)
  then show ?thesis by (simp add: get_bits_def)
qed

lemma uvlc_never_ends:
  "gb_index s = gb_size s + 8 \<Longrightarrow> unread s = False # rest \<Longrightarrow>
    run_state (uvlc_zeros k z) s = (z + k, s\<lparr>gb_stuck := True\<rparr>)"
  by (induction k arbitrary: z) (simp_all add: get_bits_left_def stays_at_end del: One_nat_def)

section \<open>A reader that is stuck stays so\<close>

definition frozen :: "av1_bits \<Rightarrow> bool" where
  "frozen s \<longleftrightarrow> gb_stuck s \<and> \<not> gb_over s \<and> gb_index s = gb_size s + 8 \<and> gb_index s div 8 < length (gb_mem s)"

definition keeps :: "(av1_bits, 'a) state \<Rightarrow> bool" where
  "keeps m \<longleftrightarrow> (\<forall>s. frozen s \<longrightarrow> frozen (snd (run_state m s)))"

lemma keeps_return: "keeps (State_Monad.return x)"
  by (simp add: keeps_def)

lemma keeps_bind: "keeps m \<Longrightarrow> (\<And>x. keeps (f x)) \<Longrightarrow> keeps (State_Monad.bind m f)"
  by (auto simp: keeps_def split: prod.split)

lemma keeps_if: "keeps m \<Longrightarrow> keeps m' \<Longrightarrow> keeps (if b then m else m')"
  by simp

lemma keeps_bit1: "keeps get_bit1"
  by (auto simp: keeps_def frozen_def get_bit1_def Let_def)

lemma keeps_get_from: "keeps (get_bits_from n acc)"
  by (induction n arbitrary: acc) (simp_all add: keeps_return keeps_bind keeps_bit1)

lemma keeps_bits: "keeps (get_bits n)"
  by (simp add: get_bits_def keeps_get_from)

lemma keeps_left: "keeps get_bits_left"
  by (simp add: keeps_def get_bits_left_def)

lemmas keeps_intros = keeps_return keeps_bind keeps_if keeps_bits keeps_left

lemma keeps_points: "keeps (operating_points n first model display q)"
  by (induction n arbitrary: first q) (auto intro!: keeps_intros)

lemma keeps_tools: "keeps skip_tools"
  unfolding skip_tools_def by (intro keeps_intros)

lemma keeps_color: "keeps (parse_color_config q)"
  unfolding parse_color_config_def color_description_def chroma_subsampling_def Let_def by (intro keeps_intros)

section \<open>The two inputs\<close>

text \<open>A frame without content at the end of a packet: its first byte lies behind the packet.\<close>

lemma empty_frame_read_past:
  assumes "good_unit u" and "fst u \<in> {3, 6}" and "snd (snd u) = []"
  shows "serialize_av1_data written (unit_bytes u) (k, 0) = Inl Overread"
proof -
  have len: "length (unit_bytes u) < 2 ^ 62" 
    using assms by (cases u) (auto simp: unit_bytes_def unit_head_def leb_bytes.simps split: option.split)
  have "compute_av1_keyframe_priority [] (k, 0) = Inl Overread"
    by (simp add: compute_av1_keyframe_priority_def with_bits_def read_frame_priority_def get_bits_def get_bit1_def
        Let_def numeral_2_eq_2)
  moreover have "drop (obu_start (unit_obu u)) (unit_bytes u) = []" using assms(3) by (simp add: unit_obu_def unit_bytes_def)
  ultimately have "write_unit (unit_bytes u) (unit_obu u) (k, 0) = Inl Overread"
    using assms(2) by (auto simp: write_unit_def unit_obu_def obu_types u32_types)
  then show ?thesis
    using parse_unit_header [OF assms(1), of "[]"] unit_marker [of u] len
    by (simp add: serialize_av1_data.simps [of _ "unit_bytes u"])
qed

definition short_header :: av1_unit where
  "short_header = (1, None, [0x04, 0, 0, 0, 0, 0, 0, 1])"

definition delimiter :: av1_unit where
  "delimiter = (2, None, [])"

lemma stuck_bind:
  "frozen (snd (run_state m s)) \<Longrightarrow> (\<And>x. keeps (f x)) \<Longrightarrow> frozen (snd (run_state (State_Monad.bind m f) s))"
  by (auto simp: keeps_def split: prod.split)

lemma run_bind:
  "run_state m s = (x, t) \<Longrightarrow> frozen (snd (run_state (f x) t)) \<Longrightarrow> frozen (snd (run_state (State_Monad.bind m f) s))"
  by simp

lemma short_uvlc:
  assumes "gb_mem s = [0x04, 0, 0, 0, 0, 0, 0, 1, 0x12, 0]" and "gb_size s = 63" and "gb_index s = 0" and "\<not> gb_over s"
  shows "frozen (snd (run_state read_sequence_header s))"
proof -
  let ?zeros = "replicate 25 False @ True # replicate 3 False @ [True, False, False]"
  have u: "unread s = bits_of (gb_mem s)" using assms(3) by (simp add: unread_def)
  have bits: "bits_of (gb_mem s) = replicate 3 False @ [False] @ [False] @ [True] @ replicate 32 False @ ?zeros @
      [True] @ False # replicate 8 False"
    unfolding assms(1) by code_simp
  note at = u [unfolded bits]
  have r1: "run_state (get_bits 3) s = (0, skip 3 s)"
    using get_bits_run [of s "replicate 3 False" _ 3] at assms by (simp add: bits_word_def eval_nat_numeral)
  have r2: "run_state (get_bits 1) (skip 3 s) = (0, skip 4 s)"
    using get_bits_run [of "skip 3 s" "[False]" _ 1] at assms by simp
  have r3: "run_state (get_bits 1) (skip 4 s) = (0, skip 5 s)"
    using get_bits_run [of "skip 4 s" "[False]" _ 1] at assms by simp
  have r4: "run_state (get_bits 1) (skip 5 s) = (1, skip 6 s)"
    using get_bits_run [of "skip 5 s" "[True]" _ 1] at assms by simp
  have r5: "run_state (get_bits 32) (skip 6 s) = (bits_word (replicate 32 False), skip 38 s)"
    using get_bits_run [of "skip 6 s" "replicate 32 False" _ 32] at assms by simp
  have r6: "run_state (get_bits 32) (skip 38 s) = (bits_word ?zeros, skip 70 s)"
    using get_bits_run [of "skip 38 s" ?zeros _ 32] at assms by simp
  have r7: "run_state (get_bits 1) (skip 70 s) = (1, skip 71 s)"
    using get_bits_run [of "skip 70 s" "[True]" _ 1] at assms by simp
  have r8: "frozen (snd (run_state uvlc (skip 71 s)))"
    using uvlc_never_ends [of "skip 71 s" "replicate 8 False" "gb_size (skip 71 s) + 9" 0] at assms
    by (simp add: uvlc_def frozen_def)
  note keep = keeps_intros keeps_points keeps_tools keeps_color
  have timing: "frozen (snd (run_state timing_info (skip 6 s)))"
    unfolding timing_info_def
    by (rule run_bind [OF r5], rule run_bind [OF r6], rule run_bind [OF r7], rule stuck_bind) (use r8 in simp, intro keep)
  have level: "frozen (snd (run_state (level_and_tier q) (skip 5 s)))" for q
    unfolding level_and_tier_def
    by (rule run_bind [OF r4], rule stuck_bind) (use timing in simp, intro keep)
  have "frozen (snd (run_state read_sequence_fields s))"
    unfolding read_sequence_fields_def Let_def
    by (rule run_bind [OF r1], rule run_bind [OF r2], rule run_bind [OF r3], rule stuck_bind)
      (use level in simp, intro keep)
  then show ?thesis
    unfolding read_sequence_header_def by (rule stuck_bind) (intro keep)
qed

text \<open>
  A sequence header of eight bytes that says it has timing information, and a temporal delimiter behind it:
  the reader looks for the number of ticks eight bits behind its end, finds a zero there and never returns.
\<close>

lemma short_header_never_returns:
  "obs_parse_av1_header (unit_bytes short_header @ unit_bytes delimiter) = Inl Endless"
proof -
  have units: "good_unit short_header" "good_unit delimiter"
    by (simp_all add: short_header_def delimiter_def good_unit_def)
  let ?payload = "[0x04, 0, 0, 0, 0, 0, 0, 1] :: byte list"
  have bytes: "unit_bytes delimiter = [0x12, 0]" "unit_bytes short_header = 0x0A # 8 # ?payload"
    by code_simp+
  have parse: "parse_obu_header (unit_bytes short_header @ unit_bytes delimiter) = Inr (Some (unit_obu short_header))"
    by (rule parse_unit_header [OF units(1)]) (simp add: bytes)
  have "bits_of ?payload = take 63 (bits_of ?payload) @ True # replicate 0 False" by code_simp
  then have "ended ?payload (take 63 (bits_of ?payload))" unfolding ended_def by blast
  moreover have n8: "length ?payload = 8" and n63: "length (take 63 (bits_of ?payload)) = 63" by simp_all
  ultimately have len: "get_obu_bit_length (?payload @ [0x12, 0]) 8 AV1_OBU_SEQUENCE_HEADER = Some 63"
    using ended_bit_length [of ?payload "take 63 (bits_of ?payload)" "[0x12, 0]"] unfolding n8 n63 by simp
  let ?s = "\<lparr>gb_mem = ?payload @ [0x12, 0], gb_index = 0, gb_size = 63, gb_over = False, gb_stuck = False\<rparr>"
  have "frozen (snd (run_state read_sequence_header ?s))" by (rule short_uvlc) simp_all
  then have "parse_sequence_header (?payload @ [0x12, 0]) 8 = Inl Endless"
    using len by (auto simp: parse_sequence_header_def with_bits_def init_ok_def frozen_def split: prod.split)
  moreover have "unit_obu short_header = \<lparr>obu_type = AV1_OBU_SEQUENCE_HEADER, obu_size = 8, obu_start = 2, obu_len = 10\<rparr>"
    using bytes by (simp add: unit_obu_def short_header_def unit_bytes_def obu_types)
  ultimately have "note_unit (unit_bytes short_header @ unit_bytes delimiter) (unit_obu short_header) f = Inl Endless"
    if "nb_seq f = 0" for f
    using that by (simp add: note_unit_def bytes)
  then show ?thesis
    using parse by (simp add: obs_parse_av1_header_def find_units.simps [of "_ # _"] bytes)
qed

end
