(* ===== verification/Hevc.thy ===== *)
theory Hevc
  imports Flv_Mux Bit_Lists "HOL-Library.State_Monad"
begin

text \<open>
  The bit reader of \<open>src/rtmp/rtmp-hevc.c\<close>, which keeps up to 63 bits in a cache and fetches 32 at a time
  without looking at the end, its Exp-Golomb codes, and the removal of emulation prevention bytes. The
  memory of a reader is what was written to the buffer: the payload and 64 zero bytes. A fetch behind it and
  a shift by a full word, which C leaves undefined, are flags of the reader that \<open>hevc_with_bits\<close> makes the
  result. Operations with the names of \<open>Av1\<close> have the prefix \<open>hevc\<close>.
\<close>

section \<open>The cached reader\<close>

record hevc_bits =
  hb_mem :: "byte list"
  hb_cache :: u64
  hb_left :: nat
  hb_index :: nat
  hb_size :: nat
  hb_over :: bool
  hb_shift :: bool

datatype hevc_fault = Behind_Buffer | Bad_Shift

definition byte_at :: "byte list \<Rightarrow> nat \<Rightarrow> u32" where
  "byte_at bs k = (if k < length bs then ucast (bs ! k) else 0)"

definition rb32 :: "byte list \<Rightarrow> u32" where
  "rb32 bs = push_bit 24 (byte_at bs 0) + push_bit 16 (byte_at bs 1) + push_bit 8 (byte_at bs 2) + byte_at bs 3"

definition refill_32 :: "hevc_bits \<Rightarrow> hevc_bits" where
  "refill_32 s = s\<lparr>
     hb_cache := or (hb_cache s) (push_bit (32 - hb_left s) (ucast (rb32 (drop (hb_index s div 8) (hb_mem s))))),
     hb_index := hb_index s + 32,
     hb_left := hb_left s + 32,
     hb_over := hb_over s \<or> length (hb_mem s) < hb_index s div 8 + 4\<rparr>"

definition get_val :: "nat \<Rightarrow> (hevc_bits, u64) state" where
  "get_val n = State (\<lambda>s.
     (drop_bit (64 - n) (hb_cache s),
      s\<lparr>hb_cache := push_bit n (hb_cache s), hb_left := hb_left s - n,
        hb_shift := hb_shift s \<or> n = 0 \<or> 64 \<le> n\<rparr>))"

definition fetched :: "nat \<Rightarrow> (hevc_bits, unit) state" where
  "fetched n = State (\<lambda>s. ((), if n > hb_left s then refill_32 s else s))"

definition hevc_get_bits :: "nat \<Rightarrow> (hevc_bits, u32) state" where
  "hevc_get_bits n = do { _ \<leftarrow> fetched n; v \<leftarrow> get_val n; State_Monad.return (ucast v) }"

definition hevc_bits_left :: "(hevc_bits, int) state" where
  "hevc_bits_left = do {
     s \<leftarrow> State_Monad.get;
     State_Monad.return (int (hb_size s) - (int (hb_index s) - int (hb_left s))) }"

definition get_bits_long :: "nat \<Rightarrow> (hevc_bits, u32) state" where
  "get_bits_long n = (if n = 0 then State_Monad.return 0 else hevc_get_bits n)"

definition get_bits64 :: "nat \<Rightarrow> (hevc_bits, u64) state" where
  "get_bits64 n =
     (if n \<le> 32 then do { v \<leftarrow> get_bits_long n; State_Monad.return (ucast v) }
      else do {
        hi \<leftarrow> get_bits_long (n - 32);
        lo \<leftarrow> get_bits_long 32;
        State_Monad.return (or (push_bit 32 (ucast hi)) (ucast lo)) })"

section \<open>Exp-Golomb codes\<close>

definition clz32 :: "u32 \<Rightarrow> nat" where
  "clz32 x = length (takeWhile Not (field 32 x))"

definition ilog2 :: "u32 \<Rightarrow> nat" where
  "ilog2 x = 31 - clz32 (or x 1)"

definition show_val :: "hevc_bits \<Rightarrow> nat \<Rightarrow> u32" where
  "show_val s n = ucast (and (hb_cache s) (push_bit n 1 - 1))"

definition show_bits :: "nat \<Rightarrow> (hevc_bits, u32) state" where
  "show_bits n = do { _ \<leftarrow> fetched n; s \<leftarrow> State_Monad.get; State_Monad.return (show_val s n) }"

text \<open>More than 25 bits are read with a copy of the reader; a fault in the copy is one.\<close>

definition on_copy :: "(hevc_bits, 'a) state \<Rightarrow> (hevc_bits, 'a) state" where
  "on_copy m = State (\<lambda>s. case run_state m s of
     (x, t) \<Rightarrow> (x, s\<lparr>hb_over := hb_over t, hb_shift := hb_shift t\<rparr>))"

definition show_bits_long :: "nat \<Rightarrow> (hevc_bits, u32) state" where
  "show_bits_long n = (if n \<le> 25 then show_bits n else on_copy (get_bits_long n))"

definition get_ue_golomb_long :: "(hevc_bits, u32) state" where
  "get_ue_golomb_long = do {
     buf \<leftarrow> show_bits_long 32;
     let log2 = 31 - ilog2 buf;
     _ \<leftarrow> get_bits_long log2;
     v \<leftarrow> get_bits_long (log2 + 1);
     State_Monad.return (v - 1) }"

definition get_se_golomb_long :: "(hevc_bits, int) state" where
  "get_se_golomb_long = do {
     buf \<leftarrow> get_ue_golomb_long;
     let sgn_mask = and buf 1 - 1;
     State_Monad.return (as_i32 (uint (xor (drop_bit 1 buf) sgn_mask + 1))) }"

section \<open>Payloads\<close>

definition has_start_code :: "byte list \<Rightarrow> bool" where
  "has_start_code data \<longleftrightarrow>
     length data > 3 \<and> take 3 data = [0, 0, 1] \<or> length data > 4 \<and> take 4 data = [0, 0, 0, 1]"

text \<open>While three bytes are left: behind two zeros a three goes.\<close>

fun unescaped :: "byte list \<Rightarrow> byte list" where
  "unescaped (a # b # c # bs) =
     (if a = 0 \<and> b = 0 \<and> c = 3 then a # b # unescaped bs else a # unescaped (b # c # bs))"
| "unescaped bs = bs"

text \<open>The payload with the 64 zero bytes, and its length.\<close>

definition ff_nal_unit_extract_rbsp :: "byte list \<Rightarrow> nat \<Rightarrow> byte list \<times> nat" where
  "ff_nal_unit_extract_rbsp src header_len =
     (let rbsp = take header_len src @ unescaped (drop header_len src)
      in (rbsp @ replicate 64 0, length rbsp))"

text \<open>
  \<open>init_get_bits8\<close>: for a size that is too large the buffer is set to \<open>NULL\<close>, from which the first fetch reads.
\<close>

definition hevc_with_bits :: "byte list \<Rightarrow> nat \<Rightarrow> (hevc_bits, 'a option) state \<Rightarrow> hevc_fault + 'a option" where
  "hevc_with_bits buf sz m =
     (if sz > (2 ^ 31 - 1) div 8 \<or> 8 * sz \<ge> 2 ^ 31 - 1 - 64 * 8 then Inl Behind_Buffer
      else case run_state m (refill_32 \<lparr>hb_mem = buf, hb_cache = 0, hb_left = 0, hb_index = 0, hb_size = 8 * sz,
          hb_over = False, hb_shift = False\<rparr>) of
        (x, s) \<Rightarrow> if hb_over s then Inl Behind_Buffer else if hb_shift s then Inl Bad_Shift else Inr x)"

end
