(* ===== verification/Hevc_Syntax.thy ===== *)
theory Hevc_Syntax
  imports Hevc
begin

text \<open>
  The parameter sets as \<open>src/rtmp/rtmp-hevc.c\<close> reads them: profile, tier and level, scaling lists, reference
  picture sets, buffering parameters, usability information, and the three parsers that fill the decoder
  configuration record. \<open>None\<close> is the negative result.
\<close>

section \<open>Loops\<close>

fun times :: "nat \<Rightarrow> ('s, 'a) state \<Rightarrow> ('s, unit) state" where
  "times 0 m = State_Monad.return ()"
| "times (Suc n) m = do { _ \<leftarrow> m; times n m }"

fun each :: "('x \<Rightarrow> ('s, 'a) state) \<Rightarrow> 'x list \<Rightarrow> ('s, unit) state" where
  "each f [] = State_Monad.return ()"
| "each f (x # xs) = do { _ \<leftarrow> f x; each f xs }"

section \<open>The record\<close>

record HVCCNALUnitArray =
  array_completeness :: byte
  NAL_unit_type :: byte
  numNalus :: u16
  nalUnitData :: "byte list"

record HEVCDecoderConfigurationRecord =
  general_profile_space :: byte
  general_tier_flag :: byte
  general_profile_idc :: byte
  general_profile_compatibility_flags :: u32
  general_constraint_indicator_flags :: u64
  general_level_idc :: byte
  min_spatial_segmentation_idc :: u16
  parallelismType :: byte
  chromaFormat :: byte
  bitDepthLumaMinus8 :: byte
  bitDepthChromaMinus8 :: byte
  numTemporalLayers :: byte
  temporalIdNested :: byte
  numOfArrays :: byte
  arrays :: "HVCCNALUnitArray list"

record HVCCProfileTierLevel =
  profile_space :: byte
  tier_flag :: byte
  profile_idc :: byte
  profile_compatibility_flags :: u32
  constraint_indicator_flags :: u64
  level_idc :: byte

section \<open>Profile, tier and level\<close>

definition hvcc_update_ptl ::
  "HEVCDecoderConfigurationRecord \<Rightarrow> HVCCProfileTierLevel \<Rightarrow> HEVCDecoderConfigurationRecord" where
  "hvcc_update_ptl h p = h\<lparr>
     general_profile_space := profile_space p,
     general_level_idc := (if general_tier_flag h < tier_flag p then level_idc p
       else max_u8 (general_level_idc h) (level_idc p)),
     general_tier_flag := max_u8 (general_tier_flag h) (tier_flag p),
     general_profile_idc := max_u8 (general_profile_idc h) (profile_idc p),
     general_profile_compatibility_flags :=
       and (general_profile_compatibility_flags h) (profile_compatibility_flags p),
     general_constraint_indicator_flags :=
       and (general_constraint_indicator_flags h) (constraint_indicator_flags p)\<rparr>"

definition general_ptl :: "(hevc_bits, HVCCProfileTierLevel) state" where
  "general_ptl = do {
     space \<leftarrow> hevc_get_bits 2;
     tier \<leftarrow> hevc_get_bits 1;
     idc \<leftarrow> hevc_get_bits 5;
     compat \<leftarrow> get_bits_long 32;
     cons \<leftarrow> get_bits64 48;
     lev \<leftarrow> hevc_get_bits 8;
     State_Monad.return \<lparr>profile_space = ucast space, tier_flag = ucast tier, profile_idc = ucast idc,
       profile_compatibility_flags = compat, constraint_indicator_flags = cons, level_idc = ucast lev\<rparr> }"

text \<open>The flags of the sub-layers: profile and level.\<close>

fun sub_layer_flags :: "nat \<Rightarrow> (hevc_bits, (bool \<times> bool) list) state" where
  "sub_layer_flags 0 = State_Monad.return []"
| "sub_layer_flags (Suc n) = do {
     p \<leftarrow> hevc_get_bits 1;
     l \<leftarrow> hevc_get_bits 1;
     rest \<leftarrow> sub_layer_flags n;
     State_Monad.return ((p \<noteq> 0, l \<noteq> 0) # rest) }"

definition skip_sub_layer :: "bool \<times> bool \<Rightarrow> (hevc_bits, u32) state" where
  "skip_sub_layer f = do {
     _ \<leftarrow> (if fst f then do { _ \<leftarrow> get_bits_long 32; _ \<leftarrow> get_bits_long 32; hevc_get_bits 24 }
       else State_Monad.return 0);
     (if snd f then hevc_get_bits 8 else State_Monad.return 0) }"

definition hvcc_parse_ptl ::
  "HEVCDecoderConfigurationRecord \<Rightarrow> nat \<Rightarrow> (hevc_bits, HEVCDecoderConfigurationRecord) state" where
  "hvcc_parse_ptl h max_sub_layers_minus1 = do {
     p \<leftarrow> general_ptl;
     flags \<leftarrow> sub_layer_flags max_sub_layers_minus1;
     _ \<leftarrow> (if max_sub_layers_minus1 > 0 then times (8 - max_sub_layers_minus1) (hevc_get_bits 2)
       else State_Monad.return ());
     _ \<leftarrow> each skip_sub_layer flags;
     State_Monad.return (hvcc_update_ptl h p) }"

definition hvcc_parse_vps ::
  "HEVCDecoderConfigurationRecord \<Rightarrow> (hevc_bits, HEVCDecoderConfigurationRecord option) state" where
  "hvcc_parse_vps h = do {
     _ \<leftarrow> hevc_get_bits 12;
     layers \<leftarrow> hevc_get_bits 3;
     _ \<leftarrow> hevc_get_bits 17;
     r \<leftarrow> hvcc_parse_ptl (h\<lparr>numTemporalLayers := max_u8 (numTemporalLayers h) (ucast (layers + 1))\<rparr>) (unat layers);
     State_Monad.return (Some r) }"

section \<open>Scaling lists and reference picture sets\<close>

definition scaling_list :: "nat \<Rightarrow> (hevc_bits, unit) state" where
  "scaling_list i = do {
     coded \<leftarrow> hevc_get_bits 1;
     if coded = 0 then do { _ \<leftarrow> get_ue_golomb_long; State_Monad.return () }
     else do {
       _ \<leftarrow> (if i > 1 then get_se_golomb_long else State_Monad.return 0);
       times (nat (min_i32 64 (2 ^ (4 + 2 * i)))) get_se_golomb_long } }"

definition skip_scaling_list_data :: "(hevc_bits, unit) state" where
  "skip_scaling_list_data = each (\<lambda>i. times (if i = 3 then 2 else 6) (scaling_list i)) [0, 1, 2, 3]"

text \<open>The pictures of a set that is predicted from the one before.\<close>

fun predicted_pocs :: "nat \<Rightarrow> u32 \<Rightarrow> (hevc_bits, u32) state" where
  "predicted_pocs 0 n = State_Monad.return n"
| "predicted_pocs (Suc k) n = do {
     used \<leftarrow> hevc_get_bits 1;
     use_delta \<leftarrow> (if used = 0 then hevc_get_bits 1 else State_Monad.return 0);
     predicted_pocs k (if used \<noteq> 0 \<or> use_delta \<noteq> 0 then n + 1 else n) }"

definition skip_poc :: "(hevc_bits, u32) state" where
  "skip_poc = do { _ \<leftarrow> get_ue_golomb_long; hevc_get_bits 1 }"

text \<open>
  \<open>pocs\<close> are the counts of the sets before, \<open>rps_idx\<close> of them; the result is the count of this set. With a
  count of 2^32 - 1 before it the loop of the code does not end, but it is behind the buffer long before.
\<close>

definition parse_rps :: "nat \<Rightarrow> nat \<Rightarrow> u32 list \<Rightarrow> (hevc_bits, u32 option) state" where
  "parse_rps rps_idx num_rps pocs = do {
     inter \<leftarrow> (if rps_idx \<noteq> 0 then hevc_get_bits 1 else State_Monad.return 0);
     if inter \<noteq> 0 then
       (if rps_idx \<ge> num_rps then State_Monad.return None
        else do {
          _ \<leftarrow> hevc_get_bits 1;
          _ \<leftarrow> get_ue_golomb_long;
          n \<leftarrow> predicted_pocs (unat (pocs ! (rps_idx - 1)) + 1) 0;
          State_Monad.return (Some n) })
     else do {
       neg \<leftarrow> get_ue_golomb_long;
       pos \<leftarrow> get_ue_golomb_long;
       left \<leftarrow> hevc_bits_left;
       if (ucast pos + ucast neg :: u64) * 2 > of_int left then State_Monad.return None
       else do {
         _ \<leftarrow> times (unat neg) skip_poc;
         _ \<leftarrow> times (unat pos) skip_poc;
         State_Monad.return (Some (neg + pos)) } } }"

text \<open>The loop over the sets; the counts of those read are its state.\<close>

fun parse_sets :: "nat \<Rightarrow> nat \<Rightarrow> u32 list \<Rightarrow> (hevc_bits, bool) state" where
  "parse_sets 0 num_rps pocs = State_Monad.return True"
| "parse_sets (Suc k) num_rps pocs = do {
     r \<leftarrow> parse_rps (length pocs) num_rps pocs;
     case r of None \<Rightarrow> State_Monad.return False | Some n \<Rightarrow> parse_sets k num_rps (pocs @ [n]) }"

section \<open>Buffering parameters\<close>

definition sub_layer_buffer :: "bool \<Rightarrow> (hevc_bits, u32) state" where
  "sub_layer_buffer sub_pic = do {
     _ \<leftarrow> get_ue_golomb_long;
     _ \<leftarrow> get_ue_golomb_long;
     _ \<leftarrow> (if sub_pic then do { _ \<leftarrow> get_ue_golomb_long; get_ue_golomb_long } else State_Monad.return 0);
     hevc_get_bits 1 }"

definition skip_sub_layer_hrd_parameters :: "u32 \<Rightarrow> bool \<Rightarrow> (hevc_bits, unit) state" where
  "skip_sub_layer_hrd_parameters cpb_cnt_minus1 sub_pic = times (unat cpb_cnt_minus1 + 1) (sub_layer_buffer sub_pic)"

definition hrd_sub_pic :: "(hevc_bits, u32) state" where
  "hrd_sub_pic = do {
     sub_pic \<leftarrow> hevc_get_bits 1;
     _ \<leftarrow> (if sub_pic \<noteq> 0 then hevc_get_bits 19 else State_Monad.return 0);
     _ \<leftarrow> hevc_get_bits 8;
     _ \<leftarrow> (if sub_pic \<noteq> 0 then hevc_get_bits 4 else State_Monad.return 0);
     _ \<leftarrow> hevc_get_bits 15;
     State_Monad.return sub_pic }"

text \<open>What is common to all layers: whether there are NAL and VCL parameters, and those of sub-pictures.\<close>

definition hrd_common :: "(hevc_bits, bool \<times> bool \<times> bool) state" where
  "hrd_common = do {
     nal_present \<leftarrow> hevc_get_bits 1;
     vcl_present \<leftarrow> hevc_get_bits 1;
     sub_pic \<leftarrow> (if nal_present \<noteq> 0 \<or> vcl_present \<noteq> 0 then hrd_sub_pic else State_Monad.return 0);
     State_Monad.return (nal_present \<noteq> 0, vcl_present \<noteq> 0, sub_pic \<noteq> 0) }"

text \<open>The kind of a layer's picture rate; whether it is low delay.\<close>

definition hrd_rate :: "(hevc_bits, u32) state" where
  "hrd_rate = do {
     general \<leftarrow> hevc_get_bits 1;
     within_cvs \<leftarrow> (if general = 0 then hevc_get_bits 1 else State_Monad.return 0);
     if within_cvs \<noteq> 0 then do { _ \<leftarrow> get_ue_golomb_long; State_Monad.return 0 } else hevc_get_bits 1 }"

definition hrd_buffers :: "bool \<times> bool \<times> bool \<Rightarrow> u32 \<Rightarrow> (hevc_bits, bool) state" where
  "hrd_buffers present low_delay = do {
     cnt \<leftarrow> (if low_delay = 0 then get_ue_golomb_long else State_Monad.return 0);
     if cnt > 31 then State_Monad.return False
     else do {
       _ \<leftarrow> (if fst present then skip_sub_layer_hrd_parameters cnt (snd (snd present)) else State_Monad.return ());
       _ \<leftarrow> (if fst (snd present) then skip_sub_layer_hrd_parameters cnt (snd (snd present)) else State_Monad.return ());
       State_Monad.return True } }"

fun hrd_layers :: "nat \<Rightarrow> bool \<times> bool \<times> bool \<Rightarrow> (hevc_bits, bool) state" where
  "hrd_layers 0 present = State_Monad.return True"
| "hrd_layers (Suc k) present = do {
     low_delay \<leftarrow> hrd_rate;
     ok \<leftarrow> hrd_buffers present low_delay;
     if ok then hrd_layers k present else State_Monad.return False }"

definition skip_hrd_parameters :: "bool \<Rightarrow> nat \<Rightarrow> (hevc_bits, bool) state" where
  "skip_hrd_parameters cprms_present max_sub_layers_minus1 = do {
     present \<leftarrow> (if cprms_present then hrd_common else State_Monad.return (False, False, False));
     hrd_layers (max_sub_layers_minus1 + 1) present }"

end
