(* ===== verification/Hevc_Header.thy ===== *)
theory Hevc_Header
  imports Hevc_Syntax
begin

text \<open>
  The rest of \<open>src/rtmp/rtmp-hevc.c\<close>: sequence and picture parameter sets, and \<open>obs_parse_hevc_header\<close>, which
  makes the decoder configuration record of the extra data of an encoder. Where libobs finds the next start
  code is a parameter, \<open>next_start\<close>: how many bytes are before it, all of them when there is none.
\<close>

section \<open>Usability information\<close>

definition vui_picture :: "(hevc_bits, u32) state" where
  "vui_picture = do {
     aspect \<leftarrow> hevc_get_bits 1;
     _ \<leftarrow> (if aspect \<noteq> 0 then do {
         idc \<leftarrow> hevc_get_bits 8;
         if idc = 255 then get_bits_long 32 else State_Monad.return 0 }
       else State_Monad.return 0);
     overscan \<leftarrow> hevc_get_bits 1;
     _ \<leftarrow> (if overscan \<noteq> 0 then hevc_get_bits 1 else State_Monad.return 0);
     signal \<leftarrow> hevc_get_bits 1;
     _ \<leftarrow> (if signal \<noteq> 0 then do {
         _ \<leftarrow> hevc_get_bits 4;
         description \<leftarrow> hevc_get_bits 1;
         if description \<noteq> 0 then hevc_get_bits 24 else State_Monad.return 0 }
       else State_Monad.return 0);
     chroma \<leftarrow> hevc_get_bits 1;
     _ \<leftarrow> (if chroma \<noteq> 0 then do { _ \<leftarrow> get_ue_golomb_long; get_ue_golomb_long } else State_Monad.return 0);
     _ \<leftarrow> hevc_get_bits 3;
     window \<leftarrow> hevc_get_bits 1;
     if window \<noteq> 0 then do { _ \<leftarrow> times 3 get_ue_golomb_long; get_ue_golomb_long } else State_Monad.return 0 }"

definition vui_timing :: "nat \<Rightarrow> (hevc_bits, bool) state" where
  "vui_timing max_sub_layers_minus1 = do {
     timing \<leftarrow> hevc_get_bits 1;
     if timing \<noteq> 0 then do {
       _ \<leftarrow> get_bits_long 32;
       _ \<leftarrow> get_bits_long 32;
       poc \<leftarrow> hevc_get_bits 1;
       _ \<leftarrow> (if poc \<noteq> 0 then get_ue_golomb_long else State_Monad.return 0);
       hrd \<leftarrow> hevc_get_bits 1;
       if hrd \<noteq> 0 then skip_hrd_parameters True max_sub_layers_minus1 else State_Monad.return True }
     else State_Monad.return True }"

definition hvcc_parse_vui ::
  "HEVCDecoderConfigurationRecord \<Rightarrow> nat \<Rightarrow> (hevc_bits, HEVCDecoderConfigurationRecord) state" where
  "hvcc_parse_vui h max_sub_layers_minus1 = do {
     _ \<leftarrow> vui_picture;
     _ \<leftarrow> vui_timing max_sub_layers_minus1;
     restriction \<leftarrow> hevc_get_bits 1;
     if restriction \<noteq> 0 then do {
       _ \<leftarrow> hevc_get_bits 3;
       idc \<leftarrow> get_ue_golomb_long;
       _ \<leftarrow> times 4 get_ue_golomb_long;
       State_Monad.return
         (h\<lparr>min_spatial_segmentation_idc := min_u16 (min_spatial_segmentation_idc h) (ucast idc)\<rparr>) }
     else State_Monad.return h }"

section \<open>The sequence parameter set\<close>

definition HEVC_MAX_SHORT_TERM_REF_PIC_SETS :: u32 where
  "HEVC_MAX_SHORT_TERM_REF_PIC_SETS = 64"

text \<open>Up to the bit depths; the number of sub-layers and the length of the picture order count are kept.\<close>

definition sps_format ::
  "HEVCDecoderConfigurationRecord \<Rightarrow> (hevc_bits, HEVCDecoderConfigurationRecord \<times> nat \<times> u32) state" where
  "sps_format h = do {
     _ \<leftarrow> hevc_get_bits 4;
     layers \<leftarrow> hevc_get_bits 3;
     nested \<leftarrow> hevc_get_bits 1;
     h1 \<leftarrow> hvcc_parse_ptl (h\<lparr>numTemporalLayers := max_u8 (numTemporalLayers h) (ucast (layers + 1)),
       temporalIdNested := ucast nested\<rparr>) (unat layers);
     _ \<leftarrow> get_ue_golomb_long;
     chroma \<leftarrow> get_ue_golomb_long;
     _ \<leftarrow> (if (ucast chroma :: byte) = 3 then hevc_get_bits 1 else State_Monad.return 0);
     _ \<leftarrow> get_ue_golomb_long;
     _ \<leftarrow> get_ue_golomb_long;
     window \<leftarrow> hevc_get_bits 1;
     _ \<leftarrow> (if window \<noteq> 0 then times 4 get_ue_golomb_long else State_Monad.return ());
     luma \<leftarrow> get_ue_golomb_long;
     depth \<leftarrow> get_ue_golomb_long;
     lsb \<leftarrow> get_ue_golomb_long;
     State_Monad.return (h1\<lparr>chromaFormat := ucast chroma, bitDepthLumaMinus8 := ucast luma,
       bitDepthChromaMinus8 := ucast depth\<rparr>, unat layers, lsb) }"

definition sps_coding :: "nat \<Rightarrow> (hevc_bits, u32) state" where
  "sps_coding layers = do {
     all_layers \<leftarrow> hevc_get_bits 1;
     _ \<leftarrow> times (if all_layers \<noteq> 0 then layers + 1 else 1) (times 3 get_ue_golomb_long);
     _ \<leftarrow> times 6 get_ue_golomb_long;
     scaling \<leftarrow> hevc_get_bits 1;
     lists \<leftarrow> (if scaling \<noteq> 0 then hevc_get_bits 1 else State_Monad.return 0);
     _ \<leftarrow> (if lists \<noteq> 0 then skip_scaling_list_data else State_Monad.return ());
     _ \<leftarrow> hevc_get_bits 1;
     _ \<leftarrow> hevc_get_bits 1;
     pcm \<leftarrow> hevc_get_bits 1;
     if pcm \<noteq> 0 then do {
       _ \<leftarrow> hevc_get_bits 4;
       _ \<leftarrow> hevc_get_bits 4;
       _ \<leftarrow> get_ue_golomb_long;
       _ \<leftarrow> get_ue_golomb_long;
       hevc_get_bits 1 }
     else State_Monad.return 0 }"

text \<open>The length of a long-term picture's count goes through a signed minimum to an unsigned parameter.\<close>

definition long_term_len :: "u32 \<Rightarrow> nat" where
  "long_term_len lsb = unat (of_int (min_i32 (as_i32 (uint (lsb + 4))) 16) :: u32)"

definition sps_references :: "u32 \<Rightarrow> (hevc_bits, bool) state" where
  "sps_references lsb = do {
     num \<leftarrow> get_ue_golomb_long;
     if num > HEVC_MAX_SHORT_TERM_REF_PIC_SETS then State_Monad.return False
     else do {
     ok \<leftarrow> parse_sets (unat num) (unat num) [];
     if \<not> ok then State_Monad.return False
     else do {
     long_term \<leftarrow> hevc_get_bits 1;
     if long_term = 0 then State_Monad.return True
     else do {
     count \<leftarrow> get_ue_golomb_long;
     if count > 31 then State_Monad.return False
     else do {
     _ \<leftarrow> times (unat count) (do { _ \<leftarrow> hevc_get_bits (long_term_len lsb); hevc_get_bits 1 });
     State_Monad.return True } } } } }"

definition hvcc_parse_sps ::
  "HEVCDecoderConfigurationRecord \<Rightarrow> (hevc_bits, HEVCDecoderConfigurationRecord option) state" where
  "hvcc_parse_sps h = do {
     (h1, layers, lsb) \<leftarrow> sps_format h;
     _ \<leftarrow> sps_coding layers;
     ok \<leftarrow> sps_references lsb;
     if \<not> ok then State_Monad.return None
     else do {
       _ \<leftarrow> hevc_get_bits 1;
       _ \<leftarrow> hevc_get_bits 1;
       vui \<leftarrow> hevc_get_bits 1;
       h2 \<leftarrow> (if vui \<noteq> 0 then hvcc_parse_vui h1 layers else State_Monad.return h1);
       State_Monad.return (Some h2) } }"

section \<open>The picture parameter set\<close>

definition hvcc_parse_pps ::
  "HEVCDecoderConfigurationRecord \<Rightarrow> (hevc_bits, HEVCDecoderConfigurationRecord option) state" where
  "hvcc_parse_pps h = do {
     _ \<leftarrow> get_ue_golomb_long;
     _ \<leftarrow> get_ue_golomb_long;
     _ \<leftarrow> hevc_get_bits 7;
     _ \<leftarrow> get_ue_golomb_long;
     _ \<leftarrow> get_ue_golomb_long;
     _ \<leftarrow> get_se_golomb_long;
     _ \<leftarrow> hevc_get_bits 2;
     delta \<leftarrow> hevc_get_bits 1;
     _ \<leftarrow> (if delta \<noteq> 0 then get_ue_golomb_long else State_Monad.return 0);
     _ \<leftarrow> get_se_golomb_long;
     _ \<leftarrow> get_se_golomb_long;
     _ \<leftarrow> hevc_get_bits 4;
     tiles \<leftarrow> hevc_get_bits 1;
     sync \<leftarrow> hevc_get_bits 1;
     State_Monad.return (Some (h\<lparr>parallelismType :=
       (if sync \<noteq> 0 \<and> tiles \<noteq> 0 then 0 else if sync \<noteq> 0 then 3 else if tiles \<noteq> 0 then 2 else 1)\<rparr>)) }"

section \<open>NAL units\<close>

text \<open>The unit types of the standard, as libobs names them.\<close>

definition OBS_HEVC_NAL_VPS :: byte where "OBS_HEVC_NAL_VPS = 32"
definition OBS_HEVC_NAL_SPS :: byte where "OBS_HEVC_NAL_SPS = 33"
definition OBS_HEVC_NAL_PPS :: byte where "OBS_HEVC_NAL_PPS = 34"
definition OBS_HEVC_NAL_SEI_PREFIX :: byte where "OBS_HEVC_NAL_SEI_PREFIX = 39"
definition OBS_HEVC_NAL_SEI_SUFFIX :: byte where "OBS_HEVC_NAL_SEI_SUFFIX = 40"

lemmas hevc_types = OBS_HEVC_NAL_VPS_def OBS_HEVC_NAL_SPS_def OBS_HEVC_NAL_PPS_def OBS_HEVC_NAL_SEI_PREFIX_def
  OBS_HEVC_NAL_SEI_SUFFIX_def

text \<open>The arrays of the record by index.\<close>

definition array_idx_to_type :: "byte list" where
  "array_idx_to_type = [OBS_HEVC_NAL_VPS, OBS_HEVC_NAL_SPS, OBS_HEVC_NAL_PPS, OBS_HEVC_NAL_SEI_PREFIX,
     OBS_HEVC_NAL_SEI_SUFFIX]"

definition hvcc_array_add_nal_unit ::
  "serializer \<Rightarrow> byte list \<Rightarrow> byte \<Rightarrow> byte \<Rightarrow> HVCCNALUnitArray \<Rightarrow> HVCCNALUnitArray" where
  "hvcc_array_add_nal_unit ser nal nal_type completeness a = a\<lparr>
     nalUnitData := nalUnitData a @ s_wb16 ser (of_nat (length nal)) @ nal,
     NAL_unit_type := nal_type,
     numNalus := numNalus a + 1,
     array_completeness := (if nal_type \<in> {OBS_HEVC_NAL_VPS, OBS_HEVC_NAL_SPS, OBS_HEVC_NAL_PPS} then completeness
       else array_completeness a)\<rparr>"

definition nal_unit_parse_header :: "(hevc_bits, byte) state" where
  "nal_unit_parse_header = do {
     _ \<leftarrow> hevc_get_bits 1;
     ty \<leftarrow> hevc_get_bits 6;
     _ \<leftarrow> hevc_get_bits 9;
     State_Monad.return (ucast ty) }"

text \<open>The unit goes into its array before its content is read.\<close>

definition noted_nal ::
  "serializer \<Rightarrow> byte list \<Rightarrow> byte \<Rightarrow> byte \<Rightarrow> HEVCDecoderConfigurationRecord \<Rightarrow> nat \<Rightarrow> HEVCDecoderConfigurationRecord" where
  "noted_nal ser nal nal_type completeness h i =
     (let a = hvcc_array_add_nal_unit ser nal nal_type completeness (arrays h ! i)
      in h\<lparr>arrays := (arrays h)[i := a],
           numOfArrays := (if numNalus a = 1 then numOfArrays h + 1 else numOfArrays h)\<rparr>)"

definition read_nal ::
  "serializer \<Rightarrow> byte list \<Rightarrow> byte \<Rightarrow> HEVCDecoderConfigurationRecord \<Rightarrow> nat \<Rightarrow>
    (hevc_bits, HEVCDecoderConfigurationRecord option) state" where
  "read_nal ser nal completeness h i = do {
     ty \<leftarrow> nal_unit_parse_header;
     let h1 = noted_nal ser nal ty completeness h i;
     if ty = OBS_HEVC_NAL_VPS then hvcc_parse_vps h1
     else if ty = OBS_HEVC_NAL_SPS then hvcc_parse_sps h1
     else if ty = OBS_HEVC_NAL_PPS then hvcc_parse_pps h1
     else State_Monad.return (Some h1) }"

definition hvcc_add_nal_unit ::
  "serializer \<Rightarrow> byte list \<Rightarrow> byte \<Rightarrow> HEVCDecoderConfigurationRecord \<Rightarrow> nat \<Rightarrow>
    hevc_fault + HEVCDecoderConfigurationRecord option" where
  "hvcc_add_nal_unit ser nal completeness h i =
     (case ff_nal_unit_extract_rbsp nal 2 of
        (buf, len) \<Rightarrow> hevc_with_bits buf len (read_nal ser nal completeness h i))"

section \<open>The header\<close>

text \<open>Over the zeros of a start code and the byte behind them.\<close>

fun behind_start :: "byte list \<Rightarrow> byte list" where
  "behind_start [] = []"
| "behind_start (b # bs) = (if b = 0 then behind_start bs else bs)"

lemma behind_start_less: "behind_start bs \<noteq> [] \<Longrightarrow> length (behind_start bs) < length bs"
  by (induction bs) (auto split: if_splits)

function split_nals :: "(byte list \<Rightarrow> nat) \<Rightarrow> byte list \<Rightarrow> byte list list" where
  "split_nals next_start bs =
     (let nal = behind_start bs
      in if nal = [] then []
         else take (next_start nal) nal # split_nals next_start (drop (next_start nal) nal))"
  by pat_completeness auto
termination
  by (relation "measure (\<lambda>(next_start, bs). length bs)") (auto dest: behind_start_less)

declare split_nals.simps [simp del]

text \<open>The units with their lengths, one after the other.\<close>

definition nal_list :: "serializer \<Rightarrow> byte list list \<Rightarrow> byte list" where
  "nal_list ser nals = concat (map (\<lambda>n. s_wb32 ser (of_nat (length n)) @ n) nals)"

definition hvcc_init :: HEVCDecoderConfigurationRecord where
  "hvcc_init = \<lparr>general_profile_space = 0, general_tier_flag = 0, general_profile_idc = 0,
     general_profile_compatibility_flags = 0xffffffff, general_constraint_indicator_flags = 0xffffffffffff,
     general_level_idc = 0, min_spatial_segmentation_idc = 4096 + 1, parallelismType = 0, chromaFormat = 0,
     bitDepthLumaMinus8 = 0, bitDepthChromaMinus8 = 0, numTemporalLayers = 0, temporalIdNested = 0, numOfArrays = 0,
     arrays = replicate 5 \<lparr>array_completeness = 0, NAL_unit_type = 0, numNalus = 0, nalUnitData = []\<rparr>\<rparr>"

definition array_index :: "byte \<Rightarrow> nat option" where
  "array_index ty = (if ty \<in> set array_idx_to_type then Some (length (takeWhile (\<lambda>t. t \<noteq> ty) array_idx_to_type)) else None)"

text \<open>The pass over the list of units.\<close>

function add_nals :: "serializer \<Rightarrow> byte list \<Rightarrow> HEVCDecoderConfigurationRecord \<Rightarrow>
    hevc_fault + HEVCDecoderConfigurationRecord option" where
  "add_nals ser buf h =
     (if length buf \<le> 4 then Inr (Some h)
      else let len = unat (min_u32 (rb32 buf) (of_nat (length buf - 4)));
               nal = take len (drop 4 buf);
               rest = drop (4 + len) buf
           in case array_index (and (drop_bit 1 (buf ! 4)) 0x3f) of
                None \<Rightarrow> add_nals ser rest h
              | Some i \<Rightarrow>
                  (case hvcc_add_nal_unit ser nal 1 h i of
                     Inl e \<Rightarrow> Inl e
                   | Inr None \<Rightarrow> Inr None
                   | Inr (Some h1) \<Rightarrow> add_nals ser rest h1))"
  by pat_completeness auto
termination by (relation "measure (\<lambda>(ser, buf, h). length buf)") auto

declare add_nals.simps [simp del]

definition OBS_HEVC_MAX_VPS_COUNT :: u16 where "OBS_HEVC_MAX_VPS_COUNT = 16"
definition OBS_HEVC_MAX_SPS_COUNT :: u16 where "OBS_HEVC_MAX_SPS_COUNT = 16"
definition OBS_HEVC_MAX_PPS_COUNT :: u16 where "OBS_HEVC_MAX_PPS_COUNT = 64"

definition hvcc_settled :: "HEVCDecoderConfigurationRecord \<Rightarrow> HEVCDecoderConfigurationRecord" where
  "hvcc_settled h =
     (let seg = (if min_spatial_segmentation_idc h > 4096 then 0 else min_spatial_segmentation_idc h)
      in h\<lparr>min_spatial_segmentation_idc := seg, parallelismType := (if seg = 0 then 0 else parallelismType h)\<rparr>)"

definition counts_ok :: "HEVCDecoderConfigurationRecord \<Rightarrow> bool" where
  "counts_ok h \<longleftrightarrow>
     (let vps = numNalus (arrays h ! 0); sps = numNalus (arrays h ! 1); pps = numNalus (arrays h ! 2)
      in \<not> (vps = 0 \<or> vps > OBS_HEVC_MAX_VPS_COUNT \<or> sps = 0 \<or> sps > OBS_HEVC_MAX_SPS_COUNT \<or>
            pps = 0 \<or> pps > OBS_HEVC_MAX_PPS_COUNT))"

definition write_array :: "serializer \<Rightarrow> HVCCNALUnitArray \<Rightarrow> byte list" where
  "write_array ser a =
     (if numNalus a = 0 then []
      else s_w8 ser (or (push_bit 7 (array_completeness a)) (and (NAL_unit_type a) 0x3f)) @
        s_wb16 ser (numNalus a) @ nalUnitData a)"

text \<open>Average frame rate and constant frame rate are zero; a length takes four bytes.\<close>

definition write_hvcc :: "serializer \<Rightarrow> HEVCDecoderConfigurationRecord \<Rightarrow> byte list" where
  "write_hvcc ser h =
     s_w8 ser 1 @
     s_w8 ser (or (push_bit 6 (general_profile_space h)) (or (push_bit 5 (general_tier_flag h)) (general_profile_idc h))) @
     s_wb32 ser (general_profile_compatibility_flags h) @
     s_wb32 ser (ucast (drop_bit 16 (general_constraint_indicator_flags h))) @
     s_wb16 ser (ucast (general_constraint_indicator_flags h)) @
     s_w8 ser (general_level_idc h) @
     s_wb16 ser (or (min_spatial_segmentation_idc h) 0xf000) @
     s_w8 ser (or (parallelismType h) 0xfc) @
     s_w8 ser (or (chromaFormat h) 0xfc) @
     s_w8 ser (or (bitDepthLumaMinus8 h) 0xf8) @
     s_w8 ser (or (bitDepthChromaMinus8 h) 0xf8) @
     s_wb16 ser 0 @
     s_w8 ser (or (push_bit 3 (numTemporalLayers h)) (or (push_bit 2 (temporalIdNested h)) 3)) @
     s_w8 ser (numOfArrays h) @
     concat (map (write_array ser) (arrays h))"

text \<open>The header that is set, \<open>None\<close> when it is not, and the size that is returned.\<close>

definition obs_parse_hevc_header ::
  "serializer \<Rightarrow> (byte list \<Rightarrow> nat) \<Rightarrow> byte list \<Rightarrow> hevc_fault + byte list option \<times> nat" where
  "obs_parse_hevc_header ser next_start data =
     (if \<not> has_start_code data then Inr (Some data, length data)
      else if length data < 6 then Inr (None, 0)
      else if hd data = 1 then Inr (Some data, length data)
      else
        let list = nal_list ser (split_nals next_start (drop (next_start data) data))
        in if list = [] then Inr (None, 0)
           else case add_nals ser list hvcc_init of
             Inl e \<Rightarrow> Inl e
           | Inr None \<Rightarrow> Inr (None, length list)
           | Inr (Some h) \<Rightarrow>
               if \<not> counts_ok h then Inr (None, length list)
               else Inr (Some (write_hvcc ser (hvcc_settled h)), length (write_hvcc ser (hvcc_settled h))))"

end
