(* ===== verification/Hevc_Reader.thy ===== *)
theory Hevc_Reader
  imports Hevc_Header Bit_Source
begin

text \<open>
  The cached reader of \<open>Hevc\<close> against the bits of its memory: in every state it can be in the cache holds
  the next bits, so that taking up to 32 of them gives the number they spell. With that it is a bit source,
  and Exp-Golomb codes are read back.
\<close>

section \<open>Where the reader is\<close>

definition hb_pos :: "hevc_bits \<Rightarrow> nat" where
  "hb_pos s = hb_index s - hb_left s"

definition hb_ahead :: "hevc_bits \<Rightarrow> bool list" where
  "hb_ahead s = drop (hb_pos s) (bits_of (hb_mem s))"

text \<open>The cache holds the next bits at its top, and zeros.\<close>

definition cached :: "hevc_bits \<Rightarrow> bool" where
  "cached s \<longleftrightarrow>
     hb_left s \<le> hb_index s \<and> hb_left s < 64 \<and> 8 dvd hb_index s \<and> hb_index s \<le> 8 * length (hb_mem s) \<and>
     (\<forall>k < 64. bit (hb_cache s) (63 - k) \<longleftrightarrow> k < hb_left s \<and> bits_of (hb_mem s) ! (hb_pos s + k))"

text \<open>A payload of a size that is not refused, 64 zero bytes behind it, and no fault so far.\<close>

definition sound :: "hevc_bits \<Rightarrow> bool" where
  "sound s \<longleftrightarrow> cached s \<and> hb_size s < 2 ^ 30 \<and> hb_size s + 512 = 8 * length (hb_mem s) \<and> \<not> hb_over s \<and> \<not> hb_shift s"

definition hevc_ahead :: "hevc_bits \<Rightarrow> bool list \<Rightarrow> bool" where
  "hevc_ahead s bits \<longleftrightarrow> sound s \<and> (\<exists>tail. hb_ahead s = bits @ tail \<and> 512 \<le> length tail)"

definition hevc_after :: "hevc_bits \<Rightarrow> bool list \<Rightarrow> hevc_bits \<Rightarrow> bool" where
  "hevc_after s bs s' \<longleftrightarrow> (sound s \<longrightarrow> sound s') \<and> hb_ahead s = bs @ hb_ahead s'"

section \<open>Fetching\<close>

lemma byte_at_bit:
  "bit (byte_at bs k) n \<longleftrightarrow> n < 8 \<and> k < length bs \<and> bits_of bs ! (8 * k + (7 - n))"
proof (cases "n < 8 \<and> k < length bs")
  case True
  then show ?thesis unfolding bits_of_byte [OF conjunct2 [OF True] conjunct1 [OF True]]
    by (simp add: byte_at_def bit_simps)
next
  case False
  then show ?thesis by (auto simp: byte_at_def bit_simps dest: bit_imp_le_length)
qed

lemma byte_at_shift:
  assumes "k < 4" and "4 \<le> length bs" and "n < 32"
  shows "bit (push_bit (24 - 8 * k) (byte_at bs k)) n \<longleftrightarrow> n div 8 = 3 - k \<and> bits_of bs ! (31 - n)"
proof (cases "n div 8 = 3 - k")
  case True
  then have "24 - 8 * k \<le> n" "n - (24 - 8 * k) < 8" "8 * k + (7 - (n - (24 - 8 * k))) = 31 - n"
    using assms(1) by linarith+
  then show ?thesis using True assms by (simp add: bit_push_bit_iff byte_at_bit)
next
  case False
  then have "n < 24 - 8 * k \<or> 8 \<le> n - (24 - 8 * k)" using assms(1) by linarith
  then show ?thesis using False by (auto simp: bit_push_bit_iff byte_at_bit)
qed

lemma rb32_or:
  "rb32 bs = or (or (or (push_bit 24 (byte_at bs 0)) (push_bit 16 (byte_at bs 1))) (push_bit 8 (byte_at bs 2))) (byte_at bs 3)"
  unfolding rb32_def
  by (subst disjunctive_add_eq_or; (subst disjunctive_add_eq_or)?; (subst disjunctive_add_eq_or)?;
      (intro bit_word_eqI)?; auto simp: bit_simps byte_at_bit)

lemma rb32_bit:
  assumes "4 \<le> length bs" and "n < 32"
  shows "bit (rb32 bs) n \<longleftrightarrow> bits_of bs ! (31 - n)"
proof -
  have "n div 8 \<in> {0, 1, 2, 3}" using assms(2) by auto
  then show ?thesis
    using byte_at_shift [of 0 bs n] byte_at_shift [of 1 bs n] byte_at_shift [of 2 bs n] byte_at_shift [of 3 bs n] assms
    by (auto simp: rb32_or bit_or_iff)
qed

lemma refill_pos: "cached s \<Longrightarrow> hb_pos (refill_32 s) = hb_pos s"
  by (simp add: hb_pos_def refill_32_def cached_def)

lemma refill_cached:
  assumes s: "cached s" and few: "hb_left s < 32" and room: "hb_index s + 32 \<le> 8 * length (hb_mem s)"
  shows "cached (refill_32 s)" and "hb_over (refill_32 s) = hb_over s"
proof -
  let ?i = "hb_index s" and ?l = "hb_left s" and ?p = "hb_pos s"
  let ?w = "rb32 (drop (?i div 8) (hb_mem s))"
  have i: "8 * (?i div 8) = ?i" "?l \<le> ?i" "?i = ?p + ?l" using s by (simp_all add: cached_def hb_pos_def)
  have len: "4 \<le> length (drop (?i div 8) (hb_mem s))" using room i(1) by simp
  have w: "bit ?w n \<longleftrightarrow> bits_of (hb_mem s) ! (?i + (31 - n))" if "n < 32" for n
    using rb32_bit [OF len that] room that by (simp add: bits_of_drop i(1))
  have cache: "bit (hb_cache (refill_32 s)) (63 - k) \<longleftrightarrow> k < ?l + 32 \<and> bits_of (hb_mem s) ! (?p + k)" if k: "k < 64" for k
  proof -
    have old: "bit (hb_cache s) (63 - k) \<longleftrightarrow> k < ?l \<and> bits_of (hb_mem s) ! (?p + k)"
      using s k by (simp add: cached_def)
    have fresh: "bit (push_bit (32 - ?l) (ucast ?w :: u64)) (63 - k) \<longleftrightarrow>
        ?l \<le> k \<and> k < ?l + 32 \<and> bits_of (hb_mem s) ! (?p + k)"
    proof (cases "?l \<le> k \<and> k < ?l + 32")
      case True
      define m where "m = 31 - (k - ?l)"
      have m: "63 - k - (32 - ?l) = m" "32 - ?l \<le> 63 - k" "?i + (31 - m) = ?p + k" "m < 32" "63 - k < 64"
        using True few k i(3) unfolding m_def by linarith+
      show ?thesis using True w [OF m(4)] m by (simp add: bit_push_bit_iff bit_ucast_iff)
    next
      case False
      then have "63 - k < 32 - ?l \<or> 32 \<le> 63 - k - (32 - ?l)" using few k by linarith
      then show ?thesis using False by (auto simp: bit_push_bit_iff bit_ucast_iff dest: bit_imp_le_length)
    qed
    show ?thesis using old fresh by (auto simp: refill_32_def bit_or_iff)
  qed
  then show "cached (refill_32 s)"
    using i few room s refill_pos [OF s] by (auto simp: cached_def refill_32_def)
  show "hb_over (refill_32 s) = hb_over s" using room i(1) by (auto simp: refill_32_def)
qed

section \<open>Taking bits out of the cache\<close>

lemma cached_room: "cached s \<Longrightarrow> hb_pos s + hb_left s \<le> 8 * length (hb_mem s)"
  by (simp add: cached_def hb_pos_def)

lemma get_val_cached:
  assumes s: "cached s" and n: "0 < n" "n \<le> hb_left s"
  shows "\<exists>t. run_state (get_val n) s = (bits_word (take n (hb_ahead s)), t) \<and> cached t \<and> hb_pos t = hb_pos s + n \<and>
    hb_mem t = hb_mem s \<and> hb_size t = hb_size s \<and> hb_over t = hb_over s \<and> hb_shift t = hb_shift s"
proof -
  let ?t = "s\<lparr>hb_cache := push_bit n (hb_cache s), hb_left := hb_left s - n\<rparr>"
  have room: "hb_pos s + hb_left s \<le> 8 * length (hb_mem s)" by (rule cached_room [OF s])
  have bits: "bit (hb_cache s) (63 - k) \<longleftrightarrow> k < hb_left s \<and> bits_of (hb_mem s) ! (hb_pos s + k)" if "k < 64" for k
    using s that by (simp add: cached_def)
  have n64: "n < 64" "hb_left s \<le> hb_index s" using s n(2) by (simp_all add: cached_def)
  have val: "drop_bit (64 - n) (hb_cache s) = bits_word (take n (hb_ahead s))"
  proof (rule bit_word_eqI)
    fix k assume "k < LENGTH(64)"
    show "bit (drop_bit (64 - n) (hb_cache s)) k \<longleftrightarrow> bit (bits_word (take n (hb_ahead s)) :: u64) k"
    proof (cases "k < n")
      case True
      define j where "j = n - Suc k"
      have j: "64 - n + k = 63 - j" "j < 64" "j < hb_left s" "n - Suc k = j" "j < n"
        using True n n64 unfolding j_def by linarith+
      have len: "length (take n (hb_ahead s)) = n" using room n(2) by (simp add: hb_ahead_def)
      have "take n (hb_ahead s) ! j = bits_of (hb_mem s) ! (hb_pos s + j)"
        using room n(2) j by (simp add: hb_ahead_def)
      then show ?thesis
        using bits [OF j(2)] j True n64 len
        by (simp add: bit_drop_bit_eq bit_bits_word)
    next
      case False
      then have "\<not> bit (hb_cache s) (64 - n + k)" using n64 by (auto dest: bit_imp_le_length)
      moreover have "length (take n (hb_ahead s)) \<le> k" using False by simp
      ultimately show ?thesis by (auto simp: bit_drop_bit_eq bit_bits_word)
    qed
  qed
  have "cached ?t"
    unfolding cached_def
  proof (intro conjI allI impI)
    fix k :: nat assume k: "k < 64"
    show "bit (hb_cache ?t) (63 - k) \<longleftrightarrow> k < hb_left ?t \<and> bits_of (hb_mem ?t) ! (hb_pos ?t + k)"
    proof (cases "n \<le> 63 - k")
      case True
      then have "63 - k - n = 63 - (k + n)" "k + n < 64" using k by linarith+
      then show ?thesis
        using bits [of "k + n"] True k n n64 by (auto simp: bit_push_bit_iff hb_pos_def add.assoc add.commute)
    next
      case False
      then have "\<not> k < hb_left s - n" using s k by (auto simp: cached_def)
      then show ?thesis using False by (simp add: bit_push_bit_iff)
    qed
  qed (use s n n64 in \<open>simp_all add: cached_def less_imp_diff_less\<close>)
  moreover have "run_state (get_val n) s = (bits_word (take n (hb_ahead s)), ?t)"
    using n(1) n64 val by (simp add: get_val_def) 
  moreover have "hb_pos ?t = hb_pos s + n" using n(2) n64(2) by (simp add: hb_pos_def)
  ultimately show ?thesis by auto
qed

lemma fetched_cached:
  assumes s: "cached s" and n: "n \<le> 32" "hb_pos s + n + 31 \<le> 8 * length (hb_mem s)"
  shows "\<exists>t. run_state (fetched n) s = ((), t) \<and> cached t \<and> n \<le> hb_left t \<and> hb_pos t = hb_pos s \<and>
    hb_mem t = hb_mem s \<and> hb_size t = hb_size s \<and> hb_over t = hb_over s \<and> hb_shift t = hb_shift s"
proof (cases "n > hb_left s")
  case True
  have "hb_index s = hb_pos s + hb_left s" using s by (simp add: cached_def hb_pos_def)
  then have "hb_index s + 32 \<le> 8 * length (hb_mem s)" "hb_left s < 32" using True n by linarith+
  then show ?thesis
    using refill_cached [OF s] refill_pos [OF s] True n(1) by (simp add: fetched_def) (simp add: refill_32_def)
next
  case False
  then show ?thesis using s by (simp add: fetched_def)
qed

lemma ucast_bits_word: "n \<le> 32 \<Longrightarrow> ucast (bits_word (take n bs) :: u64) = (bits_word (take n bs) :: u32)"
  by (rule bit_word_eqI) (auto simp: bit_ucast_iff bit_bits_word)

lemma hb_ahead_drop: "hb_mem t = hb_mem s \<Longrightarrow> hb_pos t = hb_pos s + n \<Longrightarrow> hb_ahead t = drop n (hb_ahead s)"
  by (simp add: hb_ahead_def add.commute)

lemma cache_reads_bits:
  assumes s: "cached s" and n: "0 < n" "n \<le> 32" and room: "hb_pos s + n + 31 \<le> 8 * length (hb_mem s)"
  shows "\<exists>t. run_state (hevc_get_bits n) s = (bits_word (take n (hb_ahead s)), t) \<and> cached t \<and>
    hb_ahead t = drop n (hb_ahead s) \<and> hb_mem t = hb_mem s \<and> hb_size t = hb_size s \<and>
    hb_over t = hb_over s \<and> hb_shift t = hb_shift s"
proof -
  obtain t where t: "run_state (fetched n) s = ((), t)" "cached t" "n \<le> hb_left t" "hb_pos t = hb_pos s"
    "hb_mem t = hb_mem s" "hb_size t = hb_size s" "hb_over t = hb_over s" "hb_shift t = hb_shift s"
    using fetched_cached [OF s n(2) room] by blast
  obtain r where r: "run_state (get_val n) t = (bits_word (take n (hb_ahead t)), r)" "cached r" "hb_pos r = hb_pos t + n"
    "hb_mem r = hb_mem t" "hb_size r = hb_size t" "hb_over r = hb_over t" "hb_shift r = hb_shift t"
    using get_val_cached [OF t(2) n(1) t(3)] by blast
  have "hb_ahead t = hb_ahead s" using t by (simp add: hb_ahead_def)
  moreover have "hb_ahead r = drop n (hb_ahead s)" using r t by (intro hb_ahead_drop) simp_all
  ultimately show ?thesis
    using t r ucast_bits_word [OF n(2)] by (simp add: hevc_get_bits_def)
qed

lemma hevc_takes_list:
  assumes "length bs = n" and "0 < n" and "n \<le> 32"
  shows "takes hevc_ahead hevc_after (hevc_get_bits n) bs (bits_word bs)"
  unfolding takes_def
proof (intro allI impI)
  fix s rest assume "hevc_ahead s (bs @ rest)"
  then obtain tail where s: "sound s" and ahead: "hb_ahead s = bs @ rest @ tail" and tail: "512 \<le> length tail"
    by (auto simp: hevc_ahead_def)
  have "8 * length (hb_mem s) - hb_pos s = n + length rest + length tail"
    using arg_cong [OF ahead, of length] assms(1) by (simp add: hb_ahead_def)
  then have room: "hb_pos s + n + 31 \<le> 8 * length (hb_mem s)" using tail by linarith
  have "cached s" using s by (simp add: sound_def)
  from cache_reads_bits [OF this assms(2,3) room] obtain t where
    "run_state (hevc_get_bits n) s = (bits_word (take n (hb_ahead s)), t)" "cached t" "hb_ahead t = drop n (hb_ahead s)"
    "hb_mem t = hb_mem s" "hb_size t = hb_size s" "hb_over t = hb_over s" "hb_shift t = hb_shift s" by blast
  then show "\<exists>s'. run_state (hevc_get_bits n) s = (bits_word bs, s') \<and> hevc_after s bs s'"
    using s ahead assms(1) by (auto simp: hevc_after_def sound_def)
qed

interpretation hevc_path: bit_path hevc_ahead hevc_after
proof
  show "hevc_ahead s' rest" if "hevc_ahead s (bs @ rest)" "hevc_after s bs s'" for s s' bs rest
    using that by (auto simp: hevc_ahead_def hevc_after_def)
  show "hevc_after s [] s" for s by (simp add: hevc_after_def)
  show "hevc_after s (bs @ bs') s''" if "hevc_after s bs s'" "hevc_after s' bs' s''" for s s' s'' bs bs'
    using that by (simp add: hevc_after_def)
qed

interpretation hevc: bit_source hevc_ahead hevc_after hevc_get_bits
  by unfold_locales (rule hevc_takes_list, simp_all)

abbreviation hreads :: "(hevc_bits, 'a) state \<Rightarrow> bool list \<Rightarrow> 'a \<Rightarrow> bool" where
  "hreads \<equiv> takes hevc_ahead hevc_after"

abbreviation hpasses :: "(hevc_bits, 'a) state \<Rightarrow> bool list \<Rightarrow> bool" where
  "hpasses \<equiv> skips hevc_ahead hevc_after"

section \<open>From the start of a payload\<close>

lemma hevc_start:
  assumes "length payload < 2 ^ 27"
  shows "hevc_ahead (refill_32 \<lparr>hb_mem = payload @ replicate 64 0, hb_cache = 0, hb_left = 0, hb_index = 0,
      hb_size = 8 * length payload, hb_over = False, hb_shift = False\<rparr>) (bits_of payload)"
    (is "hevc_ahead (refill_32 ?s) _")
proof -
  have s: "cached ?s" by (simp add: cached_def)
  have "cached (refill_32 ?s)" "hb_over (refill_32 ?s) = False"
    using refill_cached [OF s] by simp_all
  moreover have "hb_pos (refill_32 ?s) = 0" using refill_pos [OF s] by (simp add: hb_pos_def)
  ultimately show ?thesis
    using assms by (simp add: hevc_ahead_def sound_def hb_ahead_def) (simp add: refill_32_def)
qed

lemma hevc_with_bits_run:
  assumes m: "hreads m bs x" and bits: "bits_of payload = bs @ rest" and len: "length payload < 2 ^ 27"
  shows "hevc_with_bits (payload @ replicate 64 0) (length payload) m = Inr x"
proof -
  let ?s = "refill_32 \<lparr>hb_mem = payload @ replicate 64 0, hb_cache = 0, hb_left = 0, hb_index = 0,
      hb_size = 8 * length payload, hb_over = False, hb_shift = False\<rparr>"
  have start: "hevc_ahead ?s (bs @ rest)" using hevc_start [OF len] unfolding bits .
  then obtain t where "run_state m ?s = (x, t)" "hevc_after ?s bs t" using takes_run [OF m] by blast
  moreover have "sound ?s" using start by (simp add: hevc_ahead_def)
  ultimately show ?thesis using len by (simp add: hevc_with_bits_def hevc_after_def sound_def)
qed

text \<open>Fields of given widths, read one after the other, and cut off a list of bits.\<close>

fun read_fields :: "nat list \<Rightarrow> (hevc_bits, u32 list) state" where
  "read_fields [] = State_Monad.return []"
| "read_fields (n # ns) = do { w \<leftarrow> hevc_get_bits n; ws \<leftarrow> read_fields ns; State_Monad.return (w # ws) }"

fun cut_fields :: "nat list \<Rightarrow> bool list \<Rightarrow> u32 list" where
  "cut_fields [] bits = []"
| "cut_fields (n # ns) bits = bits_word (take n bits) # cut_fields ns (drop n bits)"

lemma read_fields_reads:
  "\<forall>n \<in> set ns. 0 < n \<and> n \<le> 32 \<Longrightarrow> length bits = sum_list ns \<Longrightarrow> hreads (read_fields ns) bits (cut_fields ns bits)"
proof (induction ns arbitrary: bits)
  case Nil
  then show ?case by (simp add: hevc_path.takes_return)
next
  case (Cons n ns)
  have rest: "hreads (read_fields ns) (drop n bits) (cut_fields ns (drop n bits))"
    using Cons.prems by (intro Cons.IH) simp_all
  have "hreads (hevc_get_bits n) (take n bits) (bits_word (take n bits))"
    using Cons.prems by (intro hevc_takes_list) simp_all
  from hevc_path.takes_bind [OF this hevc_path.takes_last [OF rest hevc_path.takes_return]]
  show ?case by simp
qed

text \<open>C37: The reader with its 64-bit cache, which fetches words of 32 bits, reads from a payload what a reader that
  goes bit by bit reads: fields of one to 32 bits, in any order, without a fault of the reader.\<close>

theorem cached_reader_reads_bits:
  assumes "\<forall>n \<in> set ns. 0 < n \<and> n \<le> 32" and "sum_list ns \<le> 8 * length payload" and "length payload < 2 ^ 27"
  shows "hevc_with_bits (payload @ replicate 64 0) (length payload)
      (do { ws \<leftarrow> read_fields ns; State_Monad.return (Some ws) }) =
    Inr (Some (cut_fields ns (bits_of payload)))"
proof -
  let ?bits = "take (sum_list ns) (bits_of payload)"
  have "hreads (read_fields ns) ?bits (cut_fields ns ?bits)"
    using assms by (intro read_fields_reads) simp_all
  then have "hreads (do { ws \<leftarrow> read_fields ns; State_Monad.return (Some ws) }) ?bits (Some (cut_fields ns ?bits))"
    by (rule hevc_path.takes_last) (rule hevc_path.takes_return)
  from hevc_with_bits_run [OF this _ assms(3)]
  have "hevc_with_bits (payload @ replicate 64 0) (length payload)
      (do { ws \<leftarrow> read_fields ns; State_Monad.return (Some ws) }) = Inr (Some (cut_fields ns ?bits))"
    by (metis append_take_drop_id)
  moreover have "cut_fields ms (take (sum_list ms) bs) = cut_fields ms bs" for ms bs
    by (induction ms arbitrary: bs) (simp_all add: drop_take)
  ultimately show ?thesis by simp
qed

lemma cached_reader_reads_bits_witness:
  "hevc_with_bits ([0x12, 0x34, 0x56] @ replicate 64 0) 3
      (do { ws \<leftarrow> read_fields [4, 12, 8]; State_Monad.return (Some ws) }) = Inr (Some [1, 0x234, 0x56])"
proof -
  have "cut_fields [4, 12, 8] (bits_of [0x12, 0x34, 0x56]) = [1, 0x234, 0x56]" by code_simp
  with cached_reader_reads_bits [of "[4, 12, 8]" "[0x12, 0x34, 0x56]"] show ?thesis by (simp add: numeral_3_eq_3)
qed

section \<open>Exp-Golomb codes\<close>

function bin :: "nat \<Rightarrow> bool list" where
  "bin n = (if n = 0 then [] else bin (n div 2) @ [odd n])"
  by pat_completeness auto
termination by (relation "measure id") auto

declare bin.simps [simp del]

text \<open>As many zeros as the number plus one has bits behind its first.\<close>

definition ue_bits :: "nat \<Rightarrow> bool list" where
  "ue_bits n = replicate (length (bin (n + 1)) - 1) False @ bin (n + 1)"

lemma bin_hd: "0 < n \<Longrightarrow> \<exists>bs. bin n = True # bs"
proof (induction n rule: bin.induct)
  case (1 n)
  show ?case
  proof (cases "n = 1")
    case True
    then show ?thesis by (simp add: bin.simps)
  next
    case False
    then have "0 < n div 2" using 1(2) by (simp add: div_greater_zero_iff)
    with 1 False obtain bs where "bin (n div 2) = True # bs" by auto
    then show ?thesis using 1(2) by (simp add: bin.simps [of n])
  qed
qed

lemma bin_length: "n < 2 ^ k \<Longrightarrow> length (bin n) \<le> k"
proof (induction n arbitrary: k rule: bin.induct)
  case (1 n)
  show ?case
  proof (cases "n = 0")
    case True
    then show ?thesis by (simp add: bin.simps)
  next
    case False
    then obtain j where j: "k = Suc j" using 1(2) by (cases k) auto
    then have "n div 2 < 2 ^ j" using 1(2) by (simp add: div_less_iff_less_mult)
    then show ?thesis using 1(1) False j by (simp add: bin.simps [of n])
  qed
qed

lemma bits_word_bin: "bits_word (bin n) = (of_nat n :: u32)"
proof (induction n rule: bin.induct)
  case (1 n)
  show ?case
  proof (cases "n = 0")
    case True
    then show ?thesis by (simp add: bin.simps)
  next
    case False
    then have "bits_word (bin n) = (or (push_bit 1 (of_nat (n div 2))) (of_bool (odd n)) :: u32)"
      using 1 by (simp add: bin.simps [of n] bits_word_snoc)
    also have "\<dots> = push_bit 1 (of_nat (n div 2)) + of_bool (odd n)"
    proof (rule disjunctive_add_eq_or [symmetric], rule bit_word_eqI)
      fix k
      show "bit (and (push_bit 1 (of_nat (n div 2))) (of_bool (odd n)) :: u32) k \<longleftrightarrow> bit (0 :: u32) k"
        by (cases k) (simp_all only: bit_and_iff bit_push_bit_iff bit_of_bool_iff, auto)
    qed
    also have "\<dots> = of_nat (2 * (n div 2) + n mod 2)"
      unfolding of_nat_add of_nat_mult by (simp add: push_bit_eq_mult mod_2_eq_odd mult.commute)
    finally show ?thesis by simp
  qed
qed

lemma clz32_list:
  assumes len: "length bs = 32" and bs: "bs = replicate k False @ True # cs"
  shows "clz32 (or (bits_word bs) 1) = k"
proof -
  let ?w = "or (bits_word bs) 1 :: u32"
  have k: "k < 32" using len unfolding bs by simp
  have nth: "field 32 ?w ! i \<longleftrightarrow> bs ! i \<or> i = 31" if "i < 32" for i
  proof -
    have "field 32 ?w ! i \<longleftrightarrow> bit ?w (31 - i)" using that by (simp add: field_def rev_nth)
    also have "\<dots> \<longleftrightarrow> bs ! i \<or> i = 31" using that len by (auto simp: bit_or_iff bit_bits_word bit_1_iff)
    finally show ?thesis .
  qed
  have "takeWhile Not (field 32 ?w) = take k (field 32 ?w)"
  proof (rule takeWhile_eq_take_P_nth)
    fix i assume "i < k"
    then show "\<not> field 32 ?w ! i" using nth [of i] k by (simp add: bs nth_append)
  next
    show "\<not> \<not> field 32 ?w ! k" using nth [of k] k by (simp add: bs nth_append)
  qed
  then show ?thesis using k by (simp add: clz32_def)
qed

lemma on_copy_run:
  "run_state m s = (x, t) \<Longrightarrow> hb_over t = hb_over s \<Longrightarrow> hb_shift t = hb_shift s \<Longrightarrow> run_state (on_copy m) s = (x, s)"
  by (cases s) (simp add: on_copy_def)

lemma ue_reads:
  assumes n: "n < 2 ^ 32 - 1"
  shows "hreads get_ue_golomb_long (ue_bits n) (of_nat n)"
  unfolding takes_def
proof (intro allI impI)
  fix s rest assume a: "hevc_ahead s (ue_bits n @ rest)"
  then obtain tail where s: "sound s" and ahead: "hb_ahead s = ue_bits n @ rest @ tail" and tail: "512 \<le> length tail"
    by (auto simp: hevc_ahead_def)
  obtain cs where b: "bin (n + 1) = True # cs" using bin_hd by fastforce
  define k where "k = length cs"
  have k: "k < 32" using bin_length [of "n + 1" 32] n b by (simp add: k_def)
  have ue: "ue_bits n = replicate k False @ True # cs" by (simp add: ue_bits_def b [simplified] k_def)
  let ?v = "take 32 (hb_ahead s)"
  have len: "length ?v = 32" using tail by (simp add: ahead)
  have v: "?v = replicate k False @ True # take (31 - k) (cs @ rest @ tail)"
    using k by (simp add: ahead ue take_Cons' min_def)
  have "hb_pos s + 32 + 31 \<le> 8 * length (hb_mem s)"
    using arg_cong [OF ahead, of length] tail by (simp add: hb_ahead_def)
  then obtain t where "run_state (hevc_get_bits 32) s = (bits_word ?v, t)" "hb_over t = hb_over s" "hb_shift t = hb_shift s"
    using cache_reads_bits [of s 32] s by (auto simp: sound_def)
  then have show_bits: "run_state (show_bits_long 32) s = (bits_word ?v, s)"
    by (simp add: show_bits_long_def get_bits_long_def on_copy_run)
  have log2: "31 - ilog2 (bits_word ?v) = k"
    using clz32_list [OF len v] k by (simp add: ilog2_def)
  have zeros: "hreads (get_bits_long k) (replicate k False) (bits_word (replicate k False))"
    using k hevc_takes_list [of "replicate k False" k] hevc_path.takes_return [of "0 :: u32"]
    by (simp add: get_bits_long_def)
  have number: "hreads (get_bits_long (k + 1)) (True # cs) (of_nat (n + 1))"
    using k hevc_takes_list [of "True # cs" "k + 1"] bits_word_bin [of "n + 1"] b
    by (simp add: get_bits_long_def k_def)
  have "hreads (do { _ \<leftarrow> get_bits_long k; v \<leftarrow> get_bits_long (k + 1); State_Monad.return (v - 1) }) (ue_bits n) (of_nat n)"
    unfolding ue
    using hevc_path.takes_return [of "of_nat (n + 1) - 1 :: u32"]
    by (intro hevc_path.takes_bind [OF zeros] hevc_path.takes_last [OF number]) simp
  from takes_run [OF this a] show "\<exists>s'. run_state get_ue_golomb_long s = (of_nat n, s') \<and> hevc_after s (ue_bits n) s'"
    using show_bits log2 by (simp add: get_ue_golomb_long_def Let_def)
qed

end
