(* ===== verification/Hevc_Codes.thy ===== *)
theory Hevc_Codes
  imports Hevc_Reader
begin

text \<open>
  Signed Exp-Golomb codes and emulation prevention, each as an encoder writes it and as the parser takes it
  back.
\<close>

section \<open>Signed codes\<close>

definition se_number :: "int \<Rightarrow> nat" where
  "se_number i = nat (if i > 0 then 2 * i - 1 else - 2 * i)"

definition se_bits :: "int \<Rightarrow> bool list" where
  "se_bits i = ue_bits (se_number i)"

lemma se_decoded:
  assumes i: "\<bar>i\<bar> < 2 ^ 31" and buf: "buf = (of_nat (se_number i) :: u32)"
  shows "as_i32 (uint (xor (drop_bit 1 buf) (and buf 1 - 1) + 1)) = i"
proof (cases "i > 0")
  case True
  then obtain m where m: "i = int m + 1" by (metis zless_iff_Suc_zadd add.commute add_0 of_nat_Suc)
  have "int m < 2 ^ 31" using i m by simp
  then have small: "2 * m + 1 < 2 ^ 32" by simp
  have b: "buf = of_nat (2 * m + 1)" using m by (simp add: buf se_number_def nat_add_distrib)
  have u: "unat buf = 2 * m + 1" unfolding b unat_of_nat by (rule mod_less) (use small in simp)
  have "and buf 1 = 1" by (simp add: b and_one_eq mod_2_eq_odd)
  moreover have "drop_bit 1 buf = of_nat m"
    using u small by (intro word_unat_eq_iff [THEN iffD2]) (simp add: unat_drop_bit_eq drop_bit_eq_div unat_of_nat unat_div_distrib)
  moreover have "int (Suc m) < 2 ^ 32" using small by simp
  then have "uint (of_nat (Suc m) :: u32) = int (Suc m)"
    unfolding unsigned_of_nat by (simp add: take_bit_nat_eq_self del: of_nat_Suc)
  then have "uint (of_nat m + 1 :: u32) = int m + 1" by (simp add: add.commute)
  ultimately show ?thesis using i m by (simp add: as_i32_id)
next
  case False
  then obtain m where m: "i = - int m" by (metis int_nat_eq minus_minus neg_le_0_iff_le nonneg_int_cases not_less)
  have small: "2 * m < 2 ^ 32" using i m by simp
  have b: "buf = of_nat (2 * m)" using m by (simp add: buf se_number_def)
  have u: "unat buf = 2 * m" unfolding b unat_of_nat by (rule mod_less) (use small in simp)
  have "and buf 1 = 0" by (simp add: and_one_eq word_unat_eq_iff unat_mod_distrib u)
  moreover have "drop_bit 1 buf = of_nat m"
    using u small by (intro word_unat_eq_iff [THEN iffD2]) (simp add: unat_drop_bit_eq drop_bit_eq_div unat_of_nat unat_div_distrib)
  ultimately have "xor (drop_bit 1 buf) (and buf 1 - 1) + 1 = - of_nat m"
    by (simp add: not_eq_complement)
  moreover have "(- of_nat m :: u32) = of_int (- int m)" by simp
  then have "uint (- of_nat m :: u32) = (- int m) mod 2 ^ 32"
    by (simp only: unsigned_of_int take_bit_eq_mod) (simp add: take_bit_eq_mod)
  moreover have "(2 ^ 31 - int m) mod 2 ^ 32 = 2 ^ 31 - int m"
    using i m by (intro mod_pos_pos_trivial) simp_all
  ultimately show ?thesis using m by (simp add: as_i32_def mod_add_left_eq)
qed

lemma se_reads:
  assumes "\<bar>i\<bar> < 2 ^ 31"
  shows "hreads get_se_golomb_long (se_bits i) i"
proof -
  have "se_number i < 2 ^ 32 - 1" using assms by (auto simp: se_number_def)
  show ?thesis
    unfolding get_se_golomb_long_def se_bits_def Let_def
    by (rule hevc_path.takes_last [OF ue_reads [OF \<open>se_number i < 2 ^ 32 - 1\<close>]])
      (subst se_decoded [OF assms refl], rule hevc_path.takes_return)
qed

section \<open>Emulation prevention\<close>

text \<open>What an encoder writes for a payload: a three behind two zeros where a byte up to three follows.\<close>

fun escaped :: "nat \<Rightarrow> byte list \<Rightarrow> byte list" where
  "escaped z [] = []"
| "escaped z (b # bs) =
     (if z \<ge> 2 \<and> b \<le> 3 then 3 # b # escaped (if b = 0 then 1 else 0) bs
      else b # escaped (if b = 0 then Suc z else 0) bs)"

lemma unescaped_Cons: "a \<noteq> 0 \<Longrightarrow> unescaped (a # bs) = a # unescaped bs"
  by (cases bs rule: unescaped.cases) auto

lemma unescaped_zeros:
  assumes b: "b \<noteq> 0" "b \<noteq> 3 \<or> z < 2" and z: "z \<le> 2"
  shows "unescaped (replicate z 0 @ b # bs) = replicate z 0 @ b # unescaped bs"
proof -
  have one: "unescaped (0 # b # bs) = 0 # b # unescaped bs"
    using b(1) by (cases bs) (auto simp: unescaped_Cons)
  have "z = 0 \<or> z = 1 \<or> z = 2" using z by auto
  then show ?thesis using b one unescaped_Cons [OF b(1)] by (auto simp: numeral_2_eq_2)
qed

lemma unescaped_escaped: "z \<le> 2 \<Longrightarrow> unescaped (replicate z 0 @ escaped z bs) = replicate z 0 @ bs"
proof (induction bs arbitrary: z)
  case Nil
  then have "z = 0 \<or> z = 1 \<or> z = 2" by auto
  then show ?case by (auto simp: numeral_2_eq_2)
next
  case (Cons b bs)
  have after: "unescaped (b # escaped (if b = 0 then 1 else 0) bs) = b # bs"
    using Cons.IH [of 1] Cons.IH [of 0] by (auto simp: unescaped_Cons)
  consider "z = 2 \<and> b \<le> 3" | "\<not> (z = 2 \<and> b \<le> 3) \<and> b = 0" | "\<not> (z = 2 \<and> b \<le> 3) \<and> b \<noteq> 0" by blast
  then show ?case
  proof cases
    case 1
    then show ?thesis using after by (simp add: numeral_2_eq_2)
  next
    case 2
    then have z: "z \<noteq> 2" "Suc z \<le> 2" using Cons.prems by auto
    from Cons.IH [OF z(2)] show ?thesis using 2 z by (simp add: replicate_append_same [symmetric])
  next
    case 3
    then have "b \<noteq> 3 \<or> z < 2" using Cons.prems by auto
    then show ?thesis using 3 Cons.prems Cons.IH [of 0] by (auto simp: unescaped_zeros)
  qed
qed

text \<open>An encoder's NAL unit, two bytes of header and the payload with its emulation prevention bytes, gives back
  header and payload, whatever zeros the payload has, and behind them the 64 zero bytes the reader fetches from.\<close>

lemma emulation_prevention_undone:
  assumes "length header = 2"
  shows "ff_nal_unit_extract_rbsp (header @ escaped 0 payload) 2 =
    ((header @ payload) @ replicate 64 0, length header + length payload)"
  using assms unescaped_escaped [of 0 payload] by (simp add: ff_nal_unit_extract_rbsp_def Let_def)

lemma emulation_prevention_undone_witness:
  "ff_nal_unit_extract_rbsp [0x42, 1, 0, 0, 3, 0, 0, 3, 3, 9] 2 = ([0x42, 1, 0, 0, 0, 0, 3, 9] @ replicate 64 0, 8)"
proof -
  have "escaped 0 [0, 0, 0, 0, 3, 9] = [0, 0, 3, 0, 0, 3, 3, 9]" by code_simp
  with emulation_prevention_undone [of "[0x42, 1]" "[0, 0, 0, 0, 3, 9]"] show ?thesis by simp
qed

text \<open>Codes one after the other.\<close>

fun read_signed :: "nat \<Rightarrow> (hevc_bits, int list) state" where
  "read_signed 0 = State_Monad.return []"
| "read_signed (Suc n) = do { i \<leftarrow> get_se_golomb_long; is \<leftarrow> read_signed n; State_Monad.return (i # is) }"

lemma read_signed_reads:
  "\<forall>i \<in> set is. \<bar>i\<bar> < 2 ^ 31 \<Longrightarrow> hreads (read_signed (length is)) (concat (map se_bits is)) is"
proof (induction "is")
  case Nil
  then show ?case by (simp add: hevc_path.takes_return)
next
  case (Cons i "is")
  then have "hreads get_se_golomb_long (se_bits i) i" by (intro se_reads) simp
  moreover have "hreads (read_signed (length is)) (concat (map se_bits is)) is" using Cons by simp
  ultimately show ?case
    using hevc_path.takes_bind hevc_path.takes_last hevc_path.takes_return by fastforce
qed

text \<open>Signed and unsigned Exp-Golomb codes are read back: from a payload that begins with the codes of some
  numbers the reader takes these numbers, also at the end of the payload, where it looks 32 bits ahead.\<close>

lemma exp_golomb_read_back:
  assumes "\<forall>i \<in> set is. \<bar>i\<bar> < 2 ^ 31" and "bits_of payload = concat (map se_bits is) @ rest"
    and "length payload < 2 ^ 27"
  shows "hevc_with_bits (payload @ replicate 64 0) (length payload)
      (do { xs \<leftarrow> read_signed (length is); State_Monad.return (Some xs) }) = Inr (Some is)"
  by (rule hevc_with_bits_run [OF hevc_path.takes_last [OF read_signed_reads [OF assms(1)] hevc_path.takes_return]
      assms(2,3)])

lemma exp_golomb_read_back_witness:
  "hevc_with_bits ([0x4C, 0x44] @ replicate 64 0) (length [0x4C, 0x44 :: byte])
      (do { xs \<leftarrow> read_signed (length [1, - 1, 4 :: int]); State_Monad.return (Some xs) }) = Inr (Some [1, - 1, 4])"
proof -
  have bits: "bits_of [0x4C, 0x44] = concat (map se_bits [1, - 1, 4]) @ [True, False, False]" by code_simp
  show ?thesis by (rule exp_golomb_read_back [OF _ bits]) simp_all
qed

end
