(* ===== verification/Hevc_Grammar.thy ===== *)
theory Hevc_Grammar
  imports Hevc_Codes
begin

text \<open>
  The syntax of the parameter sets as predicates on lists of bits, element by element in the words of the
  standard, and that the parsers of \<open>Hevc_Syntax\<close> and \<open>Hevc_Header\<close> read them: what is skipped is skipped to
  its end, and what goes into the record is the value that was written.
\<close>

section \<open>Grammars\<close>

type_synonym grammar = "bool list \<Rightarrow> bool"

definition bits_n :: "nat \<Rightarrow> grammar" where
  "bits_n n bs \<longleftrightarrow> length bs = n"

definition ue_code :: grammar where
  "ue_code bs \<longleftrightarrow> (\<exists>n < 2 ^ 32 - 1. bs = ue_bits n)"

definition sequel :: "grammar \<Rightarrow> grammar \<Rightarrow> grammar" where
  "sequel P Q bs \<longleftrightarrow> (\<exists>a b. bs = a @ b \<and> P a \<and> Q b)"

definition if_flag :: "grammar \<Rightarrow> grammar" where
  "if_flag P bs \<longleftrightarrow> bs = [False] \<or> (\<exists>a. bs = True # a \<and> P a)"

definition when_bits :: "bool \<Rightarrow> grammar \<Rightarrow> grammar" where
  "when_bits b P bs \<longleftrightarrow> (if b then P bs else bs = [])"

fun many :: "nat \<Rightarrow> grammar \<Rightarrow> grammar" where
  "many 0 P bs \<longleftrightarrow> bs = []"
| "many (Suc n) P bs \<longleftrightarrow> sequel P (many n P) bs"

lemma pass_bits: "bits_n n bs \<Longrightarrow> 0 < n \<Longrightarrow> n \<le> 32 \<Longrightarrow> hpasses (hevc_get_bits n) bs"
  by (simp add: bits_n_def hevc.skips_bits)

lemma pass_long: "bits_n n bs \<Longrightarrow> 0 < n \<Longrightarrow> n \<le> 32 \<Longrightarrow> hpasses (get_bits_long n) bs"
  by (simp add: get_bits_long_def pass_bits)

lemma pass_ue: "ue_code bs \<Longrightarrow> hpasses get_ue_golomb_long bs"
  unfolding ue_code_def by (elim exE conjE) (simp only:, rule skipsI, rule ue_reads)

lemma pass_se: "ue_code bs \<Longrightarrow> hpasses get_se_golomb_long bs"
  unfolding get_se_golomb_long_def Let_def by (rule hevc_path.skips_end [OF pass_ue hevc_path.skips_return])

lemma pass_sequel:
  "sequel P Q bs \<Longrightarrow> (\<And>a. P a \<Longrightarrow> hpasses m a) \<Longrightarrow> (\<And>w b. Q b \<Longrightarrow> hpasses (f w) b) \<Longrightarrow>
    hpasses (State_Monad.bind m f) bs"
  by (auto simp: sequel_def intro: hevc_path.skips_skips)

lemma read_sequel:
  "sequel P Q bs \<Longrightarrow> (\<And>a. P a \<Longrightarrow> hpasses m a) \<Longrightarrow> (\<And>w b. Q b \<Longrightarrow> hreads (f w) b y) \<Longrightarrow>
    hreads (State_Monad.bind m f) bs y"
  by (auto simp: sequel_def intro: hevc_path.skips_then)

lemma pass_flag:
  assumes "if_flag P bs" and "\<And>a. P a \<Longrightarrow> hpasses m a"
  shows "hpasses (do { p \<leftarrow> hevc_get_bits 1; if p \<noteq> 0 then m else State_Monad.return z }) bs"
  using assms
  by (auto simp: if_flag_def simp del: One_nat_def intro!: hevc.flag_skips hevc_path.skips_return)

lemma pass_flag_sequel:
  assumes "sequel (if_flag P) Q bs" and "\<And>a. P a \<Longrightarrow> hpasses m a" and "\<And>w b. Q b \<Longrightarrow> hpasses (f w) b"
  shows "hpasses (do { p \<leftarrow> hevc_get_bits 1; w \<leftarrow> (if p \<noteq> 0 then m else State_Monad.return z); f w }) bs"
proof -
  obtain a b where bs: "bs = a @ b" "if_flag P a" "Q b" using assms(1) by (auto simp: sequel_def)
  then consider "a = [False]" | c where "a = True # c" "P c" by (auto simp: if_flag_def)
  then show ?thesis
  proof cases
    case 1
    have "hpasses (State_Monad.bind (State_Monad.return z) f) ([] @ b)"
      by (rule hevc_path.skips_skips [OF hevc_path.skips_return]) (rule assms(3) [OF bs(3)])
    then show ?thesis using 1 bs by (simp add: hevc.flag_skips del: One_nat_def)
  next
    case 2
    have "hpasses (State_Monad.bind m f) (c @ b)"
      by (rule hevc_path.skips_skips [OF assms(2) [OF 2(2)]]) (rule assms(3) [OF bs(3)])
    then show ?thesis using 2 bs by (simp add: hevc.flag_skips del: One_nat_def)
  qed
qed

lemma read_flag_sequel:
  assumes "sequel (if_flag P) Q bs" and "\<And>a. P a \<Longrightarrow> hpasses m a" and "\<And>w b. Q b \<Longrightarrow> hreads (f w) b y"
  shows "hreads (do { p \<leftarrow> hevc_get_bits 1; w \<leftarrow> (if p \<noteq> 0 then m else State_Monad.return z); f w }) bs y"
proof -
  obtain a b where bs: "bs = a @ b" "if_flag P a" "Q b" using assms(1) by (auto simp: sequel_def)
  then consider "a = [False]" | c where "a = True # c" "P c" by (auto simp: if_flag_def)
  then show ?thesis
  proof cases
    case 1
    have "hreads (State_Monad.bind (State_Monad.return z) f) b y"
      by (rule hevc_path.takes_pure [OF hevc_path.takes_return]) (rule assms(3) [OF bs(3)])
    then show ?thesis using 1 bs by (simp add: hevc.flag_bind del: One_nat_def)
  next
    case 2
    have "hreads (State_Monad.bind m f) (c @ b) y"
      by (rule hevc_path.skips_then [OF assms(2) [OF 2(2)]]) (rule assms(3) [OF bs(3)])
    then show ?thesis using 2 bs by (simp add: hevc.flag_bind del: One_nat_def)
  qed
qed

lemma pass_when: "when_bits b P bs \<Longrightarrow> (\<And>a. P a \<Longrightarrow> hpasses m a) \<Longrightarrow>
    hpasses (if b then m else State_Monad.return z) bs"
  by (auto simp: when_bits_def hevc_path.skips_return split: if_splits)

lemma pass_times: "many n P bs \<Longrightarrow> (\<And>a. P a \<Longrightarrow> hpasses m a) \<Longrightarrow> hpasses (times n m) bs"
proof (induction n arbitrary: bs)
  case 0
  then show ?case by (simp add: hevc_path.skips_return)
next
  case (Suc n)
  from Suc.prems(1) have "sequel P (many n P) bs" by simp
  from pass_sequel [OF this Suc.prems(2) Suc.IH] show ?case using Suc.prems(2) by simp
qed

lemma read_times: "many n P bs \<Longrightarrow> (\<And>a. P a \<Longrightarrow> hpasses m a) \<Longrightarrow> hreads (times n m) bs ()"
  using pass_times unfolding skips_def by fastforce

fun each_of :: "('x \<Rightarrow> grammar) \<Rightarrow> 'x list \<Rightarrow> grammar" where
  "each_of P [] bs \<longleftrightarrow> bs = []"
| "each_of P (x # xs) bs \<longleftrightarrow> sequel (P x) (each_of P xs) bs"

lemma pass_each: "each_of P xs bs \<Longrightarrow> (\<And>x a. P x a \<Longrightarrow> hpasses (f x) a) \<Longrightarrow> hpasses (each f xs) bs"
proof (induction xs arbitrary: bs)
  case Nil
  then show ?case by (simp add: hevc_path.skips_return)
next
  case (Cons x xs)
  from Cons.prems(1) have "sequel (P x) (each_of P xs) bs" by simp
  from pass_sequel [OF this Cons.prems(2) Cons.IH] show ?case using Cons.prems(2) by simp
qed

section \<open>Scaling lists\<close>

definition scaling_coeffs :: "nat \<Rightarrow> nat" where
  "scaling_coeffs i = (if i = 0 then 16 else 64)"

definition scaling_grammar :: "nat \<Rightarrow> grammar" where
  "scaling_grammar i bs \<longleftrightarrow>
     (\<exists>a. bs = False # a \<and> ue_code a) \<or>
     (\<exists>a. bs = True # a \<and> sequel (when_bits (i > 1) ue_code) (many (scaling_coeffs i) ue_code) a)"

definition scaling_lists :: grammar where
  "scaling_lists = each_of (\<lambda>i. many (if i = 3 then 2 else 6) (scaling_grammar i)) [0, 1, 2, 3]"

lemma coeffs: "nat (min_i32 64 (2 ^ (4 + 2 * i))) = scaling_coeffs i"
proof (cases i)
  case 0
  then show ?thesis by (simp add: min_i32_def scaling_coeffs_def)
next
  case (Suc j)
  have "(1 :: int) \<le> 4 ^ j" by simp
  then have "(4 :: int) ^ j = 1 \<or> 1 < (4 :: int) ^ j" by linarith
  moreover have "(2 :: int) ^ (4 + 2 * i) = 64 * 4 ^ j" by (simp add: Suc power_add power_mult)
  ultimately show ?thesis using Suc by (auto simp: min_i32_def scaling_coeffs_def)
qed

lemma pass_scaling: "scaling_grammar i bs \<Longrightarrow> hpasses (scaling_list i) bs"
  unfolding scaling_grammar_def
proof (elim disjE exE conjE)
  fix a assume "bs = False # a" "ue_code a"
  then show ?thesis
    by (auto simp: scaling_list_def simp del: One_nat_def
        intro!: hevc.flag_skips hevc_path.skips_end [OF pass_ue hevc_path.skips_return])
next
  fix a assume bs: "bs = True # a" and a: "sequel (when_bits (i > 1) ue_code) (many (scaling_coeffs i) ue_code) a"
  have "hpasses (do { _ \<leftarrow> (if i > 1 then get_se_golomb_long else State_Monad.return 0);
      times (nat (min_i32 64 (2 ^ (4 + 2 * i)))) get_se_golomb_long }) a"
    unfolding coeffs by (rule pass_sequel [OF a]) (erule pass_when pass_times, erule pass_se)+
  then show ?thesis
    by (auto simp: bs scaling_list_def simp del: One_nat_def intro!: hevc.flag_skips)
qed

lemma pass_scaling_lists: "scaling_lists bs \<Longrightarrow> hpasses skip_scaling_list_data bs"
  unfolding scaling_lists_def skip_scaling_list_data_def
  by (erule pass_each) (erule pass_times, erule pass_scaling)

section \<open>Reference picture sets\<close>

text \<open>As many bits as are ahead in the payload are left.\<close>

lemma bits_left_then:
  assumes "\<And>left. int (length bs) \<le> left \<Longrightarrow> left < 2 ^ 31 \<Longrightarrow> hreads (f left) bs y"
  shows "hreads (State_Monad.bind hevc_bits_left f) bs y"
  unfolding takes_def
proof (intro allI impI)
  fix s rest assume a: "hevc_ahead s (bs @ rest)"
  then obtain tail where s: "sound s" and ahead: "hb_ahead s = bs @ rest @ tail" and tail: "512 \<le> length tail"
    by (auto simp: hevc_ahead_def)
  let ?left = "int (hb_size s) - (int (hb_index s) - int (hb_left s))"
  have pos: "int (hb_index s) - int (hb_left s) = int (hb_pos s)"
    using s by (simp add: sound_def cached_def hb_pos_def)
  have len: "length bs + length rest + length tail = 8 * length (hb_mem s) - hb_pos s"
    using arg_cong [OF ahead, of length] by (simp add: hb_ahead_def)
  moreover have "hb_size s + 512 = 8 * length (hb_mem s)" "hb_size s < 2 ^ 30" using s by (simp_all add: sound_def)
  moreover from len tail have "hb_pos s \<le> 8 * length (hb_mem s)" by linarith
  moreover have "int (hb_size s) < 2 ^ 31" using s by (simp add: sound_def)
  ultimately have "int (length bs) \<le> ?left" "?left < 2 ^ 31" unfolding pos using tail by linarith+
  from takes_run [OF assms [OF this] a] obtain s' where "run_state (f ?left) s = (y, s')" "hevc_after s bs s'" by blast
  moreover have "run_state (State_Monad.bind hevc_bits_left f) s = run_state (f ?left) s" by (simp add: hevc_bits_left_def)
  ultimately show "\<exists>s'. run_state (State_Monad.bind hevc_bits_left f) s = (y, s') \<and> hevc_after s bs s'" by auto
qed

definition poc_grammar :: grammar where
  "poc_grammar = sequel ue_code (bits_n 1)"

lemma pass_poc: "poc_grammar bs \<Longrightarrow> hpasses skip_poc bs"
  unfolding poc_grammar_def skip_poc_def by (erule pass_sequel) (simp_all add: pass_ue pass_bits)

lemma ue_nonempty: "ue_code bs \<Longrightarrow> 0 < length bs"
proof -
  assume "ue_code bs"
  then obtain n where n: "bs = ue_bits n" by (auto simp: ue_code_def)
  obtain cs where "bin (n + 1) = True # cs" using bin_hd [of "n + 1"] by auto
  then show "0 < length bs" by (simp add: n ue_bits_def)
qed

lemma many_pocs_length: "many n poc_grammar bs \<Longrightarrow> 2 * n \<le> length bs"
proof (induction n arbitrary: bs)
  case 0
  then show ?case by simp
next
  case (Suc n)
  then obtain a b where "bs = a @ b" "poc_grammar a" "many n poc_grammar b" by (auto simp: sequel_def)
  moreover from this have "2 \<le> length a" by (auto simp: poc_grammar_def sequel_def bits_n_def Suc_le_eq dest: ue_nonempty)
  ultimately show ?case using Suc.IH by fastforce
qed

text \<open>A picture of a predicted set: used, or kept or not.\<close>

definition kept_bits :: "bool \<times> bool \<Rightarrow> bool list" where
  "kept_bits f = (if fst f then [True] else [False, snd f])"

definition kept_count :: "(bool \<times> bool) list \<Rightarrow> nat" where
  "kept_count fs = length (filter (\<lambda>f. fst f \<or> snd f) fs)"

lemma predicted_reads:
  "hreads (predicted_pocs (length fs) n) (concat (map kept_bits fs)) (n + of_nat (kept_count fs))"
proof (induction fs arbitrary: n)
  case Nil
  then show ?case by (simp add: hevc_path.takes_return kept_count_def)
next
  case (Cons f fs)
  obtain u d where f: "f = (u, d)" by (cases f)
  let ?n = "if u \<or> d then n + 1 else n"
  have rest: "hreads (predicted_pocs (length fs) ?n) (concat (map kept_bits fs)) (n + of_nat (kept_count (f # fs)))"
    using Cons.IH [of ?n] f by (auto simp: kept_count_def ac_simps)
  show ?case
  proof (cases u)
    case True
    have "hreads (do { use_delta \<leftarrow> State_Monad.return (0 :: u32);
        predicted_pocs (length fs) (if (1 :: u32) \<noteq> 0 \<or> use_delta \<noteq> 0 then n + 1 else n) })
      (concat (map kept_bits fs)) (n + of_nat (kept_count (f # fs)))"
      using rest True by (intro hevc_path.takes_pure [OF hevc_path.takes_return]) simp
    then have "hreads (predicted_pocs (Suc (length fs)) n) (True # concat (map kept_bits fs))
        (n + of_nat (kept_count (f # fs)))"
      unfolding predicted_pocs.simps by (intro hevc.flag_bind) simp
    moreover have "kept_bits f = [True]" using True f by (simp add: kept_bits_def)
    ultimately show ?thesis by (simp del: predicted_pocs.simps)
  next
    case False
    have "hreads (do { use_delta \<leftarrow> hevc_get_bits 1;
        predicted_pocs (length fs) (if (0 :: u32) \<noteq> 0 \<or> use_delta \<noteq> 0 then n + 1 else n) })
      (d # concat (map kept_bits fs)) (n + of_nat (kept_count (f # fs)))"
      using rest False by (intro hevc.flag_bind) simp
    then have "hreads (predicted_pocs (Suc (length fs)) n) (False # d # concat (map kept_bits fs))
        (n + of_nat (kept_count (f # fs)))"
      unfolding predicted_pocs.simps by (intro hevc.flag_bind) simp
    moreover have "kept_bits f = [False, d]" using False f by (simp add: kept_bits_def)
    ultimately show ?thesis by (simp del: predicted_pocs.simps)
  qed
qed

text \<open>One set behind sets with the counts \<open>pocs\<close>, and its count.\<close>

definition explicit_set :: "bool list \<Rightarrow> nat \<Rightarrow> bool" where
  "explicit_set bs n \<longleftrightarrow>
     (\<exists>neg pos a b. bs = ue_bits neg @ ue_bits pos @ a @ b \<and> n = neg + pos \<and> many neg poc_grammar a \<and>
        many pos poc_grammar b \<and> neg + pos < 2 ^ 16)"

definition predicted_set :: "nat \<Rightarrow> bool list \<Rightarrow> nat \<Rightarrow> bool" where
  "predicted_set before bs n \<longleftrightarrow>
     (\<exists>sign u fs. bs = sign # u @ concat (map kept_bits fs) \<and> ue_code u \<and> length fs = before + 1 \<and> n = kept_count fs)"

definition reference_set :: "nat list \<Rightarrow> bool list \<Rightarrow> nat \<Rightarrow> bool" where
  "reference_set pocs bs n \<longleftrightarrow>
     (if pocs = [] then explicit_set bs n
      else (\<exists>a. bs = False # a \<and> explicit_set a n) \<or> (\<exists>a. bs = True # a \<and> predicted_set (last pocs) a n))"

fun reference_sets :: "nat \<Rightarrow> nat list \<Rightarrow> grammar" where
  "reference_sets 0 pocs bs \<longleftrightarrow> bs = []"
| "reference_sets (Suc k) pocs bs \<longleftrightarrow>
     (\<exists>a b n. bs = a @ b \<and> reference_set pocs a n \<and> reference_sets k (pocs @ [n]) b)"

definition explicit_reader :: "(hevc_bits, u32 option) state" where
  "explicit_reader = do {
       neg \<leftarrow> get_ue_golomb_long;
       pos \<leftarrow> get_ue_golomb_long;
       left \<leftarrow> hevc_bits_left;
       if (ucast pos + ucast neg :: u64) * 2 > of_int left then State_Monad.return None
       else do {
         _ \<leftarrow> times (unat neg) skip_poc;
         _ \<leftarrow> times (unat pos) skip_poc;
         State_Monad.return (Some (neg + pos)) } }"

lemma explicit_reads:
  assumes "explicit_set bs n"
  shows "hreads explicit_reader bs (Some (of_nat n))"
proof -
  obtain neg pos a b where bs: "bs = ue_bits neg @ ue_bits pos @ a @ b" and n: "n = neg + pos"
    and a: "many neg poc_grammar a" and b: "many pos poc_grammar b" and "neg + pos < 2 ^ 16"
    using assms by (auto simp: explicit_set_def)
  then have small: "neg + pos < 2 ^ 31" by simp
  then have small2: "neg < 2 ^ 32 - 1" "pos < 2 ^ 32 - 1" by simp_all
  have un: "unat (of_nat neg :: u32) = neg" "unat (of_nat pos :: u32) = pos"
    using small by (simp_all add: unat_of_nat)
  have up: "(ucast (of_nat m :: u32) :: u64) = of_nat m" if "m < 2 ^ 32" for m
    using that by (simp add: word_unat_eq_iff unsigned_ucast_eq unat_of_nat take_bit_nat_eq_self)
  have body: "hreads (do { _ \<leftarrow> times (unat (of_nat neg :: u32)) skip_poc; _ \<leftarrow> times (unat (of_nat pos :: u32)) skip_poc;
      State_Monad.return (Some (of_nat neg + of_nat pos)) }) (a @ b) (Some (of_nat n))"
    unfolding un n of_nat_add
    apply (rule hevc_path.skips_then [OF pass_times [OF a pass_poc]])
    apply assumption
    apply (rule hevc_path.skips_last)
    apply (rule pass_times [OF b pass_poc])
    apply assumption
    apply (rule hevc_path.takes_return)
    done
  have fits: "\<not> (ucast (of_nat pos :: u32) + ucast (of_nat neg :: u32) :: u64) * 2 > of_int left"
    if "int (length (a @ b)) \<le> left" "left < 2 ^ 31" for left
  proof -
    define A where "A = 2 * (pos + neg)"
    define L where "L = nat left"
    have "A \<le> L" "L < 2 ^ 31" "A < 2 ^ 64" "L < 2 ^ 64"
      using many_pocs_length [OF a] many_pocs_length [OF b] that small by (simp_all add: A_def L_def)
    then have "unat (of_nat A :: u64) = A" "unat (of_nat L :: u64) = L" "A \<le> L"
      by (simp_all add: unat_of_nat)
    moreover have "(ucast (of_nat pos :: u32) + ucast (of_nat neg :: u32) :: u64) * 2 = of_nat A"
      using small2 by (simp add: up A_def)
    moreover have "(of_int left :: u64) = of_nat L" using that by (simp add: L_def)
    ultimately show ?thesis by (simp only: word_less_nat_alt not_less)
  qed
  show ?thesis
    unfolding bs explicit_reader_def
  proof (rule hevc_path.takes_bind [OF ue_reads [OF small2(1)]], rule hevc_path.takes_bind [OF ue_reads [OF small2(2)]],
      rule bits_left_then)
    fix left assume "int (length (a @ b)) \<le> left" "left < 2 ^ 31"
    from fits [OF this] show "hreads (if (ucast (of_nat pos :: u32) + ucast (of_nat neg :: u32) :: u64) * 2 > of_int left
        then State_Monad.return None
        else do { _ \<leftarrow> times (unat (of_nat neg :: u32)) skip_poc; _ \<leftarrow> times (unat (of_nat pos :: u32)) skip_poc;
          State_Monad.return (Some (of_nat neg + of_nat pos)) }) (a @ b) (Some (of_nat n))"
      using body by simp
  qed
qed

lemma set_reads:
  assumes "reference_set pocs bs n" and "length pocs < num" and "\<forall>p \<in> set pocs. p < 2 ^ 31"
  shows "hreads (parse_rps (length pocs) num (map of_nat pocs)) bs (Some (of_nat n))"
proof (cases "pocs = []")
  case True
  then have "hreads (State_Monad.bind (State_Monad.return (0 :: u32)) (\<lambda>_. explicit_reader)) bs (Some (of_nat n))"
    using assms(1) explicit_reads by (intro hevc_path.takes_pure [OF hevc_path.takes_return]) (simp add: reference_set_def)
  then show ?thesis using True by (simp add: parse_rps_def explicit_reader_def)
next
  case False
  have "hreads (do { inter \<leftarrow> hevc_get_bits 1; if inter \<noteq> 0 then
       (if length pocs \<ge> num then State_Monad.return None
        else do {
          _ \<leftarrow> hevc_get_bits 1;
          _ \<leftarrow> get_ue_golomb_long;
          n \<leftarrow> predicted_pocs (unat (map of_nat pocs ! (length pocs - 1) :: u32) + 1) 0;
          State_Monad.return (Some n) })
      else explicit_reader }) bs (Some (of_nat n))" (is "hreads (State_Monad.bind _ ?f) _ _")
    using assms(1) False unfolding reference_set_def if_not_P [OF False]
  proof (elim disjE exE conjE)
    fix a assume "bs = False # a" "explicit_set a n"
    then show ?thesis using explicit_reads by (auto simp del: One_nat_def intro!: hevc.flag_bind)
  next
    fix a assume bs: "bs = True # a" and "predicted_set (last pocs) a n"
    then obtain sign u fs where a: "a = sign # u @ concat (map kept_bits fs)" and u: "ue_code u"
      and fs: "length fs = last pocs + 1" and n: "n = kept_count fs"
      by (auto simp: predicted_set_def)
    have "last pocs < 2 ^ 31" using assms(3) False by simp
    then have "unat (map of_nat pocs ! (length pocs - 1) :: u32) + 1 = length fs"
      using False fs by (simp add: last_conv_nth unat_of_nat)
    then have "hreads (predicted_pocs (unat (map of_nat pocs ! (length pocs - 1) :: u32) + 1) 0)
        (concat (map kept_bits fs)) (of_nat n)"
      using predicted_reads [of fs 0] by (simp add: n)
    from hevc.flag_bind [OF hevc_path.skips_then [OF pass_ue [OF u] hevc_path.takes_last [OF this hevc_path.takes_return]]]
    have "hreads (do { _ \<leftarrow> hevc_get_bits 1; _ \<leftarrow> get_ue_golomb_long;
        n \<leftarrow> predicted_pocs (unat (map of_nat pocs ! (length pocs - 1) :: u32) + 1) 0;
        State_Monad.return (Some n) }) a (Some (of_nat n))" unfolding a by this
    then have "hreads (?f (of_bool True)) a (Some (of_nat n))" using assms(2) by simp
    then show ?thesis unfolding bs by (rule hevc.flag_bind)
  qed
  moreover have "length pocs \<noteq> 0" using False by simp
  ultimately show ?thesis unfolding parse_rps_def explicit_reader_def by (simp only: if_True simp_thms)
qed

lemma set_count:
  assumes "reference_set pocs bs n" and "\<forall>p \<in> set pocs. p < 2 ^ 16 + length pocs"
  shows "\<forall>p \<in> set (pocs @ [n]). p < 2 ^ 16 + length (pocs @ [n])"
proof -
  have "n < 2 ^ 16 + Suc (length pocs)"
  proof (cases "\<exists>a. explicit_set a n")
    case True
    then show ?thesis by (auto simp: explicit_set_def)
  next
    case False
    then obtain a where "predicted_set (last pocs) a n" "pocs \<noteq> []"
      using assms(1) by (auto simp: reference_set_def split: if_splits)
    moreover from this have "n \<le> last pocs + 1"
      by (auto simp: predicted_set_def kept_count_def intro: order_trans [OF length_filter_le])
    ultimately show ?thesis using assms(2) last_in_set [of pocs] by fastforce
  qed
  then show ?thesis using assms(2) by fastforce
qed

lemma sets_read:
  "reference_sets k pocs bs \<Longrightarrow> length pocs + k \<le> num \<Longrightarrow> num \<le> 64 \<Longrightarrow>
    \<forall>p \<in> set pocs. p < 2 ^ 16 + length pocs \<Longrightarrow> hreads (parse_sets k num (map of_nat pocs)) bs True"
proof (induction k arbitrary: pocs bs)
  case 0
  then show ?case by (simp add: hevc_path.takes_return)
next
  case (Suc k)
  then obtain a b n where bs: "bs = a @ b" and a: "reference_set pocs a n" and b: "reference_sets k (pocs @ [n]) b"
    by auto
  have "\<forall>p \<in> set pocs. p < 2 ^ 31" using Suc.prems by fastforce
  then have head: "hreads (parse_rps (length pocs) num (map of_nat pocs)) a (Some (of_nat n))"
    using a Suc.prems by (intro set_reads) simp_all
  have "hreads (parse_sets k num (map of_nat (pocs @ [n]))) b True"
    using b set_count [OF a] Suc.prems by (intro Suc.IH) simp_all
  then have "hreads (case Some (of_nat n) of None \<Rightarrow> State_Monad.return False
      | Some n \<Rightarrow> parse_sets k num (map of_nat pocs @ [n])) b True" by simp
  from hevc_path.takes_bind [OF head, of "\<lambda>r. case r of None \<Rightarrow> State_Monad.return False
      | Some n \<Rightarrow> parse_sets k num (map of_nat pocs @ [n])", OF this]
  show ?case by (simp add: bs)
qed

end
