(* ===== verification/Hevc_Usability.thy ===== *)
theory Hevc_Usability
  imports Hevc_Grammar
begin

text \<open>
  Buffering parameters and usability information, which the sequence parameter set ends with: their syntax,
  and that the parsers read it.
\<close>

section \<open>Buffering parameters\<close>

definition buffer_grammar :: "bool \<Rightarrow> grammar" where
  "buffer_grammar sub_pic =
     sequel ue_code (sequel ue_code (sequel (when_bits sub_pic (sequel ue_code ue_code)) (bits_n 1)))"

lemma pass_buffer: "buffer_grammar sub_pic bs \<Longrightarrow> hpasses (sub_layer_buffer sub_pic) bs"
  unfolding buffer_grammar_def sub_layer_buffer_def
  by (erule pass_sequel, erule pass_ue, erule pass_sequel, erule pass_ue, erule pass_sequel, erule pass_when,
      erule pass_sequel, erule pass_ue, erule pass_ue, erule pass_bits) simp_all

text \<open>The flags of the common part; with NAL or VCL parameters 23 bits follow, with those of sub-pictures 46.\<close>

definition hrd_common_bits :: "bool \<times> bool \<times> bool \<Rightarrow> bool list \<Rightarrow> bool" where
  "hrd_common_bits present bs \<longleftrightarrow>
     (case present of (nal, vcl, sub_pic) \<Rightarrow>
        if nal \<or> vcl
        then (\<exists>a. bs = nal # vcl # sub_pic # a \<and>
          sequel (when_bits sub_pic (bits_n 19)) (sequel (bits_n 8) (sequel (when_bits sub_pic (bits_n 4)) (bits_n 15))) a)
        else bs = [nal, vcl] \<and> \<not> sub_pic)"

lemma hrd_sub_pic_reads:
  assumes a: "sequel (when_bits sub (bits_n 19)) (sequel (bits_n 8) (sequel (when_bits sub (bits_n 4)) (bits_n 15))) a"
  shows "hreads hrd_sub_pic (sub # a) (of_bool sub)"
proof -
  have flag: "when_bits sub (bits_n n) c \<Longrightarrow> 0 < n \<Longrightarrow> n \<le> 32 \<Longrightarrow>
      hpasses (if (of_bool sub :: u32) \<noteq> 0 then hevc_get_bits n else State_Monad.return 0) c" for n c
    by (simp add: when_bits_def pass_bits hevc_path.skips_return split: if_splits)
  show ?thesis
    unfolding hrd_sub_pic_def
    by (rule hevc.flag_bind, rule read_sequel [OF a], erule flag, simp, simp, erule read_sequel, erule pass_bits, simp,
        simp, erule read_sequel, erule flag, simp, simp, erule hevc_path.skips_last [OF pass_bits], simp, simp,
        rule hevc_path.takes_return)
qed

lemma hrd_common_reads:
  assumes "hrd_common_bits present bs"
  shows "hreads hrd_common bs present"
proof -
  obtain nal vcl sub where p: "present = (nal, vcl, sub)" by (cases present)
  have last: "hreads (State_Monad.return ((of_bool nal :: u32) \<noteq> 0, (of_bool vcl :: u32) \<noteq> 0, (of_bool sub :: u32) \<noteq> 0)) []
      (nal, vcl, sub)"
    using hevc_path.takes_return [of "(nal, vcl, sub)"] by simp
  have "\<exists>c. bs = nal # vcl # c \<and> hreads (if (of_bool nal :: u32) \<noteq> 0 \<or> (of_bool vcl :: u32) \<noteq> 0 then hrd_sub_pic
      else State_Monad.return 0) c (of_bool sub)"
  proof (cases "nal \<or> vcl")
    case True
    then obtain c where "bs = nal # vcl # sub # c"
      "sequel (when_bits sub (bits_n 19)) (sequel (bits_n 8) (sequel (when_bits sub (bits_n 4)) (bits_n 15))) c"
      using assms by (auto simp: hrd_common_bits_def p)
    with hrd_sub_pic_reads [OF this(2)] True show ?thesis by auto
  next
    case False
    then show ?thesis using assms hevc_path.takes_return [of "0 :: u32"] by (auto simp: hrd_common_bits_def p)
  qed
  then obtain c where c: "bs = nal # vcl # c" "hreads (if (of_bool nal :: u32) \<noteq> 0 \<or> (of_bool vcl :: u32) \<noteq> 0
      then hrd_sub_pic else State_Monad.return 0) c (of_bool sub)" by blast
  show ?thesis
    unfolding hrd_common_def c(1) p
    by (rule hevc.flag_bind, rule hevc.flag_bind, rule hevc_path.takes_last [OF c(2)], rule last)
qed

text \<open>A sub-layer: the kind of its picture rate, its delay, and as many buffers as it counts.\<close>

definition rate_bits :: "bool list \<Rightarrow> bool \<Rightarrow> bool" where
  "rate_bits bs low_delay \<longleftrightarrow>
     bs = [True, low_delay] \<or> bs = [False, False, low_delay] \<or>
     (\<exists>u. bs = False # True # u \<and> ue_code u \<and> \<not> low_delay)"

definition buffers_grammar :: "bool \<times> bool \<times> bool \<Rightarrow> bool \<Rightarrow> grammar" where
  "buffers_grammar present low_delay bs \<longleftrightarrow>
     (\<exists>cnt < 32. \<exists>c. sequel (when_bits (fst present) (many (cnt + 1) (buffer_grammar (snd (snd present)))))
        (when_bits (fst (snd present)) (many (cnt + 1) (buffer_grammar (snd (snd present))))) c \<and>
        (if low_delay then cnt = 0 \<and> bs = c else bs = ue_bits cnt @ c))"

fun layers_grammar :: "nat \<Rightarrow> bool \<times> bool \<times> bool \<Rightarrow> grammar" where
  "layers_grammar 0 present bs \<longleftrightarrow> bs = []"
| "layers_grammar (Suc k) present bs \<longleftrightarrow>
     (\<exists>low_delay r b c. bs = r @ b @ c \<and> rate_bits r low_delay \<and> buffers_grammar present low_delay b \<and>
        layers_grammar k present c)"

definition hrd_grammar :: "nat \<Rightarrow> grammar" where
  "hrd_grammar layers bs \<longleftrightarrow>
     (\<exists>present a b. bs = a @ b \<and> hrd_common_bits present a \<and> layers_grammar (layers + 1) present b)"

lemma rate_reads: "rate_bits bs low_delay \<Longrightarrow> hreads hrd_rate bs (of_bool low_delay)"
  unfolding rate_bits_def
proof (elim disjE exE conjE)
  assume "bs = [True, low_delay]"
  moreover have "hreads (do { within_cvs \<leftarrow> State_Monad.return (0 :: u32);
      if within_cvs \<noteq> 0 then do { _ \<leftarrow> get_ue_golomb_long; State_Monad.return 0 } else hevc_get_bits 1 })
    [low_delay] (of_bool low_delay)"
    using hevc.takes_flag [of low_delay] by (intro hevc_path.takes_pure [OF hevc_path.takes_return]) simp
  ultimately show ?thesis unfolding hrd_rate_def by (simp add: hevc.flag_bind del: One_nat_def)
next
  assume "bs = [False, False, low_delay]"
  moreover have "hreads (do { within_cvs \<leftarrow> hevc_get_bits 1;
      if within_cvs \<noteq> 0 then do { _ \<leftarrow> get_ue_golomb_long; State_Monad.return 0 } else hevc_get_bits 1 })
    [False, low_delay] (of_bool low_delay)"
    using hevc.takes_flag [of low_delay] by (intro hevc.flag_bind) simp
  ultimately show ?thesis unfolding hrd_rate_def by (simp add: hevc.flag_bind del: One_nat_def)
next
  fix u assume "bs = False # True # u" and u: "ue_code u" and "\<not> low_delay"
  moreover have "hreads (do { within_cvs \<leftarrow> hevc_get_bits 1;
      if within_cvs \<noteq> 0 then do { _ \<leftarrow> get_ue_golomb_long; State_Monad.return 0 } else hevc_get_bits 1 })
    (True # u) (0 :: u32)"
    using hevc_path.skips_last [OF pass_ue [OF u] hevc_path.takes_return] by (intro hevc.flag_bind) simp
  ultimately show ?thesis unfolding hrd_rate_def by (simp add: hevc.flag_bind del: One_nat_def)
qed

lemma buffers_reads:
  assumes "buffers_grammar present low_delay bs"
  shows "hreads (hrd_buffers present (of_bool low_delay)) bs True"
proof -
  obtain cnt c where cnt: "cnt < 32" and c: "sequel (when_bits (fst present) (many (cnt + 1) (buffer_grammar (snd (snd present)))))
      (when_bits (fst (snd present)) (many (cnt + 1) (buffer_grammar (snd (snd present))))) c"
    and bs: "if low_delay then cnt = 0 \<and> bs = c else bs = ue_bits cnt @ c"
    using assms unfolding buffers_grammar_def by blast
  have un: "unat (of_nat cnt :: u32) = cnt" using cnt by (simp add: unat_of_nat)
  have le: "\<not> (of_nat cnt :: u32) > 31" using cnt un by (simp add: word_less_nat_alt)
  have buffers: "when_bits p (many (cnt + 1) (buffer_grammar sub)) d \<Longrightarrow>
      hpasses (if p then skip_sub_layer_hrd_parameters (of_nat cnt) sub else State_Monad.return ()) d" for p sub d
    unfolding skip_sub_layer_hrd_parameters_def un by (erule pass_when, erule pass_times, erule pass_buffer)
  have rest: "hreads (do {
       _ \<leftarrow> (if fst present then skip_sub_layer_hrd_parameters (of_nat cnt) (snd (snd present)) else State_Monad.return ());
       _ \<leftarrow> (if fst (snd present) then skip_sub_layer_hrd_parameters (of_nat cnt) (snd (snd present)) else State_Monad.return ());
       State_Monad.return True }) c True"
    by (rule read_sequel [OF c], erule buffers, erule hevc_path.skips_last [OF buffers], rule hevc_path.takes_return)
  obtain u where u: "bs = u @ c"
    "hreads (if (of_bool low_delay :: u32) = 0 then get_ue_golomb_long else State_Monad.return 0) u (of_nat cnt)"
    using bs cnt ue_reads [of cnt] hevc_path.takes_return [of "0 :: u32"] by (cases low_delay) auto
  show ?thesis
    unfolding hrd_buffers_def u(1)
    by (rule hevc_path.takes_bind [OF u(2)]) (use rest in \<open>simp only: if_not_P [OF le]\<close>)
qed

lemma layers_reads: "layers_grammar k present bs \<Longrightarrow> hreads (hrd_layers k present) bs True"
proof (induction k arbitrary: bs)
  case 0
  then show ?case by (simp add: hevc_path.takes_return)
next
  case (Suc k)
  then obtain low_delay r b c where bs: "bs = r @ b @ c" and r: "rate_bits r low_delay"
    and b: "buffers_grammar present low_delay b" and c: "layers_grammar k present c" by auto
  have "hreads (if True then hrd_layers k present else State_Monad.return False) c True" using Suc.IH [OF c] by simp
  from hevc_path.takes_bind [OF buffers_reads [OF b], of "\<lambda>ok. if ok then hrd_layers k present else State_Monad.return False",
      OF this]
  show ?case unfolding bs hrd_layers.simps by (rule hevc_path.takes_bind [OF rate_reads [OF r]])
qed

lemma hrd_passes: "hrd_grammar layers bs \<Longrightarrow> hpasses (skip_hrd_parameters True layers) bs"
  unfolding hrd_grammar_def
proof (elim exE conjE)
  fix present a b assume bs: "bs = a @ b" and a: "hrd_common_bits present a" and b: "layers_grammar (layers + 1) present b"
  have "hreads (do { present \<leftarrow> hrd_common; hrd_layers (layers + 1) present }) (a @ b) True"
    by (rule hevc_path.takes_bind [OF hrd_common_reads [OF a]], rule layers_reads [OF b])
  then show ?thesis by (auto simp: skip_hrd_parameters_def bs intro: skipsI)
qed

section \<open>Usability information\<close>

definition aspect_grammar :: grammar where
  "aspect_grammar bs \<longleftrightarrow> (\<exists>idc a. bs = byte_bits idc @ a \<and> when_bits (idc = 255) (bits_n 32) a)"

definition ues :: "nat \<Rightarrow> grammar" where
  "ues n = many n ue_code"

definition vui_picture_grammar :: grammar where
  "vui_picture_grammar =
     sequel (if_flag aspect_grammar)
      (sequel (if_flag (bits_n 1))
       (sequel (if_flag (sequel (bits_n 4) (if_flag (bits_n 24))))
        (sequel (if_flag (sequel ue_code ue_code))
         (sequel (bits_n 3) (if_flag (sequel (ues 3) ue_code))))))"

definition vui_timing_grammar :: "nat \<Rightarrow> grammar" where
  "vui_timing_grammar layers =
     if_flag (sequel (bits_n 32) (sequel (bits_n 32) (sequel (if_flag ue_code) (if_flag (hrd_grammar layers)))))"

text \<open>The restriction that is kept: the minimal segmentation, when there is one.\<close>

definition restriction_bits :: "nat option \<Rightarrow> grammar" where
  "restriction_bits seg bs \<longleftrightarrow>
     (case seg of
        None \<Rightarrow> bs = [False]
      | Some n \<Rightarrow> n < 2 ^ 16 \<and> (\<exists>a b. bs = True # a @ ue_bits n @ b \<and> bits_n 3 a \<and> ues 4 b))"

definition vui_grammar :: "nat \<Rightarrow> nat option \<Rightarrow> grammar" where
  "vui_grammar layers seg = sequel vui_picture_grammar (sequel (vui_timing_grammar layers) (restriction_bits seg))"

definition segmented :: "nat option \<Rightarrow> HEVCDecoderConfigurationRecord \<Rightarrow> HEVCDecoderConfigurationRecord" where
  "segmented seg h = (case seg of None \<Rightarrow> h
     | Some n \<Rightarrow> h\<lparr>min_spatial_segmentation_idc := min_u16 (min_spatial_segmentation_idc h) (of_nat n)\<rparr>)"

lemma pass_aspect:
  assumes "aspect_grammar bs"
  shows "hpasses (do { idc \<leftarrow> hevc_get_bits 8; if idc = 255 then get_bits_long 32 else State_Monad.return 0 }) bs"
proof -
  obtain idc a where bs: "bs = byte_bits idc @ a" and a: "when_bits (idc = 255) (bits_n 32) a"
    using assms by (auto simp: aspect_grammar_def)
  have "(ucast idc :: u32) = 255 \<longleftrightarrow> idc = 255" using byte_u32_eq [of idc 255] by simp
  then have "hpasses (if (ucast idc :: u32) = 255 then get_bits_long 32 else State_Monad.return 0) a"
    using a by (simp add: when_bits_def pass_long hevc_path.skips_return split: if_splits)
  then show ?thesis
    unfolding bs using hevc_takes_list [of "byte_bits idc" 8] by (intro hevc_path.skips_bind) simp_all
qed

lemma pass_ues: "ues n bs \<Longrightarrow> hpasses (times n get_ue_golomb_long) bs"
  unfolding ues_def by (erule pass_times) (rule pass_ue)

lemma pass_two_ues: "sequel ue_code ue_code bs \<Longrightarrow> hpasses (do { _ \<leftarrow> get_ue_golomb_long; get_ue_golomb_long }) bs"
  by (erule pass_sequel, erule pass_ue, erule pass_ue)

lemma pass_signal: "sequel (bits_n 4) (if_flag (bits_n 24)) bs \<Longrightarrow>
    hpasses (do { _ \<leftarrow> hevc_get_bits 4; description \<leftarrow> hevc_get_bits 1;
      if description \<noteq> 0 then hevc_get_bits 24 else State_Monad.return 0 }) bs"
  by (erule pass_sequel, erule pass_bits, simp, simp, erule pass_flag, erule pass_bits, simp, simp)

lemma pass_window: "if_flag (sequel (ues 3) ue_code) bs \<Longrightarrow>
    hpasses (do { window \<leftarrow> hevc_get_bits 1;
      if window \<noteq> 0 then do { _ \<leftarrow> times 3 get_ue_golomb_long; get_ue_golomb_long } else State_Monad.return 0 }) bs"
  by (erule pass_flag, erule pass_sequel, erule pass_ues, erule pass_ue)

lemma pass_vui_picture: "vui_picture_grammar bs \<Longrightarrow> hpasses vui_picture bs"
  unfolding vui_picture_grammar_def vui_picture_def
  by (erule pass_flag_sequel, erule pass_aspect, erule pass_flag_sequel, erule pass_bits, simp, simp,
      erule pass_flag_sequel, erule pass_signal, erule pass_flag_sequel, erule pass_two_ues,
      erule pass_sequel, erule pass_bits, simp, simp, erule pass_window)

lemma pass_vui_timing: "vui_timing_grammar layers bs \<Longrightarrow> hpasses (vui_timing layers) bs"
  unfolding vui_timing_grammar_def vui_timing_def
  by (erule pass_flag, erule pass_sequel, erule pass_long, simp, simp, erule pass_sequel, erule pass_long, simp, simp,
      erule pass_flag_sequel, erule pass_ue, erule pass_flag, erule hrd_passes)

lemma restriction_reads:
  assumes "restriction_bits seg bs"
  shows "hreads (do { restriction \<leftarrow> hevc_get_bits 1;
     if restriction \<noteq> 0 then do {
       _ \<leftarrow> hevc_get_bits 3;
       idc \<leftarrow> get_ue_golomb_long;
       _ \<leftarrow> times 4 get_ue_golomb_long;
       State_Monad.return
         (h\<lparr>min_spatial_segmentation_idc := min_u16 (min_spatial_segmentation_idc h) (ucast idc)\<rparr>) }
     else State_Monad.return h }) bs (segmented seg h)"
proof (cases seg)
  case None
  have "hreads (State_Monad.return h) [] h" by (rule hevc_path.takes_return)
  then show ?thesis using assms None
    by (simp add: restriction_bits_def segmented_def hevc.flag_bind del: One_nat_def)
next
  case (Some n)
  then obtain a b where bs: "bs = True # a @ ue_bits n @ b" and a: "bits_n 3 a" and b: "ues 4 b" and n: "n < 2 ^ 16"
    using assms by (auto simp: restriction_bits_def)
  have small: "n < 2 ^ 32 - 1" using n by simp
  have cast: "(ucast (of_nat n :: u32) :: u16) = of_nat n"
    using n by (simp add: word_unat_eq_iff unsigned_ucast_eq unat_of_nat take_bit_nat_eq_self)
  have "hreads (do { _ \<leftarrow> hevc_get_bits 3; idc \<leftarrow> get_ue_golomb_long; _ \<leftarrow> times 4 get_ue_golomb_long;
       State_Monad.return
         (h\<lparr>min_spatial_segmentation_idc := min_u16 (min_spatial_segmentation_idc h) (ucast idc)\<rparr>) })
     (a @ ue_bits n @ b)
     (h\<lparr>min_spatial_segmentation_idc := min_u16 (min_spatial_segmentation_idc h) (ucast (of_nat n :: u32))\<rparr>)"
    by (rule hevc_path.skips_then [OF pass_bits [OF a]], simp, simp, rule hevc_path.takes_bind [OF ue_reads [OF small]],
        rule hevc_path.skips_last [OF pass_ues [OF b]], rule hevc_path.takes_return)
  then show ?thesis using Some
    by (simp add: bs segmented_def cast hevc.flag_bind del: One_nat_def)
qed

lemma vui_reads: "vui_grammar layers seg bs \<Longrightarrow> hreads (hvcc_parse_vui h layers) bs (segmented seg h)"
  unfolding vui_grammar_def hvcc_parse_vui_def
  by (erule read_sequel, erule pass_vui_picture, erule read_sequel, erule pass_vui_timing, erule restriction_reads)

end
