(* ===== verification/Hevc_Parameter_Sets.thy ===== *)
theory Hevc_Parameter_Sets
  imports Hevc_Usability
begin

text \<open>
  Profile, tier and level, and the three parameter sets: their syntax, and the record their parsers leave.
\<close>

section \<open>Profile, tier and level\<close>

definition good_ptl :: "HVCCProfileTierLevel \<Rightarrow> bool" where
  "good_ptl p \<longleftrightarrow> profile_space p < 4 \<and> tier_flag p < 2 \<and> profile_idc p < 32 \<and> constraint_indicator_flags p < 2 ^ 48"

definition ptl_bits :: "HVCCProfileTierLevel \<Rightarrow> bool list" where
  "ptl_bits p =
     field 2 (profile_space p) @ field 1 (tier_flag p) @ field 5 (profile_idc p) @
     field 32 (profile_compatibility_flags p) @ field 48 (constraint_indicator_flags p) @ field 8 (level_idc p)"

definition sub_layer_bits :: "(bool \<times> bool) list \<Rightarrow> bool list" where
  "sub_layer_bits fs = concat (map (\<lambda>f. [fst f, snd f]) fs)"

definition sub_layer_grammar :: "bool \<times> bool \<Rightarrow> grammar" where
  "sub_layer_grammar f =
     sequel (when_bits (fst f) (sequel (bits_n 32) (sequel (bits_n 32) (bits_n 24)))) (when_bits (snd f) (bits_n 8))"

definition ptl_grammar :: "HVCCProfileTierLevel \<Rightarrow> nat \<Rightarrow> grammar" where
  "ptl_grammar p layers bs \<longleftrightarrow>
     (\<exists>fs a. bs = ptl_bits p @ sub_layer_bits fs @ a \<and> length fs = layers \<and>
        sequel (when_bits (layers > 0) (many (8 - layers) (bits_n 2))) (each_of sub_layer_grammar fs) a)"

lemma byte_field: "n \<le> 8 \<Longrightarrow> (b < 2 ^ n \<or> 8 \<le> n) \<Longrightarrow> bits_word (field n b) = (ucast b :: u32)" for b :: byte
proof -
  assume n: "n \<le> 8" and b: "b < 2 ^ n \<or> 8 \<le> n"
  have "bits_word (field n b) = (ucast (bits_word (field n b) :: byte) :: u32)"
    using n by (intro bit_word_eqI) (auto simp: bit_ucast_iff bit_bits_word)
  then show ?thesis using b by simp
qed

lemma byte_reads: "0 < n \<Longrightarrow> n \<le> 8 \<Longrightarrow> (b < 2 ^ n \<or> 8 \<le> n) \<Longrightarrow>
    hreads (hevc_get_bits n) (field n b) (ucast b)" for b :: byte
  using hevc_takes_list [of "field n b" n] byte_field [of n b] by simp

lemma joined_words:
  fixes w :: u64
  assumes "bit w k \<longleftrightarrow> k < 48 \<and> bit w k" and "k < 64"
  shows "bit (or (push_bit 32 (ucast (bits_word (field 16 (drop_bit 32 w)) :: u32)))
    (ucast (bits_word (field 32 w) :: u32)) :: u64) k \<longleftrightarrow> bit w k"
  unfolding bit_or_iff bit_push_bit_iff bit_ucast_iff bit_bits_word field_length
  using assms by (cases "k < 32") (auto simp: field_def rev_nth bit_drop_bit_eq)

lemma constraint_reads:
  fixes w :: u64
  assumes "w < 2 ^ 48"
  shows "hreads (get_bits64 48) (field 48 w) w"
proof -
  define hi :: u32 where "hi = bits_word (field 16 (drop_bit 32 w))"
  define lo :: u32 where "lo = bits_word (field 32 w)"
  have split: "field 48 w = field 16 (drop_bit 32 w) @ field 32 w" using field_add [of 16 32 w] by simp
  have w: "bits_word (field 48 w) = w" using assms by simp
  have "or (push_bit 32 (ucast hi)) (ucast lo) = w"
  proof (rule bit_word_eqI)
    fix k assume k: "k < LENGTH(64)"
    have "bit w k \<longleftrightarrow> k < 48 \<and> bit w k"
      using arg_cong [OF w, of "\<lambda>v. bit v k"] by (auto simp: bit_bits_word)
    moreover have "k < 64" using k by simp
    ultimately show "bit (or (push_bit 32 (ucast hi)) (ucast lo) :: u64) k \<longleftrightarrow> bit w k"
      unfolding hi_def lo_def by (rule joined_words)
  qed
  moreover have "hreads (do { hi \<leftarrow> get_bits_long (48 - 32); lo \<leftarrow> get_bits_long 32;
      State_Monad.return (or (push_bit 32 (ucast hi)) (ucast lo) :: u64) }) (field 16 (drop_bit 32 w) @ field 32 w)
    (or (push_bit 32 (ucast hi)) (ucast lo))"
    unfolding get_bits_long_def hi_def lo_def
    by (simp, rule hevc_path.takes_bind [OF hevc_takes_list], simp_all,
        rule hevc_path.takes_last [OF hevc_takes_list], simp_all, rule hevc_path.takes_return)
  ultimately show ?thesis by (simp add: get_bits64_def split)
qed

lemma general_reads:
  assumes "good_ptl p"
  shows "hreads general_ptl (ptl_bits p) p"
proof -
  have p: "profile_space p < 2 ^ 2" "tier_flag p < 2 ^ 1" "profile_idc p < 2 ^ 5" "constraint_indicator_flags p < 2 ^ 48"
    using assms by (simp_all add: good_ptl_def)
  have compat: "hreads (get_bits_long 32) (field 32 (profile_compatibility_flags p)) (profile_compatibility_flags p)"
    using hevc_takes_list [of "field 32 (profile_compatibility_flags p)" 32] by (simp add: get_bits_long_def)
  have "hreads general_ptl (ptl_bits p)
     \<lparr>profile_space = ucast (ucast (profile_space p) :: u32), tier_flag = ucast (ucast (tier_flag p) :: u32),
       profile_idc = ucast (ucast (profile_idc p) :: u32), profile_compatibility_flags = profile_compatibility_flags p,
       constraint_indicator_flags = constraint_indicator_flags p, level_idc = ucast (ucast (level_idc p) :: u32)\<rparr>"
    unfolding general_ptl_def ptl_bits_def
    by (rule hevc_path.takes_bind [OF byte_reads], (simp, simp, rule disjI1, rule p(1)),
        rule hevc_path.takes_bind [OF byte_reads], (simp, simp, rule disjI1, rule p(2)),
        rule hevc_path.takes_bind [OF byte_reads], (simp, simp, rule disjI1, rule p(3)),
        rule hevc_path.takes_bind [OF compat], rule hevc_path.takes_bind [OF constraint_reads], rule p(4),
        rule hevc_path.takes_last [OF byte_reads], simp, simp, simp, rule hevc_path.takes_return)
  then show ?thesis by (cases p) simp
qed

lemma flags_read: "hreads (sub_layer_flags (length fs)) (sub_layer_bits fs) fs"
proof (induction fs)
  case Nil
  then show ?case by (simp add: sub_layer_bits_def hevc_path.takes_return)
next
  case (Cons f fs)
  obtain p l where f: "f = (p, l)" by (cases f)
  have "hreads (State_Monad.return (((of_bool p :: u32) \<noteq> 0, (of_bool l :: u32) \<noteq> 0) # fs)) [] (f # fs)"
    using hevc_path.takes_return [of "f # fs"] f by simp
  then have "hreads (sub_layer_flags (Suc (length fs))) (p # l # sub_layer_bits fs) (f # fs)"
    unfolding sub_layer_flags.simps by (intro hevc.flag_bind hevc_path.takes_last [OF Cons])
  then show ?case using f by (simp add: sub_layer_bits_def del: sub_layer_flags.simps)
qed

lemma pass_sub_layer: "sub_layer_grammar f bs \<Longrightarrow> hpasses (skip_sub_layer f) bs"
  unfolding sub_layer_grammar_def skip_sub_layer_def
  by (erule pass_sequel, erule pass_when, erule pass_sequel, erule pass_long, simp, simp, erule pass_sequel,
      erule pass_long, simp, simp, erule pass_bits, simp, simp, erule pass_when, erule pass_bits, simp, simp)

lemma ptl_reads:
  assumes "ptl_grammar p layers bs" and "good_ptl p"
  shows "hreads (hvcc_parse_ptl h layers) bs (hvcc_update_ptl h p)"
proof -
  obtain fs a where bs: "bs = ptl_bits p @ sub_layer_bits fs @ a" and fs: "length fs = layers"
    and a: "sequel (when_bits (layers > 0) (many (8 - layers) (bits_n 2))) (each_of sub_layer_grammar fs) a"
    using assms(1) by (auto simp: ptl_grammar_def)
  have flags: "hreads (sub_layer_flags layers) (sub_layer_bits fs) fs" using flags_read [of fs] fs by simp
  show ?thesis
    unfolding hvcc_parse_ptl_def bs
    by (rule hevc_path.takes_bind [OF general_reads [OF assms(2)]], rule hevc_path.takes_bind [OF flags],
        rule read_sequel [OF a], erule pass_when, erule pass_times, erule pass_bits, simp, simp,
        erule hevc_path.skips_last [OF pass_each], erule pass_sub_layer, rule hevc_path.takes_return)
qed

section \<open>The video parameter set\<close>

definition layered :: "nat \<Rightarrow> HEVCDecoderConfigurationRecord \<Rightarrow> HEVCDecoderConfigurationRecord" where
  "layered layers h = h\<lparr>numTemporalLayers := max_u8 (numTemporalLayers h) (of_nat (layers + 1))\<rparr>"

definition vps_grammar :: "HVCCProfileTierLevel \<Rightarrow> nat \<Rightarrow> grammar" where
  "vps_grammar p layers bs \<longleftrightarrow>
     (\<exists>a b c. bs = a @ field 3 (of_nat layers :: u32) @ b @ c \<and> bits_n 12 a \<and> bits_n 17 b \<and> ptl_grammar p layers c)"

lemma layers_field:
  assumes "layers < 8"
  shows "hreads (hevc_get_bits 3) (field 3 (of_nat layers :: u32)) (of_nat layers)"
    and "unat (of_nat layers :: u32) = layers" and "(ucast (of_nat layers + 1 :: u32) :: byte) = of_nat (layers + 1)"
proof -
  show u: "unat (of_nat layers :: u32) = layers" using assms by (simp add: unat_of_nat)
  then have "(of_nat layers :: u32) < 2 ^ 3" using assms by (simp add: word_less_nat_alt)
  then show "hreads (hevc_get_bits 3) (field 3 (of_nat layers :: u32)) (of_nat layers)"
    by (intro hevc.takes_field) simp_all
  have "layers \<in> {0, 1, 2, 3, 4, 5, 6, 7}" using assms by auto
  then show "(ucast (of_nat layers + 1 :: u32) :: byte) = of_nat (layers + 1)" by auto
qed

lemma vps_reads:
  assumes "vps_grammar p layers bs" and "good_ptl p" and "layers < 8"
  shows "hreads (hvcc_parse_vps h) bs (Some (hvcc_update_ptl (layered layers h) p))"
proof -
  obtain a b c where bs: "bs = a @ field 3 (of_nat layers :: u32) @ b @ c" and a: "bits_n 12 a" and b: "bits_n 17 b"
    and c: "ptl_grammar p layers c"
    using assms(1) by (auto simp: vps_grammar_def)
  have "hreads (do { r \<leftarrow> hvcc_parse_ptl (h\<lparr>numTemporalLayers := max_u8 (numTemporalLayers h) (ucast (of_nat layers + 1 :: u32))\<rparr>)
        (unat (of_nat layers :: u32)); State_Monad.return (Some r) }) c (Some (hvcc_update_ptl (layered layers h) p))"
    unfolding layers_field(2,3) [OF assms(3)] layered_def
    by (rule hevc_path.takes_last [OF ptl_reads [OF c assms(2)] hevc_path.takes_return])
  then show ?thesis
    unfolding hvcc_parse_vps_def bs
    by (intro hevc_path.skips_then [OF pass_bits [OF a]] hevc_path.takes_bind [OF layers_field(1) [OF assms(3)]]
        hevc_path.skips_then [OF pass_bits [OF b]]) simp_all
qed

section \<open>The picture parameter set\<close>

definition exactly :: "bool list \<Rightarrow> grammar" where
  "exactly xs bs \<longleftrightarrow> bs = xs"

definition pps_grammar :: "bool \<Rightarrow> bool \<Rightarrow> grammar" where
  "pps_grammar tiles sync =
     sequel ue_code (sequel ue_code (sequel (bits_n 7) (sequel ue_code (sequel ue_code (sequel ue_code
       (sequel (bits_n 2) (sequel (if_flag ue_code) (sequel ue_code (sequel ue_code (sequel (bits_n 4)
         (exactly [tiles, sync])))))))))))"

definition parallelism :: "bool \<Rightarrow> bool \<Rightarrow> byte" where
  "parallelism tiles sync = (if sync \<and> tiles then 0 else if sync then 3 else if tiles then 2 else 1)"

lemma parallelism_reads:
  "hreads (do { tiles \<leftarrow> hevc_get_bits 1; sync \<leftarrow> hevc_get_bits 1;
     State_Monad.return (Some (h\<lparr>parallelismType :=
       (if sync \<noteq> 0 \<and> tiles \<noteq> 0 then 0 else if sync \<noteq> 0 then 3 else if tiles \<noteq> 0 then 2 else 1)\<rparr>)) })
   [tiles, sync] (Some (h\<lparr>parallelismType := parallelism tiles sync\<rparr>))"
  by (intro hevc.flag_bind) (simp add: parallelism_def hevc_path.takes_return)

lemma pps_reads: "pps_grammar tiles sync bs \<Longrightarrow>
    hreads (hvcc_parse_pps h) bs (Some (h\<lparr>parallelismType := parallelism tiles sync\<rparr>))"
  unfolding pps_grammar_def hvcc_parse_pps_def exactly_def
  by (erule read_sequel, erule pass_ue, erule read_sequel, erule pass_ue, erule read_sequel, erule pass_bits, simp, simp,
      erule read_sequel, erule pass_ue, erule read_sequel, erule pass_ue, erule read_sequel, erule pass_se,
      erule read_sequel, erule pass_bits, simp, simp, erule read_flag_sequel, erule pass_ue,
      erule read_sequel, erule pass_se, erule read_sequel, erule pass_se, erule read_sequel, erule pass_bits, simp, simp)
    (simp only: parallelism_reads)

section \<open>The sequence parameter set\<close>

text \<open>What goes into the record, and what the rest of the set needs.\<close>

record hevc_sps =
  sps_ptl :: HVCCProfileTierLevel
  sps_layers :: nat
  sps_nested :: bool
  sps_chroma :: nat
  sps_luma :: nat
  sps_chroma_depth :: nat
  sps_lsb :: nat
  sps_segmentation :: "nat option"

definition good_sps :: "hevc_sps \<Rightarrow> bool" where
  "good_sps q \<longleftrightarrow> good_ptl (sps_ptl q) \<and> sps_layers q < 8 \<and> sps_chroma q < 4 \<and> sps_luma q < 8 \<and>
     sps_chroma_depth q < 8 \<and> sps_lsb q \<le> 12"

definition format_grammar :: "hevc_sps \<Rightarrow> grammar" where
  "format_grammar q bs \<longleftrightarrow>
     (\<exists>vid ptl sid plane w h window.
        bs = vid @ field 3 (of_nat (sps_layers q) :: u32) @ sps_nested q # ptl @ sid @ ue_bits (sps_chroma q) @ plane @
          w @ h @ window @ ue_bits (sps_luma q) @ ue_bits (sps_chroma_depth q) @ ue_bits (sps_lsb q) \<and>
        bits_n 4 vid \<and> ptl_grammar (sps_ptl q) (sps_layers q) ptl \<and> ue_code sid \<and>
        when_bits (sps_chroma q = 3) (bits_n 1) plane \<and> ue_code w \<and> ue_code h \<and> if_flag (ues 4) window)"

definition coding_grammar :: "nat \<Rightarrow> grammar" where
  "coding_grammar layers bs \<longleftrightarrow>
     (\<exists>all_layers order rest. bs = all_layers # order @ rest \<and>
        many (if all_layers then layers + 1 else 1) (ues 3) order \<and>
        sequel (ues 6) (sequel (if_flag (if_flag scaling_lists))
          (sequel (bits_n 1) (sequel (bits_n 1)
            (if_flag (sequel (bits_n 4) (sequel (bits_n 4) (sequel ue_code (sequel ue_code (bits_n 1))))))))) rest)"

definition long_term_grammar :: "nat \<Rightarrow> grammar" where
  "long_term_grammar lsb bs \<longleftrightarrow>
     bs = [False] \<or> (\<exists>n < 32. \<exists>a. bs = True # ue_bits n @ a \<and> many n (sequel (bits_n (lsb + 4)) (bits_n 1)) a)"

definition references_grammar :: "nat \<Rightarrow> grammar" where
  "references_grammar lsb bs \<longleftrightarrow>
     (\<exists>n \<le> 64. \<exists>a b. bs = ue_bits n @ a @ b \<and> reference_sets n [] a \<and> long_term_grammar lsb b)"

definition sps_grammar :: "hevc_sps \<Rightarrow> grammar" where
  "sps_grammar q bs \<longleftrightarrow>
     (\<exists>a b c d vui. bs = a @ b @ c @ d @ vui \<and> format_grammar q a \<and> coding_grammar (sps_layers q) b \<and>
        references_grammar (sps_lsb q) c \<and> bits_n 2 d \<and>
        (vui = [False] \<and> sps_segmentation q = None \<or>
         (\<exists>v. vui = True # v \<and> vui_grammar (sps_layers q) (sps_segmentation q) v)))"

text \<open>The record behind the set.\<close>

definition sps_formatted :: "hevc_sps \<Rightarrow> HEVCDecoderConfigurationRecord \<Rightarrow> HEVCDecoderConfigurationRecord" where
  "sps_formatted q h =
     (hvcc_update_ptl ((layered (sps_layers q) h)\<lparr>temporalIdNested := of_bool (sps_nested q)\<rparr>) (sps_ptl q))
       \<lparr>chromaFormat := of_nat (sps_chroma q), bitDepthLumaMinus8 := of_nat (sps_luma q),
        bitDepthChromaMinus8 := of_nat (sps_chroma_depth q)\<rparr>"

definition sps_noted :: "hevc_sps \<Rightarrow> HEVCDecoderConfigurationRecord \<Rightarrow> HEVCDecoderConfigurationRecord" where
  "sps_noted q h = segmented (sps_segmentation q) (sps_formatted q h)"

lemma read_flag_then:
  "if_flag P a \<Longrightarrow> (\<And>c. P c \<Longrightarrow> hpasses m c) \<Longrightarrow> (\<And>w. hreads (f w) b y) \<Longrightarrow>
    hreads (do { p \<leftarrow> hevc_get_bits 1; w \<leftarrow> (if p \<noteq> 0 then m else State_Monad.return z); f w }) (a @ b) y"
  by (rule read_flag_sequel [where P = P and Q = "\<lambda>c. c = b"]) (auto simp: sequel_def)

lemma small_byte:
  assumes "n < 256"
  shows "(ucast (of_nat n :: u32) :: byte) = of_nat n" and "(of_nat n :: byte) = 3 \<longleftrightarrow> n = 3"
  using assms by (simp_all add: word_unat_eq_iff unsigned_ucast_eq unat_of_nat take_bit_nat_eq_self)

lemma plane_passes:
  assumes "when_bits (n = 3) (bits_n 1) bs" and "n < 256"
  shows "hpasses (if (ucast (of_nat n :: u32) :: byte) = 3 then hevc_get_bits 1 else State_Monad.return 0) bs"
  using assms(1) unfolding small_byte [OF assms(2)] by (rule pass_when) (simp add: pass_bits)

lemma format_reads:
  assumes "format_grammar q bs" and q: "good_sps q"
  shows "hreads (sps_format h) bs (sps_formatted q h, sps_layers q, of_nat (sps_lsb q))"
proof -
  obtain vid ptl sid plane w ht window where
    bs: "bs = vid @ field 3 (of_nat (sps_layers q) :: u32) @ sps_nested q # ptl @ sid @ ue_bits (sps_chroma q) @ plane @
          w @ ht @ window @ ue_bits (sps_luma q) @ ue_bits (sps_chroma_depth q) @ ue_bits (sps_lsb q)"
    and a: "bits_n 4 vid" "ptl_grammar (sps_ptl q) (sps_layers q) ptl" "ue_code sid"
      "when_bits (sps_chroma q = 3) (bits_n 1) plane" "ue_code w" "ue_code ht" "if_flag (ues 4) window"
    using assms(1) by (auto simp: format_grammar_def)
  have small: "sps_layers q < 8" "sps_chroma q < 256" "sps_luma q < 256" "sps_chroma_depth q < 256"
    and ptl: "good_ptl (sps_ptl q)" using q by (simp_all add: good_sps_def)
  have ue: "sps_chroma q < 2 ^ 32 - 1" "sps_luma q < 2 ^ 32 - 1" "sps_chroma_depth q < 2 ^ 32 - 1" "sps_lsb q < 2 ^ 32 - 1"
    using q by (simp_all add: good_sps_def)
  note layers = layers_field [OF small(1)]
  show ?thesis
    unfolding sps_format_def bs
    apply (rule hevc_path.skips_then [OF pass_bits [OF a(1)]], simp, simp)
    apply (rule hevc_path.takes_bind [OF layers(1)], rule hevc.flag_bind)
    unfolding layers(2,3)
    apply (rule hevc_path.takes_bind [OF ptl_reads [OF a(2) ptl]])
    apply (rule hevc_path.skips_then [OF pass_ue [OF a(3)]])
    apply (rule hevc_path.takes_bind [OF ue_reads [OF ue(1)]])
    apply (rule hevc_path.skips_then [OF plane_passes [OF a(4) small(2)]])
    apply (rule hevc_path.skips_then [OF pass_ue [OF a(5)]])
    apply (rule hevc_path.skips_then [OF pass_ue [OF a(6)]])
    apply (rule read_flag_then [OF a(7)], erule pass_ues)
    apply (rule hevc_path.takes_bind [OF ue_reads [OF ue(2)]])
    apply (rule hevc_path.takes_bind [OF ue_reads [OF ue(3)]])
    apply (rule hevc_path.takes_last [OF ue_reads [OF ue(4)]])
    using hevc_path.takes_return [of "(sps_formatted q h, sps_layers q, of_nat (sps_lsb q) :: u32)"]
    apply (simp add: sps_formatted_def layered_def small_byte(1) small)
    done
qed

lemma pass_pcm: "sequel (bits_n 4) (sequel (bits_n 4) (sequel ue_code (sequel ue_code (bits_n 1)))) bs \<Longrightarrow>
    hpasses (do { _ \<leftarrow> hevc_get_bits 4; _ \<leftarrow> hevc_get_bits 4; _ \<leftarrow> get_ue_golomb_long; _ \<leftarrow> get_ue_golomb_long;
      hevc_get_bits 1 }) bs"
  by (erule pass_sequel, erule pass_bits, simp, simp, erule pass_sequel, erule pass_bits, simp, simp,
      erule pass_sequel, erule pass_ue, erule pass_sequel, erule pass_ue, erule pass_bits, simp, simp)

lemma pass_scaling_sequel:
  assumes "sequel (if_flag (if_flag scaling_lists)) Q bs" and "\<And>w b. Q b \<Longrightarrow> hpasses (f w) b"
  shows "hpasses (do {
     scaling \<leftarrow> hevc_get_bits 1;
     lists \<leftarrow> (if scaling \<noteq> 0 then hevc_get_bits 1 else State_Monad.return 0);
     w \<leftarrow> (if lists \<noteq> 0 then skip_scaling_list_data else State_Monad.return ()); f w }) bs"
proof -
  obtain a b where bs: "bs = a @ b" "if_flag (if_flag scaling_lists) a" "Q b" using assms(1) by (auto simp: sequel_def)
  have none: "hpasses (State_Monad.bind (State_Monad.return ()) f) b"
    using hevc_path.skips_skips [OF hevc_path.skips_return assms(2) [OF bs(3)]] by simp
  consider "a = [False]" | "a = [True, False]" | c where "a = True # True # c" "scaling_lists c"
    using bs(2) by (auto simp: if_flag_def)
  then show ?thesis
  proof cases
    case 1
    have "hpasses (do { lists \<leftarrow> State_Monad.return (0 :: u32);
        w \<leftarrow> (if lists \<noteq> 0 then skip_scaling_list_data else State_Monad.return ()); f w }) ([] @ b)"
      by (rule hevc_path.skips_bind [OF hevc_path.takes_return]) (use none in simp)
    then show ?thesis unfolding bs(1) 1 by (simp add: hevc.flag_skips del: One_nat_def)
  next
    case 2
    show ?thesis
      unfolding bs(1) 2 append_Cons append_Nil
      by (rule hevc.flag_skips, simp del: One_nat_def, rule hevc.flag_skips) (use none in simp)
  next
    case 3
    show ?thesis
      unfolding bs(1) 3(1) append_Cons
      by (rule hevc.flag_skips, simp del: One_nat_def, rule hevc.flag_skips)
        (use hevc_path.skips_skips [OF pass_scaling_lists [OF 3(2)] assms(2) [OF bs(3)]] in simp)
  qed
qed

lemma coding_passes:
  assumes "coding_grammar layers bs"
  shows "hpasses (sps_coding layers) bs"
proof -
  obtain al order rest where bs: "bs = al # order @ rest" and order: "many (if al then layers + 1 else 1) (ues 3) order"
    and rest: "sequel (ues 6) (sequel (if_flag (if_flag scaling_lists)) (sequel (bits_n 1) (sequel (bits_n 1)
            (if_flag (sequel (bits_n 4) (sequel (bits_n 4) (sequel ue_code (sequel ue_code (bits_n 1))))))))) rest"
    using assms by (auto simp: coding_grammar_def)
  have order: "hpasses (times (if (of_bool al :: u32) \<noteq> 0 then layers + 1 else 1) (times 3 get_ue_golomb_long)) order"
    using pass_times [OF order pass_ues] by simp
  show ?thesis
    unfolding sps_coding_def bs
    by (rule hevc.flag_skips, rule hevc_path.skips_skips [OF order], rule pass_sequel [OF rest], erule pass_ues,
        erule pass_scaling_sequel, erule pass_sequel, erule pass_bits, simp, simp, erule pass_sequel, erule pass_bits,
        simp, simp, erule pass_flag, erule pass_pcm)
qed

lemma long_term_length: "lsb \<le> 12 \<Longrightarrow> long_term_len (of_nat lsb) = lsb + 4"
proof -
  assume l: "lsb \<le> 12"
  then have "uint (of_nat lsb + 4 :: u32) = int lsb + 4"
    by (simp add: uint_nat unat_word_ariths unat_of_nat)
  then have "min_i32 (as_i32 (uint (of_nat lsb + 4 :: u32))) 16 = int (lsb + 4)"
    using l by (simp add: min_i32_def as_i32_def)
  then show ?thesis
    unfolding long_term_len_def using l by (simp only: of_int_of_nat_eq unat_of_nat) simp
qed

lemma long_term_passes:
  assumes "many n (sequel (bits_n (lsb + 4)) (bits_n 1)) bs" and "lsb \<le> 12"
  shows "hpasses (times n (do { _ \<leftarrow> hevc_get_bits (long_term_len (of_nat lsb)); hevc_get_bits 1 })) bs"
  unfolding long_term_length [OF assms(2)]
  by (rule pass_times [OF assms(1)], erule pass_sequel)
    (use assms(2) in \<open>simp_all add: pass_bits\<close>)

lemma long_term_reads:
  assumes "long_term_grammar lsb bs" and lsb: "lsb \<le> 12"
  shows "hreads (do { long_term \<leftarrow> hevc_get_bits 1;
     if long_term = 0 then State_Monad.return True
     else do {
     count \<leftarrow> get_ue_golomb_long;
     if count > 31 then State_Monad.return False
     else do {
     _ \<leftarrow> times (unat count) (do { _ \<leftarrow> hevc_get_bits (long_term_len (of_nat lsb)); hevc_get_bits 1 });
     State_Monad.return True } } }) bs True"
  using assms(1) unfolding long_term_grammar_def
proof (elim disjE exE conjE)
  assume "bs = [False]"
  then show ?thesis by (simp add: hevc.flag_bind hevc_path.takes_return del: One_nat_def)
next
  fix n a assume bs: "bs = True # ue_bits n @ a" and n: "n < 32"
    and a: "many n (sequel (bits_n (lsb + 4)) (bits_n 1)) a"
  have un: "unat (of_nat n :: u32) = n" using n by (simp add: unat_of_nat)
  have le: "\<not> (of_nat n :: u32) > 31" using n un by (simp add: word_less_nat_alt)
  have n': "n < 2 ^ 32 - 1" using n by simp
  have "hreads (do { count \<leftarrow> get_ue_golomb_long;
     if count > 31 then State_Monad.return False
     else do {
     _ \<leftarrow> times (unat count) (do { _ \<leftarrow> hevc_get_bits (long_term_len (of_nat lsb)); hevc_get_bits 1 });
     State_Monad.return True } }) (ue_bits n @ a) True"
    by (rule hevc_path.takes_bind [OF ue_reads [OF n']])
      (simp only: if_not_P [OF le] un, rule hevc_path.skips_last [OF long_term_passes [OF a lsb]],
       rule hevc_path.takes_return)
  then show ?thesis by (simp add: bs hevc.flag_bind del: One_nat_def)
qed

lemma references_read:
  assumes "references_grammar lsb bs" and lsb: "lsb \<le> 12"
  shows "hreads (sps_references (of_nat lsb)) bs True"
proof -
  obtain n a b where bs: "bs = ue_bits n @ a @ b" and n: "n \<le> 64" and a: "reference_sets n [] a"
    and b: "long_term_grammar lsb b"
    using assms(1) by (auto simp: references_grammar_def)
  have un: "unat (of_nat n :: u32) = n" using n by (simp add: unat_of_nat)
  have le: "\<not> (of_nat n :: u32) > HEVC_MAX_SHORT_TERM_REF_PIC_SETS"
    using n un by (simp add: word_less_nat_alt HEVC_MAX_SHORT_TERM_REF_PIC_SETS_def)
  have n': "n < 2 ^ 32 - 1" using n by simp
  have sets: "hreads (parse_sets n n []) a True" using sets_read [OF a, of n] n by simp
  show ?thesis
    unfolding sps_references_def bs
    by (rule hevc_path.takes_bind [OF ue_reads [OF n']])
      (simp only: if_not_P [OF le] un, rule hevc_path.takes_bind [OF sets],
       simp only: not_True_eq_False if_False, rule long_term_reads [OF b lsb])
qed

lemma vui_part_reads:
  assumes "vui = [False] \<and> seg = None \<or> (\<exists>v. vui = True # v \<and> vui_grammar layers seg v)"
  shows "hreads (do { v \<leftarrow> hevc_get_bits 1;
     h2 \<leftarrow> (if v \<noteq> 0 then hvcc_parse_vui h layers else State_Monad.return h);
     State_Monad.return (Some h2) }) vui (Some (segmented seg h))"
  using assms
proof (elim disjE exE conjE)
  assume "vui = [False]" and "seg = None"
  moreover have "hreads (do { h2 \<leftarrow> State_Monad.return h; State_Monad.return (Some h2) }) [] (Some h)"
    by (rule hevc_path.takes_last [OF hevc_path.takes_return], rule hevc_path.takes_return)
  ultimately show ?thesis by (simp add: segmented_def hevc.flag_bind del: One_nat_def)
next
  fix v assume "vui = True # v" and v: "vui_grammar layers seg v"
  moreover have "hreads (do { h2 \<leftarrow> hvcc_parse_vui h layers; State_Monad.return (Some h2) }) v (Some (segmented seg h))"
    by (rule hevc_path.takes_last [OF vui_reads [OF v] hevc_path.takes_return])
  ultimately show ?thesis by (simp add: hevc.flag_bind del: One_nat_def)
qed

lemma sps_reads:
  assumes "sps_grammar q bs" and q: "good_sps q"
  shows "hreads (hvcc_parse_sps h) bs (Some (sps_noted q h))"
proof -
  obtain a b c d vui where bs: "bs = a @ b @ c @ d @ vui" and a: "format_grammar q a"
    and b: "coding_grammar (sps_layers q) b" and c: "references_grammar (sps_lsb q) c" and d: "bits_n 2 d"
    and vui: "vui = [False] \<and> sps_segmentation q = None \<or>
         (\<exists>v. vui = True # v \<and> vui_grammar (sps_layers q) (sps_segmentation q) v)"
    using assms(1) unfolding sps_grammar_def by blast
  obtain x y where d: "d = [x, y]" using d by (auto simp: bits_n_def length_Suc_conv numeral_2_eq_2)
  have lsb: "sps_lsb q \<le> 12" using q by (simp add: good_sps_def)
  show ?thesis
    unfolding hvcc_parse_sps_def bs d append_Cons append_Nil
    apply (rule hevc_path.takes_bind [OF format_reads [OF a q]])
    apply (simp only: prod.case)
    apply (rule hevc_path.skips_then [OF coding_passes [OF b]], rule hevc_path.takes_bind [OF references_read [OF c lsb]])
    apply (simp only: not_True_eq_False if_False, rule hevc.flag_bind, rule hevc.flag_bind)
    unfolding sps_noted_def
    by (rule vui_part_reads [OF vui])
qed

end
