(* ===== verification/Hevc_Annexb.thy ===== *)
theory Hevc_Annexb
  imports Hevc_Parameter_Sets
begin

text \<open>
  The byte stream of an encoder: units behind start codes. An escaped payload has no start code, the split of
  the stream gives back the units, and the units that are listed with their lengths are taken one by one.
\<close>

section \<open>Start codes\<close>

fun has_code :: "byte list \<Rightarrow> bool" where
  "has_code (a # b # c # bs) \<longleftrightarrow> a = 0 \<and> b = 0 \<and> c = 1 \<or> has_code (b # c # bs)"
| "has_code bs \<longleftrightarrow> False"

definition clean :: "byte list \<Rightarrow> bool" where
  "clean u \<longleftrightarrow> u \<noteq> [] \<and> last u \<noteq> 0 \<and> \<not> has_code u"

definition start_codes :: "byte list set" where
  "start_codes = {[0, 0, 1], [0, 0, 0, 1]}"

text \<open>What is documented of the search of libobs: a start code is found with the zero before it, or the end.\<close>

definition finds_start :: "(byte list \<Rightarrow> nat) \<Rightarrow> bool" where
  "finds_start f \<longleftrightarrow>
     (\<forall>u code rest. code \<in> start_codes \<and> clean u \<longrightarrow>
        f u = length u \<and> f (u @ code @ rest) = length u \<and> f (code @ rest) = 0)"

text \<open>A search that does so.\<close>

fun first_code :: "byte list \<Rightarrow> nat" where
  "first_code [] = 0"
| "first_code (b # bs) =
     (if take 3 (b # bs) = [0, 0, 1] \<or> take 4 (b # bs) = [0, 0, 0, 1] then 0 else Suc (first_code bs))"

lemma clean_Cons: "clean (a # u) \<Longrightarrow> u \<noteq> [] \<Longrightarrow> clean u"
  by (cases "a # u" rule: has_code.cases) (auto simp: clean_def)

lemma clean_no_code: "clean (a # u) \<Longrightarrow> take 3 (a # u @ t) \<noteq> [0, 0, 1] \<and> take 4 (a # u @ t) \<noteq> [0, 0, 0, 1]"
  by (cases "a # u" rule: has_code.cases; cases t)
    (auto simp: clean_def numeral_3_eq_3 numeral_eq_Suc split: if_splits elim: has_code.elims)

lemma first_code_clean: "u = [] \<or> clean u \<Longrightarrow> first_code (u @ t) = length u + first_code t"
proof (induction u)
  case Nil
  then show ?case by simp
next
  case (Cons a u)
  then have "clean (a # u)" by simp
  with Cons.IH clean_no_code [OF this, of t] clean_Cons [OF this] show ?case by auto
qed

lemma first_code_finds: "finds_start first_code"
  unfolding finds_start_def
proof (intro allI impI)
  fix u code rest assume a: "code \<in> start_codes \<and> clean u"
  then have "first_code (code @ rest) = 0" by (auto simp: start_codes_def)
  then show "first_code u = length u \<and> first_code (u @ code @ rest) = length u \<and> first_code (code @ rest) = 0"
    using a first_code_clean [of u "[]"] first_code_clean [of u "code @ rest"] by simp
qed

text \<open>Units behind their start codes.\<close>

definition byte_stream :: "(byte list \<times> byte list) list \<Rightarrow> byte list" where
  "byte_stream us = concat (map (\<lambda>(code, u). code @ u) us)"

definition good_stream :: "(byte list \<times> byte list) list \<Rightarrow> bool" where
  "good_stream us \<longleftrightarrow> (\<forall>(code, u) \<in> set us. code \<in> start_codes \<and> clean u)"

lemma stream_split:
  assumes f: "finds_start f"
  shows "good_stream us \<Longrightarrow> split_nals f (byte_stream us) = map snd us"
proof (induction us)
  case Nil
  then show ?case by (simp add: byte_stream_def split_nals.simps)
next
  case (Cons cu us)
  obtain code u where cu: "cu = (code, u)" by (cases cu)
  with Cons.prems have code: "code \<in> start_codes" and u: "clean u" and us: "good_stream us"
    by (auto simp: good_stream_def)
  have behind: "behind_start (code @ t) = t" for t using code by (auto simp: start_codes_def)
  have len: "f (u @ byte_stream us) = length u"
  proof (cases us)
    case Nil
    then show ?thesis using f code u by (auto simp: finds_start_def byte_stream_def)
  next
    case (Cons cu' us')
    then have "fst cu' \<in> start_codes" and "byte_stream us = fst cu' @ snd cu' @ byte_stream us'"
      using us by (auto simp: good_stream_def byte_stream_def split_beta)
    then show ?thesis using f u by (auto simp: finds_start_def)
  qed
  have "byte_stream (cu # us) = code @ u @ byte_stream us" by (simp add: byte_stream_def cu)
  moreover have "u \<noteq> []" using u by (simp add: clean_def)
  ultimately show ?case
    using Cons.IH [OF us] len by (subst split_nals.simps) (simp add: behind cu Let_def)
qed

section \<open>An escaped payload has no start code\<close>

lemma has_code_Cons: "a \<noteq> 0 \<Longrightarrow> has_code (a # bs) \<longleftrightarrow> has_code bs"
  by (cases bs rule: has_code.cases) auto

lemma has_code_zero: "b \<noteq> 0 \<Longrightarrow> has_code (0 # b # bs) \<longleftrightarrow> has_code bs"
  by (cases bs) (auto simp: has_code_Cons)

lemma escaped_no_code: "z \<le> 2 \<Longrightarrow> \<not> has_code (replicate z 0 @ escaped z bs)"
proof (induction bs arbitrary: z)
  case Nil
  then have "z = 0 \<or> z = 1 \<or> z = 2" by auto
  then show ?case by (auto simp: numeral_2_eq_2)
next
  case (Cons b bs)
  have after: "\<not> has_code (b # escaped (if b = 0 then 1 else 0) bs)"
    using Cons.IH [of 1] Cons.IH [of 0] by (auto simp: has_code_Cons)
  consider "z = 2 \<and> b \<le> 3" | "\<not> (z = 2 \<and> b \<le> 3) \<and> b = 0" | "\<not> (z = 2 \<and> b \<le> 3) \<and> b \<noteq> 0" by blast
  then show ?case
  proof cases
    case 1
    have three: "\<not> has_code ([0, 0, 3] @ bs')" if "\<not> has_code bs'" for bs'
      using that has_code_zero [of 3 bs'] has_code_Cons [of 3 bs'] by simp
    have "replicate z 0 @ escaped z (b # bs) = [0, 0, 3] @ b # escaped (if b = 0 then 1 else 0) bs"
      using 1 by (auto simp: numeral_2_eq_2)
    then show ?thesis using three [OF after] by simp
  next
    case 2
    then have z: "z \<noteq> 2" "Suc z \<le> 2" using Cons.prems by auto
    from Cons.IH [OF z(2)] show ?thesis using 2 z by (simp add: replicate_append_same [symmetric])
  next
    case 3
    then have "z = 0 \<or> z = 1 \<or> z = 2 \<and> b \<noteq> 1" using Cons.prems by auto
    then show ?thesis
      using 3 Cons.prems Cons.IH [of 0] by (auto simp: numeral_2_eq_2 has_code_Cons has_code_zero)
  qed
qed

lemma escaped_last: "bs \<noteq> [] \<Longrightarrow> last bs \<noteq> 0 \<Longrightarrow> escaped z bs \<noteq> [] \<and> last (escaped z bs) \<noteq> 0"
  by (induction bs arbitrary: z) (auto split: if_splits)

lemma escaped_clean:
  assumes "b1 \<noteq> 0" and "payload \<noteq> []" and "last payload \<noteq> 0"
  shows "clean (b0 # b1 # escaped 0 payload)"
proof -
  have "\<not> has_code (b1 # escaped 0 payload)" using escaped_no_code [of 0 payload] assms(1) by (simp add: has_code_Cons)
  moreover have "has_code (b0 # b1 # escaped 0 payload) \<longleftrightarrow> has_code (b1 # escaped 0 payload)"
    using assms(1) by (cases "escaped 0 payload") auto
  ultimately show ?thesis using escaped_last [OF assms(2,3), of 0] by (simp add: clean_def)
qed

section \<open>Units with their lengths\<close>

lemma rb32_be32: "rb32 (be32 w @ rest) = w"
  by (rule bit_word_eqI)
    (auto simp: rb32_or be32_def byte_at_def bit_or_iff bit_byte_shift bit_byte_low numeral_2_eq_2 numeral_3_eq_3)

definition nal_type :: "byte list \<Rightarrow> byte" where
  "nal_type u = and (drop_bit 1 (hd u)) 0x3f"

lemma add_nals_end: "add_nals ser [] h = Inr (Some h)"
  by (simp add: add_nals.simps)

lemma add_nals_next:
  assumes "u \<noteq> []" and "length u + length rest < 2 ^ 32"
  shows "add_nals ser (be32 (of_nat (length u)) @ u @ rest) h =
    (case array_index (nal_type u) of
       None \<Rightarrow> add_nals ser rest h
     | Some i \<Rightarrow>
         (case hvcc_add_nal_unit ser u 1 h i of
            Inl e \<Rightarrow> Inl e
          | Inr None \<Rightarrow> Inr None
          | Inr (Some h1) \<Rightarrow> add_nals ser rest h1))"
proof -
  let ?buf = "be32 (of_nat (length u)) @ u @ rest"
  have len: "length ?buf = 4 + length u + length rest" by (simp add: be32_def)
  have "length u < 2 ^ 32" using assms(2) by simp
  then have un: "unat (of_nat (length u) :: u32) = length u" "unat (of_nat (length u + length rest) :: u32) = length u + length rest"
    using assms(2) by (simp_all only: unat_of_nat) simp_all
  have "unat (min_u32 (rb32 ?buf) (of_nat (length ?buf - 4))) = length u"
    unfolding rb32_be32 min_u32_def word_less_nat_alt len add.assoc diff_add_inverse un by (simp add: un(1))
  moreover have "drop 4 ?buf = u @ rest" "drop (4 + length u) ?buf = rest" by (simp_all add: be32_def eval_nat_numeral)
  moreover have "?buf ! 4 = hd u" using assms(1) by (cases u) (simp_all add: be32_def)
  moreover have "\<not> length ?buf \<le> 4" using assms(1) len by (cases u) simp_all
  ultimately show ?thesis
    by (subst add_nals.simps) (simp only: if_False Let_def nal_type_def take_append diff_self_eq_0 take_0 append_Nil2 take_all order_refl)
qed

end
