(* ===== verification/Hevc_Units.thy ===== *)
theory Hevc_Units
  imports Hevc_Annexb
begin

text \<open>
  Units with a parameter set or an SEI message in them: what the pass over the list of units makes of the
  record, and the bits of the fields of the record that are written.
\<close>

section \<open>Units and what is in them\<close>

datatype hevc_content = Vps HVCCProfileTierLevel nat | Sps hevc_sps | Pps bool bool | Sei

fun content_grammar :: "hevc_content \<Rightarrow> grammar" where
  "content_grammar (Vps p layers) bs \<longleftrightarrow> vps_grammar p layers bs \<and> good_ptl p \<and> layers < 8"
| "content_grammar (Sps q) bs \<longleftrightarrow> sps_grammar q bs \<and> good_sps q"
| "content_grammar (Pps tiles sync) bs \<longleftrightarrow> pps_grammar tiles sync bs"
| "content_grammar Sei bs \<longleftrightarrow> bs = []"

fun content_type :: "hevc_content \<Rightarrow> byte" where
  "content_type (Vps p layers) = 32"
| "content_type (Sps q) = 33"
| "content_type (Pps tiles sync) = 34"
| "content_type Sei = 39"

text \<open>Two bytes of header, the payload that begins with the content, and the escapes.\<close>

definition unit_of :: "hevc_content \<Rightarrow> byte list \<Rightarrow> bool" where
  "unit_of c u \<longleftrightarrow>
     (\<exists>b0 b1 payload bs tail. u = b0 # b1 # escaped 0 payload \<and> and (drop_bit 1 b0) 0x3f = content_type c \<and>
        b1 \<noteq> 0 \<and> payload \<noteq> [] \<and> last payload \<noteq> 0 \<and> bits_of payload = bs @ tail \<and> content_grammar c bs \<and>
        length u < 2 ^ 16)"

fun content_noted :: "hevc_content \<Rightarrow> HEVCDecoderConfigurationRecord \<Rightarrow> HEVCDecoderConfigurationRecord" where
  "content_noted (Vps p layers) h = hvcc_update_ptl (layered layers h) p"
| "content_noted (Sps q) h = sps_noted q h"
| "content_noted (Pps tiles sync) h = h\<lparr>parallelismType := parallelism tiles sync\<rparr>"
| "content_noted Sei h = h"

definition content_index :: "hevc_content \<Rightarrow> nat" where
  "content_index c = (case c of Vps p layers \<Rightarrow> 0 | Sps q \<Rightarrow> 1 | Pps tiles sync \<Rightarrow> 2 | Sei \<Rightarrow> 3)"

lemma content_index: "array_index (content_type c) = Some (content_index c)"
  by (cases c) (simp_all add: array_index_def array_idx_to_type_def hevc_types content_index_def)

lemma unit_clean: "unit_of c u \<Longrightarrow> clean u"
  by (auto simp: unit_of_def escaped_clean)

lemma unit_type: "unit_of c u \<Longrightarrow> nal_type u = content_type c"
  by (auto simp: unit_of_def nal_type_def)

lemma type_reads: "hreads nal_unit_parse_header (byte_bits b0 @ byte_bits b1) (and (drop_bit 1 b0) 0x3f)"
proof -
  let ?t = "and (drop_bit 1 b0) 0x3f"
  have "field 6 (drop_bit 1 b0) = field 6 ?t"
    by (rule nth_equalityI) (auto simp: field_def rev_nth bit_simps less_Suc_eq numeral_eq_Suc)
  then have b0: "byte_bits b0 = bit b0 7 # field 6 ?t @ [bit b0 0]"
    unfolding field_byte [symmetric] using field_add [of 1 7 b0] field_add [of 6 1 b0]
    by (simp add: field_def bit_drop_bit_eq)
  have t: "?t < 2 ^ 6" using and_mask_less' [of 6 "drop_bit 1 b0"] by (simp add: mask_eq_exp_minus_1)
  have "hreads nal_unit_parse_header ([bit b0 7] @ field 6 ?t @ (bit b0 0 # byte_bits b1)) (ucast (ucast ?t :: u32))"
    unfolding nal_unit_parse_header_def
    by (rule hevc_path.skips_then [OF pass_bits [of 1]], simp add: bits_n_def, simp, simp,
        rule hevc_path.takes_bind [OF byte_reads], simp, simp, rule disjI1, rule t,
        rule hevc_path.skips_last [OF pass_bits [of 9]], simp add: bits_n_def, simp, simp, rule hevc_path.takes_return)
  then show ?thesis by (simp add: b0)
qed

lemma content_reads:
  assumes "content_grammar c bs"
  shows "hreads (if content_type c = OBS_HEVC_NAL_VPS then hvcc_parse_vps h
     else if content_type c = OBS_HEVC_NAL_SPS then hvcc_parse_sps h
     else if content_type c = OBS_HEVC_NAL_PPS then hvcc_parse_pps h
     else State_Monad.return (Some h)) bs (Some (content_noted c h))"
  using assms by (cases c) (simp_all add: hevc_types vps_reads sps_reads pps_reads hevc_path.takes_return)

lemma unit_added:
  assumes "unit_of c u"
  shows "hvcc_add_nal_unit ser u 1 h i = Inr (Some (content_noted c (noted_nal ser u (content_type c) 1 h i)))"
proof -
  obtain b0 b1 payload bs tail where u: "u = b0 # b1 # escaped 0 payload" and ty: "and (drop_bit 1 b0) 0x3f = content_type c"
    and bits: "bits_of payload = bs @ tail" and c: "content_grammar c bs" and len: "length u < 2 ^ 16"
    using assms by (auto simp: unit_of_def)
  have unescaped: "unescaped (escaped 0 payload) = payload" using unescaped_escaped [of 0 payload] by simp
  have "length payload \<le> length (escaped z payload)" for z by (induction payload arbitrary: z) (auto simp: le_SucI)
  then have len: "length (b0 # b1 # payload) < 2 ^ 27" using len [unfolded u] by (simp add: le_less_trans [of _ "length (escaped 0 payload)"])
  have buf: "ff_nal_unit_extract_rbsp u 2 = ((b0 # b1 # payload) @ replicate 64 0, length (b0 # b1 # payload))"
    by (simp add: ff_nal_unit_extract_rbsp_def u unescaped numeral_2_eq_2)
  have reads: "hreads (read_nal ser u 1 h i) ((byte_bits b0 @ byte_bits b1) @ bs)
      (Some (content_noted c (noted_nal ser u (content_type c) 1 h i)))"
    unfolding read_nal_def
    by (rule hevc_path.takes_bind [OF type_reads [unfolded ty]]) (simp only: Let_def ty, rule content_reads [OF c])
  have "bits_of (b0 # b1 # payload) = ((byte_bits b0 @ byte_bits b1) @ bs) @ tail" by (simp add: bits)
  from hevc_with_bits_run [OF reads this len] show ?thesis by (simp only: hvcc_add_nal_unit_def buf prod.case)
qed

text \<open>All units, one after the other.\<close>

definition unit_noted :: "serializer \<Rightarrow> hevc_content \<times> byte list \<Rightarrow> HEVCDecoderConfigurationRecord \<Rightarrow>
    HEVCDecoderConfigurationRecord" where
  "unit_noted ser cu h =
     content_noted (fst cu) (noted_nal ser (snd cu) (content_type (fst cu)) 1 h (content_index (fst cu)))"

lemma units_added:
  assumes ser: "be_serializer ser"
  shows "\<forall>cu \<in> set us. unit_of (fst cu) (snd cu) \<Longrightarrow> length (nal_list ser (map snd us)) < 2 ^ 32 \<Longrightarrow>
    add_nals ser (nal_list ser (map snd us)) h = Inr (Some (fold (unit_noted ser) us h))"
proof (induction us arbitrary: h)
  case Nil
  then show ?case by (simp add: nal_list_def add_nals_end)
next
  case (Cons cu us)
  have u: "unit_of (fst cu) (snd cu)" using Cons.prems by simp
  have s: "nal_list ser (map snd (cu # us)) = be32 (of_nat (length (snd cu))) @ snd cu @ nal_list ser (map snd us)"
    using ser by (simp add: nal_list_def be_serializer_def)
  then have len: "length (snd cu) + length (nal_list ser (map snd us)) < 2 ^ 32" using Cons.prems(2) by (simp add: be32_def)
  have "snd cu \<noteq> []" using unit_clean [OF u] by (simp add: clean_def)
  from add_nals_next [OF this len]
  show ?case
    unfolding s using Cons len unit_type [OF u] by (simp add: content_index unit_added [OF u] unit_noted_def)
qed

section \<open>The bits of the record\<close>

lemma field_or:
  assumes "b < 2 ^ n" and "m + n \<le> LENGTH('a)" and "0 < m"
  shows "field (m + n) (or (push_bit n a) b) = field m a @ field n (b :: 'a::len word)"
proof -
  have high: "\<not> bit b k" if "n \<le> k" for k using assms that by (intro bit_less [of b n]) auto
  show ?thesis
    using assms high by (intro nth_equalityI) (auto simp: field_def nth_append rev_nth bit_simps add.commute [of m])
qed

lemma field_cast [record_bits_simps]: "n \<le> LENGTH('b) \<Longrightarrow> field n (ucast (w :: 'a::len word) :: 'b::len word) = field n w"
  by (rule nth_equalityI) (auto simp: field_def rev_nth bit_simps dest: bit_imp_le_length)

lemma bits_of_be16 [record_bits_simps]: "bits_of (be16 w) = field 16 w"
  using field_add [of 8 8 w] by (simp add: be16_def field_byte [symmetric] field_cast del: field_byte)

lemma bits_of_be32 [record_bits_simps]: "bits_of (be32 w) = field 32 w"
  using field_add [of 24 8 w] field_add [of 16 8 "drop_bit 8 w"] field_add [of 8 8 "drop_bit 16 w"]
  by (simp add: be32_def field_byte [symmetric] field_cast drop_bit_drop_bit del: field_byte)

lemma bits_of_48: "bits_of (be32 (ucast (drop_bit 16 w))) @ bits_of (be16 (ucast w)) = field 48 (w :: u64)"
  using field_add [of 32 16 w] by (simp add: record_bits_simps)

lemma marked:
  fixes b :: byte
  shows "b < 4 \<Longrightarrow> byte_bits (or b 0xfc) = replicate 6 True @ field 2 b"
    and "b < 8 \<Longrightarrow> byte_bits (or b 0xf8) = replicate 5 True @ field 3 b"
proof -
  have "field 6 (0x3f :: byte) = replicate 6 True" "field 5 (0x1f :: byte) = replicate 5 True" by code_simp+
  then show "b < 4 \<Longrightarrow> byte_bits (or b 0xfc) = replicate 6 True @ field 2 b"
    and "b < 8 \<Longrightarrow> byte_bits (or b 0xf8) = replicate 5 True @ field 3 b"
    using field_or [of b 2 6 "0x3f"] field_or [of b 3 5 "0x1f"]
    by (simp_all add: field_byte [symmetric] or.commute del: field_byte)
qed

lemma marked16: "w < 4096 \<Longrightarrow> field 16 (or w 0xf000) = replicate 4 True @ field 12 w" for w :: u16
proof -
  have "field 4 (0xf :: u16) = replicate 4 True" by code_simp
  then show "w < 4096 \<Longrightarrow> field 16 (or w 0xf000) = replicate 4 True @ field 12 w"
    using field_or [of w 12 4 "0xf"] by (simp add: or.commute)
qed

lemma regroup:
  fixes a b c :: "'a::len word"
  shows "or (push_bit (m + n) a) (or (push_bit n b) c) = or (push_bit n (or (push_bit m a) b)) c"
  by (simp add: push_bit_or push_bit_push_bit or.assoc add.commute)

lemma profile_byte:
  fixes a t i :: byte
  assumes "t < 2" and "i < 32"
  shows "byte_bits (or (push_bit 6 a) (or (push_bit 5 t) i)) = field 2 a @ field 1 t @ field 5 i"
proof -
  have "or (push_bit 6 a) (or (push_bit 5 t) i) = or (push_bit 5 (or (push_bit 1 a) t)) i"
    using regroup [of 1 5 a t i] by simp
  then show ?thesis
    using field_or [of i 5 3 "or (push_bit 1 a) t"] field_or [of t 1 2 a] assms
    by (simp add: field_byte [symmetric] del: field_byte)
qed

lemma layers_byte:
  assumes "l < 8"
  shows "byte_bits (or (push_bit 3 l) (or (push_bit 2 (of_bool nested)) 3)) =
    replicate 2 False @ field 3 l @ [nested, True, True]"
proof -
  have "or (push_bit 3 l) (or (push_bit 2 (of_bool nested)) 3) = or (push_bit 2 (or (push_bit 1 l) (of_bool nested))) 3"
  proof -
    have three: "(3 :: nat) = 1 + 2" by simp
    show ?thesis unfolding three by (rule regroup)
  qed
  moreover have "field 2 (3 :: byte) = [True, True]" by code_simp
  moreover have "field 1 (of_bool nested :: byte) = [nested]" by (simp add: field_def)
  moreover have "(of_bool nested :: byte) < 2" by simp
  moreover have "field 5 l = replicate 2 False @ field 3 l"
    using bit_less [of l 3] assms by (simp add: field_def eval_nat_numeral)
  ultimately show ?thesis
    using field_or [of 3 2 6 "or (push_bit 1 l) (of_bool nested)"] field_or [of "of_bool nested" 1 5 l]
    by (simp add: field_byte [symmetric] del: field_byte)
qed

end
