(* ===== verification/Hevc_Header_Properties.thy ===== *)
theory Hevc_Header_Properties
  imports Hevc_Units
begin

text \<open>
  The decoder configuration record \<open>obs_parse_hevc_header\<close> makes of an encoder's extra data: a video, a
  sequence and a picture parameter set behind start codes, and behind them any number of SEI messages.
\<close>

section \<open>SEI messages\<close>

text \<open>The array of some units that are all of one type.\<close>

definition array_of :: "byte \<Rightarrow> byte \<Rightarrow> byte list list \<Rightarrow> HVCCNALUnitArray" where
  "array_of flag ty us = \<lparr>array_completeness = flag, NAL_unit_type = ty, numNalus = of_nat (length us),
     nalUnitData = concat (map (\<lambda>u. be16 (of_nat (length u)) @ u) us)\<rparr>"

definition with_seis :: "byte list list \<Rightarrow> HEVCDecoderConfigurationRecord \<Rightarrow> HEVCDecoderConfigurationRecord" where
  "with_seis seis h =
     (if seis = [] then h
      else h\<lparr>arrays := (arrays h)[3 := array_of 0 39 seis], numOfArrays := numOfArrays h + 1\<rparr>)"

lemma array_of_snoc:
  assumes "be_serializer ser"
  shows "hvcc_array_add_nal_unit ser u 39 1 (array_of 0 (if us = [] then 0 else 39) us) = array_of 0 39 (us @ [u])"
  using assms by (simp add: hvcc_array_add_nal_unit_def array_of_def be_serializer_def hevc_types)

lemma sei_noted:
  assumes "length (arrays h) = 5" and "arrays h ! 3 = array_of 0 0 []" and "be_serializer ser"
  shows "length seis < 2 ^ 16 \<Longrightarrow> fold (unit_noted ser) (map (Pair Sei) seis) h = with_seis seis h"
proof (induction seis rule: rev_induct)
  case Nil
  then show ?case by (simp add: with_seis_def)
next
  case (snoc u seis)
  let ?h = "with_seis seis h"
  have at: "arrays ?h ! 3 = array_of 0 (if seis = [] then 0 else 39) seis" using assms by (simp add: with_seis_def)
  have un: "unat (of_nat (length seis) :: u16) = length seis" using snoc.prems by (simp add: unat_of_nat)
  have "seis = []" if "(of_nat (length seis) :: u16) = 0" using un unfolding that by simp
  then have num: "numNalus (array_of 0 39 (seis @ [u])) = 1 \<longleftrightarrow> seis = []" by (auto simp: array_of_def)
  have step: "unit_noted ser (Sei, u) ?h = with_seis (seis @ [u]) h"
    unfolding unit_noted_def noted_nal_def fst_conv snd_conv content_type.simps content_index_def hevc_content.case at
      array_of_snoc [OF assms(3)] Let_def content_noted.simps num
    by (simp add: with_seis_def)
  have "length seis < 2 ^ 16" using snoc.prems by simp
  from snoc.IH [OF this] step show ?case by simp
qed

text \<open>An array of the record: complete or not, the type, and the units with their lengths.\<close>

definition array_bits :: "bool \<Rightarrow> byte \<Rightarrow> byte list list \<Rightarrow> bool list" where
  "array_bits whole ty us =
     (if us = [] then []
      else [whole, False] @ field 6 ty @ field 16 (of_nat (length us) :: u16) @
        concat (map (\<lambda>u. field 16 (of_nat (length u) :: u16) @ bits_of u) us))"

lemma bits_of_units: "bits_of (concat (map (\<lambda>u. be16 (of_nat (length u)) @ u) us)) =
    concat (map (\<lambda>u. field 16 (of_nat (length u) :: u16) @ bits_of u) us)"
  by (induction us) (simp_all add: bits_of_be16)

lemma array_written:
  assumes "be_serializer ser" and "ty < 64" and "length us < 2 ^ 16" and "us \<noteq> []"
  shows "bits_of (write_array ser (array_of (of_bool whole) ty us)) = array_bits whole ty us"
proof -
  have "unat (of_nat (length us) :: u16) = length us" using assms(3) by (simp add: unat_of_nat)
  then have "(of_nat (length us) :: u16) \<noteq> 0" using assms(4) by (metis length_0_conv unsigned_0)
  moreover have "and ty 0x3f = ty" using assms(2) less_mask_eq [of ty 6] by (simp add: mask_eq_exp_minus_1)
  moreover have "field 7 ty = False # field 6 ty" using bit_less [of ty 6 6] assms(2) by (simp add: field_def eval_nat_numeral)
  moreover have "field 1 (of_bool whole :: byte) = [whole]" by (simp add: field_def)
  moreover have "ty < 2 ^ 7" using assms(2) by (rule order.strict_trans) simp
  moreover have "byte_bits b = field (1 + 7) b" for b by simp
  ultimately show ?thesis
    using field_or [of ty 7 1 "of_bool whole"] assms(1,4)
    by (simp only: write_array_def array_of_def HVCCNALUnitArray.simps if_False array_bits_def be_serializer_def
        bits_of_be16 bits_of_units bits_of_simps append_Cons append_Nil append_assoc append_Nil2 list.map concat.simps) simp
qed

lemma no_array_written: "write_array ser (array_of flag ty []) = []"
  by (simp add: write_array_def array_of_def)

section \<open>The record\<close>

definition segmentation :: "hevc_sps \<Rightarrow> nat" where
  "segmentation q = (case sps_segmentation q of None \<Rightarrow> 0 | Some n \<Rightarrow> n)"

definition record_of :: "hevc_sps \<Rightarrow> u16 \<Rightarrow> byte \<Rightarrow> byte list list \<Rightarrow> HEVCDecoderConfigurationRecord" where
  "record_of q seg par sets =
     (let p = sps_ptl q
      in \<lparr>general_profile_space = profile_space p, general_tier_flag = tier_flag p, general_profile_idc = profile_idc p,
          general_profile_compatibility_flags = profile_compatibility_flags p,
          general_constraint_indicator_flags = constraint_indicator_flags p, general_level_idc = level_idc p,
          min_spatial_segmentation_idc = seg, parallelismType = par, chromaFormat = of_nat (sps_chroma q),
          bitDepthLumaMinus8 = of_nat (sps_luma q), bitDepthChromaMinus8 = of_nat (sps_chroma_depth q),
          numTemporalLayers = of_nat (sps_layers q + 1), temporalIdNested = of_bool (sps_nested q), numOfArrays = 3,
          arrays = [array_of 1 32 [sets ! 0], array_of 1 33 [sets ! 1], array_of 1 34 [sets ! 2], array_of 0 0 [],
            array_of 0 0 []]\<rparr>)"

definition complete_sps :: "hevc_sps \<Rightarrow> bool" where
  "complete_sps q \<longleftrightarrow> good_sps q \<and> sps_layers q < 7 \<and> segmentation q < 4096"

lemma max_u8_simps: "max_u8 0 b = b" "max_u8 b b = b"
  by (auto simp: max_u8_def)

lemma and_ones: "and 0xFFFFFFFF w = w" for w :: u32
  by (rule bit_word_eqI) (auto simp: bit_simps numeral_eq_Suc less_Suc_eq)

lemma three_noted:
  assumes ser: "be_serializer ser" and q: "complete_sps q"
  shows "fold (unit_noted ser) [(Vps (sps_ptl q) (sps_layers q), v), (Sps q, s), (Pps tiles sync, pp)] hvcc_init =
    record_of q (if sps_segmentation q = None then 4097 else of_nat (segmentation q)) (parallelism tiles sync) [v, s, pp]"
proof -
  have "constraint_indicator_flags (sps_ptl q) < 2 ^ 48" using q by (simp add: complete_sps_def good_sps_def good_ptl_def)
  then have cons: "and 0xFFFFFFFFFFFF (constraint_indicator_flags (sps_ptl q)) = constraint_indicator_flags (sps_ptl q)"
    using less_mask_eq [of "constraint_indicator_flags (sps_ptl q)" 48] by (simp add: mask_eq_exp_minus_1 and.commute)
  have seg: "min_u16 4097 (of_nat n) = of_nat n" if "n < 4096" for n
  proof -
    have "unat (of_nat n :: u16) = n" using that by (simp add: unat_of_nat)
    then show ?thesis using that by (simp add: min_u16_def word_less_nat_alt)
  qed
  have cons2: "and (constraint_indicator_flags (sps_ptl q)) (constraint_indicator_flags (sps_ptl q)) = constraint_indicator_flags (sps_ptl q)"
    by simp
  have empty: "\<lparr>array_completeness = 0, NAL_unit_type = 0, numNalus = 0, nalUnitData = []\<rparr> = array_of 0 0 []"
    by (simp add: array_of_def)
  have add: "hvcc_array_add_nal_unit ser u ty 1 (array_of 0 0 []) = array_of 1 ty [u]"
    if "ty \<in> {32, 33, 34}" for u ty
    using ser that by (simp add: hvcc_array_add_nal_unit_def array_of_def be_serializer_def hevc_types)
  have one: "numNalus (array_of a b [u]) = 1" for a b u by (simp add: array_of_def)
  have arrays: "arrays hvcc_init = [array_of 0 0 [], array_of 0 0 [], array_of 0 0 [], array_of 0 0 [], array_of 0 0 []]"
    by (simp add: hvcc_init_def empty eval_nat_numeral)
  have five: "replicate 5 x = [x, x, x, x, x]" for x :: HVCCNALUnitArray by (simp add: eval_nat_numeral)
  show ?thesis
    using q ser
    by (cases "sps_segmentation q")
      (simp_all add: unit_noted_def noted_nal_def content_index_def add one Let_def arrays numeral_2_eq_2
        hvcc_update_ptl_def layered_def sps_noted_def sps_formatted_def segmented_def record_of_def hvcc_init_def
        array_of_def max_u8_simps and_ones cons seg complete_sps_def segmentation_def hvcc_array_add_nal_unit_def
        be_serializer_def hevc_types five)
qed

lemma record_settled:
  assumes "complete_sps q"
  shows "hvcc_settled (with_seis seis (record_of q (if sps_segmentation q = None then 4097 else of_nat (segmentation q)) par sets)) =
    with_seis seis (record_of q (of_nat (segmentation q)) (if segmentation q = 0 then 0 else par) sets)"
proof -
  let ?seg = "of_nat (segmentation q) :: u16"
  have un: "unat ?seg = segmentation q" using assms by (simp add: complete_sps_def unat_of_nat)
  then have "\<not> ?seg > 4096" using assms by (simp add: complete_sps_def word_less_nat_alt)
  moreover have "segmentation q = 0" if "?seg = 0" using un unfolding that by simp
  then have "?seg = 0 \<longleftrightarrow> segmentation q = 0" by auto
  moreover have "sps_segmentation q = None \<Longrightarrow> segmentation q = 0" by (simp add: segmentation_def)
  ultimately show ?thesis
    by (simp add: hvcc_settled_def with_seis_def record_of_def Let_def)
qed

lemma record_counts: "counts_ok (with_seis seis (record_of q seg par sets))"
  by (simp add: counts_ok_def with_seis_def record_of_def array_of_def OBS_HEVC_MAX_VPS_COUNT_def
      OBS_HEVC_MAX_SPS_COUNT_def OBS_HEVC_MAX_PPS_COUNT_def Let_def)

text \<open>The record of the standard, field by field.\<close>

definition record_bits :: "hevc_sps \<Rightarrow> bool \<Rightarrow> bool \<Rightarrow> byte list \<Rightarrow> byte list \<Rightarrow> byte list \<Rightarrow> byte list list \<Rightarrow> bool list" where
  "record_bits q tiles sync v s pp seis =
     field 8 (1 :: byte) @
     ptl_bits (sps_ptl q) @
     replicate 4 True @ field 12 (of_nat (segmentation q) :: u16) @
     replicate 6 True @ field 2 (if segmentation q = 0 then 0 else parallelism tiles sync) @
     replicate 6 True @ field 2 (of_nat (sps_chroma q) :: byte) @
     replicate 5 True @ field 3 (of_nat (sps_luma q) :: byte) @
     replicate 5 True @ field 3 (of_nat (sps_chroma_depth q) :: byte) @
     replicate 16 False @ replicate 2 False @
     field 3 (of_nat (sps_layers q + 1) :: byte) @ [sps_nested q, True, True] @
     field 8 (if seis = [] then 3 else 4 :: byte) @
     array_bits True 32 [v] @ array_bits True 33 [s] @ array_bits True 34 [pp] @ array_bits False 39 seis"

lemma small_less:
  assumes "n < m" and "m \<le> 255"
  shows "(of_nat n :: byte) < of_nat m"
  using assms by (simp add: word_less_nat_alt unat_of_nat)

lemma record_written:
  assumes ser: "be_serializer ser" and q: "complete_sps q" and seis: "length seis < 2 ^ 16"
  shows "bits_of (write_hvcc ser (with_seis seis (record_of q (of_nat (segmentation q))
      (if segmentation q = 0 then 0 else parallelism tiles sync) [v, s, pp]))) = record_bits q tiles sync v s pp seis"
proof -
  let ?p = "sps_ptl q" and ?par = "if segmentation q = 0 then 0 else parallelism tiles sync"
  have p: "tier_flag ?p < 2" "profile_idc ?p < 32"
    using q by (simp_all add: complete_sps_def good_sps_def good_ptl_def)
  have "(of_nat (segmentation q) :: u16) < 4096"
    using q by (simp add: complete_sps_def word_less_nat_alt unat_of_nat)
  note seg = marked16 [OF this]
  have "?par < 4" by (simp add: parallelism_def)
  note par = marked(1) [OF this]
  have "(of_nat (sps_chroma q) :: byte) < 4" "(of_nat (sps_luma q) :: byte) < 8" "(of_nat (sps_chroma_depth q) :: byte) < 8"
    "(of_nat (sps_layers q + 1) :: byte) < 8"
    using q small_less [of _ 4] small_less [of _ 8] by (simp_all add: complete_sps_def good_sps_def del: of_nat_Suc)
  note small = marked(1) [OF this(1)] marked(2) [OF this(2)] marked(2) [OF this(3)] layers_byte [OF this(4)]
  have sets: "bits_of (write_array ser (array_of 1 ty [u])) = array_bits True ty [u]" if "ty < 64" for ty u
    using array_written [OF ser that, of "[u]" True] by simp
  have sei: "bits_of (write_array ser (array_of 0 (if seis = [] then 0 else 39) seis)) = array_bits False 39 seis"
    using array_written [OF ser, of 39 seis False] seis by (simp add: no_array_written array_bits_def)
  have w: "with_seis seis (record_of q seg par [v, s, pp]) = (record_of q seg par [v, s, pp])
      \<lparr>numOfArrays := (if seis = [] then 3 else 4),
       arrays := [array_of 1 32 [v], array_of 1 33 [s], array_of 1 34 [pp], array_of 0 (if seis = [] then 0 else 39) seis,
         array_of 0 0 []]\<rparr>" for seg par
    by (simp add: with_seis_def record_of_def Let_def numeral_2_eq_2 numeral_3_eq_3)
  have writers: "s_w8 ser = (\<lambda>b. [b])" "s_wb16 ser = be16" "s_wb32 ser = be32"
    using ser by (simp_all add: be_serializer_def)
  have zero: "field 16 (0 :: u16) = replicate 16 False" by code_simp
  have types: "(32 :: byte) < 64" "(33 :: byte) < 64" "(34 :: byte) < 64" by simp_all
  show ?thesis
    unfolding w
    unfolding write_hvcc_def writers record_of_def Let_def HEVCDecoderConfigurationRecord.simps
      HEVCDecoderConfigurationRecord.update_convs list.map concat.simps bits_of_simps sets sei no_array_written
    by (simp only: seg par small profile_byte [OF p] bits_of_be32 bits_of_be16 zero record_bits_def ptl_bits_def
      append_assoc append_Nil append_Cons append_Nil2 sets [OF types(1)] sets [OF types(2)] sets [OF types(3)] field_byte
      bits_of_48 [unfolded bits_of_be32 bits_of_be16, THEN arg_cong [where f = "\<lambda>x. x @ y" for y], unfolded append_assoc])
qed

section \<open>From the stream to the record\<close>

lemma nal_list_length:
  assumes "be_serializer ser"
  shows "\<forall>u \<in> set us. length u < 2 ^ 16 \<Longrightarrow> length (nal_list ser us) \<le> length us * (4 + 2 ^ 16)"
  using assms by (induction us) (auto simp: nal_list_def be_serializer_def be32_def)

lemma stream_starts:
  assumes "code \<in> start_codes" and "2 < length u"
  shows "has_start_code (byte_stream ((code, u) # us))" and "\<not> length (byte_stream ((code, u) # us)) < 6"
    and "hd (byte_stream ((code, u) # us)) \<noteq> 1"
  using assms by (auto simp: has_start_code_def start_codes_def byte_stream_def)

lemma unit_length: "unit_of c u \<Longrightarrow> 2 < length u \<and> length u < 2 ^ 16"
  using escaped_last by (auto simp: unit_of_def)


section \<open>A stream\<close>

lemma sequelI [grammar_intros]: "P a \<Longrightarrow> Q b \<Longrightarrow> sequel P Q (a @ b)"
  by (auto simp: sequel_def)

lemma no_flag [grammar_intros]: "if_flag P [False]"
  by (simp add: if_flag_def)

lemma ue_codeI: "n < 2 ^ 32 - 1 \<Longrightarrow> ue_code (ue_bits n)"
  unfolding ue_code_def by blast

lemma ue_zero: "ue_bits 0 = [True]"
  by code_simp

lemma ues_ones [grammar_intros]: "ues n (replicate n True)"
proof -
  have "ue_code [True]" using ue_codeI [of 0] by (simp add: ue_zero)
  then have "many n ue_code (replicate n True)" using sequelI [of ue_code "[True]"] by (induction n) simp_all
  then show ?thesis by (simp add: ues_def)
qed

definition sample_ptl :: HVCCProfileTierLevel where
  "sample_ptl = \<lparr>profile_space = 0, tier_flag = 0, profile_idc = 1, profile_compatibility_flags = 0x60000000,
     constraint_indicator_flags = 0x900000000000, level_idc = 93\<rparr>"

definition sample_sps :: hevc_sps where
  "sample_sps = \<lparr>sps_ptl = sample_ptl, sps_layers = 0, sps_nested = True, sps_chroma = 1, sps_luma = 0,
     sps_chroma_depth = 2, sps_lsb = 4, sps_segmentation = Some 5\<rparr>"

definition sample_sps_bits :: "bool list" where
  "sample_sps_bits =
     (replicate 4 False @ field 3 (of_nat 0 :: u32) @ True # ptl_bits sample_ptl @ ue_bits 0 @ ue_bits 1 @ [] @
       ue_bits 5 @ ue_bits 3 @ [False] @ ue_bits 0 @ ue_bits 2 @ ue_bits 4) @
     (True # (replicate 3 True @ []) @ (replicate 6 True @ [False] @ [False] @ [True] @ [False])) @
     (ue_bits 0 @ [] @ [False]) @ [True, True] @
     True # (([False] @ [False] @ [False] @ [False] @ [False, False, False] @ [False]) @ [False] @
       (True # [True, False, False] @ ue_bits 5 @ replicate 4 True))"

lemma sample_ptl_grammar: "ptl_grammar sample_ptl 0 (ptl_bits sample_ptl)"
  unfolding ptl_grammar_def
  by (intro exI [of _ "[]"]) (auto simp: sub_layer_bits_def sequel_def when_bits_def)

lemma sample_sps_good: "complete_sps sample_sps" "good_sps sample_sps" "good_ptl sample_ptl"
  by (simp_all add: complete_sps_def good_sps_def good_ptl_def sample_sps_def sample_ptl_def segmentation_def)

lemma format_grammarI:
  "bits_n 4 vid \<Longrightarrow> ptl_grammar (sps_ptl q) (sps_layers q) ptl \<Longrightarrow> ue_code sid \<Longrightarrow>
    when_bits (sps_chroma q = 3) (bits_n 1) plane \<Longrightarrow> ue_code w \<Longrightarrow> ue_code h \<Longrightarrow> if_flag (ues 4) window \<Longrightarrow>
    format_grammar q (vid @ field 3 (of_nat (sps_layers q) :: u32) @ sps_nested q # ptl @ sid @ ue_bits (sps_chroma q) @ plane @
      w @ h @ window @ ue_bits (sps_luma q) @ ue_bits (sps_chroma_depth q) @ ue_bits (sps_lsb q))"
  unfolding format_grammar_def by blast

lemma sample_format: "format_grammar sample_sps (replicate 4 False @ field 3 (of_nat 0 :: u32) @ True # ptl_bits sample_ptl @
    ue_bits 0 @ ue_bits 1 @ [] @ ue_bits 5 @ ue_bits 3 @ [False] @ ue_bits 0 @ ue_bits 2 @ ue_bits 4)"
proof -
  have q: "sps_layers sample_sps = 0" "sps_nested sample_sps = True" "sps_chroma sample_sps = 1" "sps_luma sample_sps = 0"
    "sps_chroma_depth sample_sps = 2" "sps_lsb sample_sps = 4" "sps_ptl sample_sps = sample_ptl"
    by (simp_all add: sample_sps_def)
  show ?thesis
    by (rule format_grammarI [of _ sample_sps, unfolded q])
      (simp_all add: bits_n_def sample_ptl_grammar ue_codeI when_bits_def no_flag)
qed

lemma sample_coding: "coding_grammar 0 (True # (replicate 3 True @ []) @
    (replicate 6 True @ [False] @ [False] @ [True] @ [False]))"
proof -
  have order: "many (if True then 0 + 1 else 1) (ues 3) (replicate 3 True @ [])"
    using sequelI [of "ues 3" "replicate 3 True" "many 0 (ues 3)" "[]"] by (simp add: ues_ones)
  have rest: "sequel (ues 6) (sequel (if_flag (if_flag scaling_lists)) (sequel (bits_n 1) (sequel (bits_n 1)
      (if_flag (sequel (bits_n 4) (sequel (bits_n 4) (sequel ue_code (sequel ue_code (bits_n 1)))))))))
    (replicate 6 True @ [False] @ [False] @ [True] @ [False])"
    by (intro grammar_intros) (simp_all add: bits_n_def)
  show ?thesis unfolding coding_grammar_def using order rest by blast
qed

lemma sample_vui: "vui_grammar 0 (Some 5) (([False] @ [False] @ [False] @ [False] @ [False, False, False] @ [False]) @ [False] @
    (True # [True, False, False] @ ue_bits 5 @ replicate 4 True))"
  unfolding vui_grammar_def vui_picture_grammar_def vui_timing_grammar_def
proof (intro grammar_intros)
  show "bits_n 3 [False, False, False]" by (simp add: bits_n_def)
  show "restriction_bits (Some 5) (True # [True, False, False] @ ue_bits 5 @ replicate 4 True)"
    unfolding restriction_bits_def option.case
    by (intro conjI exI [of _ "[True, False, False]"] exI [of _ "replicate 4 True"]) (simp_all add: bits_n_def ues_ones)
qed

lemma sample_sps_grammar: "sps_grammar sample_sps sample_sps_bits"
proof -
  have "references_grammar 4 (ue_bits 0 @ [] @ [False])"
    unfolding references_grammar_def
    by (intro exI [of _ "0 :: nat"] exI [of _ "[] :: bool list"] exI [of _ "[False]"] conjI) (simp_all add: long_term_grammar_def)
  moreover have "bits_n 2 [True, True]" by (simp add: bits_n_def)
  ultimately show ?thesis
    unfolding sps_grammar_def sample_sps_bits_def
    using sample_format sample_coding sample_vui
    by (intro exI conjI refl disjI2) (simp_all add: sample_sps_def)
qed

lemma sample_pps_grammar: "pps_grammar True False ([True] @ [True] @ replicate 7 False @ [True] @ [True] @ [True] @
    [False, False] @ [False] @ [True] @ [True] @ replicate 4 False @ [True, False])"
proof -
  have one: "ue_code [True]" using ue_codeI [of 0] by (simp add: ue_zero)
  show ?thesis
    unfolding pps_grammar_def by (intro grammar_intros one) (simp_all add: bits_n_def exactly_def)
qed

definition sample_vps_unit :: "byte list" where
  "sample_vps_unit = [0x40, 1, 0xc, 1, 0xff, 0xff, 1, 0x60, 0, 0, 3, 0, 0x90, 0, 0, 3, 0, 0, 3, 0, 0x5d, 0x80]"

definition sample_sps_unit :: "byte list" where
  "sample_sps_unit = [0x42, 1, 1, 1, 0x60, 0, 0, 3, 0, 0x90, 0, 0, 3, 0, 0, 3, 0, 0x5d, 0xa3, 0x11, 0x65, 0xff,
     0xca, 0xe0, 0xc, 0x37, 0xc0]"

definition sample_pps_unit :: "byte list" where
  "sample_pps_unit = [0x44, 1, 0xc0, 0x71, 0x85]"

lemma unit_ofI:
  "u = b0 # b1 # escaped 0 payload \<Longrightarrow> and (drop_bit 1 b0) 0x3f = content_type c \<Longrightarrow> b1 \<noteq> 0 \<Longrightarrow> payload \<noteq> [] \<Longrightarrow>
    last payload \<noteq> 0 \<Longrightarrow> bits_of payload = bs @ tail \<Longrightarrow> content_grammar c bs \<Longrightarrow> length u < 2 ^ 16 \<Longrightarrow> unit_of c u"
  unfolding unit_of_def by blast

lemma sample_vps: "unit_of (Vps sample_ptl 0) sample_vps_unit"
proof (rule unit_ofI)
  show "sample_vps_unit = 0x40 # 1 # escaped 0
      [0xc, 1, 0xff, 0xff, 1, 0x60, 0, 0, 0, 0x90, 0, 0, 0, 0, 0, 0x5d, 0x80]" by code_simp
  show "bits_of [0xc, 1, 0xff, 0xff, 1, 0x60, 0, 0, 0, 0x90, 0, 0, 0, 0, 0, 0x5d, 0x80] =
    ((replicate 4 False @ [True, True] @ replicate 6 False) @ field 3 (of_nat 0 :: u32) @ replicate 17 True @
      ptl_bits sample_ptl) @ (True # replicate 7 False)" by code_simp
  show "content_grammar (Vps sample_ptl 0) ((replicate 4 False @ [True, True] @ replicate 6 False) @
      field 3 (of_nat 0 :: u32) @ replicate 17 True @ ptl_bits sample_ptl)"
    unfolding content_grammar.simps vps_grammar_def using sample_ptl_grammar sample_sps_good
    by (intro conjI exI [of _ "replicate 4 False @ [True, True] @ replicate 6 False"] exI [of _ "replicate 17 True"]
        exI [of _ "ptl_bits sample_ptl"]) (simp_all add: bits_n_def)
qed (simp_all add: sample_vps_unit_def)

lemma sample_sps: "unit_of (Sps sample_sps) sample_sps_unit"
proof (rule unit_ofI)
  show "sample_sps_unit = 0x42 # 1 # escaped 0 [1, 1, 0x60, 0, 0, 0, 0x90, 0, 0, 0, 0, 0, 0x5d, 0xa3, 0x11, 0x65, 0xff, 0xca, 0xe0, 0xc, 0x37, 0xc0]" by code_simp
  show "bits_of [1, 1, 0x60, 0, 0, 0, 0x90, 0, 0, 0, 0, 0, 0x5d, 0xa3, 0x11, 0x65, 0xff, 0xca, 0xe0, 0xc, 0x37, 0xc0] = sample_sps_bits @ (True # replicate 6 False)" by code_simp
  show "content_grammar (Sps sample_sps) sample_sps_bits" using sample_sps_grammar sample_sps_good by simp
qed (simp_all add: sample_sps_unit_def)

lemma sample_pps: "unit_of (Pps True False) sample_pps_unit"
proof (rule unit_ofI)
  show "sample_pps_unit = 0x44 # 1 # escaped 0 [0xc0, 0x71, 0x85]" by code_simp
  show "bits_of [0xc0, 0x71, 0x85] = ([True] @ [True] @ replicate 7 False @ [True] @ [True] @ [True] @
    [False, False] @ [False] @ [True] @ [True] @ replicate 4 False @ [True, False]) @ [True]" by code_simp
  show "content_grammar (Pps True False) ([True] @ [True] @ replicate 7 False @ [True] @ [True] @ [True] @
    [False, False] @ [False] @ [True] @ [True] @ replicate 4 False @ [True, False])" using sample_pps_grammar by simp
qed (simp_all add: sample_pps_unit_def)

lemma sample_sei: "unit_of Sei [0x4e, 1, 5, 0x80]"
  by (rule unit_ofI [of _ "0x4e" 1 "[5, 0x80]" Sei "[]"]) simp_all


end
