(* ===== verification/Happy_Eyeballs.thy ===== *)
theory Happy_Eyeballs
  imports Prelude
begin

text \<open>
  \<open>src/shared/happy-eyeballs.c\<close>: a server with several addresses is tried at all of them, one thread each, 200 ms
  apart, and the first that connects wins. The threads and \<open>happy_eyeballs_connect\<close> interleave at every access to
  what they share. One step are the scan of a failed thread over the candidates, as both mutexes are held and the
  events it reads are only set under the first of them, the winner's socket with its address, and the signal of the
  end with its time. An address to bind to is set when it is not empty. Sockets are numbers, errors integers, what the system
  answers is an argument. A failing \<open>malloc\<close> and events or mutexes that cannot be made are not modelled.
\<close>

section \<open>Addresses\<close>

record addrinfo =
  ai_family :: int
  ai_addr :: "byte list"

definition AF_INET :: int where "AF_INET = 2"
definition AF_INET6 :: int where "AF_INET6 = 23"

text \<open>The family asked for, from the length of the address to bind to (\<open>AF_UNSPEC\<close> is 0).\<close>

definition hint_family :: "nat \<Rightarrow> int" where
  "hint_family bind_addr_len = (if bind_addr_len = 16 then AF_INET else if bind_addr_len = 28 then AF_INET6 else 0)"

lemma dropWhile_length: "dropWhile P xs = y # ys \<Longrightarrow> length (takeWhile P xs @ ys) < length xs"
  by (metis append_Cons length_append length_Cons lessI add_Suc_right takeWhile_dropWhile_id)

text \<open>
  The reordering of the list: an address of the family of the one before it changes place with the next address
  of the other family. The loop ends where there is none.
\<close>

function interleave :: "int \<Rightarrow> addrinfo list \<Rightarrow> addrinfo list" where
  "interleave prev [] = []"
| "interleave prev (cur # rest) =
     (if prev = ai_family cur \<and> ai_family cur \<in> {AF_INET, AF_INET6} then
        (let target = (if prev = AF_INET then AF_INET6 else AF_INET);
             before = takeWhile (\<lambda>a. ai_family a \<noteq> target) rest
         in case dropWhile (\<lambda>a. ai_family a \<noteq> target) rest of
              [] \<Rightarrow> cur # rest
            | it # behind \<Rightarrow> it # cur # interleave (ai_family cur) (before @ behind))
      else cur # interleave (ai_family cur) rest)"
  by pat_completeness auto

termination
  by (relation "measure (\<lambda>(prev, as). length as)") (auto dest: dropWhile_length)

definition build_addr_list :: "int + addrinfo list \<Rightarrow> int + addrinfo list" where
  "build_addr_list resolved =
     (case resolved of
        Inl e \<Rightarrow> Inl e
      | Inr [] \<Rightarrow> Inr []
      | Inr (a # as) \<Rightarrow> Inr (a # interleave (ai_family a) as))"

section \<open>State\<close>

text \<open>Where a thread is in \<open>coalesce_errors\<close> and the \<open>signal_end\<close> behind it.\<close>

datatype coalesce_pc = C_Starting | C_Race | C_Gather | C_Error int | C_End

text \<open>
  Where a thread is in \<open>happy_connect_worker\<close>; \<open>W_Created\<close>: its candidate is in the list but the thread is not
  started. The flag is \<open>active\<close>.
\<close>

datatype worker_pc =
    W_Created | W_Start | W_Attempt
  | W_Connected | W_Signal | W_Try | W_Take | W_End | W_Unlock
  | W_Failed int | W_Lock | W_FSignal | W_Active | W_Scan bool | W_FUnlock bool | W_Check bool
  | W_Coalesce coalesce_pc
  | W_Exit

text \<open>\<open>cand_connected\<close> is a history of what \<open>connect\<close> gave.\<close>

record happy_eyeballs_candidate =
  cand_sock :: nat
  cand_addr :: addrinfo
  cand_completed :: bool
  cand_error :: int
  cand_pc :: worker_pc
  cand_connected :: bool

datatype he_status = HE_Success | HE_Failure | HE_Again | HE_Timed_Out

text \<open>
  Where \<open>happy_eyeballs_connect\<close> is: at the head of its loop, with the number of attempts, the last family and
  the addresses left; starting a thread; waiting; behind the loop; in one of its two calls of \<open>happy_eyeballs_try\<close>
  (\<open>True\<close> for the first), before the status and before the error; counting; ending the race itself.
\<close>

datatype main_pc =
    M_Next nat int "addrinfo list"
  | M_Thread nat addrinfo "addrinfo list"
  | M_Wait nat addrinfo "addrinfo list"
  | M_Stop
  | M_Status bool | M_Error bool he_status
  | M_Count nat nat
  | M_Coalesce coalesce_pc
  | M_Return he_status

record happy_eyeballs_ctx =
  he_socket_fd :: "nat option"
  he_winner_addr :: "byte list"
  he_error :: int
  he_bind_addr :: "byte list"
  he_candidates :: "happy_eyeballs_candidate list"
  he_winner_mutex :: "nat option"
  he_completed :: bool
  he_time_start :: u64
  he_time_end :: u64
  he_is_starting :: bool
  he_main :: main_pc

definition HAPPY_EYEBALLS_MAX_ATTEMPTS :: nat where "HAPPY_EYEBALLS_MAX_ATTEMPTS = 6"

definition set_candidate ::
  "nat \<Rightarrow> (happy_eyeballs_candidate \<Rightarrow> happy_eyeballs_candidate) \<Rightarrow> happy_eyeballs_ctx \<Rightarrow> happy_eyeballs_ctx" where
  "set_candidate i f s = s\<lparr>he_candidates := (he_candidates s)[i := f (he_candidates s ! i)]\<rparr>"

definition goto :: "nat \<Rightarrow> worker_pc \<Rightarrow> happy_eyeballs_ctx \<Rightarrow> happy_eyeballs_ctx" where
  "goto i pc = set_candidate i (\<lambda>c. c\<lparr>cand_pc := pc\<rparr>)"

section \<open>The end of a race\<close>

definition signal_end :: "u64 \<Rightarrow> happy_eyeballs_ctx \<Rightarrow> happy_eyeballs_ctx" where
  "signal_end now s = (if he_completed s then s else s\<lparr>he_time_end := now, he_completed := True\<rparr>)"

text \<open>The errors with their counts, in the order in which they first occur.\<close>

fun note_error :: "int \<Rightarrow> (int \<times> nat) list \<Rightarrow> (int \<times> nat) list" where
  "note_error e [] = [(e, 1)]"
| "note_error e (m # ms) = (if fst m = e then (e, snd m + 1) # ms else m # note_error e ms)"

fun most_common :: "int \<times> nat \<Rightarrow> (int \<times> nat) list \<Rightarrow> int" where
  "most_common best [] = fst best"
| "most_common best (m # ms) = most_common (if snd best < snd m then m else best) ms"

definition coalesced_error :: "int list \<Rightarrow> int" where
  "coalesced_error errors = most_common (0, 0) (fold (\<lambda>e ms. if e = 0 then ms else note_error e ms) errors [])"

text \<open>\<open>coalesce_errors\<close> and \<open>signal_end\<close> when it succeeds. Nothing behind the last step and on a failure.\<close>

fun coalesce_errors ::
  "u64 \<Rightarrow> coalesce_pc \<Rightarrow> happy_eyeballs_ctx \<Rightarrow> happy_eyeballs_ctx \<times> coalesce_pc option" where
  "coalesce_errors now C_Starting s = (s, if he_is_starting s then None else Some C_Race)"
| "coalesce_errors now C_Race s = (s, if he_completed s then None else Some C_Gather)"
| "coalesce_errors now C_Gather s = (s, Some (C_Error (coalesced_error (map cand_error (he_candidates s)))))"
| "coalesce_errors now (C_Error e) s = (s\<lparr>he_error := e\<rparr>, Some C_End)"
| "coalesce_errors now C_End s = (signal_end now s, None)"

section \<open>A thread\<close>

text \<open>What \<open>bind\<close> and \<open>connect\<close> give: \<open>None\<close> is success.\<close>

record attempt =
  at_bind :: "int option"
  at_connect :: "int option"

definition attempted :: "happy_eyeballs_ctx \<Rightarrow> attempt \<Rightarrow> int option" where
  "attempted s a = (if he_bind_addr s \<noteq> [] \<and> at_bind a \<noteq> None then at_bind a else at_connect a)"

definition worker_action :: "u64 \<Rightarrow> attempt \<Rightarrow> nat \<Rightarrow> worker_pc \<Rightarrow> happy_eyeballs_ctx \<Rightarrow> happy_eyeballs_ctx option" where
  "worker_action now a i pc s =
     (case pc of
        W_Created \<Rightarrow> None
      | W_Start \<Rightarrow> Some (goto i (if he_completed s then W_Exit else W_Attempt) s)
      | W_Attempt \<Rightarrow>
          Some (case attempted s a of
            None \<Rightarrow> set_candidate i (\<lambda>c. c\<lparr>cand_connected := True, cand_pc := W_Connected\<rparr>) s
          | Some e \<Rightarrow> goto i (W_Failed e) s)
      | W_Connected \<Rightarrow>
          if he_winner_mutex s = None then Some (goto i W_Signal (s\<lparr>he_winner_mutex := Some i\<rparr>)) else None
      | W_Signal \<Rightarrow> Some (set_candidate i (\<lambda>c. c\<lparr>cand_completed := True, cand_pc := W_Try\<rparr>) s)
      | W_Try \<Rightarrow> Some (goto i (if he_completed s then W_Unlock else W_Take) s)
      | W_Take \<Rightarrow>
          Some (goto i W_End (s\<lparr>he_socket_fd := Some (cand_sock (he_candidates s ! i)),
            he_winner_addr := ai_addr (cand_addr (he_candidates s ! i))\<rparr>))
      | W_End \<Rightarrow> Some (goto i W_Unlock (signal_end now s))
      | W_Unlock \<Rightarrow> Some (goto i W_Exit (s\<lparr>he_winner_mutex := None\<rparr>))
      | W_Failed e \<Rightarrow> Some (set_candidate i (\<lambda>c. c\<lparr>cand_error := e, cand_pc := W_Lock\<rparr>) s)
      | W_Lock \<Rightarrow>
          if he_winner_mutex s = None then Some (goto i W_FSignal (s\<lparr>he_winner_mutex := Some i\<rparr>)) else None
      | W_FSignal \<Rightarrow> Some (set_candidate i (\<lambda>c. c\<lparr>cand_completed := True, cand_pc := W_Active\<rparr>) s)
      | W_Active \<Rightarrow> Some (goto i (W_Scan (he_is_starting s)) s)
      | W_Scan active \<Rightarrow>
          Some (goto i (W_FUnlock (active \<or> (\<exists>c \<in> set (he_candidates s). \<not> cand_completed c))) s)
      | W_FUnlock active \<Rightarrow> Some (goto i (W_Check active) (s\<lparr>he_winner_mutex := None\<rparr>))
      | W_Check active \<Rightarrow> Some (goto i (if active \<or> he_error s \<noteq> 0 then W_Exit else W_Coalesce C_Starting) s)
      | W_Coalesce c \<Rightarrow>
          (case coalesce_errors now c s of
             (s1, next) \<Rightarrow> Some (goto i (case next of None \<Rightarrow> W_Exit | Some c1 \<Rightarrow> W_Coalesce c1) s1))
      | W_Exit \<Rightarrow> None)"

definition happy_connect_worker :: "u64 \<Rightarrow> attempt \<Rightarrow> nat \<Rightarrow> happy_eyeballs_ctx \<Rightarrow> happy_eyeballs_ctx option" where
  "happy_connect_worker now a i s =
     (if i < length (he_candidates s) then worker_action now a i (cand_pc (he_candidates s ! i)) s else None)"

section \<open>The connecting thread\<close>

text \<open>What the system answers: a socket or an error, the error of a thread's start or 0, the end of a wait.\<close>

datatype wait_result = Signalled | Timed_Out | Wait_Invalid

datatype system_answer = Got_Socket "int + nat" | Got_Thread int | Got_Wait wait_result

definition new_candidate :: "nat \<Rightarrow> addrinfo \<Rightarrow> happy_eyeballs_candidate" where
  "new_candidate fd addr = \<lparr>cand_sock = fd, cand_addr = addr, cand_completed = False, cand_error = 0,
     cand_pc = W_Created, cand_connected = False\<rparr>"

text \<open>\<open>launch_worker\<close> in two steps: the socket with its candidate, and the thread.\<close>

definition launch_candidate :: "nat \<Rightarrow> addrinfo \<Rightarrow> addrinfo list \<Rightarrow> int + nat \<Rightarrow> happy_eyeballs_ctx \<Rightarrow> happy_eyeballs_ctx" where
  "launch_candidate n addr rest got s =
     (case got of
        Inl e \<Rightarrow> s\<lparr>he_error := e, he_main := M_Return HE_Failure\<rparr>
      | Inr fd \<Rightarrow> s\<lparr>he_candidates := he_candidates s @ [new_candidate fd addr], he_main := M_Thread n addr rest\<rparr>)"

definition launch_thread :: "nat \<Rightarrow> addrinfo \<Rightarrow> addrinfo list \<Rightarrow> int \<Rightarrow> happy_eyeballs_ctx \<Rightarrow> happy_eyeballs_ctx" where
  "launch_thread n addr rest result s =
     (if result \<noteq> 0
      then s\<lparr>he_error := result, he_candidates := butlast (he_candidates s), he_main := M_Return HE_Failure\<rparr>
      else goto (length (he_candidates s) - 1) W_Start (s\<lparr>he_main := M_Wait n addr rest\<rparr>))"

definition EINVAL :: int where "EINVAL = 22"

definition wait_delay ::
  "nat \<Rightarrow> addrinfo \<Rightarrow> addrinfo list \<Rightarrow> wait_result \<Rightarrow> happy_eyeballs_ctx \<Rightarrow> happy_eyeballs_ctx option" where
  "wait_delay n addr rest w s =
     (case w of
        Signalled \<Rightarrow> if he_completed s then Some (s\<lparr>he_main := M_Stop\<rparr>) else None
      | Timed_Out \<Rightarrow> Some (s\<lparr>he_main := M_Next (n + 1) (ai_family addr) rest\<rparr>)
      | Wait_Invalid \<Rightarrow> Some (s\<lparr>he_error := EINVAL, he_main := M_Return HE_Failure\<rparr>))"

text \<open>A step of \<open>happy_eyeballs_connect\<close>, from the loop on. An answer to another question changes nothing.\<close>

definition main_action :: "u64 \<Rightarrow> system_answer \<Rightarrow> main_pc \<Rightarrow> happy_eyeballs_ctx \<Rightarrow> happy_eyeballs_ctx option" where
  "main_action now answer pc s =
     (case pc of
        M_Next n prev rest \<Rightarrow>
          (case rest of
             [] \<Rightarrow> Some (s\<lparr>he_main := M_Stop\<rparr>)
           | addr # others \<Rightarrow>
               if n < HAPPY_EYEBALLS_MAX_ATTEMPTS \<and> ai_family addr \<noteq> prev
               then (case answer of Got_Socket got \<Rightarrow> Some (launch_candidate n addr others got s) | _ \<Rightarrow> None)
               else Some (s\<lparr>he_main := M_Stop\<rparr>))
      | M_Thread n addr rest \<Rightarrow>
          (case answer of Got_Thread result \<Rightarrow> Some (launch_thread n addr rest result s) | _ \<Rightarrow> None)
      | M_Wait n addr rest \<Rightarrow>
          (case answer of Got_Wait w \<Rightarrow> wait_delay n addr rest w s | _ \<Rightarrow> None)
      | M_Stop \<Rightarrow> Some (s\<lparr>he_is_starting := False, he_main := M_Status True\<rparr>)
      | M_Status first \<Rightarrow> Some (s\<lparr>he_main := M_Error first (if he_completed s then HE_Success else HE_Again)\<rparr>)
      | M_Error first status \<Rightarrow>
          let result = (if he_error s \<noteq> 0 then HE_Failure else status)
          in Some (s\<lparr>he_main := (if \<not> first then M_Return result
                              else if result = HE_Again then M_Count 0 0 else M_Status False)\<rparr>)
      | M_Count i active_count \<Rightarrow>
          if i < length (he_candidates s)
          then Some (s\<lparr>he_main := M_Count (i + 1)
            (if cand_completed (he_candidates s ! i) then active_count else active_count + 1)\<rparr>)
          else Some (s\<lparr>he_main := (if active_count = 0 then M_Coalesce C_Starting else M_Status False)\<rparr>)
      | M_Coalesce c \<Rightarrow>
          (case coalesce_errors now c s of
             (s1, next) \<Rightarrow>
               Some (s1\<lparr>he_main := (case next of None \<Rightarrow> M_Status False | Some c1 \<Rightarrow> M_Coalesce c1)\<rparr>))
      | M_Return status \<Rightarrow> None)"

definition happy_eyeballs_connect :: "u64 \<Rightarrow> system_answer \<Rightarrow> happy_eyeballs_ctx \<Rightarrow> happy_eyeballs_ctx option" where
  "happy_eyeballs_connect now answer s = main_action now answer (he_main s) s"

section \<open>Before and behind the race\<close>

text \<open>\<open>happy_eyeballs_create\<close>, \<open>happy_eyeballs_set_bind_addr\<close> and what \<open>happy_eyeballs_connect\<close> does before its loop.\<close>

definition happy_eyeballs_create :: happy_eyeballs_ctx where
  "happy_eyeballs_create = \<lparr>he_socket_fd = None, he_winner_addr = [], he_error = 0, he_bind_addr = [], he_candidates = [],
     he_winner_mutex = None, he_completed = False, he_time_start = 0, he_time_end = 0, he_is_starting = False,
     he_main = M_Return HE_Failure\<rparr>"

definition happy_eyeballs_set_bind_addr :: "byte list \<Rightarrow> happy_eyeballs_ctx \<Rightarrow> happy_eyeballs_ctx" where
  "happy_eyeballs_set_bind_addr addr s = s\<lparr>he_bind_addr := addr\<rparr>"

text \<open>Security software that blocks all names: \<open>localhost\<close> is the error of its lookup, \<open>None\<close> when it is found.\<close>

definition WSAHOST_NOT_FOUND :: int where "WSAHOST_NOT_FOUND = 11001"

definition check_comodo :: "int option \<Rightarrow> int option" where
  "check_comodo localhost = (if localhost = Some WSAHOST_NOT_FOUND then Some WSAHOST_NOT_FOUND else None)"

definition start_race ::
  "u64 \<Rightarrow> int option \<Rightarrow> int + addrinfo list \<Rightarrow> happy_eyeballs_ctx \<Rightarrow> happy_eyeballs_ctx" where
  "start_race now localhost resolved s =
     (case check_comodo localhost of
        Some e \<Rightarrow> s\<lparr>he_error := e, he_main := M_Return HE_Failure\<rparr>
      | None \<Rightarrow>
          (case build_addr_list resolved of
             Inl e \<Rightarrow> s\<lparr>he_error := e, he_main := M_Return HE_Failure\<rparr>
           | Inr as \<Rightarrow> s\<lparr>he_time_start := now, he_is_starting := True, he_main := M_Next 0 0 as\<rparr>))"

definition happy_eyeballs_timedwait :: "wait_result \<Rightarrow> happy_eyeballs_ctx \<Rightarrow> happy_eyeballs_ctx \<times> he_status" where
  "happy_eyeballs_timedwait w s =
     (if he_error s \<noteq> 0 then (s, HE_Failure)
      else case w of
        Signalled \<Rightarrow> (s, HE_Success)
      | Timed_Out \<Rightarrow> (s, HE_Timed_Out)
      | Wait_Invalid \<Rightarrow> (s\<lparr>he_error := EINVAL\<rparr>, HE_Failure))"

text \<open>The sockets \<open>destroy_thread\<close> shuts down, and closes when all threads have ended.\<close>

definition destroyed_sockets :: "happy_eyeballs_ctx \<Rightarrow> nat list" where
  "destroyed_sockets s = filter (\<lambda>fd. Some fd \<noteq> he_socket_fd s) (map cand_sock (he_candidates s))"

definition happy_eyeballs_get_connection_time_ns :: "happy_eyeballs_ctx \<Rightarrow> u64" where
  "happy_eyeballs_get_connection_time_ns s =
     (if he_time_start s > he_time_end s then 0 else he_time_end s - he_time_start s)"

section \<open>What the client makes of it\<close>

text \<open>
  \<open>RTMP_Connect\<close> between its call of \<open>happy_eyeballs_connect\<close>, which gave \<open>status\<close>, and the socket: a race that
  goes on is waited for; an error that has no message of its own is \<open>E_HOSTUNREACH\<close> when an address to bind to is set.
\<close>

definition E_CONNREFUSED :: int where "E_CONNREFUSED = 10061"
definition E_ACCES :: int where "E_ACCES = 10013"
definition E_TIMEDOUT :: int where "E_TIMEDOUT = 10060"
definition E_HOSTUNREACH :: int where "E_HOSTUNREACH = 10065"

definition reported_error :: "nat \<Rightarrow> int \<Rightarrow> int" where
  "reported_error bind_addr_len err =
     (if err = E_CONNREFUSED then err else if err = E_ACCES then err else if err = E_TIMEDOUT then err
      else if bind_addr_len > 0 then E_HOSTUNREACH else err)"

definition race_result ::
  "nat \<Rightarrow> wait_result \<Rightarrow> he_status \<Rightarrow> happy_eyeballs_ctx \<Rightarrow> int + nat option" where
  "race_result bind_addr_len w status s =
     (case (if status = HE_Again then happy_eyeballs_timedwait w s else (s, status)) of
        (s1, result) \<Rightarrow>
          if result \<noteq> HE_Success then Inl (reported_error bind_addr_len (he_error s1)) else Inr (he_socket_fd s1))"

section \<open>Interleaving\<close>

inductive he_step :: "happy_eyeballs_ctx \<Rightarrow> happy_eyeballs_ctx \<Rightarrow> bool" where
  he_worker: "happy_connect_worker now a i s = Some t \<Longrightarrow> he_step s t"
| he_connect: "happy_eyeballs_connect now answer s = Some t \<Longrightarrow> he_step s t"

text \<open>A race about to start: the addresses are there, nothing else has happened.\<close>

definition race_start :: "happy_eyeballs_ctx \<Rightarrow> bool" where
  "race_start s \<longleftrightarrow>
     (\<exists>now addr addrs. s = start_race now None (Inr addrs) (happy_eyeballs_set_bind_addr addr happy_eyeballs_create))"

end
