(* ===== verification/Happy_Race.thy ===== *)
theory Happy_Race
  imports Happy_Eyeballs
begin

text \<open>
  Invariants of the race, over all interleavings: who holds the mutex, whose completion event is set, who has won,
  and that somebody is always left to end the race.
\<close>

section \<open>What a thread's place says\<close>

fun holds_mutex :: "worker_pc \<Rightarrow> bool" where
  "holds_mutex W_Signal = True" | "holds_mutex W_Try = True" | "holds_mutex W_Take = True" | "holds_mutex W_End = True"
| "holds_mutex W_Unlock = True" | "holds_mutex W_FSignal = True" | "holds_mutex W_Active = True"
| "holds_mutex (W_Scan a) = True" | "holds_mutex (W_FUnlock a) = True" | "holds_mutex pc = False"

text \<open>Behind the signal of its own event, and not at its end.\<close>

fun has_signalled :: "worker_pc \<Rightarrow> bool" where
  "has_signalled W_Try = True" | "has_signalled W_Take = True" | "has_signalled W_End = True"
| "has_signalled W_Unlock = True" | "has_signalled W_Active = True" | "has_signalled (W_Scan a) = True"
| "has_signalled (W_FUnlock a) = True" | "has_signalled (W_Check a) = True" | "has_signalled (W_Coalesce c) = True"
| "has_signalled pc = False"

fun has_connected :: "worker_pc \<Rightarrow> bool" where
  "has_connected W_Connected = True" | "has_connected W_Signal = True" | "has_connected W_Try = True"
| "has_connected W_Take = True" | "has_connected W_End = True" | "has_connected pc = False"

text \<open>Still able to end the race.\<close>

fun hopeful :: "worker_pc \<Rightarrow> bool" where
  "hopeful W_Created = False" | "hopeful W_Unlock = False" | "hopeful (W_Scan a) = (\<not> a)"
| "hopeful (W_FUnlock a) = (\<not> a)" | "hopeful (W_Check a) = (\<not> a)" | "hopeful W_Exit = False" | "hopeful pc = True"

fun launching :: "main_pc \<Rightarrow> bool" where
  "launching (M_Next n prev as) = True" | "launching (M_Thread n a as) = True" | "launching (M_Wait n a as) = True"
| "launching M_Stop = True" | "launching pc = False"

fun stopped :: "main_pc \<Rightarrow> bool" where
  "stopped (M_Status f) = True" | "stopped (M_Error f st) = True" | "stopped (M_Count k n) = True"
| "stopped (M_Coalesce c) = True" | "stopped (M_Return st) = (st = HE_Again)" | "stopped pc = False"

abbreviation pc_of :: "happy_eyeballs_ctx \<Rightarrow> nat \<Rightarrow> worker_pc" where
  "pc_of s i \<equiv> cand_pc (he_candidates s ! i)"

abbreviation workers :: "happy_eyeballs_ctx \<Rightarrow> nat" where
  "workers s \<equiv> length (he_candidates s)"

lemma goto_simps [simp]:
  "he_candidates (set_candidate i f s) = (he_candidates s)[i := f (he_candidates s ! i)]"
  "he_socket_fd (set_candidate i f s) = he_socket_fd s" "he_winner_addr (set_candidate i f s) = he_winner_addr s"
  "he_error (set_candidate i f s) = he_error s" "he_bind_addr (set_candidate i f s) = he_bind_addr s"
  "he_winner_mutex (set_candidate i f s) = he_winner_mutex s" "he_completed (set_candidate i f s) = he_completed s"
  "he_is_starting (set_candidate i f s) = he_is_starting s" "he_main (set_candidate i f s) = he_main s"
  by (simp_all add: set_candidate_def)

lemma signal_simps [simp]:
  "he_candidates (signal_end now s) = he_candidates s" "he_socket_fd (signal_end now s) = he_socket_fd s"
  "he_winner_addr (signal_end now s) = he_winner_addr s" "he_error (signal_end now s) = he_error s"
  "he_winner_mutex (signal_end now s) = he_winner_mutex s" "he_completed (signal_end now s) = True"
  "he_is_starting (signal_end now s) = he_is_starting s" "he_main (signal_end now s) = he_main s"
  by (simp_all add: signal_end_def)

lemma coalesce_frame:
  assumes "coalesce_errors now c s = (s1, n)"
  shows "he_candidates s1 = he_candidates s" and "he_socket_fd s1 = he_socket_fd s" and "he_winner_addr s1 = he_winner_addr s"
    and "he_winner_mutex s1 = he_winner_mutex s" and "he_is_starting s1 = he_is_starting s" and "he_main s1 = he_main s"
    and "he_completed s \<longrightarrow> he_completed s1"
  using assms by (cases c; auto)+

text \<open>A thread's step: what it changes of its candidate and of the rest.\<close>

lemma worker_frame:
  assumes "worker_action now a i pc s = Some t" and "i < workers s"
  shows "workers t = workers s" and "\<And>j. j \<noteq> i \<Longrightarrow> he_candidates t ! j = he_candidates s ! j" and "he_main t = he_main s"
    and "he_is_starting t = he_is_starting s" and "he_completed s \<Longrightarrow> he_completed t"
    and "he_winner_mutex t = he_winner_mutex s \<or> he_winner_mutex s = None \<or> holds_mutex pc"
    and "he_socket_fd t = he_socket_fd s \<and> he_winner_addr t = he_winner_addr s \<or> pc = W_Take"
    and "he_error t = he_error s \<or> (\<exists>e. pc = W_Coalesce (C_Error e))"
    and "cand_sock (he_candidates t ! i) = cand_sock (he_candidates s ! i)"
    and "cand_addr (he_candidates t ! i) = cand_addr (he_candidates s ! i)"
    and "cand_connected (he_candidates s ! i) \<Longrightarrow> cand_connected (he_candidates t ! i)"
proof -
  have "workers t = workers s \<and> (\<forall>j. j \<noteq> i \<longrightarrow> he_candidates t ! j = he_candidates s ! j) \<and> he_main t = he_main s \<and>
    he_is_starting t = he_is_starting s \<and> (he_completed s \<longrightarrow> he_completed t) \<and>
    (he_winner_mutex t = he_winner_mutex s \<or> he_winner_mutex s = None \<or> holds_mutex pc) \<and>
    (he_socket_fd t = he_socket_fd s \<and> he_winner_addr t = he_winner_addr s \<or> pc = W_Take) \<and>
    (he_error t = he_error s \<or> (\<exists>e. pc = W_Coalesce (C_Error e))) \<and>
    cand_sock (he_candidates t ! i) = cand_sock (he_candidates s ! i) \<and>
    cand_addr (he_candidates t ! i) = cand_addr (he_candidates s ! i) \<and>
    (cand_connected (he_candidates s ! i) \<longrightarrow> cand_connected (he_candidates t ! i))"
  proof (cases pc)
    case (W_Coalesce c)
    have "he_error (fst (coalesce_errors now c s)) = he_error s \<or> (\<exists>e. c = C_Error e)" by (cases c) auto
    then show ?thesis
      using assms W_Coalesce
      by (auto simp: worker_action_def goto_def coalesce_frame nth_list_update split: prod.splits dest: coalesce_frame)
  qed (use assms in \<open>auto simp: worker_action_def goto_def nth_list_update split: if_splits option.splits\<close>)
  then show "workers t = workers s" and "\<And>j. j \<noteq> i \<Longrightarrow> he_candidates t ! j = he_candidates s ! j" and "he_main t = he_main s"
    and "he_is_starting t = he_is_starting s" and "he_completed s \<Longrightarrow> he_completed t"
    and "he_winner_mutex t = he_winner_mutex s \<or> he_winner_mutex s = None \<or> holds_mutex pc"
    and "he_socket_fd t = he_socket_fd s \<and> he_winner_addr t = he_winner_addr s \<or> pc = W_Take"
    and "he_error t = he_error s \<or> (\<exists>e. pc = W_Coalesce (C_Error e))"
    and "cand_sock (he_candidates t ! i) = cand_sock (he_candidates s ! i)"
    and "cand_addr (he_candidates t ! i) = cand_addr (he_candidates s ! i)"
    and "cand_connected (he_candidates s ! i) \<Longrightarrow> cand_connected (he_candidates t ! i)" by blast+
qed

lemma worker_step:
  assumes "happy_connect_worker now a i s = Some t"
  shows "i < workers s" and "worker_action now a i (pc_of s i) s = Some t"
  using assms by (auto simp: happy_connect_worker_def split: if_splits)

section \<open>The invariant\<close>

definition cand_ok :: "happy_eyeballs_ctx \<Rightarrow> nat \<Rightarrow> bool" where
  "cand_ok s i \<longleftrightarrow>
     (let c = he_candidates s ! i; pc = cand_pc c
      in (holds_mutex pc \<longrightarrow> he_winner_mutex s = Some i) \<and>
         (has_signalled pc \<longrightarrow> cand_completed c) \<and>
         (cand_completed c \<longrightarrow> has_signalled pc \<or> pc = W_Exit) \<and>
         (pc = W_Exit \<longrightarrow> cand_completed c \<or> he_completed s) \<and>
         (has_connected pc \<longrightarrow> cand_connected c) \<and>
         (pc = W_Take \<longrightarrow> he_socket_fd s = None) \<and>
         (pc = W_Created \<longrightarrow> Suc i = workers s \<and> \<not> cand_connected c \<and> (\<exists>n a as. he_main s = M_Thread n a as)))"

text \<open>The winner is a candidate that has connected, and the race is over or about to be.\<close>

definition winner_ok :: "happy_eyeballs_ctx \<Rightarrow> bool" where
  "winner_ok s \<longleftrightarrow>
     (\<forall>fd. he_socket_fd s = Some fd \<longrightarrow>
        (he_completed s \<or> (\<exists>i < workers s. pc_of s i = W_End)) \<and>
        (\<exists>c \<in> set (he_candidates s). cand_sock c = fd \<and> cand_connected c \<and> ai_addr (cand_addr c) = he_winner_addr s))"

fun late :: "coalesce_pc \<Rightarrow> bool" where
  "late C_Starting = False" | "late c = True"

fun attempts_ok :: "main_pc \<Rightarrow> nat \<Rightarrow> bool" where
  "attempts_ok (M_Next n prev as) k = (k = n \<and> n \<le> HAPPY_EYEBALLS_MAX_ATTEMPTS)"
| "attempts_ok (M_Thread n a as) k = (k = Suc n \<and> n < HAPPY_EYEBALLS_MAX_ATTEMPTS)"
| "attempts_ok (M_Wait n a as) k = (k = Suc n \<and> n < HAPPY_EYEBALLS_MAX_ATTEMPTS)"
| "attempts_ok pc k = (k \<le> HAPPY_EYEBALLS_MAX_ATTEMPTS)"

definition main_ok :: "happy_eyeballs_ctx \<Rightarrow> bool" where
  "main_ok s \<longleftrightarrow>
     (launching (he_main s) \<longrightarrow> he_is_starting s \<and> he_error s = 0) \<and>
     (stopped (he_main s) \<longrightarrow> \<not> he_is_starting s) \<and>
     (he_is_starting s \<longrightarrow> (\<forall>i < workers s. \<forall>c. pc_of s i = W_Coalesce c \<longrightarrow> \<not> late c)) \<and>
     ((\<exists>n a as. he_main s = M_Thread n a as) \<longrightarrow> pc_of s (workers s - 1) = W_Created) \<and>
     attempts_ok (he_main s) (workers s) \<and>
     ((\<exists>f. he_main s = M_Error f HE_Success) \<or> he_main s = M_Return HE_Success \<longrightarrow> he_completed s)"

lemma cand_ok_other:
  assumes t: "worker_action now a i (pc_of s i) s = Some t" and i: "i < workers s" and ok: "\<forall>j < workers s. cand_ok s j"
    and j: "j < workers s" "j \<noteq> i"
  shows "cand_ok t j"
proof -
  note frame = worker_frame [OF t i]
  have ij: "cand_ok s i" "cand_ok s j" using ok i j by auto
  have "he_winner_mutex t = he_winner_mutex s" if "holds_mutex (pc_of s j)"
    using frame(6) ij that j(2) by (auto simp: cand_ok_def Let_def)
  moreover have "he_socket_fd t = he_socket_fd s" if "pc_of s j = W_Take"
    using frame(7) ij that j(2) by (auto simp: cand_ok_def Let_def)
  ultimately show ?thesis
    using ij(2) frame(1,3,5) unfolding cand_ok_def Let_def frame(2) [OF j(2)] by auto
qed

lemma cand_ok_self:
  assumes t: "worker_action now a i (pc_of s i) s = Some t" and i: "i < workers s" and ok: "\<forall>j < workers s. cand_ok s j"
    and win: "winner_ok s"
  shows "cand_ok t i"
proof -
  have ci: "cand_ok s i" using ok i by simp
  have free: "he_socket_fd s = None" if tr: "pc_of s i = W_Try" and on: "\<not> he_completed s"
  proof (rule ccontr)
    assume "he_socket_fd s \<noteq> None"
    then obtain k where k: "k < workers s" "pc_of s k = W_End" using win on by (auto simp: winner_ok_def)
    then have "he_winner_mutex s = Some k" using ok by (auto simp: cand_ok_def Let_def)
    moreover have "he_winner_mutex s = Some i" using ci tr by (simp add: cand_ok_def Let_def)
    ultimately show False using k tr by simp
  qed
  show ?thesis
  proof (cases "pc_of s i")
    case (W_Coalesce c)
    then show ?thesis
      using t ci i
      by (auto simp: worker_action_def goto_def cand_ok_def Let_def coalesce_frame nth_list_update
          split: prod.splits option.splits dest: coalesce_frame)
  qed (use t ci i free in \<open>auto simp: worker_action_def goto_def cand_ok_def Let_def split: if_splits option.splits\<close>)
qed

lemma worker_keeps_cands:
  assumes "worker_action now a i (pc_of s i) s = Some t" and "i < workers s" and "\<forall>j < workers s. cand_ok s j"
    and "winner_ok s"
  shows "\<forall>j < workers t. cand_ok t j"
  using cand_ok_self [OF assms] cand_ok_other [OF assms(1-3)] worker_frame(1) [OF assms(1,2)] by metis

lemma worker_keeps_winner:
  assumes t: "worker_action now a i (pc_of s i) s = Some t" and i: "i < workers s" and ok: "\<forall>j < workers s. cand_ok s j"
    and win: "winner_ok s"
  shows "winner_ok t"
proof -
  have ci: "cand_ok s i" using ok i by simp
  note frame = worker_frame [OF t i]
  show ?thesis
  proof (cases "pc_of s i = W_Take")
    case True
    then have t': "t = goto i W_End (s\<lparr>he_socket_fd := Some (cand_sock (he_candidates s ! i)),
        he_winner_addr := ai_addr (cand_addr (he_candidates s ! i))\<rparr>)"
      using t by (simp add: worker_action_def)
    let ?c = "he_candidates t ! i"
    have "?c \<in> set (he_candidates t)" using i frame(1) by simp
    moreover have "cand_sock ?c = cand_sock (he_candidates s ! i) \<and> cand_addr ?c = cand_addr (he_candidates s ! i) \<and>
        cand_connected ?c \<and> pc_of t i = W_End"
      using ci i True by (simp add: t' goto_def cand_ok_def Let_def)
    ultimately have "\<exists>c \<in> set (he_candidates t). cand_sock c = cand_sock (he_candidates s ! i) \<and> cand_connected c \<and>
        ai_addr (cand_addr c) = ai_addr (cand_addr (he_candidates s ! i))" and "pc_of t i = W_End" by (metis)+
    then show ?thesis
      using i frame(1) unfolding winner_ok_def by (auto simp: t' goto_def)
  next
    case False
    then have sock: "he_socket_fd t = he_socket_fd s" "he_winner_addr t = he_winner_addr s" using frame(7) by simp_all
    have "he_completed t \<or> (\<exists>k < workers t. pc_of t k = W_End)" if "k < workers s" "pc_of s k = W_End" for k
    proof (cases "k = i")
      case True
      then show ?thesis using t that by (auto simp: worker_action_def goto_def)
    next
      case False
      then show ?thesis using that frame(1,2) by auto
    qed
    moreover have "\<exists>d \<in> set (he_candidates t). cand_sock d = cand_sock c \<and> cand_connected d \<and> cand_addr d = cand_addr c"
      if c: "c \<in> set (he_candidates s)" "cand_connected c" for c
    proof -
      obtain k where k: "k < workers s" "c = he_candidates s ! k" using c by (auto simp: in_set_conv_nth)
      then have "he_candidates t ! k \<in> set (he_candidates t)" using frame(1) by simp
      moreover have "cand_sock (he_candidates t ! k) = cand_sock c \<and>
          cand_connected (he_candidates t ! k) \<and> cand_addr (he_candidates t ! k) = cand_addr c"
        using k frame(1,2,9,10,11) c(2) by (cases "k = i") auto
      ultimately show ?thesis by blast
    qed
    ultimately show ?thesis
      using win frame(5) unfolding winner_ok_def sock by metis
  qed
qed

lemma worker_keeps_main:
  assumes t: "worker_action now a i (pc_of s i) s = Some t" and i: "i < workers s" and ok: "main_ok s"
  shows "main_ok t"
proof -
  note frame = worker_frame [OF t i]
  have late: "\<not> late c" if "he_is_starting s" "pc_of t j = W_Coalesce c" "j < workers s" for j c
  proof (cases "j = i")
    case False
    then show ?thesis using ok that frame(2) by (auto simp: main_ok_def)
  next
    case True
    have quiet: "pc_of s i = W_Coalesce d \<Longrightarrow> d = C_Starting" for d
      using ok that i by (cases d) (auto simp: main_ok_def)
    show ?thesis
    proof (cases "pc_of s i")
      case (W_Coalesce d)
      then show ?thesis using quiet [OF W_Coalesce] t that i True by (auto simp: worker_action_def goto_def)
    qed (use t that i True in \<open>auto simp: worker_action_def goto_def split: if_splits option.splits\<close>)
  qed
  have err: "he_error t = he_error s" if "he_is_starting s"
  proof -
    have "pc_of s i \<noteq> W_Coalesce (C_Error e)" for e using ok that i by (auto simp: main_ok_def)
    then show ?thesis using frame(8) by auto
  qed
  have created: "pc_of t j = W_Created" if "pc_of s j = W_Created" for j
  proof -
    have "j \<noteq> i" using t that by (auto simp: worker_action_def)
    then show ?thesis using that frame(2) by simp
  qed
  show ?thesis
    using ok late err created frame(1,3,4,5) unfolding main_ok_def by auto
qed

section \<open>The connecting thread\<close>

definition race_ok :: "happy_eyeballs_ctx \<Rightarrow> bool" where
  "race_ok s \<longleftrightarrow> (\<forall>i < workers s. cand_ok s i) \<and> winner_ok s \<and> main_ok s"

lemma worker_keeps_ok: "race_ok s \<Longrightarrow> happy_connect_worker now a i s = Some t \<Longrightarrow> race_ok t"
  using worker_step worker_keeps_cands worker_keeps_winner worker_keeps_main unfolding race_ok_def by metis

text \<open>Its steps that leave the candidates alone.\<close>

lemma same_candidates_ok:
  assumes ok: "race_ok s" and t: "he_candidates t = he_candidates s" "he_socket_fd t = he_socket_fd s"
      "he_winner_addr t = he_winner_addr s" "he_winner_mutex t = he_winner_mutex s" "he_completed s \<Longrightarrow> he_completed t"
    and main: "main_ok t" "\<nexists>n a as. he_main s = M_Thread n a as"
  shows "race_ok t"
proof -
  have "cand_ok t i" if "i < workers t" for i
  proof -
    have "cand_ok s i" using ok that t(1) by (simp add: race_ok_def)
    then show ?thesis using t main(2) by (auto simp: cand_ok_def Let_def)
  qed
  moreover have "winner_ok t" using ok t by (auto simp: race_ok_def winner_ok_def)
  ultimately show ?thesis using main(1) by (simp add: race_ok_def)
qed

lemma launch_candidate_ok:
  assumes ok: "race_ok s" and main: "he_main s = M_Next n prev (addr # others)" "n < HAPPY_EYEBALLS_MAX_ATTEMPTS"
  shows "race_ok (launch_candidate n addr others got s)"
proof (cases got)
  case (Inl e)
  have "main_ok (launch_candidate n addr others got s)"
    using ok main by (auto simp: race_ok_def main_ok_def launch_candidate_def Inl)
  then show ?thesis
    using same_candidates_ok [OF ok, of "launch_candidate n addr others got s"] main by (simp add: launch_candidate_def Inl)
next
  case (Inr fd)
  let ?t = "launch_candidate n addr others got s"
  have t: "?t = s\<lparr>he_candidates := he_candidates s @ [new_candidate fd addr], he_main := M_Thread n addr others\<rparr>"
    by (simp add: launch_candidate_def Inr)
  have "cand_ok ?t i" if "i < workers ?t" for i
  proof (cases "i < workers s")
    case True
    then have "cand_ok s i" using ok by (simp add: race_ok_def)
    then show ?thesis using True main by (auto simp: t cand_ok_def Let_def nth_append)
  next
    case False
    then have "i = workers s" using that by (simp add: t)
    then show ?thesis by (simp add: t cand_ok_def Let_def new_candidate_def)
  qed
  moreover have "winner_ok ?t" using ok by (fastforce simp: race_ok_def winner_ok_def t nth_append)
  moreover have "main_ok ?t"
    using ok main by (auto simp: race_ok_def main_ok_def t nth_append new_candidate_def)
  ultimately show ?thesis by (simp add: race_ok_def)
qed

lemma launch_thread_ok:
  assumes ok: "race_ok s" and main: "he_main s = M_Thread n addr others"
  shows "race_ok (launch_thread n addr others result s)"
proof -
  let ?k = "workers s - 1"
  have some: "workers s = Suc n" and n: "n < HAPPY_EYEBALLS_MAX_ATTEMPTS" and last: "pc_of s ?k = W_Created"
    and start: "he_is_starting s" "he_error s = 0"
    using ok main by (auto simp: race_ok_def main_ok_def)
  have cands: "cand_ok s i" if "i < workers s" for i using ok that by (simp add: race_ok_def)
  have notstarted: "pc_of s i \<noteq> W_Created" if "i < ?k" for i
  proof -
    have "i < workers s" "Suc i \<noteq> workers s" using that by linarith+
    then show ?thesis using cands [of i] by (auto simp: cand_ok_def Let_def)
  qed
  show ?thesis
  proof (cases "result = 0")
    case True
    let ?t = "launch_thread n addr others result s"
    have t: "?t = goto ?k W_Start (s\<lparr>he_main := M_Wait n addr others\<rparr>)" by (simp add: launch_thread_def True)
    have "cand_ok ?t i" if i: "i < workers ?t" for i
    proof (cases "i = ?k")
      case True
      then show ?thesis using cands [of ?k] last some by (auto simp: t goto_def cand_ok_def Let_def)
    next
      case False
      then have "i < ?k" using i some by (simp add: t goto_def)
      then show ?thesis using cands [of i] notstarted [of i] some by (auto simp: t goto_def cand_ok_def Let_def)
    qed
    moreover have "winner_ok ?t"
    proof -
      have "\<exists>d \<in> set (he_candidates ?t). cand_sock d = cand_sock c \<and> cand_connected d \<and> cand_addr d = cand_addr c"
        if c: "c \<in> set (he_candidates s)" "cand_connected c" for c
      proof -
        obtain i where i: "i < workers s" "c = he_candidates s ! i" using c by (auto simp: in_set_conv_nth)
        then have "he_candidates ?t ! i \<in> set (he_candidates ?t)" by (simp add: t goto_def)
        moreover have "cand_sock (he_candidates ?t ! i) = cand_sock c \<and> cand_connected (he_candidates ?t ! i) \<and>
            cand_addr (he_candidates ?t ! i) = cand_addr c"
          using i c(2) by (cases "i = ?k") (auto simp: t goto_def)
        ultimately show ?thesis by blast
      qed
      moreover have "pc_of ?t i = W_End" if "pc_of s i = W_End" for i
        using that last by (cases "i = ?k") (auto simp: t goto_def)
      moreover have "workers ?t = workers s" "he_completed ?t = he_completed s" "he_socket_fd ?t = he_socket_fd s"
        "he_winner_addr ?t = he_winner_addr s" by (simp_all add: t goto_def)
      ultimately show ?thesis using ok unfolding race_ok_def winner_ok_def by metis
    qed
    moreover have "main_ok ?t"
    proof -
      have "\<not> late c" if "pc_of ?t i = W_Coalesce c" "i < workers ?t" for i c
        using that ok start some by (cases "i = ?k") (auto simp: t goto_def race_ok_def main_ok_def)
      then show ?thesis using start n some unfolding main_ok_def by (auto simp: t goto_def)
    qed
    ultimately show ?thesis by (simp add: race_ok_def)
  next
    case False
    let ?t = "launch_thread n addr others result s"
    have t: "?t = s\<lparr>he_error := result, he_candidates := butlast (he_candidates s), he_main := M_Return HE_Failure\<rparr>"
      by (simp add: launch_thread_def False)
    have same: "he_candidates ?t ! i = he_candidates s ! i" if "i < ?k" for i using that by (simp add: t nth_butlast)
    have w: "workers ?t = ?k" by (simp add: t)
    have "cand_ok ?t i" if i: "i < workers ?t" for i
      using cands [of i] notstarted [of i] same [of i] i w by (auto simp: cand_ok_def Let_def t)
    moreover have "winner_ok ?t"
    proof -
      have "c \<in> set (he_candidates ?t)" if c: "c \<in> set (he_candidates s)" "cand_connected c" for c
      proof -
        obtain i where i: "i < workers s" "c = he_candidates s ! i" using c by (auto simp: in_set_conv_nth)
        have "i \<noteq> ?k" using i c(2) cands [of ?k] last some by (auto simp: cand_ok_def Let_def)
        then have "i < ?k" using i(1) by simp
        then show ?thesis using same [of i] i(2) w by (metis nth_mem)
      qed
      moreover have "i < ?k" if "i < workers s" "pc_of s i = W_End" for i using that last by (cases "i = ?k") auto
      ultimately show ?thesis
        using ok same w unfolding race_ok_def winner_ok_def by (simp add: t) metis
    qed
    moreover have "main_ok ?t"
    proof -
      have "\<not> late c" if "pc_of ?t i = W_Coalesce c" "i < workers ?t" for i c
      proof -
        have "i < workers s" "pc_of s i = W_Coalesce c" using that w same [of i] by simp_all
        then show ?thesis using ok start(1) by (simp add: race_ok_def main_ok_def)
      qed
      then show ?thesis using n some w unfolding main_ok_def by (auto simp: t)
    qed
    ultimately show ?thesis by (simp add: race_ok_def)
  qed
qed

lemma connect_keeps_ok:
  assumes ok: "race_ok s" and step: "happy_eyeballs_connect now answer s = Some t"
  shows "race_ok t"
proof -
  have quiet: "race_ok t" if "he_candidates t = he_candidates s" "he_socket_fd t = he_socket_fd s"
      "he_winner_addr t = he_winner_addr s" "he_winner_mutex t = he_winner_mutex s" "he_completed s \<Longrightarrow> he_completed t"
      "main_ok t" "\<nexists>n a as. he_main s = M_Thread n a as"
    using same_candidates_ok [OF ok that] .
  have main: "main_ok s" using ok by (simp add: race_ok_def)
  have t: "main_action now answer (he_main s) s = Some t" using step by (simp add: happy_eyeballs_connect_def)
  show ?thesis
  proof (cases "he_main s")
    case (M_Next n prev as)
    show ?thesis
    proof (cases "he_candidates t = he_candidates s")
      case True
      have "main_ok t" using t main M_Next True
        by (auto simp: main_action_def main_ok_def launch_candidate_def split: list.splits if_splits system_answer.splits sum.splits)
      then show ?thesis using t M_Next True
        by (intro quiet)
          (auto simp: main_action_def launch_candidate_def split: list.splits if_splits system_answer.splits sum.splits)
    next
      case False
      then show ?thesis using t M_Next launch_candidate_ok [OF ok]
        by (auto simp: main_action_def split: list.splits if_splits system_answer.splits)
    qed
  next
    case (M_Thread n a as)
    then show ?thesis using t launch_thread_ok [OF ok] by (auto simp: main_action_def split: system_answer.splits)
  next
    case (M_Wait n a as)
    have "main_ok t" using t main M_Wait
      by (auto simp: main_action_def main_ok_def wait_delay_def split: if_splits system_answer.splits wait_result.splits)
    then show ?thesis using t M_Wait
      by (intro quiet) (auto simp: main_action_def wait_delay_def split: if_splits system_answer.splits wait_result.splits)
  next
    case (M_Coalesce c)
    obtain s1 next1 where c: "coalesce_errors now c s = (s1, next1)" by (cases "coalesce_errors now c s")
    have t': "t = s1\<lparr>he_main := (case next1 of None \<Rightarrow> M_Status False | Some c1 \<Rightarrow> M_Coalesce c1)\<rparr>"
      using t M_Coalesce c by (simp add: main_action_def)
    have "main_ok t" using main M_Coalesce coalesce_frame [OF c]
      by (cases next1) (auto simp: main_ok_def t')
    then show ?thesis using M_Coalesce coalesce_frame [OF c] by (intro quiet) (auto simp: t')
  qed (rule quiet; insert t main; auto simp: main_action_def main_ok_def Let_def split: if_splits)+
qed

lemma race_start_shape:
  assumes "race_start s"
  shows "\<exists>now addr addrs. s = happy_eyeballs_create\<lparr>he_bind_addr := addr, he_time_start := now, he_is_starting := True,
    he_main := M_Next 0 0 addrs\<rparr>"
proof -
  obtain now addr addrs where s: "s = start_race now None (Inr addrs) (happy_eyeballs_set_bind_addr addr happy_eyeballs_create)"
    using assms unfolding race_start_def by blast
  obtain as where "build_addr_list (Inr addrs) = Inr as" by (cases addrs) (auto simp: build_addr_list_def)
  then show ?thesis by (auto simp: s start_race_def check_comodo_def happy_eyeballs_set_bind_addr_def)
qed

interpretation race: guarded_system race_start he_step race_ok
proof
  show "race_ok s" if start: "race_start s" for s
  proof -
    obtain now addr addrs where s: "s = happy_eyeballs_create\<lparr>he_bind_addr := addr, he_time_start := now, he_is_starting := True,
        he_main := M_Next 0 0 addrs\<rparr>"
      using race_start_shape [OF start] by blast
    show ?thesis
      by (auto simp: s happy_eyeballs_create_def race_ok_def winner_ok_def main_ok_def HAPPY_EYEBALLS_MAX_ATTEMPTS_def)
  qed
  show "race_ok t" if "race_ok s" "he_step s t" for s t
    using that(2,1) by cases (auto intro: worker_keeps_ok connect_keeps_ok)
qed

section \<open>Somebody ends the race\<close>

definition all_completed :: "happy_eyeballs_ctx \<Rightarrow> bool" where
  "all_completed s \<longleftrightarrow> (\<forall>i < workers s. cand_completed (he_candidates s ! i))"

text \<open>The connecting thread is going to find that all threads have failed.\<close>

fun looks :: "main_pc \<Rightarrow> bool" where
  "looks (M_Status f) = f" | "looks (M_Error f st) = (f \<and> st = HE_Again)" | "looks (M_Count k n) = (n = 0)"
| "looks pc = False"

fun coalesces :: "main_pc \<Rightarrow> bool" where
  "coalesces (M_Coalesce c) = True" | "coalesces pc = False"

definition hope :: "happy_eyeballs_ctx \<Rightarrow> bool" where
  "hope s \<longleftrightarrow> (\<exists>i < workers s. hopeful (pc_of s i)) \<or> coalesces (he_main s) \<or> all_completed s \<and> looks (he_main s)"

definition ending :: "happy_eyeballs_ctx \<Rightarrow> bool" where
  "ending s \<longleftrightarrow> (\<exists>i < workers s. pc_of s i = W_Coalesce C_End) \<or> he_main s = M_Coalesce C_End"

definition hope_ok :: "happy_eyeballs_ctx \<Rightarrow> bool" where
  "hope_ok s \<longleftrightarrow> race_ok s \<and> (\<not> he_completed s \<and> \<not> he_is_starting s \<longrightarrow> hope s \<and> (he_error s \<noteq> 0 \<longrightarrow> ending s))"

lemma unsignalled_hopeful:
  assumes "race_ok s" and "\<not> he_completed s" and "\<nexists>n a as. he_main s = M_Thread n a as"
    and "i < workers s" and "\<not> cand_completed (he_candidates s ! i)"
  shows "hopeful (pc_of s i)"
  using assms by (cases "pc_of s i") (auto simp: race_ok_def cand_ok_def Let_def)

text \<open>A thread that could have ended the race and no longer can has left somebody who will.\<close>

lemma worker_moves_on:
  assumes t: "worker_action now a i (pc_of s i) s = Some t" and i: "i < workers s" and on: "\<not> he_completed t"
    and start: "\<not> he_is_starting s" and h: "hopeful (pc_of s i)" and lost: "\<not> hopeful (pc_of t i)"
  shows "pc_of s i = W_Scan False \<and> \<not> all_completed s \<or> pc_of s i = W_Check False \<and> he_error s \<noteq> 0"
proof (cases "pc_of s i")
  case (W_Coalesce c)
  then show ?thesis using t i on start lost
    by (cases c) (auto simp: worker_action_def goto_def split: if_splits)
next
  case (W_Scan b)
  then have b: "\<not> b" and "\<not> hopeful (W_FUnlock (\<exists>c \<in> set (he_candidates s). \<not> cand_completed c))"
    using t i h lost by (auto simp: worker_action_def goto_def)
  then obtain c where "c \<in> set (he_candidates s)" "\<not> cand_completed c" by auto
  then have "\<not> all_completed s" unfolding all_completed_def by (metis in_set_conv_nth)
  then show ?thesis using W_Scan b by simp
qed (use t i on start h lost in \<open>auto simp: worker_action_def goto_def split: if_splits option.splits\<close>)

lemma worker_completes:
  assumes "worker_action now a i (pc_of s i) s = Some t" and "i < workers s"
    and "cand_completed (he_candidates s ! j)"
  shows "cand_completed (he_candidates t ! j)"
proof (cases "j = i")
  case False
  then show ?thesis using worker_frame(2) [OF assms(1,2)] assms(3) by simp
next
  case True
  show ?thesis
  proof (cases "pc_of s i")
    case (W_Coalesce c)
    then show ?thesis using assms True
      by (auto simp: worker_action_def goto_def nth_list_update coalesce_frame split: prod.splits)
  qed (use assms True in \<open>auto simp: worker_action_def goto_def split: if_splits option.splits\<close>)
qed

lemma worker_keeps_hope:
  assumes ok: "hope_ok s" and step: "happy_connect_worker now a i s = Some t"
  shows "hope_ok t"
proof -
  note i = worker_step(1) [OF step] and t = worker_step(2) [OF step]
  note frame = worker_frame [OF t i]
  have race: "race_ok s" "race_ok t" using ok worker_keeps_ok [OF _ step] by (auto simp: hope_ok_def)
  have "hope t \<and> (he_error t \<noteq> 0 \<longrightarrow> ending t)" if on: "\<not> he_completed t" and st: "\<not> he_is_starting t"
  proof -
    have s: "\<not> he_completed s" "\<not> he_is_starting s" using on st frame(4,5) by auto
    have hs: "hope s" and es: "he_error s \<noteq> 0 \<Longrightarrow> ending s" using ok s by (auto simp: hope_ok_def)
    have all: "all_completed t" if "all_completed s"
      using that worker_completes [OF t i] frame(1) by (auto simp: all_completed_def)
    have other: "hope t" if "j < workers s" "j \<noteq> i" "hopeful (pc_of s j)" for j
      using that frame(1,2) by (auto simp: hope_def)
    have no_thread: "\<nexists>n a as. he_main s = M_Thread n a as"
      using race(1) s(2) by (auto simp: race_ok_def main_ok_def)
    have "ending t" if "ending s"
    proof -
      have "pc_of s i \<noteq> W_Coalesce C_End" using t on i by (auto simp: worker_action_def goto_def)
      then show ?thesis using that frame(1,2,3) unfolding ending_def by metis
    qed
    moreover have "ending t" if err: "he_error t \<noteq> he_error s"
    proof -
      obtain e where "pc_of s i = W_Coalesce (C_Error e)" using frame(8) err by auto
      then have "pc_of t i = W_Coalesce C_End" using t i by (auto simp: worker_action_def goto_def)
      then show ?thesis using i frame(1) by (auto simp: ending_def)
    qed
    ultimately have "he_error t \<noteq> 0 \<longrightarrow> ending t" using es by metis
    moreover have "hope t"
    proof (cases "hopeful (pc_of s i)")
      case False
      then have "(\<exists>j < workers s. j \<noteq> i \<and> hopeful (pc_of s j)) \<or> coalesces (he_main s) \<or> all_completed s \<and> looks (he_main s)"
        using hs unfolding hope_def by metis
      then show ?thesis using other all frame(3) by (auto simp: hope_def)
    next
      case True
      show ?thesis
      proof (cases "hopeful (pc_of t i)")
        case True
        then show ?thesis using i frame(1) by (auto simp: hope_def)
      next
        case False
        consider "pc_of s i = W_Scan False" "\<not> all_completed s" | "pc_of s i = W_Check False" "he_error s \<noteq> 0"
          using worker_moves_on [OF t i on s(2) True False] by blast
        then show ?thesis
        proof cases
          case 1
          then obtain j where j: "j < workers s" "\<not> cand_completed (he_candidates s ! j)" by (auto simp: all_completed_def)
          then have "j \<noteq> i" using race(1) i 1(1) by (auto simp: race_ok_def cand_ok_def Let_def)
          then show ?thesis using other [OF j(1)] unsignalled_hopeful [OF race(1) s(1) no_thread j] by simp
        next
          case 2
          then have "ending s" using es by simp
          then consider j where "j < workers s" "pc_of s j = W_Coalesce C_End" | "he_main s = M_Coalesce C_End"
            by (auto simp: ending_def)
          then show ?thesis
          proof cases
            case 1
            then have "j \<noteq> i" using 2(1) by auto
            then show ?thesis using other [OF 1(1)] 1(2) by simp
          next
            case 2
            then show ?thesis using frame(3) by (simp add: hope_def)
          qed
        qed
      qed
    qed
    ultimately show ?thesis by blast
  qed
  then show ?thesis using race(2) by (simp add: hope_ok_def)
qed

text \<open>With the candidates, the error and the end of the race as they were, the threads keep their hope.\<close>

lemma connect_keeps_hope:
  assumes ok: "hope_ok s" and step: "happy_eyeballs_connect now answer s = Some t"
  shows "hope_ok t"
proof -
  have race: "race_ok s" "race_ok t" using ok connect_keeps_ok [OF _ step] by (auto simp: hope_ok_def)
  have t: "main_action now answer (he_main s) s = Some t" using step by (simp add: happy_eyeballs_connect_def)
  have main: "main_ok s" using race(1) by (simp add: race_ok_def)
  have hs: "hope s \<and> (he_error s \<noteq> 0 \<longrightarrow> ending s)" if "\<not> he_completed s" "\<not> he_is_starting s"
    using ok that by (auto simp: hope_ok_def)
  have "hope t \<and> (he_error t \<noteq> 0 \<longrightarrow> ending t)" if on: "\<not> he_completed t" and st: "\<not> he_is_starting t"
  proof (cases "he_main s")
    case (M_Next n prev as)
    then show ?thesis using t main st
      by (auto simp: main_action_def main_ok_def launch_candidate_def split: list.splits if_splits system_answer.splits sum.splits)
  next
    case (M_Thread n a as)
    then show ?thesis using t main st
      by (auto simp: main_action_def main_ok_def launch_thread_def goto_def split: if_splits system_answer.splits)
  next
    case (M_Wait n a as)
    then show ?thesis using t main st
      by (auto simp: main_action_def main_ok_def wait_delay_def split: if_splits system_answer.splits wait_result.splits)
  next
    case M_Stop
    then have t': "t = s\<lparr>he_is_starting := False, he_main := M_Status True\<rparr>" and err: "he_error s = 0"
      using t main by (auto simp: main_action_def main_ok_def)
    have "hope t"
    proof (cases "all_completed s")
      case True
      then show ?thesis by (simp add: hope_def t' all_completed_def)
    next
      case False
      then obtain j where j: "j < workers s" "\<not> cand_completed (he_candidates s ! j)" by (auto simp: all_completed_def)
      have "hopeful (pc_of s j)" using unsignalled_hopeful [OF race(1) _ _ j] on M_Stop by (simp add: t')
      then show ?thesis using j(1) by (auto simp: hope_def t')
    qed
    then show ?thesis using err by (simp add: t')
  next
    case (M_Status f)
    then have t': "t = s\<lparr>he_main := M_Error f HE_Again\<rparr>" using t on by (auto simp: main_action_def split: if_splits)
    then show ?thesis using hs on st M_Status by (auto simp: hope_def ending_def all_completed_def)
  next
    case (M_Error f status)
    have same: "\<not> he_completed s" "\<not> he_is_starting s" "he_candidates t = he_candidates s" "he_error t = he_error s"
      using t on st M_Error by (auto simp: main_action_def Let_def)
    have no: "he_main s \<noteq> M_Coalesce C_End" using M_Error by simp
    show ?thesis
    proof (cases "he_error s = 0")
      case True
      then have "he_main t = (if \<not> f then M_Return status else if status = HE_Again then M_Count 0 0 else M_Status False)"
        using t M_Error by (auto simp: main_action_def Let_def)
      then show ?thesis using hs [OF same(1,2)] same(3,4) M_Error True
        by (auto simp: hope_def all_completed_def split: if_splits)
    next
      case False
      then obtain j where "j < workers s" "pc_of s j = W_Coalesce C_End" using hs [OF same(1,2)] no by (auto simp: ending_def)
      then show ?thesis using same(3) by (auto simp: hope_def ending_def)
    qed
  next
    case (M_Count k n)
    have same: "\<not> he_completed s" "\<not> he_is_starting s" "he_candidates t = he_candidates s" "he_error t = he_error s"
      using t on st M_Count by (auto simp: main_action_def split: if_splits)
    have "he_error s = 0 \<or> ending t" using hs [OF same(1,2)] same(3) M_Count by (auto simp: ending_def)
    moreover have "hope t"
      using hs [OF same(1,2)] same(3) M_Count t
      by (auto simp: hope_def all_completed_def main_action_def split: if_splits)
    ultimately show ?thesis using same(4) by auto
  next
    case (M_Coalesce c)
    obtain s1 next1 where c: "coalesce_errors now c s = (s1, next1)" by (cases "coalesce_errors now c s")
    have t': "t = s1\<lparr>he_main := (case next1 of None \<Rightarrow> M_Status False | Some c1 \<Rightarrow> M_Coalesce c1)\<rparr>"
      using t M_Coalesce c by (simp add: main_action_def)
    have same: "\<not> he_completed s" "\<not> he_is_starting s" using on st coalesce_frame [OF c] by (auto simp: t')
    have "\<exists>c1. next1 = Some c1 \<and> (he_error s1 \<noteq> 0 \<longrightarrow> c1 = C_End \<or> he_error s1 = he_error s \<and> c \<noteq> C_End)"
      using c same on t' by (cases c) auto
    then obtain c1 where c1: "next1 = Some c1" "he_error s1 \<noteq> 0 \<longrightarrow> c1 = C_End \<or> he_error s1 = he_error s \<and> c \<noteq> C_End" by blast
    have "he_error t \<noteq> 0 \<longrightarrow> ending t"
      using c1 hs [OF same] coalesce_frame(1) [OF c] M_Coalesce by (auto simp: t' ending_def)
    then show ?thesis using c1 by (simp add: hope_def t')
  next
    case (M_Return st)
    then show ?thesis using t by (simp add: main_action_def)
  qed
  then show ?thesis using race(2) by (simp add: hope_ok_def)
qed

interpretation ended: guarded_system race_start he_step hope_ok
proof
  show "hope_ok s" if start: "race_start s" for s
  proof -
    have "race_ok s" using start by (rule race.init_inv)
    moreover have "he_is_starting s" using race_start_shape [OF start] by auto
    ultimately show ?thesis by (simp add: hope_ok_def)
  qed
  show "hope_ok t" if "hope_ok s" "he_step s t" for s t
    using that(2,1) by cases (auto intro: worker_keeps_hope connect_keeps_hope)
qed

end
