(* ===== verification/Happy_Properties.thy ===== *)
theory Happy_Properties
  imports Happy_Race "HOL-Library.Multiset"
begin

text \<open>
  The properties of the race for a connection: the order of the addresses, the winner, the end of the race, the
  error that is reported; and two runs in which a connection is lost.
\<close>

section \<open>The order of the addresses\<close>

definition other_family :: "int \<Rightarrow> int" where
  "other_family f = (if f = AF_INET then AF_INET6 else AF_INET)"

text \<open>Two of one family follow each other only where none of the other family is left.\<close>

fun alternates :: "int \<Rightarrow> addrinfo list \<Rightarrow> bool" where
  "alternates prev [] = True"
| "alternates prev (a # as) =
     ((prev = ai_family a \<and> prev \<in> {AF_INET, AF_INET6} \<longrightarrow> (\<forall>b \<in> set as. ai_family b \<noteq> other_family prev)) \<and>
      alternates (ai_family a) as)"

lemma alternates_one_kind:
  "f \<in> {AF_INET, AF_INET6} \<Longrightarrow> \<forall>a \<in> set as. ai_family a \<noteq> other_family f \<Longrightarrow> prev \<noteq> other_family f \<Longrightarrow> alternates prev as"
  by (induction as arbitrary: prev) (auto simp: other_family_def AF_INET_def AF_INET6_def)

lemma interleave_kept:
  assumes "prev = ai_family cur \<and> ai_family cur \<in> {AF_INET, AF_INET6}" and "\<forall>a \<in> set rest. ai_family a \<noteq> other_family prev"
  shows "interleave prev (cur # rest) = cur # rest"
proof -
  have none: "dropWhile (\<lambda>a. ai_family a \<noteq> other_family prev) rest = []" using assms(2) by (simp add: dropWhile_eq_Nil_conv)
  show ?thesis unfolding interleave.simps(2) other_family_def [symmetric] Let_def if_P [OF assms(1)] none list.case ..
qed

lemma interleave_swapped:
  assumes "prev = ai_family cur \<and> ai_family cur \<in> {AF_INET, AF_INET6}"
    and "\<forall>a \<in> set before. ai_family a \<noteq> other_family prev" and "ai_family it = other_family prev"
  shows "interleave prev (cur # before @ it # behind) = it # cur # interleave (ai_family cur) (before @ behind)"
proof -
  have "dropWhile (\<lambda>a. ai_family a \<noteq> other_family prev) (before @ it # behind) = it # behind"
    and "takeWhile (\<lambda>a. ai_family a \<noteq> other_family prev) (before @ it # behind) = before"
    using assms(2,3) by (simp_all add: dropWhile_append2 takeWhile_append2)
  then show ?thesis unfolding interleave.simps(2) other_family_def [symmetric] Let_def if_P [OF assms(1)] by simp
qed

text \<open>The three ways of the loop, as a rule.\<close>

lemma interleave_cases:
  fixes P :: "int \<Rightarrow> addrinfo list \<Rightarrow> addrinfo list \<Rightarrow> bool"
  assumes nil: "\<And>prev. P prev [] []"
    and other: "\<And>prev cur rest out. \<not> (prev = ai_family cur \<and> ai_family cur \<in> {AF_INET, AF_INET6}) \<Longrightarrow>
      P (ai_family cur) rest out \<Longrightarrow> P prev (cur # rest) (cur # out)"
    and kept: "\<And>cur rest. ai_family cur \<in> {AF_INET, AF_INET6} \<Longrightarrow>
      \<forall>a \<in> set rest. ai_family a \<noteq> other_family (ai_family cur) \<Longrightarrow> P (ai_family cur) (cur # rest) (cur # rest)"
    and swapped: "\<And>cur before it behind out. ai_family cur \<in> {AF_INET, AF_INET6} \<Longrightarrow>
      ai_family it = other_family (ai_family cur) \<Longrightarrow> P (ai_family cur) (before @ behind) out \<Longrightarrow>
      P (ai_family cur) (cur # before @ it # behind) (it # cur # out)"
  shows "P prev as (interleave prev as)"
proof (induction as arbitrary: prev rule: length_induct)
  case (1 as)
  show ?case
  proof (cases as)
    case Nil
    then show ?thesis using nil by simp
  next
    case (Cons cur rest)
    show ?thesis
    proof (cases "prev = ai_family cur \<and> ai_family cur \<in> {AF_INET, AF_INET6}")
      case False
      then have "interleave prev as = cur # interleave (ai_family cur) rest" using Cons by auto
      then show ?thesis using other [OF False] 1 Cons by simp
    next
      case True
      show ?thesis
      proof (cases "\<forall>a \<in> set rest. ai_family a \<noteq> other_family prev")
        case none: True
        show ?thesis using interleave_kept [OF True none] kept [of cur rest] True none Cons by auto
      next
        case False
        then obtain before it behind where rest: "rest = before @ it # behind" "ai_family it = other_family prev"
            "\<forall>a \<in> set before. ai_family a \<noteq> other_family prev"
          using split_list_first_prop [of rest "\<lambda>a. ai_family a = other_family prev"] by metis
        have "P (ai_family cur) (before @ behind) (interleave (ai_family cur) (before @ behind))"
          using 1 Cons rest(1) by simp
        then show ?thesis using swapped [of cur it before behind] interleave_swapped [OF True rest(3,2)] True rest Cons by auto
      qed
    qed
  qed
qed

lemma interleave_mset: "mset (interleave prev as) = mset as"
  by (rule interleave_cases [of "\<lambda>_ as out. mset out = mset as"]) auto

lemma interleave_alternates: "alternates prev (interleave prev as)"
proof (rule interleave_cases [of "\<lambda>prev _ out. alternates prev out"])
  show "alternates (ai_family cur) (cur # rest)"
    if "ai_family cur \<in> {AF_INET, AF_INET6}" "\<forall>a \<in> set rest. ai_family a \<noteq> other_family (ai_family cur)" for cur rest
    using that alternates_one_kind [OF that] by (auto simp: other_family_def AF_INET_def AF_INET6_def)
  show "alternates (ai_family cur) (it # cur # out)"
    if "ai_family cur \<in> {AF_INET, AF_INET6}" "ai_family it = other_family (ai_family cur)" "alternates (ai_family cur) out"
    for cur it :: addrinfo and out
    using that by (auto simp: other_family_def AF_INET_def AF_INET6_def)
qed auto

text \<open>C40: The addresses of a server are tried in an order in which IPv4 and IPv6 take turns as long as there are
  both: the list keeps its first address and all the others, and two of one family follow each other only where
  none of the other family is left.\<close>

theorem addresses_take_turns:
  assumes "build_addr_list (Inr addrs) = Inr ordered" and "addrs \<noteq> []"
  shows "mset ordered = mset addrs \<and> hd ordered = hd addrs \<and> alternates 0 ordered"
  using assms interleave_mset interleave_alternates by (auto simp: build_addr_list_def neq_Nil_conv AF_INET_def AF_INET6_def)

abbreviation v4 :: "nat \<Rightarrow> addrinfo" where "v4 n \<equiv> \<lparr>ai_family = AF_INET, ai_addr = [of_nat n]\<rparr>"
abbreviation v6 :: "nat \<Rightarrow> addrinfo" where "v6 n \<equiv> \<lparr>ai_family = AF_INET6, ai_addr = [of_nat n]\<rparr>"

lemma addresses_take_turns_witness:
  "build_addr_list (Inr [v6 1, v6 2, v4 3, v4 4]) = Inr [v6 1, v4 3, v6 2, v4 4] \<and> alternates 0 [v6 1, v4 3, v6 2, v4 4]"
proof -
  have "build_addr_list (Inr [v6 1, v6 2, v4 3, v4 4]) = Inr [v6 1, v4 3, v6 2, v4 4]"
    by (simp add: build_addr_list_def AF_INET_def AF_INET6_def)
  then show ?thesis using addresses_take_turns [of "[v6 1, v6 2, v4 3, v4 4]" "[v6 1, v4 3, v6 2, v4 4]"] by simp
qed


section \<open>The winner\<close>

lemma connect_leaves_winner:
  assumes "happy_eyeballs_connect now answer u = Some v"
  shows "he_socket_fd v = he_socket_fd u \<and> he_winner_addr v = he_winner_addr u"
proof (cases "he_main u")
  case (M_Coalesce c)
  then show ?thesis using assms
    by (auto simp: happy_eyeballs_connect_def main_action_def coalesce_frame split: prod.splits)
qed (use assms in \<open>auto simp: happy_eyeballs_connect_def main_action_def launch_candidate_def launch_thread_def goto_def
  wait_delay_def Let_def split: list.splits if_splits system_answer.splits sum.splits wait_result.splits\<close>)

text \<open>C38: A race has one winner: once there is a socket it is the socket of a candidate that has connected, the
  winner's address is the address of that candidate, and no step of any thread changes either again.\<close>

theorem one_winner:
  assumes "reach race_start he_step s" and "he_step\<^sup>*\<^sup>* s t" and "he_socket_fd s = Some fd"
  shows "he_socket_fd t = Some fd \<and> he_winner_addr t = he_winner_addr s \<and>
    (\<exists>c \<in> set (he_candidates s). cand_sock c = fd \<and> cand_connected c \<and> ai_addr (cand_addr c) = he_winner_addr s)"
proof -
  have once: "he_socket_fd v = he_socket_fd u \<and> he_winner_addr v = he_winner_addr u"
    if u: "reach race_start he_step u" "he_socket_fd u \<noteq> None" and step: "he_step u v" for u v
    using step
  proof cases
    case (he_worker now a i)
    have "cand_ok u i" using race.always [OF u(1)] worker_step(1) [OF he_worker] by (simp add: race_ok_def)
    then have "pc_of u i \<noteq> W_Take" using u(2) by (auto simp: cand_ok_def Let_def)
    then show ?thesis using worker_frame(7) [OF worker_step(2,1) [OF he_worker]] by simp
  next
    case (he_connect now answer)
    then show ?thesis by (rule connect_leaves_winner)
  qed
  have "he_socket_fd t = Some fd \<and> he_winner_addr t = he_winner_addr s"
    using assms(2)
  proof (induction rule: rtranclp_induct)
    case (step u v)
    then show ?case using once [of u v] race.reach_ext [OF assms(1)] by auto
  qed (use assms(3) in simp)
  then show ?thesis using race.always [OF assms(1)] assms(3) by (auto simp: race_ok_def winner_ok_def)
qed


text \<open>Runs, as lists of what happens, and a host with two addresses.\<close>

datatype he_event = Worker nat attempt | Connect system_answer

fun he_run :: "he_event list \<Rightarrow> happy_eyeballs_ctx \<Rightarrow> happy_eyeballs_ctx option" where
  "he_run [] s = Some s"
| "he_run (Worker i a # es) s = (case happy_connect_worker 9 a i s of None \<Rightarrow> None | Some t \<Rightarrow> he_run es t)"
| "he_run (Connect w # es) s = (case happy_eyeballs_connect 9 w s of None \<Rightarrow> None | Some t \<Rightarrow> he_run es t)"

lemma he_run_steps: "he_run es s = Some t \<Longrightarrow> (he_step ^^ length es) s t"
proof (induction es s rule: he_run.induct)
  case (2 i a es s)
  then show ?case by (auto split: option.splits simp del: relpowp.simps intro: relpowp_Suc_I2 he_worker)
next
  case (3 w es s)
  then show ?case by (auto split: option.splits simp del: relpowp.simps intro: relpowp_Suc_I2 he_connect)
qed simp

lemma he_run_reaches: "he_run es s = Some t \<Longrightarrow> he_step\<^sup>*\<^sup>* s t"
  using he_run_steps relpowp_imp_rtranclp by metis

definition two_addresses :: happy_eyeballs_ctx where
  "two_addresses = start_race 5 None (Inr [v6 1, v4 2]) (happy_eyeballs_set_bind_addr [] happy_eyeballs_create)"

lemma race_run_reach: "he_run es two_addresses = Some t \<Longrightarrow> reach race_start he_step t"
proof -
  have "race_start two_addresses" unfolding race_start_def two_addresses_def by blast
  then have "reach race_start he_step two_addresses" by (rule reach_init)
  then show "he_run es two_addresses = Some t \<Longrightarrow> ?thesis" using race.reach_ext he_run_reaches by metis
qed

abbreviation connects :: attempt where "connects \<equiv> \<lparr>at_bind = None, at_connect = None\<rparr>"
abbreviation fails :: "int \<Rightarrow> attempt" where "fails e \<equiv> \<lparr>at_bind = None, at_connect = Some e\<rparr>"

abbreviation launches :: "nat \<Rightarrow> wait_result \<Rightarrow> he_event list" where
  "launches fd w \<equiv> [Connect (Got_Socket (Inr fd)), Connect (Got_Thread 0), Connect (Got_Wait w)]"

abbreviation goes_on :: system_answer where "goes_on \<equiv> Got_Thread 0"

definition won :: happy_eyeballs_ctx where
  "won = the (he_run (launches 7 Timed_Out @ [Connect (Got_Socket (Inr 8)), Connect (Got_Thread 0)] @
     replicate 6 (Worker 1 connects)) two_addresses)"

lemmas run_simps = two_addresses_def start_race_def check_comodo_def build_addr_list_def happy_eyeballs_set_bind_addr_def happy_eyeballs_create_def
  happy_eyeballs_connect_def main_action_def launch_candidate_def launch_thread_def new_candidate_def wait_delay_def
  happy_connect_worker_def worker_action_def attempted_def goto_def set_candidate_def signal_end_def AF_INET_def AF_INET6_def
  HAPPY_EYEBALLS_MAX_ATTEMPTS_def

lemma won_run:
  "he_run (launches 7 Timed_Out @ [Connect (Got_Socket (Inr 8)), Connect (Got_Thread 0)] @
     replicate 6 (Worker 1 connects)) two_addresses = Some won \<and> he_socket_fd won = Some 8 \<and> he_winner_addr won = [2]"
  unfolding won_def by (simp add: run_simps numeral_eq_Suc)


text \<open>The first address connects too, a moment after the second.\<close>

definition both :: happy_eyeballs_ctx where
  "both = the (he_run (replicate 2 (Worker 0 connects) @ replicate 2 (Worker 1 connects) @ replicate 4 (Worker 0 connects)) won)"

lemma both_run:
  "he_run (replicate 2 (Worker 0 connects) @ replicate 2 (Worker 1 connects) @ replicate 4 (Worker 0 connects)) won = Some both \<and>
   pc_of both 0 = W_Exit \<and> cand_connected (he_candidates both ! 0)"
  unfolding both_def won_def by (simp add: run_simps numeral_eq_Suc)

lemma one_winner_witness:
  "he_socket_fd both = Some 8 \<and> he_winner_addr both = [2] \<and> cand_connected (he_candidates both ! 0)"
proof -
  have "reach race_start he_step won" and "he_step\<^sup>*\<^sup>* won both" and "he_socket_fd won = Some 8"
    using race_run_reach he_run_reaches won_run both_run by blast+
  from one_winner [OF this] show ?thesis using won_run both_run by simp
qed

section \<open>The end\<close>

text \<open>Steps a thread has left at most.\<close>

fun coalesce_rank :: "coalesce_pc \<Rightarrow> nat" where
  "coalesce_rank C_Starting = 5" | "coalesce_rank C_Race = 4" | "coalesce_rank C_Gather = 3" | "coalesce_rank (C_Error e) = 2"
| "coalesce_rank C_End = 1"

fun worker_rank :: "worker_pc \<Rightarrow> nat" where
  "worker_rank W_Created = 0" | "worker_rank W_Start = 14" | "worker_rank W_Attempt = 13"
| "worker_rank W_Connected = 6" | "worker_rank W_Signal = 5" | "worker_rank W_Try = 4" | "worker_rank W_Take = 3"
| "worker_rank W_End = 2" | "worker_rank W_Unlock = 1"
| "worker_rank (W_Failed e) = 12" | "worker_rank W_Lock = 11" | "worker_rank W_FSignal = 10" | "worker_rank W_Active = 9"
| "worker_rank (W_Scan a) = 8" | "worker_rank (W_FUnlock a) = 7" | "worker_rank (W_Check a) = 6"
| "worker_rank (W_Coalesce c) = coalesce_rank c" | "worker_rank W_Exit = 0"

lemma coalesce_falls: "coalesce_errors now c s = (s1, Some d) \<Longrightarrow> coalesce_rank d < coalesce_rank c"
  by (cases c) (auto split: if_splits)

lemma worker_falls:
  assumes "worker_action now a i (pc_of s i) s = Some t" and "i < workers s"
  shows "worker_rank (pc_of t i) < worker_rank (pc_of s i)"
proof (cases "pc_of s i")
  case (W_Coalesce c)
  then show ?thesis using assms
    by (cases c) (auto simp: worker_action_def goto_def nth_list_update split: if_splits)
qed (use assms in \<open>auto simp: worker_action_def goto_def split: if_splits option.splits\<close>)

definition steps_left :: "happy_eyeballs_ctx \<Rightarrow> nat" where
  "steps_left s = sum_list (map (\<lambda>c. worker_rank (cand_pc c)) (he_candidates s))"

lemma sum_list_falls:
  fixes f :: "'a \<Rightarrow> nat"
  assumes "length ys = length xs" and "i < length xs" and "\<And>j. j \<noteq> i \<Longrightarrow> ys ! j = xs ! j" and "f (ys ! i) < f (xs ! i)"
  shows "sum_list (map f ys) < sum_list (map f xs)"
proof -
  have "ys = xs[i := ys ! i]" using assms(1-3) by (intro nth_equalityI) (auto simp: nth_list_update)
  then have "map f ys = (map f xs)[i := f (ys ! i)]" by (metis map_update)
  moreover have "f (xs ! i) \<le> sum_list (map f xs)" using assms(2) elem_le_sum_list [of i "map f xs"] by simp
  ultimately show ?thesis using assms(2,4) by (simp add: sum_list_update)
qed

lemma steps_left_falls:
  assumes "happy_connect_worker now a i s = Some t"
  shows "steps_left t < steps_left s"
  unfolding steps_left_def
  using worker_step [OF assms] worker_frame(1,2) worker_falls by (intro sum_list_falls [of _ _ i]) auto

text \<open>The mutex is held by a thread, which can step.\<close>

definition mutex_ok :: "happy_eyeballs_ctx \<Rightarrow> bool" where
  "mutex_ok s \<longleftrightarrow> hope_ok s \<and> (\<forall>k. he_winner_mutex s = Some k \<longrightarrow> k < workers s \<and> holds_mutex (pc_of s k))"


lemma worker_mutex:
  assumes "worker_action now a i (pc_of s i) s = Some t" and "i < workers s" and "he_winner_mutex t = Some k"
    and "he_winner_mutex s = Some k \<longrightarrow> k < workers s \<and> holds_mutex (pc_of s k)" and "cand_ok s i"
  shows "k < workers t \<and> holds_mutex (pc_of t k)"
proof -
  note frame = worker_frame [OF assms(1,2)]
  have other: "he_winner_mutex t = Some k \<Longrightarrow> he_winner_mutex s = Some k \<or> k = i"
    using frame(6) assms(1) by (cases "pc_of s i") (auto simp: worker_action_def goto_def split: if_splits prod.splits option.splits dest: coalesce_frame(4))
  show ?thesis
  proof (cases "k = i")
    case False
    then show ?thesis using other assms(3,4) frame(1,2) by simp
  next
    case True
    have "holds_mutex (pc_of t i)"
    proof (cases "pc_of s i")
      case (W_Coalesce c)
      then show ?thesis using assms True by (auto simp: worker_action_def goto_def coalesce_frame split: prod.splits)
    qed (use assms True in \<open>auto simp: worker_action_def goto_def cand_ok_def split: if_splits option.splits\<close>)
    then show ?thesis using True assms(2) frame(1) by simp
  qed
qed


text \<open>The connecting thread does not take the mutex, and leaves the threads it has started where they are.\<close>

lemma connect_leaves_threads:
  assumes "happy_eyeballs_connect now answer s = Some t" and "main_ok s" and "k < workers s" and "pc_of s k \<noteq> W_Created"
  shows "he_winner_mutex t = he_winner_mutex s \<and> k < workers t \<and> pc_of t k = pc_of s k"
proof (cases "he_main s")
  case (M_Next n prev as)
  then show ?thesis using assms
    by (auto simp: happy_eyeballs_connect_def main_action_def launch_candidate_def nth_append
        split: list.splits if_splits system_answer.splits sum.splits)
next
  case (M_Thread n a as)
  then have "pc_of s (workers s - 1) = W_Created" using assms(2) by (auto simp: main_ok_def)
  then have "k \<noteq> workers s - 1" using assms(4) by auto
  then show ?thesis using assms M_Thread
    by (auto simp: happy_eyeballs_connect_def main_action_def launch_thread_def goto_def nth_butlast
        split: if_splits system_answer.splits)
next
  case (M_Coalesce c)
  then show ?thesis using assms
    by (auto simp: happy_eyeballs_connect_def main_action_def coalesce_frame split: prod.splits)
qed (use assms in \<open>auto simp: happy_eyeballs_connect_def main_action_def wait_delay_def Let_def
  split: if_splits system_answer.splits wait_result.splits\<close>)

lemma connect_mutex:
  assumes "happy_eyeballs_connect now answer s = Some t"
  shows "he_winner_mutex t = he_winner_mutex s"
proof (cases "he_main s")
  case (M_Coalesce c)
  then show ?thesis using assms
    by (auto simp: happy_eyeballs_connect_def main_action_def coalesce_frame split: prod.splits)
qed (use assms in \<open>auto simp: happy_eyeballs_connect_def main_action_def launch_candidate_def launch_thread_def goto_def
  wait_delay_def Let_def split: list.splits if_splits system_answer.splits sum.splits wait_result.splits\<close>)

interpretation freed: guarded_system race_start he_step mutex_ok
proof
  show "mutex_ok s" if start: "race_start s" for s
    using ended.init_inv [OF start] race_start_shape [OF start] by (auto simp: mutex_ok_def happy_eyeballs_create_def)
  show "mutex_ok t" if ok: "mutex_ok s" and step: "he_step s t" for s t
  proof -
    have "hope_ok s" "hope_ok t" using ok ended.step_inv [OF _ step] by (auto simp: mutex_ok_def)
    have main: "main_ok s" and cands: "\<And>i. i < workers s \<Longrightarrow> cand_ok s i"
      using \<open>hope_ok s\<close> by (auto simp: hope_ok_def race_ok_def)
    have "k < workers t \<and> holds_mutex (pc_of t k)" if k: "he_winner_mutex t = Some k" for k
      using step
    proof cases
      case (he_worker now a i)
      have "he_winner_mutex s = Some k \<longrightarrow> k < workers s \<and> holds_mutex (pc_of s k)" using ok by (simp add: mutex_ok_def)
      from worker_mutex [OF worker_step(2,1) [OF he_worker] k this cands [OF worker_step(1) [OF he_worker]]] show ?thesis .
    next
      case (he_connect now answer)
      have "he_winner_mutex s = Some k" using connect_mutex [OF he_connect] k by simp
      then have at: "k < workers s" "holds_mutex (pc_of s k)" using ok by (auto simp: mutex_ok_def)
      then have "pc_of s k \<noteq> W_Created" by auto
      then show ?thesis using connect_leaves_threads [OF he_connect main at(1)] at(2) by simp
    qed
    then show ?thesis using \<open>hope_ok t\<close> by (simp add: mutex_ok_def)
  qed
qed

text \<open>As long as the race is on, some thread can step.\<close>

lemma holder_steps: "holds_mutex (pc_of s i) \<Longrightarrow> i < workers s \<Longrightarrow> happy_connect_worker now a i s \<noteq> None"
  by (cases "pc_of s i") (auto simp: happy_connect_worker_def worker_action_def)

lemma hopeful_steps:
  "hopeful (pc_of s i) \<Longrightarrow> i < workers s \<Longrightarrow> he_winner_mutex s = None \<Longrightarrow> happy_connect_worker now a i s \<noteq> None"
  by (cases "pc_of s i") (auto simp: happy_connect_worker_def worker_action_def split: prod.splits)

lemma returned_stays: "he_main s = M_Return HE_Again \<Longrightarrow> he_step s t \<Longrightarrow> \<exists>now a i. happy_connect_worker now a i s = Some t"
  by (auto elim!: he_step.cases simp: happy_eyeballs_connect_def main_action_def)


lemma steps_after_return:
  assumes "(he_step ^^ n) s t" and "he_main s = M_Return HE_Again"
  shows "he_main t = M_Return HE_Again \<and> workers t = workers s \<and> n + steps_left t \<le> steps_left s"
  using assms(1)
proof (induction n arbitrary: t)
  case 0
  then show ?case using assms(2) by simp
next
  case (Suc n)
  then obtain u where u: "(he_step ^^ n) s u" "he_step u t" by auto
  then obtain now a i where w: "happy_connect_worker now a i u = Some t" using Suc.IH [OF u(1)] returned_stays by blast
  then show ?case
    using Suc.IH [OF u(1)] steps_left_falls [OF w] worker_frame(1,3) [OF worker_step(2,1) [OF w]] by simp
qed

lemma worker_rank_le: "worker_rank pc \<le> 14"
proof (cases pc)
  case (W_Coalesce c)
  then show ?thesis by (cases c) simp_all
qed simp_all

lemma steps_left_le: "steps_left s \<le> 14 * workers s"
  using sum_list_mono [of "he_candidates s" "\<lambda>c. worker_rank (cand_pc c)" "\<lambda>_. 14"] worker_rank_le
  by (simp add: steps_left_def sum_list_triv mult.commute)

text \<open>C39: A race that its starter leaves to its threads ends: after at most 84 steps of the threads there is nothing
  left to do, whatever the attempts give and in whatever order the threads run, and until the end of the race is
  signalled there is a thread that can step and is not waiting for another.\<close>

theorem race_ends:
  assumes "reach race_start he_step s" and "he_main s = M_Return HE_Again" and "(he_step ^^ n) s t"
  shows "n \<le> 84 \<and> (he_completed t \<or> (\<exists>i. \<forall>now a. happy_connect_worker now a i t \<noteq> None))"
proof -
  have ok: "mutex_ok s" "mutex_ok t"
    using freed.always freed.keeps_from assms(1) relpowp_imp_rtranclp [OF assms(3)] by blast+
  have t: "he_main t = M_Return HE_Again" "n \<le> steps_left s" using steps_after_return [OF assms(3,2)] by simp_all
  have "workers s \<le> 6" using ok(1) assms(2) by (auto simp: mutex_ok_def hope_ok_def race_ok_def main_ok_def HAPPY_EYEBALLS_MAX_ATTEMPTS_def)
  then have "n \<le> 84" using t(2) steps_left_le [of s] by linarith
  moreover have "\<exists>i. \<forall>now a. happy_connect_worker now a i t \<noteq> None" if on: "\<not> he_completed t"
  proof (cases "he_winner_mutex t")
    case None
    have "\<not> he_is_starting t" using ok(2) t(1) by (auto simp: mutex_ok_def hope_ok_def race_ok_def main_ok_def)
    then have "hope t" using ok(2) on by (simp add: mutex_ok_def hope_ok_def)
    then obtain i where "i < workers t" "hopeful (pc_of t i)" using t(1) by (auto simp: hope_def)
    then show ?thesis using hopeful_steps None by metis
  next
    case (Some k)
    then have "k < workers t" "holds_mutex (pc_of t k)" using ok(2) by (auto simp: mutex_ok_def)
    then show ?thesis using holder_steps by metis
  qed
  ultimately show ?thesis by blast
qed

definition waiting :: happy_eyeballs_ctx where
  "waiting = the (he_run (launches 7 Timed_Out @ launches 8 Timed_Out @ replicate 9 (Connect goes_on)) two_addresses)"

lemma waiting_run:
  "he_run (launches 7 Timed_Out @ launches 8 Timed_Out @ replicate 9 (Connect goes_on)) two_addresses = Some waiting \<and>
   he_main waiting = M_Return HE_Again"
  unfolding waiting_def by (simp add: run_simps numeral_eq_Suc)

text \<open>Both addresses fail: the last thread ends the race, with the error of the first.\<close>

definition failed :: happy_eyeballs_ctx where
  "failed = the (he_run (replicate 9 (Worker 0 (fails 3)) @ replicate 14 (Worker 1 (fails 4))) waiting)"

lemma failed_run:
  "he_run (replicate 9 (Worker 0 (fails 3)) @ replicate 14 (Worker 1 (fails 4))) waiting = Some failed \<and>
   he_completed failed \<and> he_error failed = 3"
  unfolding failed_def waiting_def by (simp add: run_simps coalesced_error_def numeral_eq_Suc)


lemma race_ends_witness: "(he_step ^^ 23) waiting failed \<and> 23 \<le> (84::nat)"
proof -
  have "(he_step ^^ 23) waiting failed" using he_run_steps failed_run by fastforce
  moreover have "reach race_start he_step waiting" using race_run_reach waiting_run by blast
  ultimately show ?thesis using race_ends [of waiting 23 failed] waiting_run by blast
qed

section \<open>The error that is reported\<close>

definition error_modes :: "int list \<Rightarrow> (int \<times> nat) list" where
  "error_modes errors = fold (\<lambda>e ms. if e = 0 then ms else note_error e ms) errors []"

lemma note_error_map:
  "map_of (note_error e ms) = (map_of ms)(e \<mapsto> (case map_of ms e of None \<Rightarrow> 1 | Some n \<Rightarrow> n + 1))"
  by (induction ms) (auto simp: fun_eq_iff)

lemma note_error_distinct: "distinct (map fst ms) \<Longrightarrow> distinct (map fst (note_error e ms))"
proof (induction ms)
  case (Cons m ms)
  have "set (map fst (note_error e ms)) \<subseteq> insert e (set (map fst ms))" by (induction ms) auto
  then show ?case using Cons by auto
qed simp

lemma error_modes_snoc [simp]:
  "error_modes [] = []"
  "error_modes (es @ [x]) = (if x = 0 then error_modes es else note_error x (error_modes es))"
  by (simp_all add: error_modes_def)

lemma error_modes_distinct: "distinct (map fst (error_modes es))"
  by (induction es rule: rev_induct) (simp_all add: note_error_distinct)

lemma error_modes_count:
  "map_of (error_modes es) e = (if e = 0 \<or> count_list es e = 0 then None else Some (count_list es e))"
proof (induction es rule: rev_induct)
  case (snoc x es)
  then show ?case by (cases "x = 0"; cases "x = e") (simp_all add: note_error_map)
qed simp

lemma most_common_greatest:
  "\<exists>b \<in> insert best (set ms). fst b = most_common best ms \<and> snd best \<le> snd b \<and> (\<forall>m \<in> set ms. snd m \<le> snd b)"
proof (induction ms arbitrary: best)
  case (Cons m ms)
  let ?best = "if snd best < snd m then m else best"
  obtain b where b: "b \<in> insert ?best (set ms)" "fst b = most_common ?best ms" "snd ?best \<le> snd b" "\<forall>n \<in> set ms. snd n \<le> snd b"
    using Cons by blast
  then have "b \<in> insert best (set (m # ms))" "snd best \<le> snd b" "snd m \<le> snd b" by (auto split: if_splits)
  then show ?case using b(2,4) by auto
qed simp

text \<open>The error of a race is one that occurs most often among those of its threads.\<close>

lemma coalesced_error_most_common:
  assumes "e \<in> set es" and "e \<noteq> 0"
  shows "coalesced_error es \<in> set es \<and> coalesced_error es \<noteq> 0 \<and> count_list es e \<le> count_list es (coalesced_error es)"
proof -
  have n: "0 < count_list es e" using assms(1) count_list_0_iff [of es e] by simp
  then have e: "(e, count_list es e) \<in> set (error_modes es)"
    using error_modes_count [of es e] assms(2) by (intro map_of_SomeD) simp
  have "coalesced_error es = most_common (0, 0) (error_modes es)" unfolding coalesced_error_def error_modes_def ..
  then obtain b where b: "b \<in> insert (0, 0) (set (error_modes es))" "fst b = coalesced_error es"
      "\<forall>m \<in> set (error_modes es). snd m \<le> snd b"
    using most_common_greatest [of "(0, 0)" "error_modes es"] by metis
  have le: "count_list es e \<le> snd b" using b(3) e by auto
  then have "b \<in> set (error_modes es)" using b(1) n by auto
  then have "map_of (error_modes es) (coalesced_error es) = Some (snd b)"
    using error_modes_distinct b(2) by (metis map_of_is_SomeI prod.collapse)
  then have c: "coalesced_error es \<noteq> 0" "snd b = count_list es (coalesced_error es)" "count_list es (coalesced_error es) \<noteq> 0"
    unfolding error_modes_count by (auto split: if_splits)
  then show ?thesis using le count_list_0_iff [of es "coalesced_error es"] by auto
qed

section \<open>Connections that are lost\<close>

definition one_address :: happy_eyeballs_ctx where
  "one_address = start_race 5 None (Inr [v4 2]) (happy_eyeballs_set_bind_addr [] happy_eyeballs_create)"

text \<open>
  The starter counts the threads without the mutex of the winner: a thread that has signalled its own event but has
  not yet won is one that has failed to it, and it ends the race with success and without a socket.
\<close>

lemma success_without_socket:
  "\<exists>s. he_run (launches 7 Timed_Out @ replicate 4 (Connect goes_on) @ replicate 4 (Worker 0 connects) @
      replicate 9 (Connect goes_on) @ replicate 2 (Worker 0 connects)) one_address = Some s \<and>
    he_main s = M_Return HE_Success \<and> he_socket_fd s = None \<and> he_error s = 0 \<and>
    cand_connected (he_candidates s ! 0) \<and> pc_of s 0 = W_Exit"
  by (simp add: run_simps one_address_def coalesced_error_def numeral_eq_Suc)

text \<open>
  The race is given up when there is no socket for the second address; the first connects and wins it. Nothing
  closes its socket, as the winner's socket is the caller's.
\<close>

lemma winner_of_a_failed_race:
  "\<exists>s. he_run (launches 7 Timed_Out @ [Connect (Got_Socket (Inl 24))] @ replicate 8 (Worker 0 connects)) two_addresses = Some s \<and>
    he_main s = M_Return HE_Failure \<and> he_socket_fd s = Some 7 \<and> destroyed_sockets s = []"
  by (simp add: run_simps destroyed_sockets_def numeral_eq_Suc)

text \<open>A race that is not over in time is a failure with the error 0.\<close>

lemma no_error_of_a_timeout:
  "he_error s = 0 \<Longrightarrow> race_result 0 Timed_Out HE_Again s = Inl 0"
  by (simp add: race_result_def happy_eyeballs_timedwait_def reported_error_def E_CONNREFUSED_def E_ACCES_def E_TIMEDOUT_def)

end
