(* ===== verification/Amf3.thy ===== *)
theory Amf3
  imports Amf
begin

text \<open>
  The AMF3 decoder of \<open>src/rtmp/librtmp/amf.c\<close>, which the AMF0 decoder calls for a value of type \<open>AMF_AVMPLUS\<close>.
  It checks less than the AMF0 decoder and also goes on where a property has failed, so a property is modelled as
  the struct it is: a type and a union that need not agree, kept from one property to the next. \<open>junk\<close> is what the
  stack holds before the first. A function that fails gives -1, as in the code. Positions and sizes are integers;
  they change by less than 2^29 between two reads, so that the \<open>int\<close>s of the code do not overflow before a read
  leaves the memory (\<open>Oob\<close>).
\<close>

section \<open>Data\<close>

text \<open>An \<open>AVal\<close> is its length and the bytes there are of it.\<close>

type_synonym aval3 = "int \<times> byte list"

datatype amf3_prop = Amf3Prop (p3_name: aval3) (p3_type: byte) (p3_vu: amf3_vu)
and amf3_vu = P_Number u64 | P_Aval aval3 | P_Object "amf3_prop list"

type_synonym amf3_object = "amf3_prop list"

definition AV_empty :: aval3 where "AV_empty = (0, [])"

definition amf3_set_name :: "aval3 \<Rightarrow> amf3_prop \<Rightarrow> amf3_prop" where
  "amf3_set_name name p = Amf3Prop name (p3_type p) (p3_vu p)"

definition amf3_set :: "byte \<Rightarrow> amf3_vu \<Rightarrow> amf3_prop \<Rightarrow> amf3_prop" where
  "amf3_set t vu p = Amf3Prop (p3_name p) t vu"

definition AMF3_UNDEFINED :: byte where "AMF3_UNDEFINED = 0"
definition AMF3_NULL :: byte where "AMF3_NULL = 1"
definition AMF3_FALSE :: byte where "AMF3_FALSE = 2"
definition AMF3_TRUE :: byte where "AMF3_TRUE = 3"
definition AMF3_INTEGER :: byte where "AMF3_INTEGER = 4"
definition AMF3_DOUBLE :: byte where "AMF3_DOUBLE = 5"
definition AMF3_STRING :: byte where "AMF3_STRING = 6"
definition AMF3_XML_DOC :: byte where "AMF3_XML_DOC = 7"
definition AMF3_DATE :: byte where "AMF3_DATE = 8"
definition AMF3_OBJECT :: byte where "AMF3_OBJECT = 10"
definition AMF3_XML :: byte where "AMF3_XML = 11"

lemmas amf3_types = AMF3_UNDEFINED_def AMF3_NULL_def AMF3_FALSE_def AMF3_TRUE_def AMF3_INTEGER_def AMF3_DOUBLE_def
  AMF3_STRING_def AMF3_XML_DOC_def AMF3_DATE_def AMF3_OBJECT_def AMF3_XML_def

section \<open>Integers and strings\<close>

definition AMF3_INTEGER_MAX :: int where "AMF3_INTEGER_MAX = 268435455"

text \<open>The first three bytes: 7 bits of each that has its top bit set, and how many there are.\<close>

fun amf3_high :: "nat \<Rightarrow> byte list \<Rightarrow> int \<Rightarrow> u32 \<Rightarrow> nat \<Rightarrow> amf_error + u32 \<times> nat" where
  "amf3_high 0 mem pos val i = Inr (val, i)"
| "amf3_high (Suc k) mem pos val i =
     amf_then (read_bytes mem (pos + int i) 1) (\<lambda>b.
       if and (b ! 0) 0x80 \<noteq> 0
       then amf3_high k mem pos (or (push_bit 7 val) (ucast (and (b ! 0) 0x7F))) (i + 1)
       else Inr (val, i))"

text \<open>The value and the bytes it takes. The last byte is a \<open>char\<close>, which has a sign.\<close>

definition amf3_read_integer :: "byte list \<Rightarrow> int \<Rightarrow> amf_error + int \<times> int" where
  "amf3_read_integer mem pos =
     amf_then (amf3_high 3 mem pos 0 0) (\<lambda>(val, i).
       if i > 2 then
         amf_then (read_bytes mem (pos + 3) 1) (\<lambda>b.
           let v = or (push_bit 8 val) (scast (b ! 0))
           in Inr (if sint v > AMF3_INTEGER_MAX then sint (v - 2 ^ 29) else sint v, 4))
       else
         amf_then (read_bytes mem (pos + int i) 1) (\<lambda>b.
           Inr (sint (or (push_bit 7 val) (scast (b ! 0))), int i + 1)))"

definition amf3_read_string :: "byte list \<Rightarrow> int \<Rightarrow> amf_error + aval3 \<times> int" where
  "amf3_read_string mem pos =
     amf_then (amf3_read_integer mem pos) (\<lambda>(ref, len).
       if ref mod 2 = 0 then Inr (AV_empty, len)
       else Inr ((ref div 2, mem_slice mem (pos + len) (ref div 2)), len + ref div 2))"

section \<open>Properties\<close>

text \<open>
  The switch of \<open>AMF3Prop_Decode\<close>: the property and the bytes left, \<open>None\<close> where it returns -1. \<open>obj\<close> is
  \<open>AMF3_Decode\<close>.
\<close>

type_synonym amf3_obj = "int \<Rightarrow> int \<Rightarrow> amf_error + amf3_object \<times> int"

definition amf3_value_body ::
  "amf3_obj \<Rightarrow> byte list \<Rightarrow> amf3_prop \<Rightarrow> int \<Rightarrow> int \<Rightarrow> byte \<Rightarrow> amf_error + amf3_prop \<times> int option" where
  "amf3_value_body obj mem p pos n t =
     (if t = AMF3_UNDEFINED \<or> t = AMF3_NULL then Inr (amf3_set AMF_NULL (p3_vu p) p, Some n)
      else if t = AMF3_FALSE then Inr (amf3_set AMF_BOOLEAN (P_Number (double_bits 0)) p, Some n)
      else if t = AMF3_TRUE then Inr (amf3_set AMF_BOOLEAN (P_Number (double_bits 1)) p, Some n)
      else if t = AMF3_INTEGER then
        amf_then (amf3_read_integer mem pos) (\<lambda>(res, len).
          Inr (amf3_set AMF_NUMBER (P_Number (double_bits (of_int res))) p, Some (n - len)))
      else if t = AMF3_DOUBLE then
        if n < 8 then Inr (p, None)
        else amf_then (amf_decode_number mem pos) (\<lambda>d. Inr (amf3_set AMF_NUMBER (P_Number d) p, Some (n - 8)))
      else if t = AMF3_STRING \<or> t = AMF3_XML_DOC \<or> t = AMF3_XML then
        amf_then (amf3_read_string mem pos) (\<lambda>(s, len). Inr (amf3_set AMF_STRING (P_Aval s) p, Some (n - len)))
      else if t = AMF3_DATE then
        amf_then (amf3_read_integer mem pos) (\<lambda>(res, len).
          if res mod 2 = 0 then Inr (p, Some (n - len))
          else if n - len < 8 then Inr (p, None)
          else amf_then (amf_decode_number mem (pos + len)) (\<lambda>d.
                 Inr (amf3_set AMF_NUMBER (P_Number d) p, Some (n - len - 8))))
      else if t = AMF3_OBJECT then
        amf_then (obj pos n) (\<lambda>(o3, used).
          if used = -1 then Inr (amf3_set (p3_type p) (P_Object o3) p, None)
          else Inr (amf3_set AMF_OBJECT (P_Object o3) p, Some (n - used)))
      else Inr (p, None))"

text \<open>\<open>AMF3Prop_Decode\<close>; \<open>old\<close> is what the struct held before.\<close>

definition amf3_prop_body ::
  "amf3_obj \<Rightarrow> byte list \<Rightarrow> amf3_prop \<Rightarrow> int \<Rightarrow> int \<Rightarrow> bool \<Rightarrow> amf_error + amf3_prop \<times> int" where
  "amf3_prop_body obj mem old pos n named =
     (let p = amf3_set_name AV_empty old;
          decode = (\<lambda>p pos n1. amf_then (read_bytes mem pos 1) (\<lambda>t.
            amf_then (amf3_value_body obj mem p (pos + 1) (n1 - 1) (t ! 0)) (\<lambda>(p1, left).
              Inr (p1, case left of None \<Rightarrow> -1 | Some n2 \<Rightarrow> if n2 < 0 then -1 else n - n2))))
      in if n = 0 then Inr (p, -1)
         else if named then
           amf_then (amf3_read_string mem pos) (\<lambda>(name, used).
             if fst name \<le> 0 then Inr (p, used)
             else if n - used \<le> 0 then Inr (p, -1)
             else decode (amf3_set_name name p) (pos + used) (n - used))
         else decode p pos n)"

section \<open>Objects\<close>

record amf3_class_def =
  cd_name :: aval3
  cd_externalizable :: bool
  cd_dynamic :: bool
  cd_props :: "aval3 list"

text \<open>The names of the members, from the class; \<open>None\<close> is the label \<open>invalid\<close>.\<close>

fun amf3_member_names ::
  "byte list \<Rightarrow> nat \<Rightarrow> aval3 list \<Rightarrow> int \<Rightarrow> int \<Rightarrow> amf_error + (aval3 list \<times> int \<times> int) option" where
  "amf3_member_names mem 0 names pos n = Inr (Some (names, pos, n))"
| "amf3_member_names mem (Suc k) names pos n =
     (if n \<le> 0 then Inr None
      else amf_then (amf3_read_string mem pos) (\<lambda>(name, len).
             amf3_member_names mem k (names @ [name]) (pos + len) (n - len)))"

definition amf3_class ::
  "byte list \<Rightarrow> int \<Rightarrow> int \<Rightarrow> int \<Rightarrow> amf_error + (amf3_class_def \<times> int \<times> int) option" where
  "amf3_class mem class_ref pos n =
     (if class_ref mod 2 = 0
      then Inr (Some (\<lparr>cd_name = AV_empty, cd_externalizable = False, cd_dynamic = False, cd_props = []\<rparr>, pos, n))
      else
        let ext_ref = class_ref div 2
        in amf_then (amf3_read_string mem pos) (\<lambda>(name, len).
             amf_then (amf3_member_names mem (nat (ext_ref div 4)) [] (pos + len) (n - len)) (\<lambda>members.
               Inr (case members of
                 None \<Rightarrow> None
               | Some (names, pos1, n1) \<Rightarrow>
                   Some (\<lparr>cd_name = name, cd_externalizable = ext_ref mod 2 = 1, cd_dynamic = ext_ref div 2 mod 2 = 1,
                     cd_props = names\<rparr>, pos1, n1)))))"

text \<open>The members one after the other: the object, the last property, the position and the bytes left.\<close>

type_synonym amf3_at = "amf3_prop \<times> int \<times> int"

fun amf3_members ::
  "(amf3_prop \<Rightarrow> int \<Rightarrow> int \<Rightarrow> amf_error + amf3_prop \<times> int) \<Rightarrow> aval3 list \<Rightarrow> amf3_object \<Rightarrow> amf3_prop \<Rightarrow> int \<Rightarrow> int \<Rightarrow>
   amf_error + amf3_object \<times> amf3_at option" where
  "amf3_members prop [] acc p pos n = Inr (acc, Some (p, pos, n))"
| "amf3_members prop (name # names) acc p pos n =
     (if n \<le> 0 then Inr (acc, None)
      else amf_then (prop p pos n) (\<lambda>(p1, used).
             amf3_members prop names (acc @ [amf3_set_name name p1]) (amf3_set_name name p1) (pos + used) (n - used)))"

definition DEFAULT_ATTRIBUTE :: aval3 where
  "DEFAULT_ATTRIBUTE = (17, map of_char ''DEFAULT_ATTRIBUTE'')"

text \<open>
  \<open>AMF3_Decode\<close> over the functions it calls: \<open>prop\<close> decodes a property without a name, \<open>dyn\<close> is the loop over
  those with a name. The result is the object and the bytes it took.
\<close>

definition amf3_body ::
  "(amf3_prop \<Rightarrow> int \<Rightarrow> int \<Rightarrow> amf_error + amf3_prop \<times> int) \<Rightarrow>
   (amf3_object \<Rightarrow> amf3_prop \<Rightarrow> int \<Rightarrow> int \<Rightarrow> amf_error + amf3_object \<times> int option) \<Rightarrow>
   amf3_prop \<Rightarrow> byte list \<Rightarrow> int \<Rightarrow> int \<Rightarrow> bool \<Rightarrow> amf_error + amf3_object \<times> int" where
  "amf3_body prop dyn junk mem pos n amf_data =
     amf_then (if amf_data then amf_then (read_bytes mem pos 1) (\<lambda>b. Inr (pos + 1, n - 1)) else Inr (pos, n)) (\<lambda>(pos1, n1).
       amf_then (amf3_read_integer mem pos1) (\<lambda>(ref, len).
         if ref mod 2 = 0 then Inr ([], n - (n1 - len))
         else amf_then (amf3_class mem (ref div 2) (pos1 + len) (n1 - len)) (\<lambda>cls.
           case cls of
             None \<Rightarrow> Inr ([], n)
           | Some (cd, pos2, n2) \<Rightarrow>
               if cd_externalizable cd then
                 amf_then (prop junk pos2 n2) (\<lambda>(p, used).
                   Inr ([amf3_set_name DEFAULT_ATTRIBUTE p], n - (if used = -1 then n2 else n2 - used)))
               else
                 amf_then (amf3_members prop (cd_props cd) [] junk pos2 n2) (\<lambda>(ps, left).
                   case left of
                     None \<Rightarrow> Inr (ps, n)
                   | Some (p, pos3, n3) \<Rightarrow>
                       if cd_dynamic cd then
                         amf_then (dyn ps p pos3 n3) (\<lambda>(qs, n4).
                           Inr (qs, case n4 of None \<Rightarrow> n | Some k \<Rightarrow> n - k))
                       else Inr (ps, n - n3)))))"

text \<open>The recursion, with fuel for the calls and the iterations of the loop.\<close>

function amf3_prop_decode ::
  "nat \<Rightarrow> amf3_prop \<Rightarrow> byte list \<Rightarrow> amf3_prop \<Rightarrow> int \<Rightarrow> int \<Rightarrow> bool \<Rightarrow> amf_error + amf3_prop \<times> int"
and amf3_dynamic ::
  "nat \<Rightarrow> amf3_prop \<Rightarrow> byte list \<Rightarrow> amf3_object \<Rightarrow> amf3_prop \<Rightarrow> int \<Rightarrow> int \<Rightarrow> amf_error + amf3_object \<times> int option"
and amf3_decode ::
  "nat \<Rightarrow> amf3_prop \<Rightarrow> byte list \<Rightarrow> int \<Rightarrow> int \<Rightarrow> bool \<Rightarrow> amf_error + amf3_object \<times> int" where
  "amf3_prop_decode 0 junk mem p pos n named = Inl NoFuel"
| "amf3_prop_decode (Suc f) junk mem p pos n named =
     amf3_prop_body (\<lambda>pos n. amf3_decode f junk mem pos n True) mem p pos n named"
| "amf3_dynamic 0 junk mem acc p pos n = Inl NoFuel"
| "amf3_dynamic (Suc f) junk mem acc p pos n =
     (if n \<le> 0 then Inr (acc, None)
      else amf_then (amf3_prop_decode f junk mem p pos n True) (\<lambda>(p1, used).
             if fst (p3_name p1) > 0 then amf3_dynamic f junk mem (acc @ [p1]) p1 (pos + used) (n - used)
             else Inr (acc @ [p1], Some (n - used))))"
| "amf3_decode 0 junk mem pos n amf_data = Inl NoFuel"
| "amf3_decode (Suc f) junk mem pos n amf_data =
     amf3_body (\<lambda>p pos n. amf3_prop_decode f junk mem p pos n False) (\<lambda>acc p pos n. amf3_dynamic f junk mem acc p pos n)
       junk mem pos n amf_data"
  by pat_completeness auto
termination
  by (relation "measure (case_sum (\<lambda>(f, _). f) (case_sum (\<lambda>(f, _). f) (\<lambda>(f, _). f)))") auto

section \<open>Inside AMF0\<close>

text \<open>\<open>pun\<close> is what a union reads as that holds something else than its type says.\<close>

fun amf_prop_of :: "(amf3_prop \<Rightarrow> amf_value) \<Rightarrow> amf3_prop \<Rightarrow> amf_prop" where
  "amf_prop_of pun (Amf3Prop name t (P_Number d)) =
     AmfProp (snd name) (if t = AMF_NUMBER then AmfNumber d else if t = AMF_BOOLEAN then AmfBoolean (d \<noteq> 0)
       else if t = AMF_NULL then AmfNull else pun (Amf3Prop name t (P_Number d)))"
| "amf_prop_of pun (Amf3Prop name t (P_Aval s)) =
     AmfProp (snd name) (if t = AMF_STRING then AmfString (snd s)
       else if t = AMF_NULL then AmfNull else pun (Amf3Prop name t (P_Aval s)))"
| "amf_prop_of pun (Amf3Prop name t (P_Object ps)) =
     AmfProp (snd name) (if t = AMF_OBJECT then AmfObject (map (amf_prop_of pun) ps)
       else if t = AMF_NULL then AmfNull else pun (Amf3Prop name t (P_Object ps)))"

text \<open>The case \<open>AMF_AVMPLUS\<close> of \<open>AMFProp_Decode\<close>.\<close>

definition avmplus :: "(amf3_prop \<Rightarrow> amf_value) \<Rightarrow> amf3_prop \<Rightarrow> nat \<Rightarrow> amf3_decoder" where
  "avmplus pun junk f mem pos n =
     amf_then (amf3_decode f junk mem pos n True) (\<lambda>(ps, used).
       if used = -1 then Inl Bad else Inr (map (amf_prop_of pun) ps, used))"


end
