(* ===== verification/Amf3_Integers.thy ===== *)
theory Amf3_Integers
  imports Amf3
begin

text \<open>The integers of AMF3 that the decoder reads right: those of one to three bytes.\<close>

text \<open>The encoding of an integer of the AMF3 specification, below 2^21: one to three bytes.\<close>

definition u29_bytes :: "nat \<Rightarrow> byte list" where
  "u29_bytes v =
     (if v < 2 ^ 7 then [of_nat v]
      else if v < 2 ^ 14 then [of_nat (128 + v div 2 ^ 7), of_nat (v mod 2 ^ 7)]
      else [of_nat (128 + v div 2 ^ 14), of_nat (128 + v div 2 ^ 7 mod 2 ^ 7), of_nat (v mod 2 ^ 7)])"

lemma shifted_or:
  fixes a x :: "'a::len word"
  assumes "take_bit 7 x = x"
  shows "or (push_bit 7 a) x = push_bit 7 a + x"
proof -
  have "\<not> bit x n" if "7 \<le> n" for n using assms that by (metis bit_take_bit_iff not_less)
  then show ?thesis by (intro disjunctive_add [symmetric]) (auto simp: bit_push_bit_iff)
qed

lemma more_byte:
  assumes "k < 128"
  shows "and (of_nat (128 + k) :: byte) 128 \<noteq> 0" and "and (of_nat (128 + k) :: byte) 127 = of_nat k" and "and (of_nat k :: byte) 128 = 0"
proof -
  have "\<forall>k < (128 :: nat). and (of_nat (128 + k) :: byte) 128 \<noteq> 0 \<and> and (of_nat (128 + k) :: byte) 127 = of_nat k \<and>
      and (of_nat k :: byte) 128 = 0" by code_simp
  then show "and (of_nat (128 + k) :: byte) 128 \<noteq> 0" and "and (of_nat (128 + k) :: byte) 127 = of_nat k" and "and (of_nat k :: byte) 128 = 0"
    using assms by blast+
qed

lemma byte_ucast: "k < 128 \<Longrightarrow> (ucast (of_nat k :: byte) :: u32) = of_nat k" "k < 128 \<Longrightarrow> (scast (of_nat k :: byte) :: u32) = of_nat k"
  proof -
  show "(ucast (of_nat k :: byte) :: u32) = of_nat k" if "k < 128"
    using that by (simp add: unsigned_of_nat take_bit_nat_eq_self)
  show "(scast (of_nat k :: byte) :: u32) = of_nat k" if "k < 128"
  proof -
    have "sint (of_nat k :: byte) = int k" using that
      by (simp add: signed_of_nat signed_take_bit_int_eq_self)
    then show ?thesis by (simp add: scast_eq)
  qed
qed

lemma add_bits:
  assumes "k < 128" and "n < 2 ^ 24"
  shows "or (push_bit 7 (of_nat n)) (of_nat k :: u32) = of_nat (128 * n + k)"
proof -
  have "take_bit 7 (of_nat k :: u32) = of_nat k" using assms(1) by (simp add: take_bit_of_nat take_bit_nat_eq_self)
  then have "or (push_bit 7 (of_nat n)) (of_nat k :: u32) = push_bit 7 (of_nat n) + of_nat k" by (rule shifted_or)
  then show ?thesis by (simp add: push_bit_eq_mult mult.commute)
qed

lemma sint_small: "n < 2 ^ 31 \<Longrightarrow> sint (of_nat n :: u32) = int n"
  by (simp add: signed_of_nat signed_take_bit_int_eq_self)

text \<open>Below 2^21 an integer is read as it was written.\<close>

lemma u29_read_back:
  assumes "v < 2 ^ 21"
  shows "amf3_read_integer (before @ u29_bytes v @ rest) (int (length before)) = Inr (int v, int (length (u29_bytes v)))"
proof -
  have r: "read_bytes (before @ bs @ rest) (int (length before) + int i) 1 = Inr [bs ! i]" if "i < length bs" for bs i
    using that by (simp add: read_bytes_def take_Suc_conv_app_nth nth_append) (simp add: nat_add_distrib nth_append hd_drop_conv_nth)
  consider "v < 2 ^ 7" | "2 ^ 7 \<le> v" "v < 2 ^ 14" | "2 ^ 14 \<le> v" by linarith
  then show ?thesis
  proof cases
    case 1
    then show ?thesis
      using r [of 0 "[of_nat v]"] more_byte(3) [of v] byte_ucast(2) [of v] sint_small [of v]
      by (simp add: amf3_read_integer_def u29_bytes_def numeral_3_eq_3 amf_then_def)
  next
    case 2
    let ?h = "v div 2 ^ 7" and ?l = "v mod 2 ^ 7"
    have k: "?h < 128" "?l < 128" using 2 by simp_all
    have "or (push_bit 7 (of_nat ?h)) (of_nat ?l :: u32) = of_nat v"
      using add_bits [of ?l ?h] k by simp
    then show ?thesis
      using 2 k r [of 0 "u29_bytes v"] r [of 1 "u29_bytes v"] more_byte [OF k(1)] more_byte(3) [OF k(2)] byte_ucast [OF k(1)] byte_ucast [OF k(2)]
        sint_small [of v]
      by (simp add: amf3_read_integer_def u29_bytes_def numeral_3_eq_3 amf_then_def)
  next
    case 3
    let ?h = "v div 2 ^ 14" and ?m = "v div 2 ^ 7 mod 2 ^ 7" and ?l = "v mod 2 ^ 7"
    have k: "?h < 128" "?m < 128" "?l < 128" using assms by simp_all
    have "128 * ?h + ?m = v div 2 ^ 7" using div_mult2_eq [of v 128 128] by simp
    moreover have "or (push_bit 7 (of_nat ?h)) (of_nat ?m :: u32) = of_nat (128 * ?h + ?m)"
      by (rule add_bits) (use k in simp_all)
    ultimately have "or (push_bit 7 (of_nat ?h)) (of_nat ?m :: u32) = of_nat (v div 2 ^ 7)" by simp
    moreover have "or (push_bit 7 (of_nat (v div 2 ^ 7))) (of_nat ?l :: u32) = of_nat v"
      using add_bits [of ?l "v div 2 ^ 7"] k assms by simp
    ultimately show ?thesis
      using 3 assms k r [of 0 "u29_bytes v"] r [of 1 "u29_bytes v"] r [of 2 "u29_bytes v"] more_byte [OF k(1)] more_byte [OF k(2)] more_byte(3) [OF k(3)]
        byte_ucast [OF k(1)] byte_ucast [OF k(2)] byte_ucast [OF k(3)] sint_small [of v]
      by (simp add: amf3_read_integer_def u29_bytes_def numeral_3_eq_3 amf_then_def)
  qed
qed
end
