(* ===== verification/Amf3_Anomalies.thy ===== *)
theory Amf3_Anomalies
  imports Amf3_Integers
begin

text \<open>
  Where the AMF3 decoder goes wrong: it never returns from a message of 17 bytes, and it reads some integers and all
  nested objects wrongly.
\<close>

section \<open>A message that never ends\<close>

text \<open>
  The string \<open>a\<close> and a dynamic object without members. Its first property has the name 3 and the type true; the
  next has a type there is not. The decoder takes the -1 of its failure for a size and goes back by one byte, three
  times, and is at the first property again.
\<close>

definition back_bytes :: "byte list" where
  "back_bytes = [2, 0, 1, 0x61, 17, 10, 11, 1, 3, 3, 3, 9, 9, 9, 9, 9, 9]"

lemma back_names:
  "amf3_read_string back_bytes 8 = Inr ((1, [3]), 2)" "amf3_read_string back_bytes 9 = Inr ((1, [3]), 2)"
  "amf3_read_string back_bytes 10 = Inr ((1, [9]), 2)" "amf3_read_string back_bytes 11 = Inr ((4, [9, 9, 9, 9]), 5)"
  by code_simp+

lemma back_reads:
  "read_bytes back_bytes 10 (Suc 0) = Inr [3]" "read_bytes back_bytes 11 (Suc 0) = Inr [9]"
  "read_bytes back_bytes 12 (Suc 0) = Inr [9]" "read_bytes back_bytes 16 (Suc 0) = Inr [9]"
  by code_simp+

lemma back_props:
  "\<exists>q. amf3_prop_decode (Suc f) junk back_bytes p 8 9 True = Inr (q, 3) \<and> 0 < fst (p3_name q)"
  "\<exists>q. amf3_prop_decode (Suc f) junk back_bytes p 11 6 True = Inr (q, -1) \<and> 0 < fst (p3_name q)"
  "\<exists>q. amf3_prop_decode (Suc f) junk back_bytes p 10 7 True = Inr (q, -1) \<and> 0 < fst (p3_name q)"
  "\<exists>q. amf3_prop_decode (Suc f) junk back_bytes p 9 8 True = Inr (q, -1) \<and> 0 < fst (p3_name q)"
  by (simp_all add: amf3_prop_body_def amf3_value_body_def amf_then_def back_names back_reads amf3_types
      amf3_set_def amf3_set_name_def)

lemma back_step:
  assumes "0 < n" and "\<And>g. \<exists>q. amf3_prop_decode (Suc g) junk back_bytes p pos n True = Inr (q, used) \<and> 0 < fst (p3_name q)"
    and "\<And>acc q. amf3_dynamic f junk back_bytes acc q (pos + used) (n - used) = Inl NoFuel"
  shows "amf3_dynamic (Suc f) junk back_bytes acc p pos n = Inl NoFuel"
proof (cases f)
  case 0
  then show ?thesis using assms(1) by (simp add: amf_then_def)
next
  case (Suc g)
  then show ?thesis using assms(1) assms(2) [of g] assms(3) by (auto simp: amf_then_def simp del: amf3_prop_decode.simps)
qed

lemma back_loop:
  "(\<forall>acc p. amf3_dynamic f junk back_bytes acc p 8 9 = Inl NoFuel) \<and> (\<forall>acc p. amf3_dynamic f junk back_bytes acc p 11 6 = Inl NoFuel) \<and>
   (\<forall>acc p. amf3_dynamic f junk back_bytes acc p 10 7 = Inl NoFuel) \<and> (\<forall>acc p. amf3_dynamic f junk back_bytes acc p 9 8 = Inl NoFuel)"
proof (induction f)
  case (Suc f)
  then show ?case
    by (intro conjI allI; intro back_step [OF _ back_props(1)] back_step [OF _ back_props(2)] back_step [OF _ back_props(3)]
        back_step [OF _ back_props(4)]) simp_all
qed simp

lemma amf3_never_returns: "amf3_decode f junk back_bytes 5 12 True = Inl NoFuel"
proof (cases f)
  case (Suc g)
  have "amf3_read_integer back_bytes 6 = Inr (11, 1)" and "read_bytes back_bytes 5 (Suc 0) = Inr [10]"
    and "amf3_class back_bytes 5 7 10 =
      Inr (Some (\<lparr>cd_name = (0, []), cd_externalizable = False, cd_dynamic = True, cd_props = []\<rparr>, 8, 9))"
    by code_simp+
  then show ?thesis using Suc back_loop by (simp add: amf3_body_def amf_then_def)
qed simp

text \<open>So a server can stop the client, on every platform, with memory filling up behind it.\<close>

lemma amf_decode_never_returns: "amf_decode (avmplus pun junk f3) lp64 f back_bytes 0 17 False = Inl NoFuel"
proof -
  have v: "amf_value_decode (avmplus pun junk f3) lp64 f back_bytes 5 12 17 = Inl NoFuel" for f
    by (cases f) (simp_all add: amf_value_body_def amf_types amf_then_def avmplus_def amf3_never_returns)
  have "read_bytes back_bytes 4 (Suc 0) = Inr [17]" by code_simp
  then have p: "amf_prop_decode (avmplus pun junk f3) lp64 f back_bytes 4 13 False = Inl NoFuel" for f
    by (cases f) (simp_all add: amf_prop_body_def amf_name_body_def amf_then_def v)
  have e: "amf_at_end back_bytes 0 17 = Inr False" "amf_at_end back_bytes 4 13 = Inr False" by code_simp+
  have l: "amf_decode_loop (avmplus pun junk f3) lp64 f back_bytes False acc 4 13 = Inl NoFuel" for f acc
    by (cases f) (simp_all add: e amf_then_def p)
  have s: "amf_prop_decode (avmplus pun junk f3) lp64 f back_bytes 0 17 False \<in> {Inl NoFuel, Inr (AmfProp [] (AmfString [0x61]), 4)}" for f
  proof -
    have "read_bytes back_bytes 0 (Suc 0) = Inr [2]" "amf_decode_int16 back_bytes 1 = Inr 1" "amf_decode_string back_bytes 1 = Inr [0x61]"
      by code_simp+
    then have "amf_value_decode (avmplus pun junk f3) lp64 f back_bytes 1 16 2 \<in> {Inl NoFuel, Inr (AmfString [0x61], 13)}" for f
      by (cases f) (simp_all add: amf_value_body_def amf_types amf_then_def)
    from this [of "f - 1"] show ?thesis using \<open>read_bytes back_bytes 0 (Suc 0) = Inr [2]\<close>
      by (cases f) (auto simp: amf_prop_body_def amf_name_body_def amf_then_def)
  qed
  have "amf_decode_loop (avmplus pun junk f3) lp64 f back_bytes False [] 0 17 = Inl NoFuel"
  proof (cases f)
    case (Suc g)
    then show ?thesis using s [of g] l by (auto simp: e amf_then_def)
  qed simp
  then show ?thesis by (simp add: amf_decode_def amf_then_def)
qed

section \<open>Values that are read wrongly\<close>

text \<open>The last of four bytes has its sign extended: this is 2097280.\<close>

lemma amf3_integer_with_sign: "amf3_read_integer [0x80, 0xC0, 0x80, 0x80] 0 = Inr (- 128, 4)"
  by code_simp

text \<open>
  A nested object has its type read twice: \<open>{a: {b: null}}\<close> is read as \<open>{a: {}, b: null}\<close>, and a byte is left. The
  empty name at the end of a dynamic object is a property too, of the type of the one before it.
\<close>

definition nested_bytes :: "byte list" where
  "nested_bytes = [10, 11, 1, 3, 0x61, 10, 11, 1, 3, 0x62, 1, 1, 1]"

lemma amf3_nested_object:
  "avmplus pun junk (Suc (Suc (Suc (Suc (Suc f))))) nested_bytes 0 13 =
   Inr ([AmfProp [0x61] (AmfObject []), AmfProp [0x62] AmfNull, AmfProp [] AmfNull], 12)"
proof -
  have i: "amf3_read_integer nested_bytes 1 = Inr (11, 1)" "amf3_read_integer nested_bytes 7 = Inr (1, 1)"
    and n: "amf3_read_string nested_bytes 3 = Inr ((1, [0x61]), 2)" "amf3_read_string nested_bytes 8 = Inr ((1, [0x62]), 2)"
      "amf3_read_string nested_bytes 11 = Inr ((0, []), 1)"
    and r: "read_bytes nested_bytes 0 (Suc 0) = Inr [10]" "read_bytes nested_bytes 5 (Suc 0) = Inr [10]"
      "read_bytes nested_bytes 6 (Suc 0) = Inr [11]" "read_bytes nested_bytes 10 (Suc 0) = Inr [1]"
    and c: "amf3_class nested_bytes 5 2 11 =
      Inr (Some (\<lparr>cd_name = (0, []), cd_externalizable = False, cd_dynamic = True, cd_props = []\<rparr>, 3, 10))"
      "amf3_class nested_bytes 0 8 5 =
      Inr (Some (\<lparr>cd_name = (0, []), cd_externalizable = False, cd_dynamic = False, cd_props = []\<rparr>, 8, 5))"
    by code_simp+
  show ?thesis
    by (simp add: avmplus_def amf3_body_def amf3_prop_body_def amf3_value_body_def amf_then_def i n r c amf3_types amf_types
        amf3_set_def amf3_set_name_def AV_empty_def)
qed

end
