(* ===== verification/Rtmp_Destroy.thy ===== *)
theory Rtmp_Destroy
  imports Rtmp_Output
begin

text \<open>
  The end of an output in \<open>src/rtmp/rtmp-stream.c\<close>: the text of its last error, and \<open>rtmp_stream_destroy\<close> next to
  the threads that may still run. The end of the send thread and the tests of the destruction interleave access by
  access; the theorems say when the memory of the output is given back while the thread still uses it.
\<close>

section \<open>The last error\<close>

text \<open>The key of the text OBS shows, from the last error of the connection.\<close>

definition platform_error :: "int \<Rightarrow> string option" where
  "platform_error code =
     (if code = 10060 then Some ''ConnectionTimedOut''
      else if code = 10013 then Some ''PermissionDenied''
      else if code = 10053 then Some ''ConnectionAborted''
      else if code = 10054 then Some ''ConnectionReset''
      else if code = 11001 then Some ''HostNotFound''
      else if code = 11004 then Some ''NoData''
      else if code = 10049 then Some ''AddressNotAvailable''
      else if code = 10022 then Some ''InvalidParameter''
      else if code = 10065 then Some ''NoRoute''
      else None)"

definition set_output_error :: "int \<Rightarrow> string option" where
  "set_output_error code =
     (case platform_error code of
        Some msg \<Rightarrow> Some msg
      | None \<Rightarrow>
          if code = - 0x2700 then Some ''SSLCertVerifyFailed''
          else if code = - 0x7680 then Some ''Failed to load root certificates for a secure TLS connection.''
          else None)"

section \<open>Destruction\<close>

text \<open>
  The end of the send thread, from its last footer on: OBS is told (and the thread detached when nobody has asked
  for a stop), the queue is emptied, the stop event reset, \<open>active\<close> and \<open>sent_headers\<close> cleared.
\<close>

datatype sender_pc = S_None | S_Running | S_Notified | S_Emptied | S_Reset | S_Inactive | S_Ended

datatype destroyer_pc =
    D_Idle | D_Stopping | D_Connecting | D_Or | D_Or_active | D_Which | D_Join_connect | D_Signal | D_Active
  | D_Post | D_Join_send | D_Free | D_Done

text \<open>
  The connecting thread detaches itself as well when nobody has asked for a stop, before it clears \<open>connecting\<close>.
\<close>

datatype connector_pc = K_None | K_Running | K_Leaving | K_Ended

text \<open>\<open>td_fault\<close>: a thread has used the output after its end. \<open>td_join_detached\<close>: a detached thread was joined.\<close>

record 'c teardown =
  td_stream :: "'c rtmp_stream"
  td_connector :: connector_pc
  td_connector_detached :: bool
  td_sender :: sender_pc
  td_detached :: bool
  td_destroyer :: destroyer_pc
  td_join_detached :: bool
  td_freed :: bool
  td_fault :: bool
  td_released :: "encoder_packet list"

text \<open>A step of the send thread; each uses the output.\<close>

definition sender_end :: "'c teardown \<Rightarrow> 'c teardown option" where
  "sender_end s0 =
     (let s = s0\<lparr>td_fault := td_fault s0 \<or> td_freed s0\<rparr>; st = td_stream s
      in case td_sender s of
           S_Running \<Rightarrow> Some (s\<lparr>td_sender := S_Notified, td_detached := \<not> stopping st\<rparr>)
         | S_Notified \<Rightarrow>
             (case free_packets st of (st1, released) \<Rightarrow>
                Some (s\<lparr>td_sender := S_Emptied, td_stream := st1, td_released := td_released s @ released\<rparr>))
         | S_Emptied \<Rightarrow> Some (s\<lparr>td_sender := S_Reset, td_stream := st\<lparr>stopping := False\<rparr>\<rparr>)
         | S_Reset \<Rightarrow> Some (s\<lparr>td_sender := S_Inactive, td_stream := st\<lparr>active_s := False\<rparr>\<rparr>)
         | S_Inactive \<Rightarrow> Some (s\<lparr>td_sender := S_Ended, td_stream := st\<lparr>sent_headers := False\<rparr>\<rparr>)
         | _ \<Rightarrow> None)"

text \<open>A step of \<open>rtmp_stream_destroy\<close>. A join waits for its thread; one of a detached thread does not.\<close>

definition rtmp_stream_destroy :: "'c teardown \<Rightarrow> 'c teardown option" where
  "rtmp_stream_destroy s =
     (let st = td_stream s; goes = (\<lambda>pc. Some (s\<lparr>td_destroyer := pc\<rparr>))
      in case td_destroyer s of
           D_Idle \<Rightarrow> goes D_Stopping
         | D_Stopping \<Rightarrow> goes (if stopping st then D_Connecting else D_Or)
         | D_Connecting \<Rightarrow> goes (if \<not> connecting st then D_Join_send else D_Or)
         | D_Or \<Rightarrow> goes (if connecting st then D_Which else D_Or_active)
         | D_Or_active \<Rightarrow> goes (if active_s st then D_Which else D_Free)
         | D_Which \<Rightarrow> goes (if connecting st then D_Join_connect else D_Signal)
         | D_Join_connect \<Rightarrow>
             if td_connector_detached s then Some (s\<lparr>td_destroyer := D_Signal, td_join_detached := True\<rparr>)
             else if td_connector s = K_Ended then goes D_Signal else None
         | D_Signal \<Rightarrow> Some (s\<lparr>td_destroyer := D_Active, td_stream := st\<lparr>stop_ts := 0, stopping := True\<rparr>\<rparr>)
         | D_Active \<Rightarrow> goes (if active_s st then D_Post else D_Free)
         | D_Post \<Rightarrow> Some (s\<lparr>td_destroyer := D_Join_send, td_stream := st\<lparr>sem_count := Suc (sem_count st)\<rparr>\<rparr>)
         | D_Join_send \<Rightarrow>
             if td_detached s then Some (s\<lparr>td_destroyer := D_Free, td_join_detached := True\<rparr>)
             else if td_sender s = S_Ended then goes D_Free else None
         | D_Free \<Rightarrow>
             (case free_packets st of (st1, released) \<Rightarrow>
                Some (s\<lparr>td_destroyer := D_Done, td_stream := st1, td_released := td_released s @ released, td_freed := True\<rparr>))
         | D_Done \<Rightarrow> None)"

inductive td_step :: "'c teardown \<Rightarrow> 'c teardown \<Rightarrow> bool" where
  td_starts: "td_connector s = K_Running \<Longrightarrow> td_sender s = S_None \<Longrightarrow>
    td_step s (s\<lparr>td_sender := S_Running, td_stream := (td_stream s)\<lparr>active_s := True\<rparr>\<rparr>)"
| td_connected: "td_connector s = K_Running \<Longrightarrow>
    td_step s (s\<lparr>td_connector := K_Leaving, td_connector_detached := \<not> stopping (td_stream s),
      td_fault := td_fault s \<or> td_freed s\<rparr>)"
| td_left: "td_connector s = K_Leaving \<Longrightarrow>
    td_step s (s\<lparr>td_connector := K_Ended, td_stream := (td_stream s)\<lparr>connecting := False\<rparr>,
      td_fault := td_fault s \<or> td_freed s\<rparr>)"
| td_stopped: "td_destroyer s = D_Idle \<Longrightarrow> \<not> connecting (td_stream s) \<Longrightarrow>
    td_step s (s\<lparr>td_stream := fst (rtmp_stream_stop has_delay ts (td_stream s))\<rparr>)"
| td_ends: "sender_end s = Some t \<Longrightarrow> td_step s t"
| td_destroys: "rtmp_stream_destroy s = Some t \<Longrightarrow> td_step s t"

definition td_start :: "'c teardown \<Rightarrow> bool" where
  "td_start s \<longleftrightarrow> td_connector s = (if connecting (td_stream s) then K_Running else K_None) \<and> \<not> td_connector_detached s \<and>
     \<not> active_s (td_stream s) \<and> \<not> stopping (td_stream s) \<and> td_sender s = S_None \<and> \<not> td_detached s \<and> td_destroyer s = D_Idle \<and> \<not> td_join_detached s \<and> \<not> td_freed s \<and> \<not> td_fault s \<and>
     td_released s = []"

section \<open>What is still used\<close>

text \<open>The thread is marked active; the destruction is behind the connecting thread; behind its last join.\<close>

fun marked :: "sender_pc \<Rightarrow> bool" where
  "marked S_Running = True" | "marked S_Notified = True" | "marked S_Emptied = True" | "marked S_Reset = True" | "marked pc = False"

fun busy :: "connector_pc \<Rightarrow> bool" where
  "busy K_Running = True" | "busy K_Leaving = True" | "busy pc = False"

fun past_connector :: "destroyer_pc \<Rightarrow> bool" where
  "past_connector D_Or_active = True" | "past_connector D_Signal = True" | "past_connector D_Active = True"
| "past_connector D_Post = True" | "past_connector D_Join_send = True" | "past_connector D_Free = True"
| "past_connector D_Done = True" | "past_connector pc = False"

fun past_joins :: "destroyer_pc \<Rightarrow> bool" where
  "past_joins D_Free = True" | "past_joins D_Done = True" | "past_joins pc = False"

lemma past_joins_connector: "past_joins pc \<Longrightarrow> past_connector pc"
  by (cases pc) simp_all

definition td_ok :: "'c teardown \<Rightarrow> bool" where
  "td_ok s \<longleftrightarrow>
     connecting (td_stream s) = busy (td_connector s) \<and> active_s (td_stream s) = marked (td_sender s) \<and>
     (past_connector (td_destroyer s) \<longrightarrow> td_join_detached s \<or> \<not> busy (td_connector s)) \<and>
     (past_joins (td_destroyer s) \<longrightarrow> td_join_detached s \<or> \<not> marked (td_sender s)) \<and>
     (td_freed s \<longleftrightarrow> td_destroyer s = D_Done) \<and>
     (td_fault s \<longrightarrow> td_freed s \<and> (td_join_detached s \<or> td_sender s = S_Ended))"

lemma sender_end_ok:
  assumes ok: "td_ok s" and "sender_end s = Some t"
  shows "td_ok t"
proof -
  have t: "Some t = sender_end s" using assms(2) by simp
  show ?thesis
  proof (cases "td_sender s")
    case S_Notified
    then show ?thesis using t ok unfolding td_ok_def sender_end_def Let_def free_packets_def by (simp, metis?)
  qed (use t ok in \<open>(unfold td_ok_def sender_end_def Let_def, simp; metis?)\<close>)+
qed

lemma destroy_ok:
  assumes ok: "td_ok s" and "rtmp_stream_destroy s = Some t"
  shows "td_ok t"
proof -
  have t: "Some t = rtmp_stream_destroy s" using assms(2) by simp
  show ?thesis
  proof (cases "td_destroyer s")
    case D_Free
    then show ?thesis using t ok unfolding td_ok_def rtmp_stream_destroy_def Let_def free_packets_def by (simp, metis?)
  qed (use t ok in \<open>(unfold td_ok_def rtmp_stream_destroy_def Let_def, simp split: if_splits; metis?)\<close>)+
qed

lemma stop_keeps: "connecting (fst (rtmp_stream_stop h ts st)) = connecting st \<and> active_s (fst (rtmp_stream_stop h ts st)) = active_s st"
  by (simp add: rtmp_stream_stop_def Let_def)

interpretation torn: guarded_system td_start td_step td_ok
proof
  show "td_ok s" if "td_start s" for s :: "'c teardown" using that by (auto simp: td_start_def td_ok_def)
  show "td_ok t" if ok: "td_ok s" and step: "td_step s t" for s t :: "'c teardown"
    using step
  proof cases
    case td_ends
    then show ?thesis using ok sender_end_ok by blast
  next
    case td_destroys
    then show ?thesis using ok destroy_ok by blast
  qed (use ok past_joins_connector [of "td_destroyer s"] in \<open>auto simp: td_ok_def stop_keeps\<close>)
qed

text \<open>
  The queue and the connection are never used behind the destruction, unless it has joined a detached thread: what a
  thread has left to do on the memory that was given back is at most to clear \<open>sent_headers\<close>.
\<close>

lemma destroyed_output_untouched:
  assumes "reach td_start td_step s" and "td_freed s" and "\<not> td_join_detached s"
  shows "\<not> marked (td_sender s) \<and> \<not> busy (td_connector s)"
  using torn.always [OF assms(1)] assms(2,3) by (auto simp: td_ok_def)

section \<open>Runs\<close>

datatype td_event = Starts | Connected | Leaves | Stops | Ends | Destroys

fun td_run :: "td_event list \<Rightarrow> 'c teardown \<Rightarrow> 'c teardown option" where
  "td_run [] s = Some s"
| "td_run (Starts # es) s =
     (if td_connector s = K_Running \<and> td_sender s = S_None
      then td_run es (s\<lparr>td_sender := S_Running, td_stream := (td_stream s)\<lparr>active_s := True\<rparr>\<rparr>) else None)"
| "td_run (Connected # es) s =
     (if td_connector s = K_Running
      then td_run es (s\<lparr>td_connector := K_Leaving, td_connector_detached := \<not> stopping (td_stream s),
      td_fault := td_fault s \<or> td_freed s\<rparr>) else None)"
| "td_run (Leaves # es) s =
     (if td_connector s = K_Leaving
      then td_run es (s\<lparr>td_connector := K_Ended, td_stream := (td_stream s)\<lparr>connecting := False\<rparr>,
      td_fault := td_fault s \<or> td_freed s\<rparr>) else None)"
| "td_run (Stops # es) s =
     (if td_destroyer s = D_Idle \<and> \<not> connecting (td_stream s)
      then td_run es (s\<lparr>td_stream := fst (rtmp_stream_stop True 0 (td_stream s))\<rparr>) else None)"
| "td_run (Ends # es) s = (case sender_end s of None \<Rightarrow> None | Some t \<Rightarrow> td_run es t)"
| "td_run (Destroys # es) s = (case rtmp_stream_destroy s of None \<Rightarrow> None | Some t \<Rightarrow> td_run es t)"

lemma td_run_reaches: "td_run es s = Some t \<Longrightarrow> reach td_start td_step s \<Longrightarrow> reach td_start td_step t"
proof (induction es s rule: td_run.induct)
  case (2 es s)
  then show ?case by (auto split: if_splits intro: reach_step td_starts)
next
  case (3 es s)
  then show ?case by (auto split: if_splits intro: reach_step td_connected)
next
  case (4 es s)
  then show ?case by (auto split: if_splits intro: reach_step td_left)
next
  case (5 es s)
  then show ?case by (auto split: if_splits intro: reach_step td_stopped)
next
  case (6 es s)
  then show ?case by (auto split: option.splits intro: reach_step td_ends)
next
  case (7 es s)
  then show ?case by (auto split: option.splits intro: reach_step td_destroys)
qed simp

text \<open>The steps of the send thread make, one after the other, what \<open>end_of_thread\<close> makes at once.\<close>

lemma sender_end_refines:
  assumes "td_sender s = S_Running" and "td_stream s = fst (end_dbr st)"
  shows "\<exists>t. td_run (replicate 5 Ends) s = Some t \<and> td_stream t = fst (end_of_thread st err) \<and>
    td_released t = td_released s @ fst (snd (snd (end_of_thread st err)))"
  using assms
  by (simp add: sender_end_def end_of_thread_def free_packets_def Let_def numeral_eq_Suc split: prod.splits)

definition teardown_of :: "'c rtmp_stream \<Rightarrow> 'c teardown" where
  "teardown_of st = \<lparr>td_stream = st\<lparr>connecting := True, active_s := False, stopping := False\<rparr>, td_connector = K_Running,
     td_connector_detached = False, td_sender = S_None, td_detached = False, td_destroyer = D_Idle, td_join_detached = False, td_freed = False,
     td_fault = False, td_released = []\<rparr>"

lemma teardown_starts: "reach td_start td_step (teardown_of st)"
  by (rule reach_init) (simp add: td_start_def teardown_of_def)

text \<open>
  OBS destroys the output while its send thread, told to stop, is between its last two lines: neither flag shows
  the thread any more, nobody joins it, and it clears \<open>sent_headers\<close> in memory that was given back.
\<close>

lemma destroyed_before_the_thread_ends:
  "\<exists>t :: 'a teardown. reach td_start td_step t \<and> td_fault t \<and> \<not> td_join_detached t \<and> td_sender t = S_Ended"
proof -
  have "\<exists>t. td_run ([Starts, Connected, Leaves, Stops] @ replicate 4 Ends @ replicate 5 Destroys @ [Ends]) (teardown_of st) = Some t \<and>
      td_fault t \<and> \<not> td_join_detached t \<and> td_sender t = S_Ended" for st :: "'a rtmp_stream"
    by (simp add: teardown_of_def sender_end_def rtmp_stream_destroy_def rtmp_stream_stop_def free_packets_def Let_def
        numeral_eq_Suc)
  then show ?thesis using td_run_reaches teardown_starts by metis
qed

text \<open>
  The server closes the connection: the send thread detaches itself, and OBS, told of it, destroys the output. The
  join of the detached thread does not wait, and the thread empties the queue of an output that is gone.
\<close>

lemma destroyed_under_a_detached_thread:
  "\<exists>t :: 'a teardown. reach td_start td_step t \<and> td_fault t \<and> td_sender t = S_Emptied"
proof -
  have "\<exists>t. td_run ([Starts, Connected, Leaves, Ends] @ replicate 10 Destroys @ [Ends]) (teardown_of st) = Some t \<and>
      td_fault t \<and> td_sender t = S_Emptied" for st :: "'a rtmp_stream"
    by (simp add: teardown_of_def sender_end_def rtmp_stream_destroy_def free_packets_def Let_def numeral_eq_Suc)
  then show ?thesis using td_run_reaches teardown_starts by metis
qed

text \<open>A connection fails, and OBS destroys the output before its thread, already detached, has cleared \<open>connecting\<close>.\<close>

lemma destroyed_under_a_connecting_thread:
  "\<exists>t :: 'a teardown. reach td_start td_step t \<and> td_fault t \<and> td_connector t = K_Ended \<and> td_sender t = S_None"
proof -
  have "\<exists>t. td_run ([Connected] @ replicate 8 Destroys @ [Leaves]) (teardown_of st) = Some t \<and>
      td_fault t \<and> td_connector t = K_Ended \<and> td_sender t = S_None" for st :: "'a rtmp_stream"
    by (simp add: teardown_of_def rtmp_stream_destroy_def free_packets_def Let_def numeral_eq_Suc)
  then show ?thesis using td_run_reaches teardown_starts by metis
qed

end
