(* ===== verification/Spec2Isabelle.thy ===== *)
theory Spec2Isabelle
  imports Delay_Anomalies Control_Properties Flv_Meta Rtmp_Queue_Properties Rtmp_Properties
    Rtmp_Url_Properties Rtmp_Client_Properties Rtmp_Anomalies Rtmp_Socket_Properties Rtmp_End_Properties
    Rtmp_Connect_Properties Av1_Faults Hevc_Header_Properties Happy_Properties Amf3_Anomalies Rtmp_Destroy
begin

text \<open>
  SnipeWatch Delay: an RTMP output for OBS Studio that sends a live stream with a delay the streamer can change
  while it runs.

  \<^bold>\<open>The program.\<close> Encoder threads hand packets to the output (\<open>rtmp-stream.c\<close>), which gives them to the delay buffer
  (\<open>delay-buffer.c\<close>). Its pacer thread sends each packet when it is as old as the delay and rewrites timestamps
  across jumps. What leaves the pacer is parsed if it is AV1 or HEVC (\<open>rtmp-av1.c\<close>, \<open>rtmp-hevc.c\<close>), queued,
  possibly dropped, turned into FLV tags (\<open>flv-mux.c\<close>, \<open>amf.c\<close>) and written by the send thread as RTMP messages
  (\<open>librtmp/rtmp.c\<close>), directly or through the socket thread (\<open>rtmp-windows.c\<close>). Hotkeys, obs-websocket, the dialog
  (\<open>plugin-main.c\<close>) and the poll of the SnipeWatch server (\<open>remote.c\<close>) change the delay; \<open>delay-service.c\<close> is the
  service OBS asks for address and key. Paths are relative to \<open>src/src\<close> and \<open>src/src/rtmp\<close>.

  \<^bold>\<open>Conventions.\<close> A struct is a record, an enumeration a datatype or named constants. Unsigned integers are words of
  their width; signed ones are integers, with the conversion written out where the code converts. A darray or deque is
  a list, NULL is \<open>None\<close>, a C string the bytes before its zero. A mutex section is one atomic step and threads
  interleave between steps; the clock is an argument. An operation that gives packet references back returns them.
  What is not in the repository is a parameter: libobs (encoders, services, the serializer, the search for start
  codes), the sockets, the HTTP request, the JSON reader. Hypotheses on parameters have names: \<open>be_serializer\<close>,
  \<open>finds_start\<close>, \<open>reliable_net\<close>, \<open>few_interrupts\<close>. Ways out of what C defines (a read behind a buffer, an unset pointer)
  and loops that do not end are results of the model, never left out.

  \<^bold>\<open>Delay.\<close> \<open>Packets\<close>, \<open>C_Double\<close> (rounded double arithmetic over rationals) and \<open>Delay_Buffer\<close> are the code.
  \<open>Delay_System\<close> interleaves pushes, requests, pacer iterations, starts and stops as a step relation; the locale
  \<open>guarded_system\<close> of \<open>Prelude\<close> carries invariants over it and is interpreted for the timeline (\<open>Delay_Timeline\<close>),
  the order and the age of what is sent (\<open>Delay_Output\<close>) and the references (\<open>Delay_Refs\<close>). \<open>Delay_Jumps\<close> states the
  buffer as a store that can be replayed (locales \<open>replay_store\<close>, \<open>seekable_store\<close>) and refines it.
  \<open>Delay_Timestamps\<close> and \<open>Delay_Transparent\<close> bound what the rewriting does; \<open>Delay_Properties\<close> has the theorems and
  \<open>Delay_Anomalies\<close> those that need a condition, with the runs in which it fails.

  \<^bold>\<open>Control.\<close> \<open>Control\<close> (the running and the requested delay under \<open>g_mutex\<close>), \<open>Remote\<close>, \<open>Delay_Service\<close> and
  \<open>Plugin_Main\<close> are the code, \<open>Control_Properties\<close> the theorems: no request touches a freed delay, requests and the
  running delay agree, what a poll asks for and when.

  \<^bold>\<open>Formats.\<close> \<open>Bytes\<close>, \<open>Amf\<close>, \<open>Flv_Mux\<close> are the code. The AMF decoder trusts lengths from the wire and runs over a
  memory with faults; its recursion gets fuel and \<open>Amf_Safety\<close> shows that fuel linear in the body is enough.
  \<open>Amf_Roundtrip\<close>, \<open>Flv_Properties\<close> and \<open>Flv_Meta\<close> read back what is written. The AMF3 decoder is an argument of
  the AMF0 decoder, so that the theorems say what they need of it; \<open>Amf3\<close> is the code's, \<open>Amf3_Integers\<close> reads
  its shorter integers back and \<open>Amf3_Anomalies\<close> shows a message from which it never returns and values it reads wrongly.

  \<^bold>\<open>RTMP.\<close> \<open>Rtmp_Chunk\<close>, \<open>Rtmp_Messages\<close>, \<open>Rtmp_Read\<close>, \<open>Rtmp_Url\<close>, \<open>Rtmp_Client\<close> are the client: chunks and messages
  both ways, handshake, connect call and the handling of every message of the server. Loops over the network are
  partial functions, \<open>None\<close> when they do not return. \<open>RTMP_Close\<close> calls itself through its own failed sends: the
  definition counts levels, one for each open stream and one more; \<open>Rtmp_Close\<close> proves that it satisfies the recursion
  of the code and \<open>Rtmp_Close_Returns\<close> that it returns. \<open>Rtmp_Wire\<close>, \<open>Rtmp_Roundtrip\<close>, \<open>Rtmp_Streams\<close> and
  \<open>Rtmp_Properties\<close> prove the round trip over a reliable network, \<open>Rtmp_Kept\<close> (locale \<open>closing_client\<close>),
  \<open>Rtmp_Client_Properties\<close> and \<open>Rtmp_Connect_Properties\<close> that no server makes the client write past its streams.

  \<^bold>\<open>Address race.\<close> \<open>Happy_Eyeballs\<close> is \<open>shared/happy-eyeballs.c\<close>: the threads that connect to the addresses of a
  server and the one that starts them, as a step relation. \<open>RTMP_Connect\<close> takes its outcome (\<open>race_result\<close>) as an
  argument. \<open>Happy_Race\<close> has the invariants (who holds the mutex, who has won, who will end the race) as two more
  instances of \<open>guarded_system\<close>, \<open>Happy_Properties\<close> the order of the addresses, the winner, the end (84 steps: six
  threads of at most 14), the error reported, and three ways to lose a connection.

  \<^bold>\<open>Output.\<close> \<open>Rtmp_Queue\<close> (queue, frame dropping, dynamic bitrate), \<open>Rtmp_Socket\<close> (the two threads around the write
  buffer), \<open>Rtmp_Send\<close> (send thread), \<open>Rtmp_Output\<close> (start, connection, stop) and \<open>Rtmp_Destroy\<close> (last error,
  destruction beside the threads) are the code; the theories named
  \<open>_Properties\<close> have their theorems, \<open>Rtmp_Anomalies\<close> two faults of the chunk layer.

  \<^bold>\<open>Bit streams.\<close> \<open>Av1\<close>, \<open>Av1_Packet\<close> and \<open>Hevc\<close>, \<open>Hevc_Syntax\<close>, \<open>Hevc_Header\<close> are the code, parsers in the state
  monad. \<open>Bit_Source\<close> states what a parser takes from a bit reader (locales \<open>bit_path\<close>, \<open>bit_source\<close>); the AV1 reader,
  bit by bit, and the HEVC reader, with a cache of 64 bits, both implement it (\<open>Av1_Reader\<close>, \<open>Hevc_Reader\<close>).
  \<open>Av1_Packet_Properties\<close> and \<open>Av1_Header_Properties\<close> show the packet filter and the configuration record,
  \<open>Av1_Faults\<close> the inputs on which the reader goes wrong. \<open>Hevc_Codes\<close>, \<open>Hevc_Grammar\<close>, \<open>Hevc_Usability\<close> and
  \<open>Hevc_Parameter_Sets\<close> give the syntax of the three parameter sets as grammars and show that the parsers read them;
  \<open>Hevc_Annexb\<close>, \<open>Hevc_Units\<close> and \<open>Hevc_Header_Properties\<close> go from the byte stream to the record.

  \<^bold>\<open>Not modelled.\<close> TLS, encrypted RTMP, publisher authentication and what only they use (\<open>handshake.h\<close>, \<open>md5.c\<close>,
  \<open>cencode.c\<close>): the build defines \<open>NO_CRYPTO\<close>. Playback (\<open>RTMP_Read\<close>, \<open>hashswf.c\<close>), RTMP over HTTP and SOCKS: the plugin
  only publishes over plain RTMP. Adapters (\<open>net-if.c\<close>): their
  addresses are arguments. Log lines, property pages and the Qt dialog
  keep no state of the plugin. A failing \<open>malloc\<close> is not modelled.
\<close>

text \<open>A race for a connection that is not over in time leaves OBS without a text for the error; there is one for it.\<close>

lemma timeout_without_a_text:
  assumes "he_error s = 0"
  shows "\<exists>e. race_result 0 Timed_Out HE_Again s = Inl e \<and> set_output_error e = None"
    and "set_output_error E_TIMEDOUT = Some ''ConnectionTimedOut''"
  using no_error_of_a_timeout [OF assms] by (simp_all add: set_output_error_def platform_error_def E_TIMEDOUT_def)

end
